(* ===== verification/Rust_Str.thy ===== *)
theory Rust_Str
  imports P2P_Prelude
begin

text \<open>
  The part of Rust's standard library that the program calls on strings: a \<open>str\<close> is its
  UTF-8 encoding, one Isabelle \<open>char\<close> per byte, so \<open>len()\<close> is \<open>length\<close> and the
  ordering is the ordering of bytes. \<open>chars()\<close> decodes the bytes. The last section is the
  parser of \<open>std::net::IpAddr\<close> that the relay checks use.
\<close>

section \<open>Bytes of a string\<close>

definition byte_of_char :: "char \<Rightarrow> byte" where
  "byte_of_char c = word_of_nat (of_char c)"

definition char_of_byte :: "byte \<Rightarrow> char" where
  "char_of_byte b = char_of (unat b)"

definition as_bytes :: "string \<Rightarrow> bytes" where
  "as_bytes s = map byte_of_char s"

definition of_bytes :: "bytes \<Rightarrow> string" where
  "of_bytes b = map char_of_byte b"

lemma of_char_less_256 [simp]: "(of_char c :: nat) < 256"
  by (cases c) (simp add: of_char_def horner_sum_simps)

lemma char_of_byte_of_char [simp]: "char_of_byte (byte_of_char c) = c"
proof -
  have "unat (byte_of_char c) = of_char c"
    by (simp add: byte_of_char_def unat_of_nat)
  then show ?thesis by (simp add: char_of_byte_def)
qed

lemma byte_of_char_of_byte [simp]: "byte_of_char (char_of_byte b) = b"
  using unat_lt_2p [of b] by (simp add: byte_of_char_def char_of_byte_def)

lemma of_bytes_as_bytes [simp]: "of_bytes (as_bytes s) = s"
  by (simp add: of_bytes_def as_bytes_def comp_def)

lemma as_bytes_of_bytes [simp]: "as_bytes (of_bytes b) = b"
  by (simp add: of_bytes_def as_bytes_def comp_def)

lemma length_as_bytes [simp]: "length (as_bytes s) = length s"
  by (simp add: as_bytes_def)

lemma length_of_bytes [simp]: "length (of_bytes s) = length s"
  by (simp add: of_bytes_def)

lemma as_bytes_inject [simp]: "as_bytes s = as_bytes t \<longleftrightarrow> s = t"
  by (metis of_bytes_as_bytes)

section \<open>UTF-8\<close>

text \<open>
  \<open>str::from_utf8\<close>: the well-formed sequences of the Unicode table (no overlong form, no
  surrogate, nothing above \<open>U+10FFFF\<close>), decoded to code points.
\<close>

definition cont :: "nat \<Rightarrow> bool" where
  "cont b = (0x80 \<le> b \<and> b \<le> 0xBF)"

definition second3 :: "nat \<Rightarrow> nat \<Rightarrow> bool" where
  "second3 b c = (if b = 0xE0 then 0xA0 \<le> c \<and> c \<le> 0xBF
                  else if b = 0xED then 0x80 \<le> c \<and> c \<le> 0x9F else cont c)"

definition second4 :: "nat \<Rightarrow> nat \<Rightarrow> bool" where
  "second4 b c = (if b = 0xF0 then 0x90 \<le> c \<and> c \<le> 0xBF
                  else if b = 0xF4 then 0x80 \<le> c \<and> c \<le> 0x8F else cont c)"

fun utf8_decode :: "nat list \<Rightarrow> nat list option" where
  "utf8_decode [] = Some []"
| "utf8_decode (b # bs) =
     (if b < 0x80 then map_option (Cons b) (utf8_decode bs)
      else if 0xC2 \<le> b \<and> b \<le> 0xDF then
        (case bs of
           c # bs' \<Rightarrow> if cont c
             then map_option (Cons ((b - 0xC0) * 64 + (c - 0x80))) (utf8_decode bs') else None
         | _ \<Rightarrow> None)
      else if 0xE0 \<le> b \<and> b \<le> 0xEF then
        (case bs of
           c # d # bs' \<Rightarrow> if second3 b c \<and> cont d
             then map_option (Cons ((b - 0xE0) * 4096 + (c - 0x80) * 64 + (d - 0x80)))
                    (utf8_decode bs') else None
         | _ \<Rightarrow> None)
      else if 0xF0 \<le> b \<and> b \<le> 0xF4 then
        (case bs of
           c # d # e # bs' \<Rightarrow> if second4 b c \<and> cont d \<and> cont e
             then map_option (Cons ((b - 0xF0) * 262144 + (c - 0x80) * 4096 + (d - 0x80) * 64
                    + (e - 0x80))) (utf8_decode bs') else None
         | _ \<Rightarrow> None)
      else None)"

definition str_code_points :: "string \<Rightarrow> nat list option" where
  "str_code_points s = utf8_decode (map of_char s)"

text \<open>
  \<open>s.chars()\<close>. A Rust \<open>str\<close> is always well-formed; the model gives an ill-formed byte
  string no characters.
\<close>

definition str_chars :: "string \<Rightarrow> nat list" where
  "str_chars s = (case str_code_points s of Some cs \<Rightarrow> cs | None \<Rightarrow> [])"

definition from_utf8_ok :: "bytes \<Rightarrow> bool" where
  "from_utf8_ok b = (utf8_decode (map unat b) \<noteq> None)"

text \<open>\<open>char::is_control\<close> (category Cc) and \<open>char::is_whitespace\<close> (White\_Space).\<close>

definition is_control :: "nat \<Rightarrow> bool" where
  "is_control c = (c \<le> 0x1F \<or> 0x7F \<le> c \<and> c \<le> 0x9F)"

definition is_whitespace :: "nat \<Rightarrow> bool" where
  "is_whitespace c = (0x09 \<le> c \<and> c \<le> 0x0D \<or> c = 0x20 \<or> c = 0x85 \<or> c = 0xA0 \<or> c = 0x1680 \<or>
     0x2000 \<le> c \<and> c \<le> 0x200A \<or> c = 0x2028 \<or> c = 0x2029 \<or> c = 0x202F \<or> c = 0x205F \<or> c = 0x3000)"

text \<open>An ASCII string decodes to its own bytes.\<close>

definition is_ascii :: "string \<Rightarrow> bool" where
  "is_ascii s = list_all (\<lambda>c. (of_char c :: nat) < 0x80) s"

lemma str_chars_ascii: "is_ascii s \<Longrightarrow> str_chars s = map of_char s"
proof -
  have "list_all (\<lambda>b. b < 0x80) bs \<Longrightarrow> utf8_decode bs = Some bs" for bs
    by (induction bs) auto
  then show "is_ascii s \<Longrightarrow> str_chars s = map of_char s"
    by (simp add: str_chars_def str_code_points_def is_ascii_def list.pred_map comp_def)
qed

section \<open>ASCII classes\<close>

definition is_ascii_digit :: "char \<Rightarrow> bool" where
  "is_ascii_digit c = (let n = (of_char c :: nat) in 0x30 \<le> n \<and> n \<le> 0x39)"

definition is_ascii_alphanumeric :: "char \<Rightarrow> bool" where
  "is_ascii_alphanumeric c = (let n = (of_char c :: nat) in
     0x30 \<le> n \<and> n \<le> 0x39 \<or> 0x41 \<le> n \<and> n \<le> 0x5A \<or> 0x61 \<le> n \<and> n \<le> 0x7A)"

definition to_ascii_lowercase :: "char \<Rightarrow> char" where
  "to_ascii_lowercase c = (let n = (of_char c :: nat) in
     if 0x41 \<le> n \<and> n \<le> 0x5A then char_of (n + 32) else c)"

definition eq_ignore_ascii_case :: "string \<Rightarrow> string \<Rightarrow> bool" where
  "eq_ignore_ascii_case s t = (map to_ascii_lowercase s = map to_ascii_lowercase t)"

section \<open>Substrings\<close>

fun strip_prefix :: "string \<Rightarrow> string \<Rightarrow> string option" where
  "strip_prefix [] s = Some s"
| "strip_prefix (p # ps) [] = None"
| "strip_prefix (p # ps) (c # cs) = (if p = c then strip_prefix ps cs else None)"

definition strip_suffix :: "string \<Rightarrow> string \<Rightarrow> string option" where
  "strip_suffix p s = map_option rev (strip_prefix (rev p) (rev s))"

definition starts_with :: "string \<Rightarrow> string \<Rightarrow> bool" where
  "starts_with p s = (strip_prefix p s \<noteq> None)"

fun str_contains :: "string \<Rightarrow> string \<Rightarrow> bool" where
  "str_contains p [] = (p = [])"
| "str_contains p (c # cs) = (starts_with p (c # cs) \<or> str_contains p cs)"

text \<open>\<open>split\<close> on one character and \<open>split_once\<close>.\<close>

fun split_char :: "char \<Rightarrow> string \<Rightarrow> string list" where
  "split_char d [] = [[]]"
| "split_char d (c # cs) =
     (if c = d then [] # split_char d cs
      else (case split_char d cs of [] \<Rightarrow> [[c]] | w # ws \<Rightarrow> (c # w) # ws))"

fun split_once :: "char \<Rightarrow> string \<Rightarrow> (string \<times> string) option" where
  "split_once d [] = None"
| "split_once d (c # cs) =
     (if c = d then Some ([], cs)
      else map_option (\<lambda>(a, b). (c # a, b)) (split_once d cs))"

lemma strip_prefix_iff: "strip_prefix p s = Some r \<longleftrightarrow> s = p @ r"
  by (induction p s rule: strip_prefix.induct) auto

lemma strip_prefix_append [simp]: "strip_prefix p (p @ r) = Some r"
  by (simp add: strip_prefix_iff)

lemma strip_prefix_None_iff: "strip_prefix p s = None \<longleftrightarrow> (\<forall>r. s \<noteq> p @ r)"
  by (metis not_None_eq strip_prefix_iff)

lemma strip_suffix_iff: "strip_suffix p s = Some r \<longleftrightarrow> s = r @ p"
proof -
  have "strip_suffix p s = Some r \<longleftrightarrow> strip_prefix (rev p) (rev s) = Some (rev r)"
    by (auto simp: strip_suffix_def)
  also have "\<dots> \<longleftrightarrow> rev s = rev p @ rev r" by (simp add: strip_prefix_iff)
  also have "\<dots> \<longleftrightarrow> s = r @ p" by (metis rev_append rev_rev_ident)
  finally show ?thesis .
qed

lemma starts_with_iff: "starts_with p s \<longleftrightarrow> (\<exists>r. s = p @ r)"
  unfolding starts_with_def using strip_prefix_iff by auto

lemma split_once_Some_iff:
  "split_once d s = Some (a, b) \<longleftrightarrow> s = a @ d # b \<and> d \<notin> set a"
proof (induction d s arbitrary: a b rule: split_once.induct)
  case (2 d c cs)
  show ?case
  proof (cases "c = d")
    case True
    then show ?thesis by (auto simp: Cons_eq_append_conv)
  next
    case False
    with 2 show ?thesis by (auto simp: Cons_eq_append_conv)
  qed
qed simp

lemma split_once_append:
  "d \<notin> set a \<Longrightarrow> split_once d (a @ d # b) = Some (a, b)"
  by (simp add: split_once_Some_iff)

lemma split_char_not_Nil [simp]: "split_char d s \<noteq> []"
  by (induction d s rule: split_char.induct) (auto split: list.splits)

lemma split_char_no: "d \<notin> set s \<Longrightarrow> split_char d s = [s]"
  by (induction s) auto

lemma split_char_append:
  "d \<notin> set a \<Longrightarrow> split_char d (a @ d # b) = a # split_char d b"
  by (induction a) auto

text \<open>Joining the pieces with the separator gives the string back.\<close>

fun join_char :: "char \<Rightarrow> string list \<Rightarrow> string" where
  "join_char d [] = []"
| "join_char d [w] = w"
| "join_char d (w # ws) = w @ d # join_char d ws"

lemma join_split_char: "join_char d (split_char d s) = s"
proof (induction d s rule: split_char.induct)
  case (2 d c cs)
  obtain w ws where w: "split_char d cs = w # ws"
    by (cases "split_char d cs") auto
  then show ?case using 2 by (cases ws) auto
qed simp

lemma split_char_pieces: "w \<in> set (split_char d s) \<Longrightarrow> d \<notin> set w"
proof (induction d s arbitrary: w rule: split_char.induct)
  case (2 d c cs)
  then show ?case by (cases "split_char d cs") (auto split: if_splits)
qed simp

section \<open>Internet addresses\<close>

text \<open>
  \<open>str::parse::<IpAddr>\<close>. A reader takes the rest of the input and returns the value with what
  is left, or \<open>None\<close> with nothing consumed.
\<close>

datatype ip_addr = V4 "nat list" | V6 "nat list"

definition to_digit :: "nat \<Rightarrow> char \<Rightarrow> nat option" where
  "to_digit radix c = (let n = (of_char c :: nat);
     v = (if 0x30 \<le> n \<and> n \<le> 0x39 then Some (n - 0x30)
          else if 0x41 \<le> n \<and> n \<le> 0x5A then Some (n - 0x41 + 10)
          else if 0x61 \<le> n \<and> n \<le> 0x7A then Some (n - 0x61 + 10) else None)
     in case v of Some d \<Rightarrow> (if d < radix then Some d else None) | None \<Rightarrow> None)"

fun read_digits :: "nat \<Rightarrow> nat \<Rightarrow> nat \<Rightarrow> string \<Rightarrow> nat \<times> nat \<times> string" where
  "read_digits radix acc n [] = (acc, n, [])"
| "read_digits radix acc n (c # cs) =
     (case to_digit radix c of
        Some d \<Rightarrow> read_digits radix (acc * radix + d) (Suc n) cs
      | None \<Rightarrow> (acc, n, c # cs))"

definition read_number :: "nat \<Rightarrow> nat \<Rightarrow> bool \<Rightarrow> nat \<Rightarrow> string \<Rightarrow> (nat \<times> string) option" where
  "read_number radix max_digits allow_zero_prefix bound s =
     (case read_digits radix 0 0 s of (v, n, rest) \<Rightarrow>
        if n = 0 \<or> n > max_digits then None
        else if \<not> allow_zero_prefix \<and> hd s = CHR ''0'' \<and> n > 1 then None
        else if v < bound then Some (v, rest) else None)"

definition read_given_char :: "char \<Rightarrow> string \<Rightarrow> string option" where
  "read_given_char c s = (case s of x # xs \<Rightarrow> if x = c then Some xs else None | [] \<Rightarrow> None)"

definition read_separator ::
  "char \<Rightarrow> nat \<Rightarrow> (string \<Rightarrow> ('a \<times> string) option) \<Rightarrow> string \<Rightarrow> ('a \<times> string) option" where
  "read_separator sep i p s =
     (if i > 0 then (case read_given_char sep s of Some s' \<Rightarrow> p s' | None \<Rightarrow> None) else p s)"

fun read_octets :: "nat \<Rightarrow> nat \<Rightarrow> string \<Rightarrow> (nat list \<times> string) option" where
  "read_octets i 0 s = Some ([], s)"
| "read_octets i (Suc k) s =
     (case read_separator (CHR ''.'') i (read_number 10 3 False 256) s of
        None \<Rightarrow> None
      | Some (v, s') \<Rightarrow> map_option (\<lambda>(vs, r). (v # vs, r)) (read_octets (Suc i) k s'))"

definition read_ipv4_addr :: "string \<Rightarrow> (nat list \<times> string) option" where
  "read_ipv4_addr s = read_octets 0 4 s"

text \<open>
  \<open>read_groups\<close> of the IPv6 reader: up to \<open>limit\<close> groups, of which the last two may be an
  embedded IPv4 address; the flag says that one was read.
\<close>

fun read_groups :: "nat \<Rightarrow> nat \<Rightarrow> string \<Rightarrow> nat list \<times> bool \<times> string" where
  "read_groups i 0 s = ([], False, s)"
| "read_groups i (Suc k) s =
     (let v4 = (if k > 0 then read_separator (CHR '':'') i read_ipv4_addr s else None) in
      case v4 of
        Some ([a, b, c, d], s') \<Rightarrow> ([a * 256 + b, c * 256 + d], True, s')
      | _ \<Rightarrow>
        (case read_separator (CHR '':'') i (read_number 16 4 True 65536) s of
           None \<Rightarrow> ([], False, s)
         | Some (g, s') \<Rightarrow> (case read_groups (Suc i) k s' of (gs, f, r) \<Rightarrow> (g # gs, f, r))))"

definition read_ipv6_addr :: "string \<Rightarrow> (nat list \<times> string) option" where
  "read_ipv6_addr s =
     (case read_groups 0 8 s of (hs, head_ipv4, r) \<Rightarrow>
        if length hs = 8 then Some (hs, r)
        else if head_ipv4 then None
        else (case Option.bind (read_given_char (CHR '':'') r) (read_given_char (CHR '':'')) of
                None \<Rightarrow> None
              | Some r' \<Rightarrow>
                  (case read_groups 0 (8 - (length hs + 1)) r' of (ts, _, r'') \<Rightarrow>
                     Some (hs @ replicate (8 - length hs - length ts) 0 @ ts, r''))))"

definition parse_ip :: "string \<Rightarrow> ip_addr option" where
  "parse_ip s =
     (case read_ipv4_addr s of
        Some (a, r) \<Rightarrow> if r = [] then Some (V4 a) else None
      | None \<Rightarrow> (case read_ipv6_addr s of
                    Some (a, r) \<Rightarrow> if r = [] then Some (V6 a) else None
                  | None \<Rightarrow> None))"

fun is_loopback :: "ip_addr \<Rightarrow> bool" where
  "is_loopback (V4 a) = (hd a = 127)"
| "is_loopback (V6 a) = (a = [0, 0, 0, 0, 0, 0, 0, 1])"

lemma length_read_octets: "read_octets i k s = Some (a, r) \<Longrightarrow> length a = k"
  by (induction i k s arbitrary: a r rule: read_octets.induct)
    (auto split: option.splits prod.splits)

text \<open>A host written in brackets is not an address for this parser.\<close>

lemma parse_ip_bracket: "parse_ip (CHR ''['' # s) = None"
proof -
  have d: "to_digit 10 (CHR ''['') = None" "to_digit 16 (CHR ''['') = None"
    by (simp_all add: to_digit_def)
  have "read_octets 0 (Suc k) (CHR ''['' # s) = None" for k
    using d by (simp add: read_separator_def read_number_def)
  from this [of 3] have v4: "read_ipv4_addr (CHR ''['' # s) = None"
    by (simp add: read_ipv4_addr_def)
  have "read_groups 0 (Suc k) (CHR ''['' # s) = ([], False, CHR ''['' # s)" for k
    using d v4 by (simp add: read_separator_def read_number_def)
  from this [of 7] have "read_ipv6_addr (CHR ''['' # s) = None"
    by (simp add: read_ipv6_addr_def read_given_char_def)
  with v4 show ?thesis by (simp add: parse_ip_def)
qed

end
