(* ===== verification/Json.thy ===== *)
theory Json
  imports Rust_Str "HOL-Library.Monad_Syntax"
begin

text \<open>
  JSON values and what \<open>derive(Serialize, Deserialize)\<close> generates for the program's structs: a
  struct is an object with one member per field, in the order of the declaration; with
  \<open>deny_unknown_fields\<close> it is read back from an object that has exactly these members, in any
  order, or from an array of the field values. The text format itself (\<open>serde_json\<close>,
  \<open>serde_jcs\<close>) belongs to other crates and is a parameter (theory Env).
\<close>

section \<open>Values\<close>

text \<open>\<open>JNum\<close> is a non-negative integer, \<open>JNumber\<close> the text of any other number.\<close>

datatype json =
    JNull
  | JBool bool
  | JNum nat
  | JNumber string
  | JStr string
  | JArr "json list"
  | JObj "(string \<times> json) list"

section \<open>Structs\<close>

definition ser_struct :: "string list \<Rightarrow> json list \<Rightarrow> json" where
  "ser_struct names vals = JObj (zip names vals)"

definition de_struct :: "string list \<Rightarrow> json \<Rightarrow> json list option" where
  "de_struct names j =
     (case j of
        JObj kvs \<Rightarrow>
          if distinct (map fst kvs) \<and> list_all (\<lambda>kv. fst kv \<in> set names) kvs
          then those (map (map_of kvs) names) else None
      | JArr vs \<Rightarrow> if length vs = length names then Some vs else None
      | _ \<Rightarrow> None)"

definition de_string :: "json \<Rightarrow> string option" where
  "de_string j = (case j of JStr s \<Rightarrow> Some s | _ \<Rightarrow> None)"

definition ser_uint :: "'a::len word \<Rightarrow> json" where
  "ser_uint w = JNum (unat w)"

definition de_uint :: "json \<Rightarrow> 'a::len word option" where
  "de_uint j = (case j of JNum n \<Rightarrow> if n < 2 ^ LENGTH('a) then Some (word_of_nat n) else None
                | _ \<Rightarrow> None)"

definition ser_vec :: "('a \<Rightarrow> json) \<Rightarrow> 'a list \<Rightarrow> json" where
  "ser_vec f xs = JArr (map f xs)"

definition de_vec :: "(json \<Rightarrow> 'a option) \<Rightarrow> json \<Rightarrow> 'a list option" where
  "de_vec f j = (case j of JArr vs \<Rightarrow> those (map f vs) | _ \<Rightarrow> None)"

text \<open>The serde implementation of a type that another crate defines.\<close>

record 'a serde =
  ser :: "'a \<Rightarrow> json"
  de :: "json \<Rightarrow> 'a option"

section \<open>Canonical form\<close>

text \<open>
  RFC 8785 canonicalisation (\<open>serde_jcs\<close>) sorts the members of every object and writes numbers
  as IEEE doubles: it preserves a value up to the order of members when all its integers are in
  the exact range of a double.
\<close>

primrec jcs_norm :: "json \<Rightarrow> json" where
  "jcs_norm JNull = JNull"
| "jcs_norm (JBool b) = JBool b"
| "jcs_norm (JNum n) = JNum n"
| "jcs_norm (JNumber s) = JNumber s"
| "jcs_norm (JStr s) = JStr s"
| "jcs_norm (JArr vs) = JArr (map jcs_norm vs)"
| "jcs_norm (JObj kvs) = JObj (sort_key fst (map (map_prod id jcs_norm) kvs))"

primrec exact_numbers :: "json \<Rightarrow> bool" where
  "exact_numbers JNull = True"
| "exact_numbers (JBool b) = True"
| "exact_numbers (JNum n) = (n \<le> 2 ^ 53)"
| "exact_numbers (JNumber s) = False"
| "exact_numbers (JStr s) = True"
| "exact_numbers (JArr vs) = list_all id (map exact_numbers vs)"
| "exact_numbers (JObj kvs) = list_all snd (map (map_prod id exact_numbers) kvs)"

section \<open>Round trips\<close>

named_theorems serde_simps \<open>round trips of the serialised structs\<close>

lemma those_map_Some: "(\<And>x. x \<in> set xs \<Longrightarrow> f x = Some (g x)) \<Longrightarrow> those (map f xs) = Some (map g xs)"
  by (induction xs) auto

lemma those_Some_iff: "those xs = Some ys \<longleftrightarrow> xs = map Some ys"
proof (induction xs arbitrary: ys)
  case (Cons x xs)
  then show ?case by (cases x) (auto simp: Cons_eq_map_conv)
qed auto

lemma map_of_zip_those:
  "distinct names \<Longrightarrow> length names = length vals \<Longrightarrow>
   those (map (map_of (zip names vals)) names) = Some vals"
  by (simp add: those_Some_iff map_of_zip_map list_eq_iff_nth_eq map_of_zip_nth)

lemma de_ser_struct [serde_simps]:
  assumes "distinct names" "length names = length vals"
  shows "de_struct names (ser_struct names vals) = Some vals"
proof -
  have "list_all (\<lambda>kv. fst kv \<in> set names) (zip names vals)"
    by (auto simp: list_all_iff dest: set_zip_leftD)
  with assms show ?thesis
    by (simp add: de_struct_def ser_struct_def map_of_zip_those)
qed

lemma map_of_sort_key_fst:
  assumes "distinct (map fst (kvs :: (string \<times> 'v) list))"
  shows "map_of (sort_key fst kvs) = map_of kvs"
proof (rule map_of_eqI)
  have "distinct (map fst (sort_key fst kvs))"
    using assms by (metis distinct_map distinct_sort set_sort)
  show "set (map fst (sort_key fst kvs)) = set (map fst kvs)" by simp
  show "\<forall>k \<in> set (map fst (sort_key fst kvs)). map_of (sort_key fst kvs) k = map_of kvs k"
    using assms \<open>distinct (map fst (sort_key fst kvs))\<close>
    by (metis Some_eq_map_of_iff map_of_eq_None_iff not_None_eq set_sort)
qed

lemma de_ser_struct_norm [serde_simps]:
  assumes "distinct names" "length names = length vals"
  shows "de_struct names (jcs_norm (ser_struct names vals)) = Some (map jcs_norm vals)"
proof -
  have eq: "map (map_prod id jcs_norm) (zip names vals) = zip names (map jcs_norm vals)"
    by (simp add: zip_map2 map_prod_def case_prod_beta')
  have d: "distinct (map fst (zip names (map jcs_norm vals)))"
    using assms by simp
  have fs: "distinct (map fst (sort_key fst (zip names (map jcs_norm vals))))"
    using d by (metis distinct_map distinct_sort set_sort)
  have "list_all (\<lambda>kv. fst kv \<in> set names) (sort_key fst (zip names (map jcs_norm vals)))"
    by (auto simp: list_all_iff dest: set_zip_leftD)
  with fs show ?thesis
    using assms map_of_sort_key_fst [OF d]
    by (simp add: de_struct_def ser_struct_def eq map_of_zip_those)
qed

lemma de_string_JStr [serde_simps]: "de_string (JStr s) = Some s"
  by (simp add: de_string_def)

lemma de_ser_uint [serde_simps]: "de_uint (ser_uint w) = Some (w :: 'a::len word)"
  using unat_lt_2p [of w] by (simp add: de_uint_def ser_uint_def)

lemma jcs_norm_ser_uint [serde_simps]: "jcs_norm (ser_uint w) = ser_uint w"
  by (simp add: ser_uint_def)

lemma jcs_norm_JStr [serde_simps]: "jcs_norm (JStr s) = JStr s"
  by simp

lemma de_ser_vec:
  "(\<And>x. x \<in> set xs \<Longrightarrow> d (s x) = Some x) \<Longrightarrow> de_vec d (ser_vec s xs) = Some xs"
  by (simp add: de_vec_def ser_vec_def comp_def those_map_Some [where g = "\<lambda>x. x", simplified])

lemma de_ser_vec_norm:
  "(\<And>x. x \<in> set xs \<Longrightarrow> d (jcs_norm (s x)) = Some x) \<Longrightarrow> de_vec d (jcs_norm (ser_vec s xs)) = Some xs"
  by (simp add: de_vec_def ser_vec_def comp_def those_map_Some [where g = "\<lambda>x. x", simplified])

end
