(* ===== verification/Env.thy ===== *)
theory Env
  imports Json
begin

text \<open>
  The code of other crates that the program calls, as parameters: base64, SHA-256, Ed25519 keys and
  signatures (\<open>ed25519_dalek\<close>, \<open>pubky_common::crypto\<close>), the Pubky Grant types
  (\<open>pubky_common::auth\<close>, \<open>capabilities\<close>), JSON text (\<open>serde_json\<close>,
  \<open>serde_jcs\<close>) and URLs (\<open>url\<close>). Their values are opaque carriers; every operation the
  program uses is a field of the record \<open>env\<close>. The laws at the end state documented behaviour
  of these crates; a theorem that needs one has it as a hypothesis.
\<close>

section \<open>Opaque values\<close>

text \<open>
  Ed25519 public keys and secrets have 256 bits, signatures 512; what the bits mean is not
  visible to the program.
\<close>

datatype public_key = PublicKey "256 word"
datatype keypair = Keypair "256 word"
datatype signature = Signature "512 word"
datatype client_id = ClientId string
datatype grant_id = GrantId string
datatype capability = Capability string
datatype storage_path = StoragePath string
datatype url = Url string

text \<open>\<open>Url::as_str\<close>: a URL is its serialisation, and equality compares serialisations.\<close>

fun url_as_str :: "url \<Rightarrow> string" where
  "url_as_str (Url s) = s"

lemma url_as_str_inject [simp]: "url_as_str u = url_as_str v \<longleftrightarrow> u = v"
  by (cases u; cases v) simp

datatype action = ActionRead | ActionWrite | ActionUnknown char

datatype host = HostDomain string | HostIpv4 "nat list" | HostIpv6 "nat list"

datatype origin = OriginTuple string string u16 | OriginOpaque nat

section \<open>The environment\<close>

record text_env =
  jcs_to_vec :: "json \<Rightarrow> bytes option"
  json_to_vec :: "json \<Rightarrow> bytes option"
  json_from_slice :: "bytes \<Rightarrow> json option"
  b64_encode :: "bytes \<Rightarrow> string"
  b64_decode :: "string \<Rightarrow> bytes option"

record crypto_env = text_env +
  sha256 :: "bytes \<Rightarrow> bytes"
  signature_from_slice :: "bytes \<Rightarrow> signature option"
  signature_to_bytes :: "signature \<Rightarrow> bytes"
  pk_try_from_z32 :: "string \<Rightarrow> public_key option"
  pk_parse :: "string \<Rightarrow> public_key option"
  pk_z32 :: "public_key \<Rightarrow> string"
  pk_verify :: "public_key \<Rightarrow> bytes \<Rightarrow> signature \<Rightarrow> bool"
  kp_from_secret :: "bytes \<Rightarrow> keypair"
  kp_secret :: "keypair \<Rightarrow> bytes"
  kp_public_key :: "keypair \<Rightarrow> public_key"
  kp_sign :: "keypair \<Rightarrow> bytes \<Rightarrow> signature"
  pk_serde :: "public_key serde"

record grant_env = crypto_env +
  client_id_serde :: "client_id serde"
  client_id_as_str :: "client_id \<Rightarrow> string"
  grant_id_serde :: "grant_id serde"
  grant_id_as_str :: "grant_id \<Rightarrow> string"
  capability_serde :: "capability serde"
  capability_to_string :: "capability \<Rightarrow> string"
  capability_actions :: "capability \<Rightarrow> action list"
  scope_covers_path :: "capability \<Rightarrow> storage_path \<Rightarrow> bool"
  storage_path_new :: "string \<Rightarrow> storage_path option"

record env = grant_env +
  url_serde :: "url serde"
  url_parse :: "string \<Rightarrow> url option"
  url_scheme :: "url \<Rightarrow> string"
  url_username :: "url \<Rightarrow> string"
  url_password :: "url \<Rightarrow> string option"
  url_host_str :: "url \<Rightarrow> string option"
  url_host :: "url \<Rightarrow> host option"
  url_port :: "url \<Rightarrow> u16 option"
  url_path :: "url \<Rightarrow> string"
  url_query :: "url \<Rightarrow> string option"
  url_fragment :: "url \<Rightarrow> string option"
  url_origin :: "url \<Rightarrow> origin"

section \<open>Documented behaviour of the other crates\<close>

text \<open>
  base64: decoding gives back what was encoded. SHA-256 digests have 32 bytes. An Ed25519
  signature has 64 bytes, and \<open>from_slice\<close> accepts exactly the 64-byte slices.
\<close>

definition b64_law :: "env \<Rightarrow> bool" where
  "b64_law E = (b64_encode E [] = [] \<and> (\<forall>b. b64_decode E (b64_encode E b) = Some b))"

text \<open>The URL-safe alphabet without padding.\<close>

definition b64_alphabet :: "char \<Rightarrow> bool" where
  "b64_alphabet c = (is_ascii_alphanumeric c \<or> c = CHR ''-'' \<or> c = CHR ''_'')"

definition b64_alphabet_law :: "env \<Rightarrow> bool" where
  "b64_alphabet_law E = (\<forall>b. list_all b64_alphabet (b64_encode E b))"

definition sha256_law :: "env \<Rightarrow> bool" where
  "sha256_law E = (\<forall>b. length (sha256 E b) = 32)"

definition signature_codec_law :: "env \<Rightarrow> bool" where
  "signature_codec_law E =
     ((\<forall>s. length (signature_to_bytes E s) = 64 \<and>
           signature_from_slice E (signature_to_bytes E s) = Some s) \<and>
      (\<forall>b s. signature_from_slice E b = Some s \<longrightarrow> signature_to_bytes E s = b))"

text \<open>A signature made with a key pair verifies under its public key.\<close>

definition signing_law :: "env \<Rightarrow> bool" where
  "signing_law E = (\<forall>kp m. pk_verify E (kp_public_key E kp) m (kp_sign E kp m))"

text \<open>z-base-32 text of a key parses to that key; a key pair is its 32-byte secret.\<close>

definition z32_law :: "env \<Rightarrow> bool" where
  "z32_law E = (\<forall>k. pk_try_from_z32 E (pk_z32 E k) = Some k \<and> pk_parse E (pk_z32 E k) = Some k)"

definition keypair_law :: "env \<Rightarrow> bool" where
  "keypair_law E =
     (\<forall>kp. kp_from_secret E (kp_secret E kp) = kp \<and> length (kp_secret E kp) = 32)"

text \<open>
  The z-base-32 text of a 32-byte key is 52 characters of lower-case letters and digits.
\<close>

definition z32_text_law :: "env \<Rightarrow> bool" where
  "z32_text_law E =
     (\<forall>s k. pk_parse E s = Some k \<and> pk_z32 E k = s \<longrightarrow>
        length s = 52 \<and> list_all is_ascii_alphanumeric s)"

text \<open>serde round trip of the URL type, which serialises to a JSON string.\<close>

definition url_serde_law :: "env \<Rightarrow> bool" where
  "url_serde_law E =
     (\<forall>u. de (url_serde E) (ser (url_serde E) u) = Some u \<and> (\<exists>s. ser (url_serde E) u = JStr s))"

text \<open>
  Canonical JSON: equal canonical texts come from values that are equal up to the order of object
  members, for values whose numbers a double represents exactly (RFC 8785). Trees that
  are no JSON value (a repeated member, an integer written as \<open>JNumber\<close>) do not occur.
\<close>

definition jcs_law :: "env \<Rightarrow> bool" where
  "jcs_law E =
     (\<forall>a b m. jcs_to_vec E a = Some m \<longrightarrow> jcs_to_vec E b = Some m \<longrightarrow>
        exact_numbers a \<longrightarrow> exact_numbers b \<longrightarrow> jcs_norm a = jcs_norm b)"

text \<open>Canonicalisation of such values does not fail.\<close>

definition jcs_total_law :: "env \<Rightarrow> bool" where
  "jcs_total_law E = (\<forall>j. exact_numbers j \<longrightarrow> jcs_to_vec E j \<noteq> None)"

text \<open>JSON text: what \<open>to_vec\<close> writes, \<open>from_slice\<close> reads back.\<close>

definition json_text_law :: "env \<Rightarrow> bool" where
  "json_text_law E = (\<forall>j b. json_to_vec E j = Some b \<longrightarrow> json_from_slice E b = Some j)"

text \<open>
  serde round trips of the Grant's field types, and the parse of the fixed header text.
\<close>

definition grant_serde_law :: "env \<Rightarrow> bool" where
  "grant_serde_law E =
     ((\<forall>k. de (pk_serde E) (ser (pk_serde E) k) = Some k) \<and>
      (\<forall>c. de (client_id_serde E) (ser (client_id_serde E) c) = Some c) \<and>
      (\<forall>g. de (grant_id_serde E) (ser (grant_id_serde E) g) = Some g) \<and>
      (\<forall>c. de (capability_serde E) (ser (capability_serde E) c) = Some c))"

lemma b64_decode_encode: "b64_law E \<Longrightarrow> b64_decode E (b64_encode E b) = Some b"
  by (simp add: b64_law_def)

lemma b64_encode_inject: "b64_law E \<Longrightarrow> b64_encode E a = b64_encode E b \<longleftrightarrow> a = b"
  by (metis b64_law_def option.inject)

lemma b64_encode_Nil_iff: "b64_law E \<Longrightarrow> b64_encode E b = [] \<longleftrightarrow> b = []"
  by (metis b64_law_def option.inject)

lemma pk_z32_inject: "z32_law E \<Longrightarrow> pk_z32 E a = pk_z32 E b \<longleftrightarrow> a = b"
  by (metis option.inject z32_law_def)

text \<open>A collision of the hash function, as a value: two different inputs with one digest.\<close>

definition sha256_collision :: "env \<Rightarrow> bytes \<Rightarrow> bytes \<Rightarrow> bool" where
  "sha256_collision E a b = (a \<noteq> b \<and> sha256 E a = sha256 E b)"

end
