(* ===== verification/Protocol_Base.thy ===== *)
theory Protocol_Base
  imports Env
begin

text \<open>
  Constants, errors and the validation helpers of the protocol crate
  (\<open>crates/protocol/src/error.rs\<close>, \<open>signing.rs\<close> and the first part of \<open>v1.rs\<close>):
  canonical signing bytes, domain-separated digests, canonical base64, time windows, size bounds
  and the relay policy. The lemmas characterise when each helper succeeds.
\<close>

section \<open>Errors and constants\<close>

datatype protocol_error =
    Json
  | InvalidEncoding string
  | BadSignature
  | UnsupportedVersion u16
  | NotYetValid
  | Expired
  | MissingCapability string
  | IdentityMismatch
  | DeviceMismatch
  | InvalidTimeWindow

type_synonym 'a presult = "('a, protocol_error) result"

definition MAX_CLOCK_SKEW_SECONDS :: u64 where "MAX_CLOCK_SKEW_SECONDS = 120"
definition MAX_CERTIFICATE_LIFETIME_SECONDS :: u64 where
  "MAX_CERTIFICATE_LIFETIME_SECONDS = 90 * 24 * 60 * 60"

definition V1_PROTOCOL_VERSION :: u16 where "V1_PROTOCOL_VERSION = 1"
definition V1_DEVICE_RECORD_PATH_PREFIX :: string where
  "V1_DEVICE_RECORD_PATH_PREFIX = ''/pub/pubky2pubky/v1/devices/''"
definition V1_CURRENTNESS_PATH_PREFIX :: string where
  "V1_CURRENTNESS_PATH_PREFIX = ''/pub/pubky2pubky/v1/currentness/''"
definition V1_IROH_ALPN_TEXT :: string where "V1_IROH_ALPN_TEXT = ''pubky2pubky/iroh/v1''"
definition V1_REQUIRED_STORAGE_SCOPE :: string where
  "V1_REQUIRED_STORAGE_SCOPE = ''/pub/pubky2pubky/''"
definition V1_MAX_GRANT_JWS_BYTES :: nat where "V1_MAX_GRANT_JWS_BYTES = 16 * 1024"
definition V1_MAX_GRANT_CAPABILITIES :: nat where "V1_MAX_GRANT_CAPABILITIES = 32"
definition V1_MAX_GRANT_LIFETIME_SECONDS :: u64 where
  "V1_MAX_GRANT_LIFETIME_SECONDS = 2 * 365 * 24 * 60 * 60"
definition V1_MAX_DEVICE_CERTIFICATE_LIFETIME_SECONDS :: u64 where
  "V1_MAX_DEVICE_CERTIFICATE_LIFETIME_SECONDS = MAX_CERTIFICATE_LIFETIME_SECONDS"
definition V1_MAX_RELAY_URLS :: nat where "V1_MAX_RELAY_URLS = 4"
definition V1_MAX_LOCATOR_LIFETIME_SECONDS :: u64 where "V1_MAX_LOCATOR_LIFETIME_SECONDS = 15 * 60"
definition V1_MAX_HANDSHAKE_LIFETIME_SECONDS :: u64 where "V1_MAX_HANDSHAKE_LIFETIME_SECONDS = 2 * 60"
definition V1_MAX_CURRENTNESS_LIFETIME_SECONDS :: u64 where "V1_MAX_CURRENTNESS_LIFETIME_SECONDS = 30"
definition V1_MAX_DEVICE_RECORD_BYTES :: nat where "V1_MAX_DEVICE_RECORD_BYTES = 32 * 1024"
definition V1_MAX_HELLO_BYTES :: nat where "V1_MAX_HELLO_BYTES = 48 * 1024"
definition V1_MAX_ACK_BYTES :: nat where "V1_MAX_ACK_BYTES = 8 * 1024"
definition V1_MAX_CURRENTNESS_PROOF_BYTES :: nat where "V1_MAX_CURRENTNESS_PROOF_BYTES = 4 * 1024"

text \<open>The header text contains double quotes, written as their byte.\<close>

definition V1_GRANT_HEADER_JSON :: string where
  "V1_GRANT_HEADER_JSON =
     (let q = [CHR 0x22] in
      ''{'' @ q @ ''alg'' @ q @ '':'' @ q @ ''EdDSA'' @ q @ '','' @
      q @ ''typ'' @ q @ '':'' @ q @ ''pubky-grant'' @ q @ ''}'')"

definition V1_GRANT_DIGEST_DOMAIN :: string where
  "V1_GRANT_DIGEST_DOMAIN = ''pubky2pubky/grant-digest/v1''"
definition V1_CERTIFICATE_DOMAIN :: string where
  "V1_CERTIFICATE_DOMAIN = ''pubky2pubky/device-certificate/v1''"
definition V1_CERTIFICATE_DIGEST_DOMAIN :: string where
  "V1_CERTIFICATE_DIGEST_DOMAIN = ''pubky2pubky/device-certificate-digest/v1''"
definition V1_DEVICE_RECORD_DIGEST_DOMAIN :: string where
  "V1_DEVICE_RECORD_DIGEST_DOMAIN = ''pubky2pubky/device-record-digest/v1''"
definition V1_DEVICE_PATH_DOMAIN :: string where
  "V1_DEVICE_PATH_DOMAIN = ''pubky2pubky/device-path/v1''"
definition V1_LOCATOR_DOMAIN :: string where
  "V1_LOCATOR_DOMAIN = ''pubky2pubky/iroh-locator/v1''"
definition V1_LOCATOR_DIGEST_DOMAIN :: string where
  "V1_LOCATOR_DIGEST_DOMAIN = ''pubky2pubky/iroh-locator-digest/v1''"
definition V1_HELLO_DOMAIN :: string where
  "V1_HELLO_DOMAIN = ''pubky2pubky/hello/v1''"
definition V1_HELLO_DIGEST_DOMAIN :: string where
  "V1_HELLO_DIGEST_DOMAIN = ''pubky2pubky/hello-digest/v1''"
definition V1_ACK_DOMAIN :: string where
  "V1_ACK_DOMAIN = ''pubky2pubky/ack/v1''"
definition V1_CURRENTNESS_DOMAIN :: string where
  "V1_CURRENTNESS_DOMAIN = ''pubky2pubky/currentness/v1''"
definition V1_CURRENTNESS_PATH_DOMAIN :: string where
  "V1_CURRENTNESS_PATH_DOMAIN = ''pubky2pubky/currentness-path/v1''"

definition MAX_DEVICE_ID_BYTES :: nat where "MAX_DEVICE_ID_BYTES = 64"
definition MAX_APPLICATION_BYTES :: nat where "MAX_APPLICATION_BYTES = 128"
definition MAX_RELAY_URL_BYTES :: nat where "MAX_RELAY_URL_BYTES = 2048"
definition MIN_CHALLENGE_BYTES :: nat where "MIN_CHALLENGE_BYTES = 16"
definition MAX_CHALLENGE_BYTES :: nat where "MAX_CHALLENGE_BYTES = 32"

lemmas domain_defs =
  V1_GRANT_DIGEST_DOMAIN_def V1_CERTIFICATE_DOMAIN_def V1_CERTIFICATE_DIGEST_DOMAIN_def
  V1_DEVICE_RECORD_DIGEST_DOMAIN_def V1_DEVICE_PATH_DOMAIN_def V1_LOCATOR_DOMAIN_def
  V1_LOCATOR_DIGEST_DOMAIN_def V1_HELLO_DOMAIN_def V1_HELLO_DIGEST_DOMAIN_def V1_ACK_DOMAIN_def
  V1_CURRENTNESS_DOMAIN_def V1_CURRENTNESS_PATH_DOMAIN_def

section \<open>Signing bytes, signatures and digests\<close>

definition envelope_fields :: "string list" where
  "envelope_fields = [''domain'', ''payload'']"

definition signing_envelope :: "string \<Rightarrow> json \<Rightarrow> json" where
  "signing_envelope domain payload = ser_struct envelope_fields [JStr domain, payload]"

definition canonical_for_signing :: "env \<Rightarrow> string \<Rightarrow> json \<Rightarrow> bytes presult" where
  "canonical_for_signing E domain payload =
     ok_or (jcs_to_vec E (signing_envelope domain payload)) Json"

definition encode_signature :: "env \<Rightarrow> signature \<Rightarrow> string" where
  "encode_signature E s = b64_encode E (signature_to_bytes E s)"

definition parse_public_key :: "env \<Rightarrow> string \<Rightarrow> public_key presult" where
  "parse_public_key E encoded =
     and_then (ok_or (pk_try_from_z32 E encoded) (InvalidEncoding ''public key'')) (\<lambda>key.
     if pk_z32 E key \<noteq> encoded then Err (InvalidEncoding ''canonical public key'')
     else Ok key)"

definition decode_canonical_base64 :: "env \<Rightarrow> string \<Rightarrow> string \<Rightarrow> bytes presult" where
  "decode_canonical_base64 E v label =
     and_then (ok_or (b64_decode E v) (InvalidEncoding label)) (\<lambda>b.
     if b64_encode E b \<noteq> v then Err (InvalidEncoding label)
     else Ok b)"

definition decode_v1_signature :: "env \<Rightarrow> string \<Rightarrow> signature presult" where
  "decode_v1_signature E encoded =
     and_then (decode_canonical_base64 E encoded ''canonical v1 signature'') (\<lambda>b.
     ok_or (signature_from_slice E b) (InvalidEncoding ''v1 signature''))"

definition verify_signature :: "env \<Rightarrow> public_key \<Rightarrow> string \<Rightarrow> json \<Rightarrow> string \<Rightarrow> unit presult" where
  "verify_signature E key domain claims v =
     and_then (decode_v1_signature E v) (\<lambda>sig.
     and_then (canonical_for_signing E domain claims) (\<lambda>m.
     if pk_verify E key m sig then Ok () else Err BadSignature))"

definition canonical_digest :: "env \<Rightarrow> string \<Rightarrow> json \<Rightarrow> string presult" where
  "canonical_digest E domain v =
     and_then (canonical_for_signing E domain v) (\<lambda>b. Ok (b64_encode E (sha256 E b)))"

section \<open>Time windows\<close>

definition validate_bounded_window ::
  "u64 \<Rightarrow> u64 \<Rightarrow> u64 \<Rightarrow> u64 \<Rightarrow> string \<Rightarrow> unit presult" where
  "validate_bounded_window issued_at expires_at now maximum label =
     (if expires_at \<le> issued_at then Err InvalidTimeWindow
      else if issued_at > saturating_add now MAX_CLOCK_SKEW_SECONDS then Err NotYetValid
      else if expires_at \<le> now then Err Expired
      else if expires_at - issued_at > maximum then Err (InvalidEncoding label)
      else Ok ())"

definition validate_currentness_window :: "u64 \<Rightarrow> u64 \<Rightarrow> u64 \<Rightarrow> unit presult" where
  "validate_currentness_window issued_at expires_at now =
     and_then (validate_bounded_window issued_at expires_at now
                 V1_MAX_CURRENTNESS_LIFETIME_SECONDS ''v1 currentness lifetime'') (\<lambda>_.
     if issued_at > now then Err NotYetValid
     else if expires_at > saturating_add now V1_MAX_CURRENTNESS_LIFETIME_SECONDS
       then Err InvalidTimeWindow
     else Ok ())"

section \<open>Sizes, digests, names\<close>

definition ensure_serialized_bound :: "env \<Rightarrow> json \<Rightarrow> nat \<Rightarrow> string \<Rightarrow> unit presult" where
  "ensure_serialized_bound E v maximum label =
     and_then (ok_or (json_to_vec E v) Json) (\<lambda>b.
     if length b > maximum then Err (InvalidEncoding label) else Ok ())"

definition validate_digest :: "env \<Rightarrow> string \<Rightarrow> string \<Rightarrow> unit presult" where
  "validate_digest E v label =
     and_then (decode_canonical_base64 E v label) (\<lambda>b.
     if length b \<noteq> 32 then Err (InvalidEncoding label) else Ok ())"

definition validate_challenge :: "env \<Rightarrow> string \<Rightarrow> string \<Rightarrow> unit presult" where
  "validate_challenge E v label =
     and_then (decode_canonical_base64 E v label) (\<lambda>b.
     if \<not> (MIN_CHALLENGE_BYTES \<le> length b \<and> length b \<le> MAX_CHALLENGE_BYTES)
     then Err (InvalidEncoding label) else Ok ())"

definition validate_device_id :: "string \<Rightarrow> unit presult" where
  "validate_device_id device_id =
     (if device_id = [] \<or> length device_id > MAX_DEVICE_ID_BYTES
        \<or> list_ex is_control (str_chars device_id) \<or> list_all is_whitespace (str_chars device_id)
      then Err (InvalidEncoding ''v1 device id'') else Ok ())"

definition application_byte :: "char \<Rightarrow> bool" where
  "application_byte c = (is_ascii_alphanumeric c \<or> c \<in> {CHR ''-'', CHR ''_'', CHR ''.'', CHR ''/''})"

definition validate_application :: "string \<Rightarrow> unit presult" where
  "validate_application application =
     (if application = [] \<or> length application > MAX_APPLICATION_BYTES
        \<or> \<not> list_all application_byte application
      then Err (InvalidEncoding ''v1 application'') else Ok ())"

section \<open>Relay policy\<close>

definition local_relay_host :: "env \<Rightarrow> url \<Rightarrow> bool" where
  "local_relay_host E url =
     (case url_host_str E url of
        None \<Rightarrow> False
      | Some host \<Rightarrow> eq_ignore_ascii_case host ''localhost''
          \<or> (case parse_ip host of Some a \<Rightarrow> is_loopback a | None \<Rightarrow> False))"

definition validate_relay_url :: "env \<Rightarrow> url \<Rightarrow> bool \<Rightarrow> unit presult" where
  "validate_relay_url E url allow_loopback_dev =
     (let secure = (url_scheme E url = ''https'');
          loopback_dev = (allow_loopback_dev \<and> url_scheme E url = ''http'' \<and> local_relay_host E url)
      in if length (url_as_str url) > MAX_RELAY_URL_BYTES
           \<or> (\<not> secure \<and> \<not> loopback_dev)
           \<or> url_host_str E url = None
           \<or> url_username E url \<noteq> []
           \<or> url_password E url \<noteq> None
           \<or> url_path E url \<noteq> ''/''
           \<or> url_query E url \<noteq> None
           \<or> url_fragment E url \<noteq> None
         then Err (InvalidEncoding ''v1 relay URL'') else Ok ())"

text \<open>The loop of \<open>validate_relays\<close>, with the set of URL texts seen so far.\<close>

fun validate_relays_loop :: "env \<Rightarrow> bool \<Rightarrow> string list \<Rightarrow> url list \<Rightarrow> unit presult" where
  "validate_relays_loop E allow unique [] = Ok ()"
| "validate_relays_loop E allow unique (relay # relays) =
     and_then (validate_relay_url E relay allow) (\<lambda>_.
     if url_as_str relay \<in> set unique then Err (InvalidEncoding ''duplicate v1 relay URL'')
     else validate_relays_loop E allow (url_as_str relay # unique) relays)"

definition validate_relays :: "env \<Rightarrow> url list \<Rightarrow> bool \<Rightarrow> unit presult" where
  "validate_relays E relays allow =
     (if relays = [] \<or> length relays > V1_MAX_RELAY_URLS
      then Err (InvalidEncoding ''v1 relay URLs'')
      else validate_relays_loop E allow [] relays)"

text \<open>\<open>v1_random_challenge\<close>: the secret of a fresh random key pair, which is an argument.\<close>

definition v1_random_challenge :: "env \<Rightarrow> keypair \<Rightarrow> string" where
  "v1_random_challenge E random = b64_encode E (kp_secret E random)"

section \<open>When the helpers succeed\<close>

lemma canonical_for_signing_Ok_iff [ok_iff]:
  "canonical_for_signing E d v = Ok b \<longleftrightarrow> jcs_to_vec E (signing_envelope d v) = Some b"
  by (simp add: canonical_for_signing_def ok_iff)

lemma parse_public_key_Ok_iff [ok_iff]:
  "parse_public_key E s = Ok k \<longleftrightarrow> pk_try_from_z32 E s = Some k \<and> pk_z32 E k = s"
  by (auto simp: parse_public_key_def ok_iff)

lemma decode_canonical_base64_Ok_iff [ok_iff]:
  "decode_canonical_base64 E v l = Ok b \<longleftrightarrow> b64_decode E v = Some b \<and> b64_encode E b = v"
  by (auto simp: decode_canonical_base64_def ok_iff)

lemma verify_signature_Ok_iff:
  "verify_signature E key d c v = Ok () \<longleftrightarrow>
     (\<exists>b sig m. b64_decode E v = Some b \<and> b64_encode E b = v \<and> signature_from_slice E b = Some sig
        \<and> canonical_for_signing E d c = Ok m \<and> pk_verify E key m sig)"
  by (auto simp: verify_signature_def decode_v1_signature_def ok_iff split: if_splits)

lemma validate_digest_Ok_iff [ok_iff]:
  "validate_digest E v l = Ok () \<longleftrightarrow>
     (\<exists>b. b64_decode E v = Some b \<and> b64_encode E b = v \<and> length b = 32)"
  by (auto simp: validate_digest_def ok_iff)

lemma validate_challenge_Ok_iff [ok_iff]:
  "validate_challenge E v l = Ok () \<longleftrightarrow>
     (\<exists>b. b64_decode E v = Some b \<and> b64_encode E b = v \<and> 16 \<le> length b \<and> length b \<le> 32)"
  by (auto simp: validate_challenge_def ok_iff MIN_CHALLENGE_BYTES_def MAX_CHALLENGE_BYTES_def)

lemma ensure_serialized_bound_Ok_iff:
  "ensure_serialized_bound E v m l = Ok () \<longleftrightarrow> (\<exists>b. json_to_vec E v = Some b \<and> length b \<le> m)"
  by (auto simp: ensure_serialized_bound_def ok_iff)

lemma canonical_digest_Ok_iff:
  "canonical_digest E d v = Ok s \<longleftrightarrow>
     (\<exists>b. canonical_for_signing E d v = Ok b \<and> s = b64_encode E (sha256 E b))"
  by (auto simp: canonical_digest_def ok_iff)

lemma validate_bounded_window_Ok_iff [ok_iff]:
  "validate_bounded_window iss ex now m l = Ok () \<longleftrightarrow>
     iss < ex \<and> iss \<le> saturating_add now MAX_CLOCK_SKEW_SECONDS \<and> now < ex \<and> ex - iss \<le> m"
  by (auto simp: validate_bounded_window_def)

lemma validate_currentness_window_Ok_iff [ok_iff]:
  "validate_currentness_window iss ex now = Ok () \<longleftrightarrow>
     iss \<le> now \<and> now < ex \<and> ex - iss \<le> V1_MAX_CURRENTNESS_LIFETIME_SECONDS"
proof -
  have skew: "iss \<le> now \<Longrightarrow> iss \<le> saturating_add now MAX_CLOCK_SKEW_SECONDS"
    using le_saturating_add order_trans by blast
  have "ex \<le> saturating_add now V1_MAX_CURRENTNESS_LIFETIME_SECONDS"
    if "iss \<le> now" "now < ex" "ex - iss \<le> V1_MAX_CURRENTNESS_LIFETIME_SECONDS"
  proof -
    from that have "iss \<le> ex" by simp
    with that have "unat ex - unat iss \<le> 30"
      by (simp add: word_le_nat_alt [of "ex - iss"] unat_word_diff
          V1_MAX_CURRENTNESS_LIFETIME_SECONDS_def)
    with that unat_u64_less [of ex] show ?thesis
      by (simp add: word_order_nat unat_saturating_add V1_MAX_CURRENTNESS_LIFETIME_SECONDS_def)
  qed
  with skew show ?thesis
    by (auto simp: validate_currentness_window_def ok_iff)
qed

text \<open>A window accepted at one time is accepted until it expires.\<close>

lemma validate_bounded_window_later:
  "validate_bounded_window iss ex now m l = Ok () \<Longrightarrow> now \<le> now' \<Longrightarrow> now' < ex \<Longrightarrow>
   validate_bounded_window iss ex now' m l = Ok ()"
  using saturating_add_mono order_trans by (fastforce simp: ok_iff)

text \<open>An accepted window ends at most one skew allowance and one lifetime after the present.\<close>

lemma validate_bounded_window_horizon:
  assumes "validate_bounded_window iss ex now m l = Ok ()"
  shows "unat ex \<le> unat now + 120 + unat m"
proof -
  from assms have "unat ex - unat iss \<le> unat m" "unat iss \<le> unat now + 120"
    by (auto simp: ok_iff word_order_nat unat_word_diff less_imp_le unat_saturating_add
        MAX_CLOCK_SKEW_SECONDS_def)
  then show ?thesis by linarith
qed

lemma validate_relay_url_Ok_https:
  "validate_relay_url E u False = Ok () \<Longrightarrow> url_scheme E u = ''https''"
  by (auto simp: validate_relay_url_def Let_def split: if_splits)

lemma validate_relays_loop_Ok_iff:
  "validate_relays_loop E allow seen us = Ok () \<longleftrightarrow>
     (\<forall>u \<in> set us. validate_relay_url E u allow = Ok ()) \<and> distinct us
     \<and> set (map url_as_str us) \<inter> set seen = {}"
proof (induction E allow seen us rule: validate_relays_loop.induct)
  case (2 E allow seen u us)
  then show ?case by (auto simp: ok_iff)
qed simp

lemma validate_relays_Ok_iff [ok_iff]:
  "validate_relays E us allow = Ok () \<longleftrightarrow>
     us \<noteq> [] \<and> length us \<le> 4 \<and> distinct us \<and> (\<forall>u \<in> set us. validate_relay_url E u allow = Ok ())"
  by (auto simp: validate_relays_def ok_iff validate_relays_loop_Ok_iff V1_MAX_RELAY_URLS_def)

section \<open>Objects that expire\<close>

text \<open>
  The contract every signed object of the protocol has towards its callers: a successful check
  implies that the object has not expired, and a check that succeeded keeps succeeding until the
  expiry. Certificates, credentials, locators, records, Hellos and Acks interpret it.
\<close>

locale expiring =
  fixes check :: "'o \<Rightarrow> u64 \<Rightarrow> unit presult"
    and expiry :: "'o \<Rightarrow> u64"
  assumes check_before: "check x now = Ok () \<Longrightarrow> now < expiry x"
    and check_later:
      "check x now = Ok () \<Longrightarrow> now \<le> now' \<Longrightarrow> now' < expiry x \<Longrightarrow> check x now' = Ok ()"
begin

lemma check_iff:
  "check x now = Ok () \<Longrightarrow> now \<le> now' \<Longrightarrow> check x now' = Ok () \<longleftrightarrow> now' < expiry x"
  using check_before check_later by blast

lemma check_convex:
  "check x t1 = Ok () \<Longrightarrow> check x t3 = Ok () \<Longrightarrow> t1 \<le> t2 \<Longrightarrow> t2 \<le> t3 \<Longrightarrow> check x t2 = Ok ()"
  using check_before check_later order_le_less_trans by blast

lemma check_expired: "expiry x \<le> now \<Longrightarrow> \<exists>e. check x now = Err e"
  using check_before not_Ok_unit_iff by (metis leD)

end

section \<open>Domain separation and digests\<close>

lemma signing_envelope_norm:
  "de_struct envelope_fields (jcs_norm (signing_envelope d v)) = Some [JStr d, jcs_norm v]"
  by (simp add: signing_envelope_def envelope_fields_def serde_simps)

lemma exact_signing_envelope [simp]:
  "exact_numbers (signing_envelope d v) \<longleftrightarrow> exact_numbers v"
  by (simp add: signing_envelope_def ser_struct_def envelope_fields_def)

text \<open>
  The signing bytes determine the domain and, up to member order, the signed value: a signature
  made for one purpose is never a signature for another.
\<close>

lemma canonical_for_signing_inject:
  assumes "jcs_law E"
    and "canonical_for_signing E d v = Ok b" "canonical_for_signing E d' v' = Ok b"
    and "exact_numbers v" "exact_numbers v'"
  shows "d = d' \<and> jcs_norm v = jcs_norm v'"
proof -
  from assms have "jcs_norm (signing_envelope d v) = jcs_norm (signing_envelope d' v')"
    unfolding jcs_law_def by (metis canonical_for_signing_Ok_iff exact_signing_envelope)
  then have "Some [JStr d, jcs_norm v] = Some [JStr d', jcs_norm v']"
    by (metis signing_envelope_norm)
  then show ?thesis by simp
qed

text \<open>Equal digests of one domain: equal values up to member order, or a SHA-256 collision.\<close>

lemma canonical_digest_binds:
  assumes "jcs_law E" "b64_law E"
    and "canonical_digest E d v = Ok s" "canonical_digest E d v' = Ok s"
    and "exact_numbers v" "exact_numbers v'"
  shows "jcs_norm v = jcs_norm v' \<or> (\<exists>a b. sha256_collision E a b)"
proof -
  from assms(3,4) obtain a b where ab: "canonical_for_signing E d v = Ok a"
    "canonical_for_signing E d v' = Ok b" "b64_encode E (sha256 E a) = b64_encode E (sha256 E b)"
    by (auto simp: canonical_digest_Ok_iff)
  then have "sha256 E a = sha256 E b" using assms(2) by (simp add: b64_encode_inject)
  then show ?thesis
    using ab assms canonical_for_signing_inject by (metis sha256_collision_def)
qed

lemma canonical_for_signing_total:
  "jcs_total_law E \<Longrightarrow> exact_numbers v \<Longrightarrow> \<exists>b. canonical_for_signing E d v = Ok b"
  by (simp add: jcs_total_law_def canonical_for_signing_Ok_iff)

lemma canonical_digest_total:
  "jcs_total_law E \<Longrightarrow> exact_numbers v \<Longrightarrow> \<exists>s. canonical_digest E d v = Ok s"
  using canonical_for_signing_total [of E v d] by (auto simp: canonical_digest_Ok_iff)

lemma canonical_digest_valid:
  "b64_law E \<Longrightarrow> sha256_law E \<Longrightarrow> canonical_digest E d v = Ok s \<Longrightarrow> validate_digest E s l = Ok ()"
  by (auto simp: canonical_digest_Ok_iff ok_iff b64_law_def sha256_law_def)

text \<open>A fresh signature, encoded, passes \<open>verify_signature\<close>.\<close>

lemma verify_signature_sign:
  assumes "b64_law E" "signature_codec_law E" "signing_law E"
    and "canonical_for_signing E d c = Ok m" "key = kp_public_key E kp"
  shows "verify_signature E key d c (encode_signature E (kp_sign E kp m)) = Ok ()"
  using assms
  by (auto simp: verify_signature_Ok_iff encode_signature_def b64_law_def signature_codec_law_def
      signing_law_def)

lemma random_challenge_valid:
  "b64_law E \<Longrightarrow> keypair_law E \<Longrightarrow> validate_challenge E (v1_random_challenge E kp) l = Ok ()"
  by (simp add: ok_iff v1_random_challenge_def b64_law_def keypair_law_def)

end
