(* ===== verification/Grant.thy ===== *)
theory Grant
  imports Protocol_Base
begin

text \<open>
  The root-signed Pubky Grant (\<open>V1GrantAuthorization\<close> of \<open>crates/protocol/src/v1.rs\<close>):
  a compact JWS whose header, payload and signature are checked byte by byte. The lemmas show what
  a verified Grant guarantees, that its text is determined by its claims and its signature, and
  that it stays valid until it expires.
\<close>

section \<open>Claims\<close>

record v1_grant_header =
  header_alg :: string
  header_typ :: string

record v1_grant_claims_wire =
  w_iss :: public_key
  w_client_id :: client_id
  w_caps :: "capability list"
  w_cnf :: public_key
  w_jti :: grant_id
  w_iat :: u64
  w_exp :: u64

text \<open>\<open>GrantClaims\<close> of \<open>pubky_common\<close> has the same public fields.\<close>

record grant_claims =
  g_iss :: public_key
  g_client_id :: client_id
  g_caps :: "capability list"
  g_cnf :: public_key
  g_jti :: grant_id
  g_iat :: u64
  g_exp :: u64

definition into_claims :: "v1_grant_claims_wire \<Rightarrow> grant_claims" where
  "into_claims w = \<lparr>g_iss = w_iss w, g_client_id = w_client_id w, g_caps = w_caps w,
     g_cnf = w_cnf w, g_jti = w_jti w, g_iat = w_iat w, g_exp = w_exp w\<rparr>"

definition de_grant_header :: "json \<Rightarrow> v1_grant_header option" where
  "de_grant_header j =
     (case de_struct [''alg'', ''typ''] j of
        Some [a, t] \<Rightarrow> do { a' \<leftarrow> de_string a; t' \<leftarrow> de_string t; Some \<lparr>header_alg = a', header_typ = t'\<rparr> }
      | _ \<Rightarrow> None)"

definition grant_wire_fields :: "string list" where
  "grant_wire_fields = [''iss'', ''client_id'', ''caps'', ''cnf'', ''jti'', ''iat'', ''exp'']"

definition ser_grant_wire :: "env \<Rightarrow> v1_grant_claims_wire \<Rightarrow> json" where
  "ser_grant_wire E w = ser_struct grant_wire_fields
     [ser (pk_serde E) (w_iss w), ser (client_id_serde E) (w_client_id w),
      ser_vec (ser (capability_serde E)) (w_caps w), ser (pk_serde E) (w_cnf w),
      ser (grant_id_serde E) (w_jti w), ser_uint (w_iat w), ser_uint (w_exp w)]"

definition de_grant_wire :: "env \<Rightarrow> json \<Rightarrow> v1_grant_claims_wire option" where
  "de_grant_wire E j =
     (case de_struct grant_wire_fields j of
        Some [i, c, cs, n, t, a, x] \<Rightarrow> do {
          iss' \<leftarrow> de (pk_serde E) i;
          client' \<leftarrow> de (client_id_serde E) c;
          caps' \<leftarrow> de_vec (de (capability_serde E)) cs;
          cnf' \<leftarrow> de (pk_serde E) n;
          jti' \<leftarrow> de (grant_id_serde E) t;
          iat' \<leftarrow> de_uint a;
          exp' \<leftarrow> de_uint x;
          Some \<lparr>w_iss = iss', w_client_id = client', w_caps = caps', w_cnf = cnf', w_jti = jti',
             w_iat = iat', w_exp = exp'\<rparr> }
      | _ \<Rightarrow> None)"

definition grant_covers_storage :: "env \<Rightarrow> grant_claims \<Rightarrow> bool" where
  "grant_covers_storage E claims =
     (case storage_path_new E V1_REQUIRED_STORAGE_SCOPE of
        None \<Rightarrow> False
      | Some required \<Rightarrow>
          list_ex (\<lambda>c. scope_covers_path E c required \<and> ActionWrite \<in> set (capability_actions E c))
            (g_caps claims))"

section \<open>Authorization\<close>

record v1_grant_authorization =
  grant_jws :: string

text \<open>
  The format part of \<open>verify\<close>: the three canonical segments, the exact header, and claims whose
  re-serialisation is the payload.
\<close>

definition grant_segments :: "string \<Rightarrow> (string \<times> string \<times> string) presult" where
  "grant_segments jws =
     (case split_char (CHR ''.'') jws of
        [h, p, s] \<Rightarrow>
          if h = [] \<or> p = [] \<or> s = [] then Err (InvalidEncoding ''v1 Grant JWS'') else Ok (h, p, s)
      | _ \<Rightarrow> Err (InvalidEncoding ''v1 Grant JWS''))"

definition grant_decode :: "env \<Rightarrow> string \<Rightarrow> (grant_claims \<times> string \<times> string \<times> string) presult" where
  "grant_decode E jws =
     (if jws = [] \<or> length jws > V1_MAX_GRANT_JWS_BYTES
      then Err (InvalidEncoding ''v1 Grant JWS size'')
      else and_then (grant_segments jws) (\<lambda>(header_segment, payload_segment, signature_segment).
      and_then (decode_canonical_base64 E header_segment ''v1 Grant header'') (\<lambda>header_bytes.
      and_then (ok_or (Option.bind (json_from_slice E header_bytes) de_grant_header) Json) (\<lambda>header.
      if header_alg header \<noteq> ''EdDSA'' \<or> header_typ header \<noteq> ''pubky-grant''
        \<or> header_bytes \<noteq> as_bytes V1_GRANT_HEADER_JSON
      then Err (InvalidEncoding ''canonical v1 Grant header'')
      else and_then (decode_canonical_base64 E payload_segment ''v1 Grant payload'') (\<lambda>payload_bytes.
      and_then (ok_or (Option.bind (json_from_slice E payload_bytes) (de_grant_wire E)) Json) (\<lambda>wire.
      and_then (ok_or (json_to_vec E (ser_grant_wire E wire)) Json) (\<lambda>again.
      if again \<noteq> payload_bytes then Err (InvalidEncoding ''canonical v1 Grant payload'')
      else Ok (into_claims wire, header_segment, payload_segment, signature_segment))))))))"

text \<open>The signature is over the first two segments as they stand in the JWS.\<close>

definition grant_check_signature ::
  "env \<Rightarrow> grant_claims \<Rightarrow> string \<Rightarrow> string \<Rightarrow> string \<Rightarrow> unit presult" where
  "grant_check_signature E claims header_segment payload_segment signature_segment =
     and_then (decode_canonical_base64 E signature_segment ''v1 Grant signature'') (\<lambda>b.
     and_then (ok_or (signature_from_slice E b) (InvalidEncoding ''v1 Grant signature'')) (\<lambda>sig.
     if pk_verify E (g_iss claims) (as_bytes (header_segment @ ''.'' @ payload_segment)) sig
     then Ok () else Err BadSignature))"

definition grant_check_client_id :: "env \<Rightarrow> grant_claims \<Rightarrow> unit presult" where
  "grant_check_client_id E claims =
     (let client_id = client_id_as_str E (g_client_id claims)
      in if client_id = [] \<or> length client_id > 253
           \<or> list_ex is_control (str_chars client_id) \<or> list_all is_whitespace (str_chars client_id)
         then Err (InvalidEncoding ''v1 Grant client id'') else Ok ())"

text \<open>The policy part of \<open>verify\<close>: identity, key separation, time, client and capabilities.\<close>

definition grant_check_claims :: "env \<Rightarrow> grant_claims \<Rightarrow> string \<Rightarrow> u64 \<Rightarrow> unit presult" where
  "grant_check_claims E claims expected_identity now =
     and_then (parse_public_key E expected_identity) (\<lambda>expected.
     if g_iss claims \<noteq> expected then Err IdentityMismatch
     else if g_cnf claims = g_iss claims then Err (InvalidEncoding ''independent v1 Grant cnf'')
     else and_then (validate_bounded_window (g_iat claims) (g_exp claims) now
                      V1_MAX_GRANT_LIFETIME_SECONDS ''v1 Grant lifetime'') (\<lambda>_.
     and_then (grant_check_client_id E claims) (\<lambda>_.
     if g_caps claims = [] \<or> length (g_caps claims) > V1_MAX_GRANT_CAPABILITIES
     then Err (InvalidEncoding ''v1 Grant capabilities'')
     else if \<not> distinct (map (capability_to_string E) (g_caps claims))
     then Err (InvalidEncoding ''duplicate v1 Grant capability'')
     else if \<not> grant_covers_storage E claims
     then Err (MissingCapability (V1_REQUIRED_STORAGE_SCOPE @ '':w''))
     else Ok ())))"

definition grant_verify :: "env \<Rightarrow> v1_grant_authorization \<Rightarrow> string \<Rightarrow> u64 \<Rightarrow> grant_claims presult" where
  "grant_verify E self expected_identity now =
     and_then (grant_decode E (grant_jws self)) (\<lambda>(claims, h, p, s).
     and_then (grant_check_signature E claims h p s) (\<lambda>_.
     and_then (grant_check_claims E claims expected_identity now) (\<lambda>_.
     Ok claims)))"

definition from_jws :: "env \<Rightarrow> string \<Rightarrow> string \<Rightarrow> u64 \<Rightarrow> v1_grant_authorization presult" where
  "from_jws E jws expected_identity now =
     (let authorization = \<lparr>grant_jws = jws\<rparr>
      in and_then (grant_verify E authorization expected_identity now) (\<lambda>_. Ok authorization))"

definition ser_grant_authorization :: "v1_grant_authorization \<Rightarrow> json" where
  "ser_grant_authorization a = ser_struct [''grant_jws''] [JStr (grant_jws a)]"

definition de_grant_authorization :: "json \<Rightarrow> v1_grant_authorization option" where
  "de_grant_authorization j =
     (case de_struct [''grant_jws''] j of
        Some [s] \<Rightarrow> do { s' \<leftarrow> de_string s; Some \<lparr>grant_jws = s'\<rparr> }
      | _ \<Rightarrow> None)"

definition grant_digest_of :: "env \<Rightarrow> v1_grant_authorization \<Rightarrow> string presult" where
  "grant_digest_of E self = canonical_digest E V1_GRANT_DIGEST_DOMAIN (ser_grant_authorization self)"

section \<open>What a verified Grant guarantees\<close>

lemma grant_segments_Ok_iff [ok_iff]:
  "grant_segments jws = Ok (h, p, s) \<longleftrightarrow>
     split_char (CHR ''.'') jws = [h, p, s] \<and> h \<noteq> [] \<and> p \<noteq> [] \<and> s \<noteq> []"
  by (auto simp: grant_segments_def split: list.splits if_splits)

lemma grant_segments_text:
  "grant_segments jws = Ok (h, p, s) \<Longrightarrow> jws = h @ ''.'' @ p @ ''.'' @ s"
  using join_split_char [of "CHR ''.''" jws] by (simp add: ok_iff)

lemma grant_check_client_id_Ok_iff [ok_iff]:
  "grant_check_client_id E claims = Ok () \<longleftrightarrow>
     client_id_as_str E (g_client_id claims) \<noteq> [] \<and>
     length (client_id_as_str E (g_client_id claims)) \<le> 253 \<and>
     \<not> list_ex is_control (str_chars (client_id_as_str E (g_client_id claims))) \<and>
     \<not> list_all is_whitespace (str_chars (client_id_as_str E (g_client_id claims)))"
  by (simp add: grant_check_client_id_def Let_def)

lemma grant_check_claims_Ok_iff:
  "grant_check_claims E claims expected now = Ok () \<longleftrightarrow>
     parse_public_key E expected = Ok (g_iss claims) \<and> g_cnf claims \<noteq> g_iss claims \<and>
     validate_bounded_window (g_iat claims) (g_exp claims) now
       V1_MAX_GRANT_LIFETIME_SECONDS ''v1 Grant lifetime'' = Ok () \<and>
     grant_check_client_id E claims = Ok () \<and>
     g_caps claims \<noteq> [] \<and> length (g_caps claims) \<le> V1_MAX_GRANT_CAPABILITIES \<and>
     distinct (map (capability_to_string E) (g_caps claims)) \<and> grant_covers_storage E claims"
  unfolding grant_check_claims_def and_then_Ok_iff if_Err_Ok_iff by auto

lemma grant_verify_Ok_iff:
  "grant_verify E a expected now = Ok claims \<longleftrightarrow>
     (\<exists>h p s. grant_decode E (grant_jws a) = Ok (claims, h, p, s) \<and>
        grant_check_signature E claims h p s = Ok () \<and>
        grant_check_claims E claims expected now = Ok ())"
  by (auto simp: grant_verify_def and_then_Ok_iff)

lemma grant_verify_identity:
  "grant_verify E a expected now = Ok claims \<Longrightarrow>
   pk_z32 E (g_iss claims) = expected \<and> parse_public_key E expected = Ok (g_iss claims)"
  by (auto simp: grant_verify_Ok_iff grant_check_claims_Ok_iff parse_public_key_Ok_iff)

lemma grant_verify_window:
  "grant_verify E a expected now = Ok claims \<Longrightarrow>
   g_iat claims < g_exp claims \<and> now < g_exp claims \<and> g_cnf claims \<noteq> g_iss claims"
  by (auto simp: grant_verify_Ok_iff grant_check_claims_Ok_iff validate_bounded_window_Ok_iff)

lemma grant_verify_later:
  assumes "grant_verify E a expected now = Ok claims" "now \<le> now'" "now' < g_exp claims"
  shows "grant_verify E a expected now' = Ok claims"
proof -
  have "grant_check_claims E claims expected now = Ok () \<Longrightarrow>
        grant_check_claims E claims expected now' = Ok ()"
    using assms(2,3) validate_bounded_window_later by (auto simp: grant_check_claims_Ok_iff)
  with assms(1) show ?thesis by (auto simp: grant_verify_Ok_iff)
qed

lemma grant_decode_text:
  assumes "grant_decode E jws = Ok (claims, h, p, s)"
  obtains wire b where "claims = into_claims wire"
    "json_to_vec E (ser_grant_wire E wire) = Some b"
    "h = b64_encode E (as_bytes V1_GRANT_HEADER_JSON)" "p = b64_encode E b"
    "jws = h @ ''.'' @ p @ ''.'' @ s"
    "length jws \<le> V1_MAX_GRANT_JWS_BYTES"
proof -
  from assms have seg: "grant_segments jws = Ok (h, p, s)"
    by (auto simp: grant_decode_def and_then_Ok_iff if_Err_Ok_iff)
  from assms obtain wire hb pb where
    "claims = into_claims wire" "b64_encode E hb = h" "hb = as_bytes V1_GRANT_HEADER_JSON"
    "b64_encode E pb = p" "json_to_vec E (ser_grant_wire E wire) = Some pb"
    "length jws \<le> V1_MAX_GRANT_JWS_BYTES"
    by (fastforce simp: grant_decode_def ok_iff)
  with grant_segments_text [OF seg] show ?thesis using that by metis
qed

lemma into_claims_inject: "into_claims w = into_claims w' \<longleftrightarrow> w = w'"
  by (cases w; cases w') (simp add: into_claims_def)

lemma grant_check_signature_Ok_iff:
  "grant_check_signature E claims h p s = Ok () \<longleftrightarrow>
     (\<exists>b sig. b64_decode E s = Some b \<and> b64_encode E b = s \<and> signature_from_slice E b = Some sig \<and>
        pk_verify E (g_iss claims) (as_bytes (h @ ''.'' @ p)) sig)"
  by (auto simp: grant_check_signature_def ok_iff split: if_splits)

section \<open>Canonical Grants verify\<close>

text \<open>
  The JWS a signer of claims produces: the fixed header, the serialised claims and the signature
  over both segments.
\<close>

definition grant_signing_input :: "env \<Rightarrow> bytes \<Rightarrow> string" where
  "grant_signing_input E payload =
     b64_encode E (as_bytes V1_GRANT_HEADER_JSON) @ ''.'' @ b64_encode E payload"

definition canonical_jws :: "env \<Rightarrow> keypair \<Rightarrow> bytes \<Rightarrow> string" where
  "canonical_jws E kp payload =
     (let signed = grant_signing_input E payload
      in signed @ ''.'' @ b64_encode E (signature_to_bytes E (kp_sign E kp (as_bytes signed))))"

definition header_json :: json where
  "header_json = JObj [(''alg'', JStr ''EdDSA''), (''typ'', JStr ''pubky-grant'')]"

lemma b64_no_dot: "b64_alphabet_law E \<Longrightarrow> CHR ''.'' \<notin> set (b64_encode E b)"
proof -
  have "\<not> b64_alphabet (CHR ''.'')"
    by (simp add: b64_alphabet_def is_ascii_alphanumeric_def is_ascii_digit_def Let_def)
  then show "b64_alphabet_law E \<Longrightarrow> CHR ''.'' \<notin> set (b64_encode E b)"
    by (auto simp: b64_alphabet_law_def list_all_iff)
qed

lemma de_ser_grant_wire [serde_simps]:
  "grant_serde_law E \<Longrightarrow> de_grant_wire E (ser_grant_wire E w) = Some w"
  by (simp add: de_grant_wire_def ser_grant_wire_def grant_wire_fields_def grant_serde_law_def
      serde_simps de_ser_vec)

lemma de_header_json: "de_grant_header header_json = Some \<lparr>header_alg = ''EdDSA'', header_typ = ''pubky-grant''\<rparr>"
  by (simp add: de_grant_header_def header_json_def de_struct_def serde_simps)

lemma grant_decode_canonical:
  assumes laws: "b64_law E" "b64_alphabet_law E" "signature_codec_law E" "json_text_law E"
      "grant_serde_law E"
    and header: "json_from_slice E (as_bytes V1_GRANT_HEADER_JSON) = Some header_json"
    and payload: "json_to_vec E (ser_grant_wire E wire) = Some payload" "payload \<noteq> []"
    and size: "length (canonical_jws E kp payload) \<le> V1_MAX_GRANT_JWS_BYTES"
  shows "grant_decode E (canonical_jws E kp payload) =
    Ok (into_claims wire, b64_encode E (as_bytes V1_GRANT_HEADER_JSON), b64_encode E payload,
        b64_encode E (signature_to_bytes E (kp_sign E kp (as_bytes (grant_signing_input E payload)))))"
proof -
  let ?h = "b64_encode E (as_bytes V1_GRANT_HEADER_JSON)" and ?p = "b64_encode E payload"
  let ?s = "b64_encode E (signature_to_bytes E (kp_sign E kp (as_bytes (grant_signing_input E payload))))"
  have jws: "canonical_jws E kp payload = ?h @ ''.'' @ ?p @ ''.'' @ ?s"
    by (simp add: canonical_jws_def grant_signing_input_def Let_def)
  have "as_bytes V1_GRANT_HEADER_JSON \<noteq> []"
    by (simp add: as_bytes_def V1_GRANT_HEADER_JSON_def Let_def)
  moreover have "signature_to_bytes E x \<noteq> []" for x
    using laws(3) by (metis length_0_conv signature_codec_law_def zero_neq_numeral)
  ultimately have "grant_segments (canonical_jws E kp payload) = Ok (?h, ?p, ?s)"
    unfolding jws grant_segments_Ok_iff using laws(1,2) payload(2)
    by (simp add: split_char_append split_char_no b64_no_dot b64_encode_Nil_iff)
  moreover have "json_from_slice E payload = Some (ser_grant_wire E wire)"
    using laws(4) payload(1) by (simp add: json_text_law_def)
  moreover have "decode_canonical_base64 E (b64_encode E b) l = Ok b" for b l
    using laws(1) by (simp add: decode_canonical_base64_Ok_iff b64_law_def)
  moreover have "canonical_jws E kp payload \<noteq> []" by (simp add: jws)
  ultimately show ?thesis
    using size header payload(1) laws(5)
    by (simp add: grant_decode_def de_header_json serde_simps)
qed

lemma grant_verify_canonical:
  assumes laws: "b64_law E" "b64_alphabet_law E" "signature_codec_law E" "json_text_law E"
      "grant_serde_law E" "signing_law E"
    and header: "json_from_slice E (as_bytes V1_GRANT_HEADER_JSON) = Some header_json"
    and payload: "json_to_vec E (ser_grant_wire E wire) = Some payload" "payload \<noteq> []"
    and size: "length (canonical_jws E kp payload) \<le> V1_MAX_GRANT_JWS_BYTES"
    and signer: "w_iss wire = kp_public_key E kp"
    and claims: "grant_check_claims E (into_claims wire) expected now = Ok ()"
  shows "grant_verify E \<lparr>grant_jws = canonical_jws E kp payload\<rparr> expected now = Ok (into_claims wire)"
proof -
  have "g_iss (into_claims wire) = kp_public_key E kp" using signer by (simp add: into_claims_def)
  then have "grant_check_signature E (into_claims wire) (b64_encode E (as_bytes V1_GRANT_HEADER_JSON))
      (b64_encode E payload)
      (b64_encode E (signature_to_bytes E (kp_sign E kp (as_bytes (grant_signing_input E payload))))) = Ok ()"
    using laws(1,3,6)
    by (simp add: grant_check_signature_Ok_iff b64_law_def signature_codec_law_def signing_law_def
        grant_signing_input_def)
  then show ?thesis
    using claims grant_decode_canonical [OF laws(1-5) header payload size]
    by (simp add: grant_verify_Ok_iff)
qed

section \<open>Serialisation\<close>

lemma de_ser_grant_authorization [serde_simps]:
  "de_grant_authorization (ser_grant_authorization a) = Some a"
  by (simp add: de_grant_authorization_def ser_grant_authorization_def serde_simps)

lemma de_norm_grant_authorization [serde_simps]:
  "de_grant_authorization (jcs_norm (ser_grant_authorization a)) = Some a"
  by (simp add: de_grant_authorization_def ser_grant_authorization_def serde_simps)

lemma exact_ser_grant_authorization [simp]: "exact_numbers (ser_grant_authorization a)"
  by (simp add: ser_grant_authorization_def ser_struct_def)

end
