(* ===== verification/Device.thy ===== *)
theory Device
  imports Grant
begin

text \<open>
  Device certificates, drafts and credentials (\<open>V1DeviceCertificate\<close>,
  \<open>V1DeviceCredentialDraft\<close>, \<open>V1DeviceCredential\<close> of \<open>crates/protocol/src/v1.rs\<close>): the
  delegation from the Grant's \<open>cnf\<close> key to the device's control and iroh keys. Random key pairs
  are arguments of the operations that draw them. The lemmas show what a verified certificate
  binds, that it stays valid until it or its Grant expires, and that issuing succeeds exactly as
  documented.
\<close>

section \<open>Certificate\<close>

record v1_device_certificate_claims =
  cc_version :: u16
  cc_identity :: string
  cc_grant_digest :: string
  cc_grant_jti :: string
  cc_client_id :: string
  cc_grant_cnf_key :: string
  cc_device_id :: string
  cc_control_signing_key :: string
  cc_iroh_endpoint_id :: string
  cc_issued_at :: u64
  cc_expires_at :: u64

record v1_device_certificate =
  c_claims :: v1_device_certificate_claims
  c_signature :: string

definition certificate_claims_fields :: "string list" where
  "certificate_claims_fields =
     [''version'', ''identity'', ''grant_digest'', ''grant_jti'', ''client_id'', ''grant_cnf_key'',
      ''device_id'', ''control_signing_key'', ''iroh_endpoint_id'', ''issued_at'', ''expires_at'']"

definition ser_certificate_claims :: "v1_device_certificate_claims \<Rightarrow> json" where
  "ser_certificate_claims c = ser_struct certificate_claims_fields
     [ser_uint (cc_version c), JStr (cc_identity c), JStr (cc_grant_digest c),
      JStr (cc_grant_jti c), JStr (cc_client_id c), JStr (cc_grant_cnf_key c),
      JStr (cc_device_id c), JStr (cc_control_signing_key c), JStr (cc_iroh_endpoint_id c),
      ser_uint (cc_issued_at c), ser_uint (cc_expires_at c)]"

definition de_certificate_claims :: "json \<Rightarrow> v1_device_certificate_claims option" where
  "de_certificate_claims j =
     (case de_struct certificate_claims_fields j of
        Some [a, b, c, d, e, f, g, h, i, k, l] \<Rightarrow> do {
          a' \<leftarrow> de_uint a; b' \<leftarrow> de_string b; c' \<leftarrow> de_string c; d' \<leftarrow> de_string d;
          e' \<leftarrow> de_string e; f' \<leftarrow> de_string f; g' \<leftarrow> de_string g; h' \<leftarrow> de_string h;
          i' \<leftarrow> de_string i; k' \<leftarrow> de_uint k; l' \<leftarrow> de_uint l;
          Some \<lparr>cc_version = a', cc_identity = b', cc_grant_digest = c', cc_grant_jti = d',
            cc_client_id = e', cc_grant_cnf_key = f', cc_device_id = g',
            cc_control_signing_key = h', cc_iroh_endpoint_id = i', cc_issued_at = k',
            cc_expires_at = l'\<rparr> }
      | _ \<Rightarrow> None)"

definition ser_certificate :: "v1_device_certificate \<Rightarrow> json" where
  "ser_certificate c =
     ser_struct [''claims'', ''signature''] [ser_certificate_claims (c_claims c), JStr (c_signature c)]"

definition de_certificate :: "json \<Rightarrow> v1_device_certificate option" where
  "de_certificate j =
     (case de_struct [''claims'', ''signature''] j of
        Some [a, b] \<Rightarrow> do { a' \<leftarrow> de_certificate_claims a; b' \<leftarrow> de_string b;
                            Some \<lparr>c_claims = a', c_signature = b'\<rparr> }
      | _ \<Rightarrow> None)"

definition control_public_key :: "env \<Rightarrow> v1_device_certificate \<Rightarrow> public_key presult" where
  "control_public_key E self = parse_public_key E (cc_control_signing_key (c_claims self))"

text \<open>The comparison of the claims with the Grant, and the separation of the four keys.\<close>

definition certificate_check_bindings ::
  "env \<Rightarrow> v1_device_certificate_claims \<Rightarrow> v1_grant_authorization \<Rightarrow> grant_claims \<Rightarrow> unit presult" where
  "certificate_check_bindings E claims authorization grant =
     and_then (validate_device_id (cc_device_id claims)) (\<lambda>_.
     and_then (validate_digest E (cc_grant_digest claims) ''v1 Grant digest'') (\<lambda>_.
     and_then (grant_digest_of E authorization) (\<lambda>digest.
     if cc_grant_digest claims \<noteq> digest
       \<or> cc_grant_jti claims \<noteq> grant_id_as_str E (g_jti grant)
       \<or> cc_client_id claims \<noteq> client_id_as_str E (g_client_id grant)
       \<or> cc_grant_cnf_key claims \<noteq> pk_z32 E (g_cnf grant)
     then Err DeviceMismatch else Ok ())))"

definition certificate_check_keys ::
  "env \<Rightarrow> v1_device_certificate_claims \<Rightarrow> grant_claims \<Rightarrow> public_key presult" where
  "certificate_check_keys E claims grant =
     and_then (parse_public_key E (cc_identity claims)) (\<lambda>root.
     and_then (parse_public_key E (cc_grant_cnf_key claims)) (\<lambda>cnf.
     and_then (parse_public_key E (cc_control_signing_key claims)) (\<lambda>control.
     and_then (parse_public_key E (cc_iroh_endpoint_id claims)) (\<lambda>iroh.
     if control = iroh \<or> control = root \<or> control = cnf \<or> iroh = root \<or> iroh = cnf
       \<or> cnf \<noteq> g_cnf grant
     then Err (InvalidEncoding ''independent v1 device keys'') else Ok cnf))))"

definition certificate_verify ::
  "env \<Rightarrow> v1_device_certificate \<Rightarrow> v1_grant_authorization \<Rightarrow> string \<Rightarrow> u64 \<Rightarrow> unit presult" where
  "certificate_verify E self authorization expected_identity now =
     and_then (grant_verify E authorization expected_identity now) (\<lambda>grant.
     if cc_version (c_claims self) \<noteq> V1_PROTOCOL_VERSION
     then Err (UnsupportedVersion (cc_version (c_claims self)))
     else if cc_identity (c_claims self) \<noteq> expected_identity
       \<or> cc_identity (c_claims self) \<noteq> pk_z32 E (g_iss grant)
     then Err IdentityMismatch
     else and_then (certificate_check_bindings E (c_claims self) authorization grant) (\<lambda>_.
     and_then (validate_bounded_window (cc_issued_at (c_claims self)) (cc_expires_at (c_claims self))
                 now V1_MAX_DEVICE_CERTIFICATE_LIFETIME_SECONDS ''v1 certificate lifetime'') (\<lambda>_.
     if cc_issued_at (c_claims self) < g_iat grant \<or> cc_expires_at (c_claims self) > g_exp grant
     then Err InvalidTimeWindow
     else and_then (certificate_check_keys E (c_claims self) grant) (\<lambda>cnf.
     verify_signature E cnf V1_CERTIFICATE_DOMAIN (ser_certificate_claims (c_claims self))
       (c_signature self)))))"

definition certificate_digest :: "env \<Rightarrow> v1_device_certificate \<Rightarrow> string presult" where
  "certificate_digest E self = canonical_digest E V1_CERTIFICATE_DIGEST_DOMAIN (ser_certificate self)"

section \<open>Credential\<close>

record v1_device_credential_draft =
  d_authorization :: v1_grant_authorization
  d_certificate_claims :: v1_device_certificate_claims
  d_control_signing_secret :: string
  d_iroh_secret :: string

record v1_device_credential =
  cr_authorization :: v1_grant_authorization
  cr_certificate :: v1_device_certificate
  cr_control_signing_secret :: string
  cr_iroh_secret :: string

definition certificate_signing_bytes :: "env \<Rightarrow> v1_device_credential_draft \<Rightarrow> bytes presult" where
  "certificate_signing_bytes E self =
     canonical_for_signing E V1_CERTIFICATE_DOMAIN (ser_certificate_claims (d_certificate_claims self))"

definition cr_identity :: "v1_device_credential \<Rightarrow> string" where
  "cr_identity self = cc_identity (c_claims (cr_certificate self))"
definition cr_device_id :: "v1_device_credential \<Rightarrow> string" where
  "cr_device_id self = cc_device_id (c_claims (cr_certificate self))"
definition cr_control_signing_key :: "v1_device_credential \<Rightarrow> string" where
  "cr_control_signing_key self = cc_control_signing_key (c_claims (cr_certificate self))"
definition cr_iroh_endpoint_id :: "v1_device_credential \<Rightarrow> string" where
  "cr_iroh_endpoint_id self = cc_iroh_endpoint_id (c_claims (cr_certificate self))"

lemmas cr_defs = cr_identity_def cr_device_id_def cr_control_signing_key_def cr_iroh_endpoint_id_def

definition decode_secret :: "env \<Rightarrow> string \<Rightarrow> string \<Rightarrow> string \<Rightarrow> keypair presult" where
  "decode_secret E encoded public label =
     and_then (decode_canonical_base64 E encoded label) (\<lambda>b.
     if length b \<noteq> 32 then Err (InvalidEncoding label)
     else (let key = kp_from_secret E b
           in if pk_z32 E (kp_public_key E key) \<noteq> public then Err (InvalidEncoding label)
              else Ok key))"

definition control_key :: "env \<Rightarrow> v1_device_credential \<Rightarrow> keypair presult" where
  "control_key E self =
     decode_secret E (cr_control_signing_secret self) (cr_control_signing_key self)
       ''v1 control-signing secret''"

definition iroh_secret_key_bytes :: "env \<Rightarrow> v1_device_credential \<Rightarrow> bytes presult" where
  "iroh_secret_key_bytes E self =
     and_then (decode_secret E (cr_iroh_secret self) (cr_iroh_endpoint_id self) ''v1 iroh secret'')
       (\<lambda>key. Ok (kp_secret E key))"

definition credential_verify :: "env \<Rightarrow> v1_device_credential \<Rightarrow> u64 \<Rightarrow> unit presult" where
  "credential_verify E self now =
     and_then (certificate_verify E (cr_certificate self) (cr_authorization self) (cr_identity self) now) (\<lambda>_.
     and_then (control_key E self) (\<lambda>_.
     and_then (iroh_secret_key_bytes E self) (\<lambda>_.
     Ok ())))"

text \<open>\<open>prepare\<close> draws two random key pairs, which are arguments here.\<close>

definition prepare ::
  "env \<Rightarrow> keypair \<Rightarrow> keypair \<Rightarrow> v1_grant_authorization \<Rightarrow> string \<Rightarrow> string \<Rightarrow> u64 \<Rightarrow> u64 \<Rightarrow>
   v1_device_credential_draft presult" where
  "prepare E control iroh authorization expected_identity device_id issued_at expires_at =
     and_then (grant_verify E authorization expected_identity issued_at) (\<lambda>grant.
     and_then (validate_device_id device_id) (\<lambda>_.
     and_then (validate_bounded_window issued_at expires_at issued_at
                 V1_MAX_DEVICE_CERTIFICATE_LIFETIME_SECONDS ''v1 certificate lifetime'') (\<lambda>_.
     if issued_at < g_iat grant \<or> expires_at > g_exp grant then Err InvalidTimeWindow
     else and_then (grant_digest_of E authorization) (\<lambda>digest.
     Ok \<lparr>d_authorization = authorization,
         d_certificate_claims =
           \<lparr>cc_version = V1_PROTOCOL_VERSION, cc_identity = pk_z32 E (g_iss grant),
            cc_grant_digest = digest, cc_grant_jti = grant_id_as_str E (g_jti grant),
            cc_client_id = client_id_as_str E (g_client_id grant),
            cc_grant_cnf_key = pk_z32 E (g_cnf grant), cc_device_id = device_id,
            cc_control_signing_key = pk_z32 E (kp_public_key E control),
            cc_iroh_endpoint_id = pk_z32 E (kp_public_key E iroh),
            cc_issued_at = issued_at, cc_expires_at = expires_at\<rparr>,
         d_control_signing_secret = b64_encode E (kp_secret E control),
         d_iroh_secret = b64_encode E (kp_secret E iroh)\<rparr>))))"

definition finalize :: "env \<Rightarrow> v1_device_credential_draft \<Rightarrow> bytes \<Rightarrow> v1_device_credential presult" where
  "finalize E self signature =
     and_then (ok_or (signature_from_slice E signature)
                 (InvalidEncoding ''v1 certificate signature'')) (\<lambda>sig.
     (let credential =
        \<lparr>cr_authorization = d_authorization self,
         cr_certificate = \<lparr>c_claims = d_certificate_claims self, c_signature = encode_signature E sig\<rparr>,
         cr_control_signing_secret = d_control_signing_secret self,
         cr_iroh_secret = d_iroh_secret self\<rparr>
      in and_then (credential_verify E credential (cc_issued_at (d_certificate_claims self)))
           (\<lambda>_. Ok credential)))"

definition issue ::
  "env \<Rightarrow> keypair \<Rightarrow> keypair \<Rightarrow> v1_grant_authorization \<Rightarrow> string \<Rightarrow> keypair \<Rightarrow> string \<Rightarrow> u64 \<Rightarrow> u64 \<Rightarrow>
   v1_device_credential presult" where
  "issue E control iroh authorization expected_identity grant_cnf device_id issued_at expires_at =
     and_then (prepare E control iroh authorization expected_identity device_id issued_at expires_at) (\<lambda>draft.
     if cc_grant_cnf_key (d_certificate_claims draft) \<noteq> pk_z32 E (kp_public_key E grant_cnf)
     then Err DeviceMismatch
     else and_then (certificate_signing_bytes E draft) (\<lambda>m.
     finalize E draft (signature_to_bytes E (kp_sign E grant_cnf m))))"

section \<open>What a verified certificate guarantees\<close>

lemma certificate_check_bindings_Ok_iff [ok_iff]:
  "certificate_check_bindings E claims a grant = Ok () \<longleftrightarrow>
     validate_device_id (cc_device_id claims) = Ok () \<and>
     validate_digest E (cc_grant_digest claims) ''v1 Grant digest'' = Ok () \<and>
     grant_digest_of E a = Ok (cc_grant_digest claims) \<and>
     cc_grant_jti claims = grant_id_as_str E (g_jti grant) \<and>
     cc_client_id claims = client_id_as_str E (g_client_id grant) \<and>
     cc_grant_cnf_key claims = pk_z32 E (g_cnf grant)"
  unfolding certificate_check_bindings_def and_then_Ok_iff if_Err_Ok_iff by auto

lemma certificate_check_keys_Ok_iff [ok_iff]:
  "certificate_check_keys E claims grant = Ok cnf \<longleftrightarrow>
     cnf = g_cnf grant \<and> parse_public_key E (cc_grant_cnf_key claims) = Ok cnf \<and>
     (\<exists>root control iroh. parse_public_key E (cc_identity claims) = Ok root \<and>
        parse_public_key E (cc_control_signing_key claims) = Ok control \<and>
        parse_public_key E (cc_iroh_endpoint_id claims) = Ok iroh \<and>
        control \<noteq> iroh \<and> control \<noteq> root \<and> control \<noteq> cnf \<and> iroh \<noteq> root \<and> iroh \<noteq> cnf)"
  unfolding certificate_check_keys_def and_then_Ok_iff if_Err_Ok_iff by auto

lemma certificate_verify_Ok_iff:
  "certificate_verify E c a expected now = Ok () \<longleftrightarrow>
     (\<exists>grant. grant_verify E a expected now = Ok grant \<and>
        cc_version (c_claims c) = V1_PROTOCOL_VERSION \<and>
        cc_identity (c_claims c) = expected \<and> expected = pk_z32 E (g_iss grant) \<and>
        certificate_check_bindings E (c_claims c) a grant = Ok () \<and>
        validate_bounded_window (cc_issued_at (c_claims c)) (cc_expires_at (c_claims c)) now
          V1_MAX_DEVICE_CERTIFICATE_LIFETIME_SECONDS ''v1 certificate lifetime'' = Ok () \<and>
        g_iat grant \<le> cc_issued_at (c_claims c) \<and> cc_expires_at (c_claims c) \<le> g_exp grant \<and>
        certificate_check_keys E (c_claims c) grant = Ok (g_cnf grant) \<and>
        verify_signature E (g_cnf grant) V1_CERTIFICATE_DOMAIN (ser_certificate_claims (c_claims c))
          (c_signature c) = Ok ())"
  unfolding certificate_verify_def and_then_Ok_iff if_Err_Ok_iff
  by (auto simp: certificate_check_keys_Ok_iff)

lemma certificate_verify_later:
  assumes "certificate_verify E c a expected now = Ok ()" "now \<le> now'"
    "now' < cc_expires_at (c_claims c)"
  shows "certificate_verify E c a expected now' = Ok ()"
  using assms unfolding certificate_verify_Ok_iff
  by (meson grant_verify_later order_less_le_trans validate_bounded_window_later)

lemma certificate_verify_identity:
  "certificate_verify E c a expected now = Ok () \<Longrightarrow> cc_identity (c_claims c) = expected"
  by (auto simp: certificate_verify_Ok_iff)

lemma certificate_verify_window:
  "certificate_verify E c a expected now = Ok () \<Longrightarrow>
   cc_issued_at (c_claims c) < cc_expires_at (c_claims c) \<and> now < cc_expires_at (c_claims c)"
  by (auto simp: certificate_verify_Ok_iff validate_bounded_window_Ok_iff)

lemma certificate_verify_keys:
  assumes "certificate_verify E c a expected now = Ok ()"
  obtains control iroh cnf where
    "parse_public_key E (cc_control_signing_key (c_claims c)) = Ok control"
    "parse_public_key E (cc_iroh_endpoint_id (c_claims c)) = Ok iroh"
    "parse_public_key E (cc_grant_cnf_key (c_claims c)) = Ok cnf"
  using assms by (auto simp: certificate_verify_Ok_iff certificate_check_keys_Ok_iff)

lemma decode_secret_Ok_iff [ok_iff]:
  "decode_secret E s public l = Ok kp \<longleftrightarrow>
     (\<exists>b. b64_decode E s = Some b \<and> b64_encode E b = s \<and> length b = 32 \<and> kp = kp_from_secret E b \<and>
        pk_z32 E (kp_public_key E kp) = public)"
  by (auto simp: decode_secret_def Let_def ok_iff)

lemma credential_verify_Ok_iff:
  "credential_verify E c now = Ok () \<longleftrightarrow>
     certificate_verify E (cr_certificate c) (cr_authorization c) (cr_identity c) now = Ok () \<and>
     (\<exists>kp. control_key E c = Ok kp) \<and> (\<exists>b. iroh_secret_key_bytes E c = Ok b)"
  by (auto simp: credential_verify_def and_then_Ok_iff)

lemma credential_verify_later:
  "credential_verify E c now = Ok () \<Longrightarrow> now \<le> now' \<Longrightarrow>
   now' < cc_expires_at (c_claims (cr_certificate c)) \<Longrightarrow> credential_verify E c now' = Ok ()"
  by (auto simp: credential_verify_Ok_iff intro: certificate_verify_later)

lemma control_key_public:
  "control_key E c = Ok kp \<Longrightarrow> pk_z32 E (kp_public_key E kp) = cr_control_signing_key c"
  by (auto simp: control_key_def ok_iff)

text \<open>A control key that matches the certificate is the key \<open>control_public_key\<close> parses.\<close>

lemma control_key_parses:
  "z32_law E \<Longrightarrow> control_key E c = Ok kp \<Longrightarrow>
   control_public_key E (cr_certificate c) = Ok (kp_public_key E kp)"
  using control_key_public [of E c kp]
  by (metis control_public_key_def cr_control_signing_key_def parse_public_key_Ok_iff z32_law_def)

lemma finalize_Ok_iff:
  "finalize E d s = Ok c \<longleftrightarrow>
     (\<exists>sig. signature_from_slice E s = Some sig \<and>
        c = \<lparr>cr_authorization = d_authorization d,
             cr_certificate = \<lparr>c_claims = d_certificate_claims d, c_signature = encode_signature E sig\<rparr>,
             cr_control_signing_secret = d_control_signing_secret d,
             cr_iroh_secret = d_iroh_secret d\<rparr> \<and>
        credential_verify E c (cc_issued_at (d_certificate_claims d)) = Ok ())"
  by (auto simp: finalize_def Let_def ok_iff)

interpretation certificate: expiring
  "\<lambda>(c, a, expected). certificate_verify E c a expected"
  "\<lambda>(c, a, expected). cc_expires_at (c_claims c)" for E
  by unfold_locales (auto dest: certificate_verify_window intro: certificate_verify_later)

interpretation credential: expiring
  "credential_verify E" "\<lambda>c. cc_expires_at (c_claims (cr_certificate c))" for E
  by unfold_locales
    (auto simp: credential_verify_Ok_iff dest: certificate_verify_window
      intro: certificate_verify_later)

section \<open>Serialisation\<close>

lemma distinct_certificate_claims_fields [simp]: "distinct certificate_claims_fields"
  by (simp add: certificate_claims_fields_def)

lemma length_certificate_claims_fields [simp]: "length certificate_claims_fields = 11"
  by (simp add: certificate_claims_fields_def)

lemma de_ser_certificate_claims [serde_simps]:
  "de_certificate_claims (ser_certificate_claims c) = Some c"
  by (simp add: de_certificate_claims_def ser_certificate_claims_def serde_simps)

lemma de_norm_certificate_claims [serde_simps]:
  "de_certificate_claims (jcs_norm (ser_certificate_claims c)) = Some c"
  by (simp add: de_certificate_claims_def ser_certificate_claims_def serde_simps)

lemma de_ser_certificate [serde_simps]: "de_certificate (ser_certificate c) = Some c"
  by (simp add: de_certificate_def ser_certificate_def serde_simps)

lemma de_norm_certificate [serde_simps]: "de_certificate (jcs_norm (ser_certificate c)) = Some c"
  by (simp add: de_certificate_def ser_certificate_def serde_simps)

text \<open>Times that a double represents exactly.\<close>

definition exact_time :: "u64 \<Rightarrow> bool" where
  "exact_time t = (unat t \<le> 2 ^ 53)"

lemma exact_u16 [simp]: "exact_numbers (ser_uint (w :: u16))"
proof -
  have "unat w < 2 ^ 16" using unat_lt_2p [of w] by simp
  then show ?thesis by (simp add: ser_uint_def)
qed

lemma exact_ser_certificate [simp]:
  "exact_numbers (ser_certificate c) \<longleftrightarrow>
     exact_time (cc_issued_at (c_claims c)) \<and> exact_time (cc_expires_at (c_claims c))"
  by (simp add: ser_certificate_def ser_certificate_claims_def ser_struct_def
      certificate_claims_fields_def exact_time_def ser_uint_def [where 'a = 64])

section \<open>Issuing\<close>

text \<open>The secret a key pair is stored as decodes to the key pair.\<close>

lemma decode_secret_encoded:
  "b64_law E \<Longrightarrow> keypair_law E \<Longrightarrow>
   decode_secret E (b64_encode E (kp_secret E kp)) (pk_z32 E (kp_public_key E kp)) l = Ok kp"
  by (simp add: decode_secret_Ok_iff b64_law_def keypair_law_def)

lemma parse_public_key_z32: "z32_law E \<Longrightarrow> parse_public_key E (pk_z32 E k) = Ok k"
  by (simp add: parse_public_key_Ok_iff z32_law_def)

lemma grant_digest_total: "jcs_total_law E \<Longrightarrow> \<exists>d. grant_digest_of E a = Ok d"
  by (simp add: grant_digest_of_def canonical_digest_total)

definition key_pairs_independent :: "env \<Rightarrow> grant_claims \<Rightarrow> keypair \<Rightarrow> keypair \<Rightarrow> bool" where
  "key_pairs_independent E g control iroh =
     distinct [g_iss g, g_cnf g, kp_public_key E control, kp_public_key E iroh]"

lemma certificate_check_keys_fresh:
  assumes "z32_law E" "key_pairs_independent E g control iroh"
    and "cc_identity c = pk_z32 E (g_iss g)" "cc_grant_cnf_key c = pk_z32 E (g_cnf g)"
    and "cc_control_signing_key c = pk_z32 E (kp_public_key E control)"
    and "cc_iroh_endpoint_id c = pk_z32 E (kp_public_key E iroh)"
  shows "certificate_check_keys E c g = Ok (g_cnf g)"
  using assms by (auto simp: certificate_check_keys_Ok_iff parse_public_key_z32 key_pairs_independent_def)

text \<open>
  Issuing succeeds for a valid Grant, fresh keys and a window inside the Grant's, and the
  credential verifies throughout its window.
\<close>

lemma issue_complete:
  assumes laws: "b64_law E" "sha256_law E" "signature_codec_law E" "signing_law E" "z32_law E"
      "keypair_law E" "jcs_total_law E"
    and grant: "grant_verify E a expected iss = Ok g"
    and input: "validate_device_id dev = Ok ()"
      "validate_bounded_window iss ex iss V1_MAX_DEVICE_CERTIFICATE_LIFETIME_SECONDS
         ''v1 certificate lifetime'' = Ok ()"
      "g_iat g \<le> iss" "ex \<le> g_exp g" "exact_time iss" "exact_time ex"
    and keys: "kp_public_key E cnf = g_cnf g" "key_pairs_independent E g control iroh"
  obtains c where "issue E control iroh a expected cnf dev iss ex = Ok c"
    "credential_verify E c iss = Ok ()" "cr_authorization c = a" "cr_identity c = expected"
    "cc_expires_at (c_claims (cr_certificate c)) = ex"
    "cc_issued_at (c_claims (cr_certificate c)) = iss"
    "cr_control_signing_key c = pk_z32 E (kp_public_key E control)"
    "cr_iroh_endpoint_id c = pk_z32 E (kp_public_key E iroh)"
    "control_key E c = Ok control" "cc_device_id (c_claims (cr_certificate c)) = dev"
proof -
  obtain gd where gd: "grant_digest_of E a = Ok gd" using grant_digest_total laws(7) by blast
  define cl where "cl = \<lparr>cc_version = V1_PROTOCOL_VERSION, cc_identity = pk_z32 E (g_iss g),
      cc_grant_digest = gd, cc_grant_jti = grant_id_as_str E (g_jti g),
      cc_client_id = client_id_as_str E (g_client_id g), cc_grant_cnf_key = pk_z32 E (g_cnf g),
      cc_device_id = dev, cc_control_signing_key = pk_z32 E (kp_public_key E control),
      cc_iroh_endpoint_id = pk_z32 E (kp_public_key E iroh), cc_issued_at = iss, cc_expires_at = ex\<rparr>"
  define draft where "draft = \<lparr>d_authorization = a, d_certificate_claims = cl,
      d_control_signing_secret = b64_encode E (kp_secret E control),
      d_iroh_secret = b64_encode E (kp_secret E iroh)\<rparr>"
  have prep: "prepare E control iroh a expected dev iss ex = Ok draft"
    using grant input gd by (simp add: prepare_def draft_def cl_def not_less)
  have "exact_numbers (ser_certificate_claims cl)"
    using exact_ser_certificate [of "\<lparr>c_claims = cl, c_signature = []\<rparr>"] input(5,6)
    by (simp add: ser_certificate_def ser_struct_def cl_def)
  then obtain m where m: "canonical_for_signing E V1_CERTIFICATE_DOMAIN (ser_certificate_claims cl) = Ok m"
    using canonical_for_signing_total laws(7) by blast
  define c where "c = \<lparr>cr_authorization = a,
      cr_certificate = \<lparr>c_claims = cl, c_signature = encode_signature E (kp_sign E cnf m)\<rparr>,
      cr_control_signing_secret = b64_encode E (kp_secret E control),
      cr_iroh_secret = b64_encode E (kp_secret E iroh)\<rparr>"
  have sig: "verify_signature E (g_cnf g) V1_CERTIFICATE_DOMAIN (ser_certificate_claims cl)
      (encode_signature E (kp_sign E cnf m)) = Ok ()"
    using verify_signature_sign [OF laws(1,3,4) m keys(1) [symmetric]] .
  have bind: "certificate_check_bindings E cl a g = Ok ()"
    using gd input(1) canonical_digest_valid [OF laws(1,2)] gd
    by (simp add: certificate_check_bindings_Ok_iff cl_def grant_digest_of_def)
  have key: "certificate_check_keys E cl g = Ok (g_cnf g)"
    by (rule certificate_check_keys_fresh [OF laws(5) keys(2)]) (simp_all add: cl_def)
  have id: "pk_z32 E (g_iss g) = expected" using grant_verify_identity [OF grant] by simp
  have ctrl: "control_key E c = Ok control" and iroh: "iroh_secret_key_bytes E c = Ok (kp_secret E iroh)"
    using decode_secret_encoded [OF laws(1,6)]
    by (simp_all add: control_key_def iroh_secret_key_bytes_def c_def cr_defs cl_def)
  have "certificate_verify E (cr_certificate c) a expected iss = Ok ()"
    unfolding certificate_verify_Ok_iff
    using grant bind key sig id input by (auto simp: c_def cl_def)
  then have cred: "credential_verify E c iss = Ok ()"
    using ctrl iroh id by (simp add: credential_verify_Ok_iff cr_identity_def) (simp add: c_def cl_def)
  have "finalize E draft (signature_to_bytes E (kp_sign E cnf m)) = Ok c"
    using cred laws(3) by (auto simp: finalize_Ok_iff c_def draft_def cl_def signature_codec_law_def)
  then have "issue E control iroh a expected cnf dev iss ex = Ok c"
    using prep m keys(1) by (simp add: issue_def certificate_signing_bytes_def draft_def cl_def)
  then show ?thesis
    using that [of c] cred ctrl id by (simp add: c_def cl_def cr_defs)
qed

end
