(* ===== verification/Device_Record.thy ===== *)
theory Device_Record
  imports Device
begin

text \<open>
  Signed locators and self-contained device records (\<open>V1SignedLocator\<close>,
  \<open>V1DeviceRecord\<close> and their paths, \<open>crates/protocol/src/v1.rs\<close>). The lemmas show the chain
  of trust a verified record carries, that a record signed by a valid credential verifies until
  its locator expires, that its digest binds its contents, and that its JSON text decodes to it.
\<close>

section \<open>Locator\<close>

record v1_locator_claims =
  lc_version :: u16
  lc_identity :: string
  lc_grant_digest :: string
  lc_device_certificate_digest :: string
  lc_control_signing_key :: string
  lc_iroh_endpoint_id :: string
  lc_relay_urls :: "url list"
  lc_alpn :: string
  lc_instance_nonce :: string
  lc_sequence :: u64
  lc_issued_at :: u64
  lc_expires_at :: u64

record v1_signed_locator =
  l_claims :: v1_locator_claims
  l_signature :: string

definition locator_claims_fields :: "string list" where
  "locator_claims_fields =
     [''version'', ''identity'', ''grant_digest'', ''device_certificate_digest'',
      ''control_signing_key'', ''iroh_endpoint_id'', ''relay_urls'', ''alpn'', ''instance_nonce'',
      ''sequence'', ''issued_at'', ''expires_at'']"

definition ser_locator_claims :: "env \<Rightarrow> v1_locator_claims \<Rightarrow> json" where
  "ser_locator_claims E c = ser_struct locator_claims_fields
     [ser_uint (lc_version c), JStr (lc_identity c), JStr (lc_grant_digest c),
      JStr (lc_device_certificate_digest c), JStr (lc_control_signing_key c),
      JStr (lc_iroh_endpoint_id c), ser_vec (ser (url_serde E)) (lc_relay_urls c),
      JStr (lc_alpn c), JStr (lc_instance_nonce c), ser_uint (lc_sequence c),
      ser_uint (lc_issued_at c), ser_uint (lc_expires_at c)]"

definition de_locator_claims :: "env \<Rightarrow> json \<Rightarrow> v1_locator_claims option" where
  "de_locator_claims E j =
     (case de_struct locator_claims_fields j of
        Some [a, b, c, d, e, f, g, h, i, k, l, m] \<Rightarrow> do {
          a' \<leftarrow> de_uint a; b' \<leftarrow> de_string b; c' \<leftarrow> de_string c; d' \<leftarrow> de_string d;
          e' \<leftarrow> de_string e; f' \<leftarrow> de_string f; g' \<leftarrow> de_vec (de (url_serde E)) g;
          h' \<leftarrow> de_string h; i' \<leftarrow> de_string i; k' \<leftarrow> de_uint k; l' \<leftarrow> de_uint l; m' \<leftarrow> de_uint m;
          Some \<lparr>lc_version = a', lc_identity = b', lc_grant_digest = c',
            lc_device_certificate_digest = d', lc_control_signing_key = e',
            lc_iroh_endpoint_id = f', lc_relay_urls = g', lc_alpn = h', lc_instance_nonce = i',
            lc_sequence = k', lc_issued_at = l', lc_expires_at = m'\<rparr> }
      | _ \<Rightarrow> None)"

definition ser_locator :: "env \<Rightarrow> v1_signed_locator \<Rightarrow> json" where
  "ser_locator E l =
     ser_struct [''claims'', ''signature''] [ser_locator_claims E (l_claims l), JStr (l_signature l)]"

definition de_locator :: "env \<Rightarrow> json \<Rightarrow> v1_signed_locator option" where
  "de_locator E j =
     (case de_struct [''claims'', ''signature''] j of
        Some [a, b] \<Rightarrow> do { a' \<leftarrow> de_locator_claims E a; b' \<leftarrow> de_string b;
                            Some \<lparr>l_claims = a', l_signature = b'\<rparr> }
      | _ \<Rightarrow> None)"

definition locator_validate_claims ::
  "env \<Rightarrow> v1_locator_claims \<Rightarrow> v1_grant_authorization \<Rightarrow> v1_device_certificate \<Rightarrow> string \<Rightarrow> u64 \<Rightarrow>
   bool \<Rightarrow> u64 option \<Rightarrow> unit presult" where
  "locator_validate_claims E claims authorization certificate expected_identity now
      allow_loopback_dev minimum_sequence =
     (if lc_version claims \<noteq> V1_PROTOCOL_VERSION
      then Err (UnsupportedVersion (lc_version claims))
      else and_then (certificate_verify E certificate authorization expected_identity now) (\<lambda>_.
      if lc_identity claims \<noteq> expected_identity
        \<or> lc_identity claims \<noteq> cc_identity (c_claims certificate)
      then Err IdentityMismatch
      else and_then (validate_digest E (lc_grant_digest claims) ''v1 Grant digest'') (\<lambda>_.
      and_then (validate_digest E (lc_device_certificate_digest claims) ''v1 certificate digest'') (\<lambda>_.
      and_then (grant_digest_of E authorization) (\<lambda>gd.
      if lc_grant_digest claims \<noteq> gd then Err DeviceMismatch
      else and_then (certificate_digest E certificate) (\<lambda>cd.
      if lc_device_certificate_digest claims \<noteq> cd
        \<or> lc_control_signing_key claims \<noteq> cc_control_signing_key (c_claims certificate)
        \<or> lc_iroh_endpoint_id claims \<noteq> cc_iroh_endpoint_id (c_claims certificate)
      then Err DeviceMismatch
      else if lc_alpn claims \<noteq> V1_IROH_ALPN_TEXT then Err (InvalidEncoding ''v1 ALPN'')
      else if lc_sequence claims = 0
        \<or> (case minimum_sequence of None \<Rightarrow> False | Some minimum \<Rightarrow> lc_sequence claims < minimum)
      then Err (InvalidEncoding ''v1 locator sequence'')
      else and_then (validate_challenge E (lc_instance_nonce claims) ''v1 instance nonce'') (\<lambda>_.
      and_then (validate_relays E (lc_relay_urls claims) allow_loopback_dev) (\<lambda>_.
      and_then (validate_bounded_window (lc_issued_at claims) (lc_expires_at claims) now
                  V1_MAX_LOCATOR_LIFETIME_SECONDS ''v1 locator lifetime'') (\<lambda>_.
      if lc_issued_at claims < cc_issued_at (c_claims certificate)
        \<or> lc_expires_at claims > cc_expires_at (c_claims certificate)
      then Err InvalidTimeWindow else Ok ())))))))))"

definition locator_sign_with_policy ::
  "env \<Rightarrow> v1_device_credential \<Rightarrow> url list \<Rightarrow> string \<Rightarrow> u64 \<Rightarrow> u64 \<times> u64 \<Rightarrow> bool \<Rightarrow>
   v1_signed_locator presult" where
  "locator_sign_with_policy E credential relay_urls instance_nonce sequence validity
      allow_loopback_dev =
     (case validity of (issued_at, expires_at) \<Rightarrow>
      and_then (credential_verify E credential issued_at) (\<lambda>_.
      and_then (grant_digest_of E (cr_authorization credential)) (\<lambda>gd.
      and_then (certificate_digest E (cr_certificate credential)) (\<lambda>cd.
      (let claims = \<lparr>lc_version = V1_PROTOCOL_VERSION, lc_identity = cr_identity credential,
             lc_grant_digest = gd, lc_device_certificate_digest = cd,
             lc_control_signing_key = cr_control_signing_key credential,
             lc_iroh_endpoint_id = cr_iroh_endpoint_id credential, lc_relay_urls = relay_urls,
             lc_alpn = V1_IROH_ALPN_TEXT, lc_instance_nonce = instance_nonce,
             lc_sequence = sequence, lc_issued_at = issued_at, lc_expires_at = expires_at\<rparr>
       in and_then (locator_validate_claims E claims (cr_authorization credential)
             (cr_certificate credential) (cr_identity credential) issued_at allow_loopback_dev None) (\<lambda>_.
          and_then (control_key E credential) (\<lambda>kp.
          and_then (canonical_for_signing E V1_LOCATOR_DOMAIN (ser_locator_claims E claims)) (\<lambda>m.
          Ok \<lparr>l_claims = claims, l_signature = encode_signature E (kp_sign E kp m)\<rparr>))))))))"

definition locator_sign ::
  "env \<Rightarrow> v1_device_credential \<Rightarrow> url list \<Rightarrow> string \<Rightarrow> u64 \<Rightarrow> u64 \<Rightarrow> u64 \<Rightarrow> v1_signed_locator presult" where
  "locator_sign E credential relay_urls instance_nonce sequence issued_at expires_at =
     locator_sign_with_policy E credential relay_urls instance_nonce sequence
       (issued_at, expires_at) False"

definition locator_sign_for_local_development ::
  "env \<Rightarrow> v1_device_credential \<Rightarrow> url list \<Rightarrow> string \<Rightarrow> u64 \<Rightarrow> u64 \<Rightarrow> u64 \<Rightarrow> v1_signed_locator presult" where
  "locator_sign_for_local_development E credential relay_urls instance_nonce sequence issued_at
      expires_at =
     locator_sign_with_policy E credential relay_urls instance_nonce sequence
       (issued_at, expires_at) True"

definition locator_verify ::
  "env \<Rightarrow> v1_signed_locator \<Rightarrow> v1_grant_authorization \<Rightarrow> v1_device_certificate \<Rightarrow> string \<Rightarrow> u64 \<Rightarrow>
   bool \<Rightarrow> u64 option \<Rightarrow> unit presult" where
  "locator_verify E self authorization certificate expected_identity now allow_loopback_dev
      minimum_sequence =
     and_then (locator_validate_claims E (l_claims self) authorization certificate
                 expected_identity now allow_loopback_dev minimum_sequence) (\<lambda>_.
     and_then (control_public_key E certificate) (\<lambda>key.
     verify_signature E key V1_LOCATOR_DOMAIN (ser_locator_claims E (l_claims self))
       (l_signature self)))"

definition locator_digest :: "env \<Rightarrow> v1_signed_locator \<Rightarrow> string presult" where
  "locator_digest E self = canonical_digest E V1_LOCATOR_DIGEST_DOMAIN (ser_locator E self)"

section \<open>Record\<close>

definition v1_device_record_path :: "env \<Rightarrow> string \<Rightarrow> string \<Rightarrow> string presult" where
  "v1_device_record_path E grant_cnf_key control_signing_key =
     and_then (parse_public_key E grant_cnf_key) (\<lambda>_.
     and_then (parse_public_key E control_signing_key) (\<lambda>_.
     and_then (canonical_digest E V1_DEVICE_PATH_DOMAIN
        (ser_struct [''grant_cnf_key'', ''control_signing_key'']
           [JStr grant_cnf_key, JStr control_signing_key])) (\<lambda>digest.
     Ok (V1_DEVICE_RECORD_PATH_PREFIX @ digest @ ''.json''))))"

record v1_device_record =
  r_authorization :: v1_grant_authorization
  r_certificate :: v1_device_certificate
  r_locator :: v1_signed_locator

definition record_fields :: "string list" where
  "record_fields = [''authorization'', ''certificate'', ''locator'']"

definition ser_record :: "env \<Rightarrow> v1_device_record \<Rightarrow> json" where
  "ser_record E r = ser_struct record_fields
     [ser_grant_authorization (r_authorization r), ser_certificate (r_certificate r),
      ser_locator E (r_locator r)]"

definition de_record :: "env \<Rightarrow> json \<Rightarrow> v1_device_record option" where
  "de_record E j =
     (case de_struct record_fields j of
        Some [a, b, c] \<Rightarrow> do {
          a' \<leftarrow> de_grant_authorization a; b' \<leftarrow> de_certificate b; c' \<leftarrow> de_locator E c;
          Some \<lparr>r_authorization = a', r_certificate = b', r_locator = c'\<rparr> }
      | _ \<Rightarrow> None)"

definition record_verify ::
  "env \<Rightarrow> v1_device_record \<Rightarrow> string \<Rightarrow> u64 \<Rightarrow> bool \<Rightarrow> u64 option \<Rightarrow> unit presult" where
  "record_verify E self expected_identity now allow_loopback_dev minimum_sequence =
     and_then (ensure_serialized_bound E (ser_record E self) V1_MAX_DEVICE_RECORD_BYTES
                 ''v1 device record size'') (\<lambda>_.
     and_then (certificate_verify E (r_certificate self) (r_authorization self) expected_identity now) (\<lambda>_.
     locator_verify E (r_locator self) (r_authorization self) (r_certificate self)
       expected_identity now allow_loopback_dev minimum_sequence))"

definition record_new ::
  "env \<Rightarrow> v1_device_credential \<Rightarrow> v1_signed_locator \<Rightarrow> u64 \<Rightarrow> bool \<Rightarrow> v1_device_record presult" where
  "record_new E credential locator now allow_loopback_dev =
     (let r = \<lparr>r_authorization = cr_authorization credential,
               r_certificate = cr_certificate credential, r_locator = locator\<rparr>
      in and_then (record_verify E r (cr_identity credential) now allow_loopback_dev None) (\<lambda>_. Ok r))"

definition record_decode_and_verify ::
  "env \<Rightarrow> bytes \<Rightarrow> string \<Rightarrow> u64 \<Rightarrow> bool \<Rightarrow> u64 option \<Rightarrow> v1_device_record presult" where
  "record_decode_and_verify E input expected_identity now allow_loopback_dev minimum_sequence =
     (if length input > V1_MAX_DEVICE_RECORD_BYTES
      then Err (InvalidEncoding ''v1 device record size'')
      else and_then (ok_or (Option.bind (json_from_slice E input) (de_record E)) Json) (\<lambda>r.
      and_then (record_verify E r expected_identity now allow_loopback_dev minimum_sequence) (\<lambda>_.
      Ok r)))"

definition record_digest :: "env \<Rightarrow> v1_device_record \<Rightarrow> string presult" where
  "record_digest E self = canonical_digest E V1_DEVICE_RECORD_DIGEST_DOMAIN (ser_record E self)"

definition record_path :: "env \<Rightarrow> v1_device_record \<Rightarrow> string presult" where
  "record_path E self =
     v1_device_record_path E (cc_grant_cnf_key (c_claims (r_certificate self)))
       (cc_control_signing_key (c_claims (r_certificate self)))"

section \<open>When verification succeeds\<close>

lemma locator_validate_claims_Ok_iff:
  "locator_validate_claims E c a cert expected now allow ms = Ok () \<longleftrightarrow>
     lc_version c = V1_PROTOCOL_VERSION \<and> certificate_verify E cert a expected now = Ok () \<and>
     lc_identity c = expected \<and> expected = cc_identity (c_claims cert) \<and>
     validate_digest E (lc_grant_digest c) ''v1 Grant digest'' = Ok () \<and>
     validate_digest E (lc_device_certificate_digest c) ''v1 certificate digest'' = Ok () \<and>
     grant_digest_of E a = Ok (lc_grant_digest c) \<and>
     certificate_digest E cert = Ok (lc_device_certificate_digest c) \<and>
     lc_control_signing_key c = cc_control_signing_key (c_claims cert) \<and>
     lc_iroh_endpoint_id c = cc_iroh_endpoint_id (c_claims cert) \<and>
     lc_alpn c = V1_IROH_ALPN_TEXT \<and> lc_sequence c \<noteq> 0 \<and>
     (case ms of None \<Rightarrow> True | Some m \<Rightarrow> m \<le> lc_sequence c) \<and>
     validate_challenge E (lc_instance_nonce c) ''v1 instance nonce'' = Ok () \<and>
     validate_relays E (lc_relay_urls c) allow = Ok () \<and>
     validate_bounded_window (lc_issued_at c) (lc_expires_at c) now
       V1_MAX_LOCATOR_LIFETIME_SECONDS ''v1 locator lifetime'' = Ok () \<and>
     cc_issued_at (c_claims cert) \<le> lc_issued_at c \<and> lc_expires_at c \<le> cc_expires_at (c_claims cert)"
  unfolding locator_validate_claims_def and_then_Ok_iff if_Err_Ok_iff
  by (auto simp: not_less split: option.splits)

lemma locator_verify_Ok_iff:
  "locator_verify E l a cert expected now allow ms = Ok () \<longleftrightarrow>
     locator_validate_claims E (l_claims l) a cert expected now allow ms = Ok () \<and>
     (\<exists>key. control_public_key E cert = Ok key \<and>
        verify_signature E key V1_LOCATOR_DOMAIN (ser_locator_claims E (l_claims l))
          (l_signature l) = Ok ())"
  by (auto simp: locator_verify_def and_then_Ok_iff)

lemma record_verify_Ok_iff:
  "record_verify E r expected now allow ms = Ok () \<longleftrightarrow>
     ensure_serialized_bound E (ser_record E r) V1_MAX_DEVICE_RECORD_BYTES
       ''v1 device record size'' = Ok () \<and>
     locator_verify E (r_locator r) (r_authorization r) (r_certificate r) expected now allow ms = Ok ()"
  by (auto simp: record_verify_def and_then_Ok_iff locator_verify_Ok_iff
      locator_validate_claims_Ok_iff)

lemma record_verify_certificate:
  "record_verify E r expected now allow ms = Ok () \<Longrightarrow>
   certificate_verify E (r_certificate r) (r_authorization r) expected now = Ok ()"
  by (auto simp: record_verify_Ok_iff locator_verify_Ok_iff locator_validate_claims_Ok_iff)

lemma record_verify_identity:
  "record_verify E r expected now allow ms = Ok () \<Longrightarrow>
   cc_identity (c_claims (r_certificate r)) = expected"
  by (blast dest: record_verify_certificate certificate_verify_identity)

lemma record_verify_window:
  "record_verify E r expected now allow ms = Ok () \<Longrightarrow>
   now < lc_expires_at (l_claims (r_locator r)) \<and>
   lc_expires_at (l_claims (r_locator r)) \<le> cc_expires_at (c_claims (r_certificate r)) \<and>
   cc_issued_at (c_claims (r_certificate r)) \<le> lc_issued_at (l_claims (r_locator r))"
  by (auto simp: record_verify_Ok_iff locator_verify_Ok_iff locator_validate_claims_Ok_iff
      validate_bounded_window_Ok_iff)

lemma locator_validate_claims_later:
  assumes "locator_validate_claims E c a cert expected now allow ms = Ok ()" "now \<le> now'"
    "now' < lc_expires_at c"
  shows "locator_validate_claims E c a cert expected now' allow ms = Ok ()"
  using assms unfolding locator_validate_claims_Ok_iff
  by (meson certificate_verify_later order_less_le_trans validate_bounded_window_later)

lemma locator_validate_claims_window:
  "locator_validate_claims E c a cert expected now allow ms = Ok () \<Longrightarrow> now < lc_expires_at c"
  by (auto simp: locator_validate_claims_Ok_iff validate_bounded_window_Ok_iff)

lemma record_verify_later:
  "record_verify E r expected now allow ms = Ok () \<Longrightarrow> now \<le> now' \<Longrightarrow>
   now' < lc_expires_at (l_claims (r_locator r)) \<Longrightarrow> record_verify E r expected now' allow ms = Ok ()"
  by (auto simp: record_verify_Ok_iff locator_verify_Ok_iff intro: locator_validate_claims_later)

interpretation locator: expiring
  "\<lambda>(l, a, cert, expected, allow, ms) now. locator_verify E l a cert expected now allow ms"
  "\<lambda>(l, a, cert, expected, allow, ms). lc_expires_at (l_claims l)" for E
  by unfold_locales
    (auto simp: locator_verify_Ok_iff dest: locator_validate_claims_window
      intro: locator_validate_claims_later)

interpretation device_record: expiring
  "\<lambda>(r, expected, allow, ms) now. record_verify E r expected now allow ms"
  "\<lambda>(r, expected, allow, ms). lc_expires_at (l_claims (r_locator r))" for E
  by unfold_locales (auto dest: record_verify_window intro: record_verify_later)

text \<open>A record accepted with a sequence floor is accepted without one.\<close>

lemma record_verify_no_floor:
  "record_verify E r expected now allow ms = Ok () \<Longrightarrow> record_verify E r expected now allow None = Ok ()"
  by (auto simp: record_verify_Ok_iff locator_verify_Ok_iff locator_validate_claims_Ok_iff)

text \<open>A verified record always has a path.\<close>

lemma record_path_Ok:
  assumes "record_verify E r expected now allow ms = Ok ()"
    and "\<And>j. jcs_to_vec E j \<noteq> None"
  obtains p where "record_path E r = Ok p"
proof -
  from record_verify_certificate [OF assms(1)] obtain k1 k2 where
    "parse_public_key E (cc_grant_cnf_key (c_claims (r_certificate r))) = Ok k1"
    "parse_public_key E (cc_control_signing_key (c_claims (r_certificate r))) = Ok k2"
    by (rule certificate_verify_keys)
  moreover from assms(2) have "\<exists>d. canonical_digest E dom j = Ok d" for dom j
    by (auto simp: canonical_digest_Ok_iff canonical_for_signing_Ok_iff)
  ultimately show ?thesis
    using that by (fastforce simp: record_path_def v1_device_record_path_def and_then_Ok_iff)
qed

section \<open>Signing\<close>

lemma locator_sign_with_policy_Ok:
  assumes "locator_sign_with_policy E cred urls nonce sq (iss, ex) allow = Ok l"
  obtains kp m where "locator_validate_claims E (l_claims l) (cr_authorization cred)
      (cr_certificate cred) (cr_identity cred) iss allow None = Ok ()"
    "control_key E cred = Ok kp"
    "canonical_for_signing E V1_LOCATOR_DOMAIN (ser_locator_claims E (l_claims l)) = Ok m"
    "l_signature l = encode_signature E (kp_sign E kp m)"
    "lc_sequence (l_claims l) = sq" "lc_issued_at (l_claims l) = iss"
    "lc_expires_at (l_claims l) = ex" "lc_relay_urls (l_claims l) = urls"
  using assms unfolding locator_sign_with_policy_def
  by (auto simp: and_then_Ok_iff Let_def)

lemma locator_sign_verifies:
  assumes laws: "b64_law E" "signature_codec_law E" "signing_law E" "z32_law E"
    and sign: "locator_sign_with_policy E cred urls nonce sq (iss, ex) allow = Ok l"
  shows "locator_verify E l (cr_authorization cred) (cr_certificate cred) (cr_identity cred) iss
           allow None = Ok ()"
proof -
  from sign obtain kp m where
    s: "locator_validate_claims E (l_claims l) (cr_authorization cred)
          (cr_certificate cred) (cr_identity cred) iss allow None = Ok ()"
      "control_key E cred = Ok kp"
      "canonical_for_signing E V1_LOCATOR_DOMAIN (ser_locator_claims E (l_claims l)) = Ok m"
      "l_signature l = encode_signature E (kp_sign E kp m)"
    by (rule locator_sign_with_policy_Ok)
  from laws(4) s(2) have "control_public_key E (cr_certificate cred) = Ok (kp_public_key E kp)"
    by (rule control_key_parses)
  with s verify_signature_sign [OF laws(1-3) s(3) refl] show ?thesis
    by (simp add: locator_verify_Ok_iff)
qed

section \<open>Serialisation\<close>

lemma distinct_locator_claims_fields [simp]: "distinct locator_claims_fields"
  by (simp add: locator_claims_fields_def)

lemma length_locator_claims_fields [simp]: "length locator_claims_fields = 12"
  by (simp add: locator_claims_fields_def)

lemma distinct_record_fields [simp]: "distinct record_fields"
  by (simp add: record_fields_def)

lemma length_record_fields [simp]: "length record_fields = 3"
  by (simp add: record_fields_def)

lemma url_serde_norm:
  "url_serde_law E \<Longrightarrow> de (url_serde E) (jcs_norm (ser (url_serde E) u)) = Some u"
  by (metis jcs_norm.simps(5) url_serde_law_def)

lemma de_ser_urls [serde_simps]:
  "url_serde_law E \<Longrightarrow> de_vec (de (url_serde E)) (ser_vec (ser (url_serde E)) us) = Some us"
  by (rule de_ser_vec) (simp add: url_serde_law_def)

lemma de_norm_urls [serde_simps]:
  "url_serde_law E \<Longrightarrow> de_vec (de (url_serde E)) (jcs_norm (ser_vec (ser (url_serde E)) us)) = Some us"
  by (rule de_ser_vec_norm) (simp add: url_serde_norm)

lemma de_ser_locator_claims [serde_simps]:
  "url_serde_law E \<Longrightarrow> de_locator_claims E (ser_locator_claims E c) = Some c"
  by (simp add: de_locator_claims_def ser_locator_claims_def serde_simps)

lemma de_norm_locator_claims [serde_simps]:
  "url_serde_law E \<Longrightarrow> de_locator_claims E (jcs_norm (ser_locator_claims E c)) = Some c"
  by (simp add: de_locator_claims_def ser_locator_claims_def serde_simps)

lemma de_ser_locator [serde_simps]:
  "url_serde_law E \<Longrightarrow> de_locator E (ser_locator E l) = Some l"
  by (simp add: de_locator_def ser_locator_def serde_simps)

lemma de_norm_locator [serde_simps]:
  "url_serde_law E \<Longrightarrow> de_locator E (jcs_norm (ser_locator E l)) = Some l"
  by (simp add: de_locator_def ser_locator_def serde_simps)

lemma de_ser_record [serde_simps]: "url_serde_law E \<Longrightarrow> de_record E (ser_record E r) = Some r"
  by (simp add: de_record_def ser_record_def serde_simps)

lemma de_norm_record [serde_simps]:
  "url_serde_law E \<Longrightarrow> de_record E (jcs_norm (ser_record E r)) = Some r"
  by (simp add: de_record_def ser_record_def serde_simps)

lemma exact_ser_urls:
  assumes "url_serde_law E" shows "exact_numbers (ser_vec (ser (url_serde E)) us)"
proof -
  have "exact_numbers (ser (url_serde E) u)" for u
    using assms by (metis exact_numbers.simps(5) url_serde_law_def)
  then show ?thesis by (simp add: ser_vec_def list_all_iff)
qed

definition exact_record :: "v1_device_record \<Rightarrow> bool" where
  "exact_record r =
     (exact_time (cc_issued_at (c_claims (r_certificate r))) \<and>
      exact_time (cc_expires_at (c_claims (r_certificate r))) \<and>
      exact_time (lc_sequence (l_claims (r_locator r))) \<and>
      exact_time (lc_issued_at (l_claims (r_locator r))) \<and>
      exact_time (lc_expires_at (l_claims (r_locator r))))"

lemma exact_ser_record:
  "url_serde_law E \<Longrightarrow> exact_numbers (ser_record E r) \<longleftrightarrow> exact_record r"
  by (simp add: ser_record_def ser_locator_def ser_locator_claims_def ser_struct_def
      record_fields_def locator_claims_fields_def exact_record_def exact_ser_urls exact_time_def
      ser_uint_def [where 'a = 64])

lemma record_digest_binds:
  assumes "jcs_law E" "b64_law E" "url_serde_law E"
    and "record_digest E r = Ok d" "record_digest E r' = Ok d" "exact_record r" "exact_record r'"
  shows "r = r' \<or> (\<exists>a b. sha256_collision E a b)"
proof -
  have "jcs_norm (ser_record E r) = jcs_norm (ser_record E r') \<or> (\<exists>a b. sha256_collision E a b)"
    using assms canonical_digest_binds unfolding record_digest_def
    by (metis exact_ser_record)
  then show ?thesis
    using de_norm_record [OF assms(3)] by (metis option.inject)
qed

section \<open>Valid input is signed\<close>

definition exact_certificate :: "v1_device_certificate \<Rightarrow> bool" where
  "exact_certificate c =
     (exact_time (cc_issued_at (c_claims c)) \<and> exact_time (cc_expires_at (c_claims c)))"

lemma exact_ser_locator_claims:
  "url_serde_law E \<Longrightarrow> exact_numbers (ser_locator_claims E c) \<longleftrightarrow>
     exact_time (lc_sequence c) \<and> exact_time (lc_issued_at c) \<and> exact_time (lc_expires_at c)"
  by (simp add: ser_locator_claims_def ser_struct_def locator_claims_fields_def exact_ser_urls
      exact_time_def ser_uint_def [where 'a = 64])

text \<open>
  A valid credential signs a locator for every valid input: relays that pass the policy, a fresh
  nonce, a positive sequence and a window inside the certificate's.
\<close>

lemma locator_sign_complete:
  assumes laws: "b64_law E" "sha256_law E" "jcs_total_law E" "url_serde_law E"
    and cred: "credential_verify E cred iss = Ok ()" "exact_certificate (cr_certificate cred)"
    and input: "validate_relays E urls allow = Ok ()"
      "validate_challenge E nonce ''v1 instance nonce'' = Ok ()" "sq \<noteq> 0"
      "validate_bounded_window iss ex iss V1_MAX_LOCATOR_LIFETIME_SECONDS ''v1 locator lifetime'' = Ok ()"
      "cc_issued_at (c_claims (cr_certificate cred)) \<le> iss"
      "ex \<le> cc_expires_at (c_claims (cr_certificate cred))"
      "exact_time sq" "exact_time iss" "exact_time ex"
  obtains l where "locator_sign_with_policy E cred urls nonce sq (iss, ex) allow = Ok l"
    "lc_identity (l_claims l) = cr_identity cred" "lc_instance_nonce (l_claims l) = nonce"
    "lc_version (l_claims l) = V1_PROTOCOL_VERSION"
proof -
  obtain gd where gd: "grant_digest_of E (cr_authorization cred) = Ok gd"
    using grant_digest_total laws(3) by blast
  obtain cd where cd: "certificate_digest E (cr_certificate cred) = Ok cd"
    using canonical_digest_total [OF laws(3), of "ser_certificate (cr_certificate cred)"
        V1_CERTIFICATE_DIGEST_DOMAIN] cred(2)
    by (auto simp: certificate_digest_def exact_certificate_def)
  define cl where "cl = \<lparr>lc_version = V1_PROTOCOL_VERSION, lc_identity = cr_identity cred,
      lc_grant_digest = gd, lc_device_certificate_digest = cd,
      lc_control_signing_key = cr_control_signing_key cred,
      lc_iroh_endpoint_id = cr_iroh_endpoint_id cred, lc_relay_urls = urls,
      lc_alpn = V1_IROH_ALPN_TEXT, lc_instance_nonce = nonce, lc_sequence = sq,
      lc_issued_at = iss, lc_expires_at = ex\<rparr>"
  obtain m where m: "canonical_for_signing E V1_LOCATOR_DOMAIN (ser_locator_claims E cl) = Ok m"
    using canonical_for_signing_total [OF laws(3)] input(7-9) exact_ser_locator_claims [OF laws(4), of cl]
    by (auto simp: cl_def)
  have digests: "validate_digest E gd l1 = Ok ()" "validate_digest E cd l2 = Ok ()" for l1 l2
    using gd cd canonical_digest_valid [OF laws(1,2)]
    by (auto simp: grant_digest_of_def certificate_digest_def)
  from cred(1) obtain kp where kp: "control_key E cred = Ok kp"
    and cert: "certificate_verify E (cr_certificate cred) (cr_authorization cred) (cr_identity cred) iss = Ok ()"
    by (auto simp: credential_verify_Ok_iff)
  have "locator_validate_claims E cl (cr_authorization cred) (cr_certificate cred) (cr_identity cred)
      iss allow None = Ok ()"
    unfolding locator_validate_claims_Ok_iff
    using cert gd cd digests input by (simp add: cl_def cr_defs)
  then have "locator_sign_with_policy E cred urls nonce sq (iss, ex) allow
      = Ok \<lparr>l_claims = cl, l_signature = encode_signature E (kp_sign E kp m)\<rparr>"
    using cred(1) gd cd kp m
    by (simp add: locator_sign_with_policy_def cl_def [symmetric])
  then show ?thesis by (rule that) (simp_all add: cl_def)
qed

lemma record_new_Ok_iff:
  "record_new E cred l now allow = Ok r \<longleftrightarrow>
     r = \<lparr>r_authorization = cr_authorization cred, r_certificate = cr_certificate cred, r_locator = l\<rparr> \<and>
     record_verify E r (cr_identity cred) now allow None = Ok ()"
  by (auto simp: record_new_def Let_def and_then_Ok_iff)

text \<open>A locator signed by a credential makes a record that verifies, if it is not too long.\<close>

lemma record_new_signed:
  assumes laws: "b64_law E" "signature_codec_law E" "signing_law E" "z32_law E"
    and sign: "locator_sign_with_policy E cred urls nonce sq (iss, ex) allow = Ok l"
    and r: "r = \<lparr>r_authorization = cr_authorization cred, r_certificate = cr_certificate cred, r_locator = l\<rparr>"
    and size: "ensure_serialized_bound E (ser_record E r) V1_MAX_DEVICE_RECORD_BYTES
      ''v1 device record size'' = Ok ()"
  shows "record_new E cred l iss allow = Ok r"
  using locator_sign_verifies [OF laws sign] r size
  by (simp add: record_new_Ok_iff record_verify_Ok_iff)

end
