(* ===== verification/Handshake.thy ===== *)
theory Handshake
  imports Device_Record
begin

text \<open>
  The signed Hello and Ack of a connection attempt (\<open>V1SignedHello\<close>, \<open>V1SignedAck\<close> of
  \<open>crates/protocol/src/v1.rs\<close>). A Hello carries the initiator's exact record and the digest of
  the responder's; an Ack carries the digest of the exact Hello. The lemmas show what a verified
  message binds, that a signed message verifies until it expires, and that a Hello or an Ack
  cannot be moved to other records without a SHA-256 collision.
\<close>

section \<open>Hello\<close>

record v1_hello_claims =
  hc_version :: u16
  hc_from_device_record :: v1_device_record
  hc_from_identity :: string
  hc_from_device_id :: string
  hc_from_control_signing_key :: string
  hc_from_iroh_endpoint_id :: string
  hc_to_identity :: string
  hc_to_device_id :: string
  hc_to_control_signing_key :: string
  hc_to_iroh_endpoint_id :: string
  hc_application :: string
  hc_alpn :: string
  hc_session_nonce :: string
  hc_target_device_record_digest :: string
  hc_issued_at :: u64
  hc_expires_at :: u64

record v1_signed_hello =
  h_claims :: v1_hello_claims
  h_signature :: string

definition hello_claims_fields :: "string list" where
  "hello_claims_fields =
     [''version'', ''from_device_record'', ''from_identity'', ''from_device_id'',
      ''from_control_signing_key'', ''from_iroh_endpoint_id'', ''to_identity'', ''to_device_id'',
      ''to_control_signing_key'', ''to_iroh_endpoint_id'', ''application'', ''alpn'',
      ''session_nonce'', ''target_device_record_digest'', ''issued_at'', ''expires_at'']"

definition ser_hello_claims :: "env \<Rightarrow> v1_hello_claims \<Rightarrow> json" where
  "ser_hello_claims E c = ser_struct hello_claims_fields
     [ser_uint (hc_version c), ser_record E (hc_from_device_record c), JStr (hc_from_identity c),
      JStr (hc_from_device_id c), JStr (hc_from_control_signing_key c),
      JStr (hc_from_iroh_endpoint_id c), JStr (hc_to_identity c), JStr (hc_to_device_id c),
      JStr (hc_to_control_signing_key c), JStr (hc_to_iroh_endpoint_id c),
      JStr (hc_application c), JStr (hc_alpn c), JStr (hc_session_nonce c),
      JStr (hc_target_device_record_digest c), ser_uint (hc_issued_at c), ser_uint (hc_expires_at c)]"

definition de_hello_claims :: "env \<Rightarrow> json \<Rightarrow> v1_hello_claims option" where
  "de_hello_claims E j =
     (case de_struct hello_claims_fields j of
        Some [a, b, c, d, e, f, g, h, i, k, l, m, n, p, q, r] \<Rightarrow> do {
          a' \<leftarrow> de_uint a; b' \<leftarrow> de_record E b; c' \<leftarrow> de_string c; d' \<leftarrow> de_string d;
          e' \<leftarrow> de_string e; f' \<leftarrow> de_string f; g' \<leftarrow> de_string g; h' \<leftarrow> de_string h;
          i' \<leftarrow> de_string i; k' \<leftarrow> de_string k; l' \<leftarrow> de_string l; m' \<leftarrow> de_string m;
          n' \<leftarrow> de_string n; p' \<leftarrow> de_string p; q' \<leftarrow> de_uint q; r' \<leftarrow> de_uint r;
          Some \<lparr>hc_version = a', hc_from_device_record = b', hc_from_identity = c',
            hc_from_device_id = d', hc_from_control_signing_key = e',
            hc_from_iroh_endpoint_id = f', hc_to_identity = g', hc_to_device_id = h',
            hc_to_control_signing_key = i', hc_to_iroh_endpoint_id = k', hc_application = l',
            hc_alpn = m', hc_session_nonce = n', hc_target_device_record_digest = p',
            hc_issued_at = q', hc_expires_at = r'\<rparr> }
      | _ \<Rightarrow> None)"

definition ser_hello :: "env \<Rightarrow> v1_signed_hello \<Rightarrow> json" where
  "ser_hello E h =
     ser_struct [''claims'', ''signature''] [ser_hello_claims E (h_claims h), JStr (h_signature h)]"

definition de_hello :: "env \<Rightarrow> json \<Rightarrow> v1_signed_hello option" where
  "de_hello E j =
     (case de_struct [''claims'', ''signature''] j of
        Some [a, b] \<Rightarrow> do { a' \<leftarrow> de_hello_claims E a; b' \<leftarrow> de_string b;
                            Some \<lparr>h_claims = a', h_signature = b'\<rparr> }
      | _ \<Rightarrow> None)"

text \<open>The comparison of the claimed devices with the two certificates.\<close>

definition hello_devices_match ::
  "v1_hello_claims \<Rightarrow> v1_device_certificate_claims \<Rightarrow> v1_device_certificate_claims \<Rightarrow> bool" where
  "hello_devices_match claims sender target =
     (\<not> (hc_from_device_id claims \<noteq> cc_device_id sender
       \<or> hc_from_control_signing_key claims \<noteq> cc_control_signing_key sender
       \<or> hc_from_iroh_endpoint_id claims \<noteq> cc_iroh_endpoint_id sender
       \<or> hc_to_device_id claims \<noteq> cc_device_id target
       \<or> hc_to_control_signing_key claims \<noteq> cc_control_signing_key target
       \<or> hc_to_iroh_endpoint_id claims \<noteq> cc_iroh_endpoint_id target
       \<or> hc_from_control_signing_key claims = hc_to_control_signing_key claims
       \<or> hc_from_iroh_endpoint_id claims = hc_to_iroh_endpoint_id claims))"

definition hello_validate_core ::
  "env \<Rightarrow> v1_hello_claims \<Rightarrow> v1_device_record \<Rightarrow> v1_device_record \<Rightarrow> string \<Rightarrow> u64 \<Rightarrow> bool \<Rightarrow>
   unit presult" where
  "hello_validate_core E claims sender_record target_record expected_application now
      allow_loopback_dev =
     (if hc_version claims \<noteq> V1_PROTOCOL_VERSION
      then Err (UnsupportedVersion (hc_version claims))
      else and_then (ensure_serialized_bound E (ser_hello_claims E claims) V1_MAX_HELLO_BYTES
                       ''v1 Hello size'') (\<lambda>_.
      if hc_from_device_record claims \<noteq> sender_record then Err DeviceMismatch
      else and_then (record_verify E sender_record (hc_from_identity claims) now
                       allow_loopback_dev None) (\<lambda>_.
      and_then (record_verify E target_record (hc_to_identity claims) now
                  allow_loopback_dev None) (\<lambda>_.
      (let sender = c_claims (r_certificate sender_record);
           target = c_claims (r_certificate target_record)
       in if hc_from_identity claims \<noteq> cc_identity sender \<or> hc_to_identity claims \<noteq> cc_identity target
          then Err IdentityMismatch
          else if \<not> hello_devices_match claims sender target then Err DeviceMismatch
          else and_then (validate_application (hc_application claims)) (\<lambda>_.
          if hc_application claims \<noteq> expected_application
          then Err (InvalidEncoding ''v1 application binding'')
          else if hc_alpn claims \<noteq> V1_IROH_ALPN_TEXT then Err (InvalidEncoding ''v1 ALPN'')
          else and_then (validate_challenge E (hc_session_nonce claims) ''v1 session nonce'') (\<lambda>_.
          and_then (validate_digest E (hc_target_device_record_digest claims)
                      ''v1 target device digest'') (\<lambda>_.
          and_then (record_digest E target_record) (\<lambda>digest.
          if hc_target_device_record_digest claims \<noteq> digest then Err DeviceMismatch
          else and_then (validate_bounded_window (hc_issued_at claims) (hc_expires_at claims) now
                           V1_MAX_HANDSHAKE_LIFETIME_SECONDS ''v1 Hello lifetime'') (\<lambda>_.
          if hc_issued_at claims < cc_issued_at sender
            \<or> hc_issued_at claims < cc_issued_at target
            \<or> hc_expires_at claims > cc_expires_at sender
            \<or> hc_expires_at claims > cc_expires_at target
            \<or> hc_expires_at claims > lc_expires_at (l_claims (r_locator sender_record))
            \<or> hc_expires_at claims > lc_expires_at (l_claims (r_locator target_record))
          then Err InvalidTimeWindow else Ok ())))))))))) "

definition hello_sign_with_policy ::
  "env \<Rightarrow> v1_device_credential \<Rightarrow> v1_device_record \<Rightarrow> v1_device_record \<Rightarrow> string \<Rightarrow> string \<Rightarrow>
   u64 \<times> u64 \<Rightarrow> bool \<Rightarrow> v1_signed_hello presult" where
  "hello_sign_with_policy E credential sender_record target_record application session_nonce
      validity allow_loopback_dev =
     (case validity of (issued_at, expires_at) \<Rightarrow>
      if r_authorization sender_record \<noteq> cr_authorization credential
        \<or> r_certificate sender_record \<noteq> cr_certificate credential
      then Err DeviceMismatch
      else and_then (record_verify E sender_record (cr_identity credential) issued_at
                       allow_loopback_dev None) (\<lambda>_.
      and_then (record_verify E target_record
                  (cc_identity (c_claims (r_certificate target_record))) issued_at
                  allow_loopback_dev None) (\<lambda>_.
      (let sender = c_claims (cr_certificate credential);
           target = c_claims (r_certificate target_record)
       in and_then (record_digest E target_record) (\<lambda>digest.
          (let claims =
             \<lparr>hc_version = V1_PROTOCOL_VERSION, hc_from_device_record = sender_record,
              hc_from_identity = cc_identity sender, hc_from_device_id = cc_device_id sender,
              hc_from_control_signing_key = cc_control_signing_key sender,
              hc_from_iroh_endpoint_id = cc_iroh_endpoint_id sender,
              hc_to_identity = cc_identity target, hc_to_device_id = cc_device_id target,
              hc_to_control_signing_key = cc_control_signing_key target,
              hc_to_iroh_endpoint_id = cc_iroh_endpoint_id target,
              hc_application = application, hc_alpn = V1_IROH_ALPN_TEXT,
              hc_session_nonce = session_nonce, hc_target_device_record_digest = digest,
              hc_issued_at = issued_at, hc_expires_at = expires_at\<rparr>
           in and_then (hello_validate_core E claims sender_record target_record
                          (hc_application claims) issued_at allow_loopback_dev) (\<lambda>_.
              and_then (control_key E credential) (\<lambda>kp.
              and_then (canonical_for_signing E V1_HELLO_DOMAIN (ser_hello_claims E claims)) (\<lambda>m.
              (let hello = \<lparr>h_claims = claims, h_signature = encode_signature E (kp_sign E kp m)\<rparr>
               in and_then (ensure_serialized_bound E (ser_hello E hello) V1_MAX_HELLO_BYTES
                              ''v1 Hello size'') (\<lambda>_. Ok hello)))))))))))"

definition hello_sign ::
  "env \<Rightarrow> v1_device_credential \<Rightarrow> v1_device_record \<Rightarrow> v1_device_record \<Rightarrow> string \<Rightarrow> string \<Rightarrow>
   u64 \<times> u64 \<Rightarrow> v1_signed_hello presult" where
  "hello_sign E credential sender_record target_record application session_nonce validity =
     hello_sign_with_policy E credential sender_record target_record application session_nonce
       validity False"

definition hello_sign_for_local_development ::
  "env \<Rightarrow> v1_device_credential \<Rightarrow> v1_device_record \<Rightarrow> v1_device_record \<Rightarrow> string \<Rightarrow> string \<Rightarrow>
   u64 \<times> u64 \<Rightarrow> v1_signed_hello presult" where
  "hello_sign_for_local_development E credential sender_record target_record application
      session_nonce validity =
     hello_sign_with_policy E credential sender_record target_record application session_nonce
       validity True"

definition hello_verify_core ::
  "env \<Rightarrow> v1_signed_hello \<Rightarrow> v1_device_record \<Rightarrow> v1_device_record \<Rightarrow> string \<Rightarrow> u64 \<Rightarrow> bool \<Rightarrow>
   unit presult" where
  "hello_verify_core E self sender_record target_record expected_application now
      allow_loopback_dev =
     and_then (ensure_serialized_bound E (ser_hello E self) V1_MAX_HELLO_BYTES ''v1 Hello size'') (\<lambda>_.
     and_then (hello_validate_core E (h_claims self) sender_record target_record
                 expected_application now allow_loopback_dev) (\<lambda>_.
     and_then (control_public_key E (r_certificate sender_record)) (\<lambda>key.
     verify_signature E key V1_HELLO_DOMAIN (ser_hello_claims E (h_claims self)) (h_signature self))))"

definition hello_verify ::
  "env \<Rightarrow> v1_signed_hello \<Rightarrow> v1_device_record \<Rightarrow> v1_device_record \<Rightarrow> string \<Rightarrow> u64 \<Rightarrow> bool \<Rightarrow>
   unit presult" where
  "hello_verify E self sender_record target_record expected_application now allow_loopback_dev =
     hello_verify_core E self sender_record target_record expected_application now
       allow_loopback_dev"

definition hello_digest_of :: "env \<Rightarrow> v1_signed_hello \<Rightarrow> string presult" where
  "hello_digest_of E self = canonical_digest E V1_HELLO_DIGEST_DOMAIN (ser_hello E self)"

section \<open>Ack\<close>

record v1_ack_claims =
  ac_version :: u16
  ac_from_identity :: string
  ac_from_device_id :: string
  ac_from_control_signing_key :: string
  ac_from_iroh_endpoint_id :: string
  ac_to_identity :: string
  ac_to_device_id :: string
  ac_to_control_signing_key :: string
  ac_to_iroh_endpoint_id :: string
  ac_application :: string
  ac_alpn :: string
  ac_session_nonce :: string
  ac_responder_nonce :: string
  ac_hello_digest :: string
  ac_responder_device_record_digest :: string
  ac_issued_at :: u64
  ac_expires_at :: u64

record v1_signed_ack =
  a_claims :: v1_ack_claims
  a_signature :: string

definition ack_claims_fields :: "string list" where
  "ack_claims_fields =
     [''version'', ''from_identity'', ''from_device_id'', ''from_control_signing_key'',
      ''from_iroh_endpoint_id'', ''to_identity'', ''to_device_id'', ''to_control_signing_key'',
      ''to_iroh_endpoint_id'', ''application'', ''alpn'', ''session_nonce'', ''responder_nonce'',
      ''hello_digest'', ''responder_device_record_digest'', ''issued_at'', ''expires_at'']"

definition ser_ack_claims :: "v1_ack_claims \<Rightarrow> json" where
  "ser_ack_claims c = ser_struct ack_claims_fields
     [ser_uint (ac_version c), JStr (ac_from_identity c), JStr (ac_from_device_id c),
      JStr (ac_from_control_signing_key c), JStr (ac_from_iroh_endpoint_id c),
      JStr (ac_to_identity c), JStr (ac_to_device_id c), JStr (ac_to_control_signing_key c),
      JStr (ac_to_iroh_endpoint_id c), JStr (ac_application c), JStr (ac_alpn c),
      JStr (ac_session_nonce c), JStr (ac_responder_nonce c), JStr (ac_hello_digest c),
      JStr (ac_responder_device_record_digest c), ser_uint (ac_issued_at c),
      ser_uint (ac_expires_at c)]"

definition de_ack_claims :: "json \<Rightarrow> v1_ack_claims option" where
  "de_ack_claims j =
     (case de_struct ack_claims_fields j of
        Some [a, b, c, d, e, f, g, h, i, k, l, m, n, p, q, r, s] \<Rightarrow> do {
          a' \<leftarrow> de_uint a; b' \<leftarrow> de_string b; c' \<leftarrow> de_string c; d' \<leftarrow> de_string d;
          e' \<leftarrow> de_string e; f' \<leftarrow> de_string f; g' \<leftarrow> de_string g; h' \<leftarrow> de_string h;
          i' \<leftarrow> de_string i; k' \<leftarrow> de_string k; l' \<leftarrow> de_string l; m' \<leftarrow> de_string m;
          n' \<leftarrow> de_string n; p' \<leftarrow> de_string p; q' \<leftarrow> de_string q; r' \<leftarrow> de_uint r; s' \<leftarrow> de_uint s;
          Some \<lparr>ac_version = a', ac_from_identity = b', ac_from_device_id = c',
            ac_from_control_signing_key = d', ac_from_iroh_endpoint_id = e',
            ac_to_identity = f', ac_to_device_id = g', ac_to_control_signing_key = h',
            ac_to_iroh_endpoint_id = i', ac_application = k', ac_alpn = l',
            ac_session_nonce = m', ac_responder_nonce = n', ac_hello_digest = p',
            ac_responder_device_record_digest = q', ac_issued_at = r', ac_expires_at = s'\<rparr> }
      | _ \<Rightarrow> None)"

definition ser_ack :: "v1_signed_ack \<Rightarrow> json" where
  "ser_ack a = ser_struct [''claims'', ''signature''] [ser_ack_claims (a_claims a), JStr (a_signature a)]"

definition de_ack :: "json \<Rightarrow> v1_signed_ack option" where
  "de_ack j =
     (case de_struct [''claims'', ''signature''] j of
        Some [a, b] \<Rightarrow> do { a' \<leftarrow> de_ack_claims a; b' \<leftarrow> de_string b;
                            Some \<lparr>a_claims = a', a_signature = b'\<rparr> }
      | _ \<Rightarrow> None)"

definition ack_devices_match ::
  "v1_ack_claims \<Rightarrow> v1_device_certificate_claims \<Rightarrow> v1_device_certificate_claims \<Rightarrow> bool" where
  "ack_devices_match claims responder initiator =
     (\<not> (ac_from_device_id claims \<noteq> cc_device_id responder
       \<or> ac_from_control_signing_key claims \<noteq> cc_control_signing_key responder
       \<or> ac_from_iroh_endpoint_id claims \<noteq> cc_iroh_endpoint_id responder
       \<or> ac_to_device_id claims \<noteq> cc_device_id initiator
       \<or> ac_to_control_signing_key claims \<noteq> cc_control_signing_key initiator
       \<or> ac_to_iroh_endpoint_id claims \<noteq> cc_iroh_endpoint_id initiator))"

definition ack_validate_claims ::
  "env \<Rightarrow> v1_ack_claims \<Rightarrow> v1_device_certificate \<Rightarrow> v1_device_record \<Rightarrow> v1_device_record \<Rightarrow>
   v1_signed_hello \<Rightarrow> string \<Rightarrow> u64 \<Rightarrow> bool \<Rightarrow> unit presult" where
  "ack_validate_claims E claims responder_certificate initiator_record responder_record hello
      expected_application now allow_loopback_dev =
     (if ac_version claims \<noteq> V1_PROTOCOL_VERSION
      then Err (UnsupportedVersion (ac_version claims))
      else and_then (hello_verify_core E hello initiator_record responder_record
                       expected_application now allow_loopback_dev) (\<lambda>_.
      if responder_certificate \<noteq> r_certificate responder_record then Err DeviceMismatch
      else (let responder = c_claims (r_certificate responder_record);
                initiator = c_claims (r_certificate initiator_record)
       in if ac_from_identity claims \<noteq> cc_identity responder
            \<or> ac_to_identity claims \<noteq> cc_identity initiator
          then Err IdentityMismatch
          else if \<not> ack_devices_match claims responder initiator then Err DeviceMismatch
          else and_then (validate_application (ac_application claims)) (\<lambda>_.
          if ac_application claims \<noteq> expected_application
            \<or> ac_application claims \<noteq> hc_application (h_claims hello)
          then Err (InvalidEncoding ''v1 application binding'')
          else if ac_alpn claims \<noteq> V1_IROH_ALPN_TEXT \<or> ac_alpn claims \<noteq> hc_alpn (h_claims hello)
          then Err (InvalidEncoding ''v1 ALPN'')
          else and_then (validate_challenge E (ac_session_nonce claims) ''v1 session nonce'') (\<lambda>_.
          and_then (validate_challenge E (ac_responder_nonce claims) ''v1 responder nonce'') (\<lambda>_.
          if ac_session_nonce claims \<noteq> hc_session_nonce (h_claims hello)
            \<or> ac_responder_nonce claims = ac_session_nonce claims
          then Err (InvalidEncoding ''v1 nonce binding'')
          else and_then (validate_digest E (ac_hello_digest claims) ''v1 Hello digest'') (\<lambda>_.
          and_then (validate_digest E (ac_responder_device_record_digest claims)
                      ''v1 responder device digest'') (\<lambda>_.
          and_then (hello_digest_of E hello) (\<lambda>hd.
          if ac_hello_digest claims \<noteq> hd then Err DeviceMismatch
          else and_then (record_digest E responder_record) (\<lambda>rd.
          if ac_responder_device_record_digest claims \<noteq> rd then Err DeviceMismatch
          else and_then (validate_bounded_window (ac_issued_at claims) (ac_expires_at claims) now
                           V1_MAX_HANDSHAKE_LIFETIME_SECONDS ''v1 Ack lifetime'') (\<lambda>_.
          if ac_issued_at claims < hc_issued_at (h_claims hello)
            \<or> ac_expires_at claims > hc_expires_at (h_claims hello)
            \<or> ac_issued_at claims < cc_issued_at responder
            \<or> ac_issued_at claims < cc_issued_at initiator
            \<or> ac_expires_at claims > cc_expires_at responder
            \<or> ac_expires_at claims > cc_expires_at initiator
          then Err InvalidTimeWindow else Ok ())))))))))))"

definition ack_sign_with_policy ::
  "env \<Rightarrow> v1_device_credential \<Rightarrow> v1_signed_hello \<Rightarrow> v1_device_record \<Rightarrow> v1_device_record \<Rightarrow>
   string \<Rightarrow> u64 \<times> u64 \<Rightarrow> bool \<Rightarrow> v1_signed_ack presult" where
  "ack_sign_with_policy E credential hello initiator_record responder_record responder_nonce
      validity allow_loopback_dev =
     (case validity of (issued_at, expires_at) \<Rightarrow>
      if r_authorization responder_record \<noteq> cr_authorization credential
        \<or> r_certificate responder_record \<noteq> cr_certificate credential
      then Err DeviceMismatch
      else and_then (hello_verify E hello initiator_record responder_record
                       (hc_application (h_claims hello)) issued_at allow_loopback_dev) (\<lambda>_.
      (let responder = c_claims (r_certificate responder_record);
           initiator = c_claims (r_certificate initiator_record)
       in and_then (hello_digest_of E hello) (\<lambda>hd.
          and_then (record_digest E responder_record) (\<lambda>rd.
          (let claims =
             \<lparr>ac_version = V1_PROTOCOL_VERSION, ac_from_identity = cc_identity responder,
              ac_from_device_id = cc_device_id responder,
              ac_from_control_signing_key = cc_control_signing_key responder,
              ac_from_iroh_endpoint_id = cc_iroh_endpoint_id responder,
              ac_to_identity = cc_identity initiator, ac_to_device_id = cc_device_id initiator,
              ac_to_control_signing_key = cc_control_signing_key initiator,
              ac_to_iroh_endpoint_id = cc_iroh_endpoint_id initiator,
              ac_application = hc_application (h_claims hello), ac_alpn = V1_IROH_ALPN_TEXT,
              ac_session_nonce = hc_session_nonce (h_claims hello),
              ac_responder_nonce = responder_nonce, ac_hello_digest = hd,
              ac_responder_device_record_digest = rd, ac_issued_at = issued_at,
              ac_expires_at = expires_at\<rparr>
           in and_then (ack_validate_claims E claims (cr_certificate credential) initiator_record
                          responder_record hello (ac_application claims) issued_at
                          allow_loopback_dev) (\<lambda>_.
              and_then (control_key E credential) (\<lambda>kp.
              and_then (canonical_for_signing E V1_ACK_DOMAIN (ser_ack_claims claims)) (\<lambda>m.
              (let ack = \<lparr>a_claims = claims, a_signature = encode_signature E (kp_sign E kp m)\<rparr>
               in and_then (ensure_serialized_bound E (ser_ack ack) V1_MAX_ACK_BYTES
                              ''v1 Ack size'') (\<lambda>_. Ok ack)))))))))))"

definition ack_sign ::
  "env \<Rightarrow> v1_device_credential \<Rightarrow> v1_signed_hello \<Rightarrow> v1_device_record \<Rightarrow> v1_device_record \<Rightarrow>
   string \<Rightarrow> u64 \<Rightarrow> u64 \<Rightarrow> v1_signed_ack presult" where
  "ack_sign E credential hello initiator_record responder_record responder_nonce issued_at
      expires_at =
     ack_sign_with_policy E credential hello initiator_record responder_record responder_nonce
       (issued_at, expires_at) False"

definition ack_sign_for_local_development ::
  "env \<Rightarrow> v1_device_credential \<Rightarrow> v1_signed_hello \<Rightarrow> v1_device_record \<Rightarrow> v1_device_record \<Rightarrow>
   string \<Rightarrow> u64 \<Rightarrow> u64 \<Rightarrow> v1_signed_ack presult" where
  "ack_sign_for_local_development E credential hello initiator_record responder_record
      responder_nonce issued_at expires_at =
     ack_sign_with_policy E credential hello initiator_record responder_record responder_nonce
       (issued_at, expires_at) True"

definition ack_verify ::
  "env \<Rightarrow> v1_signed_ack \<Rightarrow> v1_device_record \<Rightarrow> v1_device_record \<Rightarrow> v1_signed_hello \<Rightarrow> string \<Rightarrow>
   u64 \<Rightarrow> bool \<Rightarrow> unit presult" where
  "ack_verify E self responder_record initiator_record hello expected_application now
      allow_loopback_dev =
     and_then (ensure_serialized_bound E (ser_ack self) V1_MAX_ACK_BYTES ''v1 Ack size'') (\<lambda>_.
     and_then (ack_validate_claims E (a_claims self) (r_certificate responder_record)
                 initiator_record responder_record hello expected_application now
                 allow_loopback_dev) (\<lambda>_.
     and_then (control_public_key E (r_certificate responder_record)) (\<lambda>key.
     verify_signature E key V1_ACK_DOMAIN (ser_ack_claims (a_claims self)) (a_signature self))))"

section \<open>When a Hello verifies\<close>

lemma hello_validate_core_Ok_iff:
  "hello_validate_core E c sr tr app now allow = Ok () \<longleftrightarrow>
     hc_version c = V1_PROTOCOL_VERSION \<and>
     ensure_serialized_bound E (ser_hello_claims E c) V1_MAX_HELLO_BYTES ''v1 Hello size'' = Ok () \<and>
     hc_from_device_record c = sr \<and>
     record_verify E sr (hc_from_identity c) now allow None = Ok () \<and>
     record_verify E tr (hc_to_identity c) now allow None = Ok () \<and>
     hc_from_identity c = cc_identity (c_claims (r_certificate sr)) \<and>
     hc_to_identity c = cc_identity (c_claims (r_certificate tr)) \<and>
     hello_devices_match c (c_claims (r_certificate sr)) (c_claims (r_certificate tr)) \<and>
     validate_application app = Ok () \<and> hc_application c = app \<and> hc_alpn c = V1_IROH_ALPN_TEXT \<and>
     validate_challenge E (hc_session_nonce c) ''v1 session nonce'' = Ok () \<and>
     validate_digest E (hc_target_device_record_digest c) ''v1 target device digest'' = Ok () \<and>
     record_digest E tr = Ok (hc_target_device_record_digest c) \<and>
     validate_bounded_window (hc_issued_at c) (hc_expires_at c) now
       V1_MAX_HANDSHAKE_LIFETIME_SECONDS ''v1 Hello lifetime'' = Ok () \<and>
     cc_issued_at (c_claims (r_certificate sr)) \<le> hc_issued_at c \<and>
     cc_issued_at (c_claims (r_certificate tr)) \<le> hc_issued_at c \<and>
     hc_expires_at c \<le> cc_expires_at (c_claims (r_certificate sr)) \<and>
     hc_expires_at c \<le> cc_expires_at (c_claims (r_certificate tr)) \<and>
     hc_expires_at c \<le> lc_expires_at (l_claims (r_locator sr)) \<and>
     hc_expires_at c \<le> lc_expires_at (l_claims (r_locator tr))"
  unfolding hello_validate_core_def and_then_Ok_iff if_Err_Ok_iff Let_def
  by (auto simp: not_less)

lemma hello_verify_Ok_iff:
  "hello_verify E h sr tr app now allow = Ok () \<longleftrightarrow>
     ensure_serialized_bound E (ser_hello E h) V1_MAX_HELLO_BYTES ''v1 Hello size'' = Ok () \<and>
     hello_validate_core E (h_claims h) sr tr app now allow = Ok () \<and>
     (\<exists>key. control_public_key E (r_certificate sr) = Ok key \<and>
        verify_signature E key V1_HELLO_DOMAIN (ser_hello_claims E (h_claims h)) (h_signature h) = Ok ())"
  by (auto simp: hello_verify_def hello_verify_core_def and_then_Ok_iff)

lemma hello_validate_core_window:
  "hello_validate_core E c sr tr app now allow = Ok () \<Longrightarrow> now < hc_expires_at c"
  by (auto simp: hello_validate_core_Ok_iff validate_bounded_window_Ok_iff)

lemma hello_validate_core_later:
  assumes "hello_validate_core E c sr tr app now allow = Ok ()" "now \<le> now'" "now' < hc_expires_at c"
  shows "hello_validate_core E c sr tr app now' allow = Ok ()"
  using assms unfolding hello_validate_core_Ok_iff
  by (meson order_less_le_trans record_verify_later validate_bounded_window_later)

interpretation hello: expiring
  "\<lambda>(h, sr, tr, app, allow) now. hello_verify E h sr tr app now allow"
  "\<lambda>(h, sr, tr, app, allow). hc_expires_at (h_claims h)" for E
  by unfold_locales
    (auto simp: hello_verify_Ok_iff dest: hello_validate_core_window
      intro: hello_validate_core_later)

lemma hello_verify_later:
  "hello_verify E h sr tr app now allow = Ok () \<Longrightarrow> now \<le> now' \<Longrightarrow> now' < hc_expires_at (h_claims h) \<Longrightarrow>
   hello_verify E h sr tr app now' allow = Ok ()"
  using hello.check_later [of E "(h, sr, tr, app, allow)" now now'] by simp

lemma hello_verify_window:
  "hello_verify E h sr tr app now allow = Ok () \<Longrightarrow> now < hc_expires_at (h_claims h)"
  using hello.check_before [of E "(h, sr, tr, app, allow)" now] by simp

lemma hello_verify_records:
  assumes "hello_verify E h sr tr app now allow = Ok ()"
  shows "record_verify E sr (hc_from_identity (h_claims h)) now allow None = Ok ()"
    and "record_verify E tr (hc_to_identity (h_claims h)) now allow None = Ok ()"
    and "hc_from_device_record (h_claims h) = sr"
    and "record_digest E tr = Ok (hc_target_device_record_digest (h_claims h))"
  using assms by (auto simp: hello_verify_Ok_iff hello_validate_core_Ok_iff)

section \<open>When an Ack verifies\<close>

lemma ack_validate_claims_Ok_iff:
  "ack_validate_claims E c cert ir rr h app now allow = Ok () \<longleftrightarrow>
     ac_version c = V1_PROTOCOL_VERSION \<and> hello_verify E h ir rr app now allow = Ok () \<and>
     cert = r_certificate rr \<and> ac_from_identity c = cc_identity (c_claims cert) \<and>
     ac_to_identity c = cc_identity (c_claims (r_certificate ir)) \<and>
     ack_devices_match c (c_claims cert) (c_claims (r_certificate ir)) \<and>
     validate_application app = Ok () \<and> ac_application c = app \<and>
     app = hc_application (h_claims h) \<and>
     ac_alpn c = V1_IROH_ALPN_TEXT \<and> hc_alpn (h_claims h) = V1_IROH_ALPN_TEXT \<and>
     validate_challenge E (ac_session_nonce c) ''v1 session nonce'' = Ok () \<and>
     validate_challenge E (ac_responder_nonce c) ''v1 responder nonce'' = Ok () \<and>
     ac_session_nonce c = hc_session_nonce (h_claims h) \<and>
     ac_responder_nonce c \<noteq> ac_session_nonce c \<and>
     validate_digest E (ac_hello_digest c) ''v1 Hello digest'' = Ok () \<and>
     validate_digest E (ac_responder_device_record_digest c) ''v1 responder device digest'' = Ok () \<and>
     hello_digest_of E h = Ok (ac_hello_digest c) \<and>
     record_digest E rr = Ok (ac_responder_device_record_digest c) \<and>
     validate_bounded_window (ac_issued_at c) (ac_expires_at c) now
       V1_MAX_HANDSHAKE_LIFETIME_SECONDS ''v1 Ack lifetime'' = Ok () \<and>
     hc_issued_at (h_claims h) \<le> ac_issued_at c \<and> ac_expires_at c \<le> hc_expires_at (h_claims h) \<and>
     cc_issued_at (c_claims cert) \<le> ac_issued_at c \<and>
     cc_issued_at (c_claims (r_certificate ir)) \<le> ac_issued_at c \<and>
     ac_expires_at c \<le> cc_expires_at (c_claims cert) \<and>
     ac_expires_at c \<le> cc_expires_at (c_claims (r_certificate ir))"
  unfolding ack_validate_claims_def and_then_Ok_iff if_Err_Ok_iff Let_def hello_verify_def [symmetric]
  by (auto simp: not_less)

lemma ack_verify_Ok_iff:
  "ack_verify E a rr ir h app now allow = Ok () \<longleftrightarrow>
     ensure_serialized_bound E (ser_ack a) V1_MAX_ACK_BYTES ''v1 Ack size'' = Ok () \<and>
     ack_validate_claims E (a_claims a) (r_certificate rr) ir rr h app now allow = Ok () \<and>
     (\<exists>key. control_public_key E (r_certificate rr) = Ok key \<and>
        verify_signature E key V1_ACK_DOMAIN (ser_ack_claims (a_claims a)) (a_signature a) = Ok ())"
  by (auto simp: ack_verify_def and_then_Ok_iff)

lemma ack_validate_claims_window:
  "ack_validate_claims E c cert ir rr h app now allow = Ok () \<Longrightarrow> now < ac_expires_at c"
  by (auto simp: ack_validate_claims_Ok_iff validate_bounded_window_Ok_iff)

lemma ack_validate_claims_later:
  assumes "ack_validate_claims E c cert ir rr h app now allow = Ok ()" "now \<le> now'"
    "now' < ac_expires_at c"
  shows "ack_validate_claims E c cert ir rr h app now' allow = Ok ()"
  using assms unfolding ack_validate_claims_Ok_iff
  by (meson hello_verify_later order_less_le_trans validate_bounded_window_later)

interpretation ack: expiring
  "\<lambda>(a, rr, ir, h, app, allow) now. ack_verify E a rr ir h app now allow"
  "\<lambda>(a, rr, ir, h, app, allow). ac_expires_at (a_claims a)" for E
  by unfold_locales
    (auto simp: ack_verify_Ok_iff dest: ack_validate_claims_window intro: ack_validate_claims_later)

section \<open>Signing\<close>

lemma hello_sign_with_policy_Ok:
  assumes "hello_sign_with_policy E cred sr tr app nonce (iss, ex) allow = Ok h"
  obtains kp m where
    "r_certificate sr = cr_certificate cred" "r_authorization sr = cr_authorization cred"
    "hello_validate_core E (h_claims h) sr tr app iss allow = Ok ()"
    "control_key E cred = Ok kp"
    "canonical_for_signing E V1_HELLO_DOMAIN (ser_hello_claims E (h_claims h)) = Ok m"
    "h_signature h = encode_signature E (kp_sign E kp m)"
    "ensure_serialized_bound E (ser_hello E h) V1_MAX_HELLO_BYTES ''v1 Hello size'' = Ok ()"
    "hc_session_nonce (h_claims h) = nonce" "hc_application (h_claims h) = app"
    "hc_issued_at (h_claims h) = iss" "hc_expires_at (h_claims h) = ex"
  using assms unfolding hello_sign_with_policy_def
  by (auto simp: and_then_Ok_iff if_Err_Ok_iff Let_def)

lemma hello_sign_verifies_at_issue:
  assumes laws: "b64_law E" "signature_codec_law E" "signing_law E" "z32_law E"
    and sign: "hello_sign_with_policy E cred sr tr app nonce (iss, ex) allow = Ok h"
  shows "hello_verify E h sr tr app iss allow = Ok ()"
proof -
  from sign obtain kp m where
    s: "r_certificate sr = cr_certificate cred"
      "hello_validate_core E (h_claims h) sr tr app iss allow = Ok ()"
      "control_key E cred = Ok kp"
      "canonical_for_signing E V1_HELLO_DOMAIN (ser_hello_claims E (h_claims h)) = Ok m"
      "h_signature h = encode_signature E (kp_sign E kp m)"
      "ensure_serialized_bound E (ser_hello E h) V1_MAX_HELLO_BYTES ''v1 Hello size'' = Ok ()"
    by (rule hello_sign_with_policy_Ok)
  from laws(4) s(3) have "control_public_key E (r_certificate sr) = Ok (kp_public_key E kp)"
    unfolding s(1) by (rule control_key_parses)
  with s verify_signature_sign [OF laws(1-3) s(4) refl] show ?thesis
    by (simp add: hello_verify_Ok_iff)
qed

lemma ack_sign_with_policy_Ok:
  assumes "ack_sign_with_policy E cred h ir rr nonce (iss, ex) allow = Ok a"
  obtains kp m where
    "r_certificate rr = cr_certificate cred"
    "ack_validate_claims E (a_claims a) (r_certificate rr) ir rr h (hc_application (h_claims h))
       iss allow = Ok ()"
    "control_key E cred = Ok kp"
    "canonical_for_signing E V1_ACK_DOMAIN (ser_ack_claims (a_claims a)) = Ok m"
    "a_signature a = encode_signature E (kp_sign E kp m)"
    "ensure_serialized_bound E (ser_ack a) V1_MAX_ACK_BYTES ''v1 Ack size'' = Ok ()"
    "ac_expires_at (a_claims a) = ex"
  using assms unfolding ack_sign_with_policy_def
  by (auto simp: and_then_Ok_iff if_Err_Ok_iff Let_def)

lemma ack_sign_verifies_at_issue:
  assumes laws: "b64_law E" "signature_codec_law E" "signing_law E" "z32_law E"
    and sign: "ack_sign_with_policy E cred h ir rr nonce (iss, ex) allow = Ok a"
  shows "ack_verify E a rr ir h (hc_application (h_claims h)) iss allow = Ok ()"
proof -
  from sign obtain kp m where
    s: "r_certificate rr = cr_certificate cred"
      "ack_validate_claims E (a_claims a) (r_certificate rr) ir rr h (hc_application (h_claims h))
         iss allow = Ok ()"
      "control_key E cred = Ok kp"
      "canonical_for_signing E V1_ACK_DOMAIN (ser_ack_claims (a_claims a)) = Ok m"
      "a_signature a = encode_signature E (kp_sign E kp m)"
      "ensure_serialized_bound E (ser_ack a) V1_MAX_ACK_BYTES ''v1 Ack size'' = Ok ()"
    by (rule ack_sign_with_policy_Ok)
  from laws(4) s(3) have "control_public_key E (r_certificate rr) = Ok (kp_public_key E kp)"
    unfolding s(1) by (rule control_key_parses)
  with s verify_signature_sign [OF laws(1-3) s(4) refl] show ?thesis
    by (simp add: ack_verify_Ok_iff)
qed

section \<open>Serialisation\<close>

lemma distinct_hello_claims_fields [simp]: "distinct hello_claims_fields"
  by (simp add: hello_claims_fields_def)

lemma length_hello_claims_fields [simp]: "length hello_claims_fields = 16"
  by (simp add: hello_claims_fields_def)

lemma distinct_ack_claims_fields [simp]: "distinct ack_claims_fields"
  by (simp add: ack_claims_fields_def)

lemma length_ack_claims_fields [simp]: "length ack_claims_fields = 17"
  by (simp add: ack_claims_fields_def)

lemma de_ser_hello_claims [serde_simps]:
  "url_serde_law E \<Longrightarrow> de_hello_claims E (ser_hello_claims E c) = Some c"
  by (simp add: de_hello_claims_def ser_hello_claims_def serde_simps)

lemma de_norm_hello_claims [serde_simps]:
  "url_serde_law E \<Longrightarrow> de_hello_claims E (jcs_norm (ser_hello_claims E c)) = Some c"
  by (simp add: de_hello_claims_def ser_hello_claims_def serde_simps)

lemma de_ser_hello [serde_simps]: "url_serde_law E \<Longrightarrow> de_hello E (ser_hello E h) = Some h"
  by (simp add: de_hello_def ser_hello_def serde_simps)

lemma de_norm_hello [serde_simps]:
  "url_serde_law E \<Longrightarrow> de_hello E (jcs_norm (ser_hello E h)) = Some h"
  by (simp add: de_hello_def ser_hello_def serde_simps)

lemma de_ser_ack_claims [serde_simps]: "de_ack_claims (ser_ack_claims c) = Some c"
  by (simp add: de_ack_claims_def ser_ack_claims_def serde_simps)

lemma de_ser_ack [serde_simps]: "de_ack (ser_ack a) = Some a"
  by (simp add: de_ack_def ser_ack_def serde_simps)

definition exact_hello :: "v1_signed_hello \<Rightarrow> bool" where
  "exact_hello h =
     (exact_record (hc_from_device_record (h_claims h)) \<and>
      exact_time (hc_issued_at (h_claims h)) \<and> exact_time (hc_expires_at (h_claims h)))"

lemma exact_ser_hello:
  "url_serde_law E \<Longrightarrow> exact_numbers (ser_hello E h) \<longleftrightarrow> exact_hello h"
  by (simp add: ser_hello_def ser_hello_claims_def ser_struct_def hello_claims_fields_def
      exact_hello_def exact_ser_record exact_time_def ser_uint_def [where 'a = 64])

lemma hello_digest_binds:
  assumes "jcs_law E" "b64_law E" "url_serde_law E"
    and "hello_digest_of E h = Ok d" "hello_digest_of E h' = Ok d" "exact_hello h" "exact_hello h'"
  shows "h = h' \<or> (\<exists>a b. sha256_collision E a b)"
proof -
  have "jcs_norm (ser_hello E h) = jcs_norm (ser_hello E h') \<or> (\<exists>a b. sha256_collision E a b)"
    using assms canonical_digest_binds unfolding hello_digest_of_def
    by (metis exact_ser_hello)
  then show ?thesis
    using de_norm_hello [OF assms(3)] by (metis option.inject)
qed

end
