(* ===== verification/Currentness.thy ===== *)
theory Currentness
  imports Handshake
begin

text \<open>
  Currentness proofs (\<open>V1SignedCurrentnessProof\<close> and \<open>v1_currentness_path\<close> of
  \<open>crates/protocol/src/v1.rs\<close>): a short-lived statement, published on the signer's homeserver,
  that its exact record is current for one exact Hello and one fresh challenge. The lemmas show
  what a verified proof binds, that a signed proof verifies for its whole lifetime of at most 30
  seconds, and that the path the peer computes in advance is the path of the proof.
\<close>

section \<open>Claims\<close>

datatype v1_currentness_role = Initiator | Responder

record v1_currentness_claims =
  pc_version :: u16
  pc_role :: v1_currentness_role
  pc_challenge :: string
  pc_hello_digest :: string
  pc_device_record_digest :: string
  pc_grant_digest :: string
  pc_locator_digest :: string
  pc_issued_at :: u64
  pc_expires_at :: u64

record v1_signed_currentness_proof =
  p_claims :: v1_currentness_claims
  p_signature :: string

text \<open>A unit variant is its name in snake case.\<close>

fun ser_role :: "v1_currentness_role \<Rightarrow> json" where
  "ser_role Initiator = JStr ''initiator''"
| "ser_role Responder = JStr ''responder''"

text \<open>
  \<open>serde_json\<close> also accepts the externally tagged form of a unit variant, an object with the
  name as its only key and \<open>null\<close> as its value.
\<close>

definition de_role :: "json \<Rightarrow> v1_currentness_role option" where
  "de_role j =
     (let pick = (\<lambda>s. if s = ''initiator'' then Some Initiator
                      else if s = ''responder'' then Some Responder else None)
      in case j of JStr s \<Rightarrow> pick s | JObj [(s, JNull)] \<Rightarrow> pick s | _ \<Rightarrow> None)"

definition currentness_claims_fields :: "string list" where
  "currentness_claims_fields =
     [''version'', ''role'', ''challenge'', ''hello_digest'', ''device_record_digest'',
      ''grant_digest'', ''locator_digest'', ''issued_at'', ''expires_at'']"

definition ser_currentness_claims :: "v1_currentness_claims \<Rightarrow> json" where
  "ser_currentness_claims c = ser_struct currentness_claims_fields
     [ser_uint (pc_version c), ser_role (pc_role c), JStr (pc_challenge c),
      JStr (pc_hello_digest c), JStr (pc_device_record_digest c), JStr (pc_grant_digest c),
      JStr (pc_locator_digest c), ser_uint (pc_issued_at c), ser_uint (pc_expires_at c)]"

definition de_currentness_claims :: "json \<Rightarrow> v1_currentness_claims option" where
  "de_currentness_claims j =
     (case de_struct currentness_claims_fields j of
        Some [a, b, c, d, e, f, g, h, i] \<Rightarrow> do {
          a' \<leftarrow> de_uint a; b' \<leftarrow> de_role b; c' \<leftarrow> de_string c; d' \<leftarrow> de_string d;
          e' \<leftarrow> de_string e; f' \<leftarrow> de_string f; g' \<leftarrow> de_string g; h' \<leftarrow> de_uint h; i' \<leftarrow> de_uint i;
          Some \<lparr>pc_version = a', pc_role = b', pc_challenge = c', pc_hello_digest = d',
            pc_device_record_digest = e', pc_grant_digest = f', pc_locator_digest = g',
            pc_issued_at = h', pc_expires_at = i'\<rparr> }
      | _ \<Rightarrow> None)"

definition ser_currentness_proof :: "v1_signed_currentness_proof \<Rightarrow> json" where
  "ser_currentness_proof p =
     ser_struct [''claims'', ''signature''] [ser_currentness_claims (p_claims p), JStr (p_signature p)]"

definition de_currentness_proof :: "json \<Rightarrow> v1_signed_currentness_proof option" where
  "de_currentness_proof j =
     (case de_struct [''claims'', ''signature''] j of
        Some [a, b] \<Rightarrow> do { a' \<leftarrow> de_currentness_claims a; b' \<leftarrow> de_string b;
                            Some \<lparr>p_claims = a', p_signature = b'\<rparr> }
      | _ \<Rightarrow> None)"

section \<open>Paths\<close>

definition currentness_path_fields :: "string list" where
  "currentness_path_fields =
     [''role'', ''challenge'', ''hello_digest'', ''device_record_digest'', ''grant_digest'',
      ''locator_digest'']"

definition ser_currentness_path_input ::
  "v1_currentness_role \<Rightarrow> string \<Rightarrow> string \<Rightarrow> string \<Rightarrow> string \<Rightarrow> string \<Rightarrow> json" where
  "ser_currentness_path_input role challenge hed rd gd ld = ser_struct currentness_path_fields
     [ser_role role, JStr challenge, JStr hed, JStr rd, JStr gd, JStr ld]"

definition v1_currentness_path ::
  "env \<Rightarrow> v1_currentness_role \<Rightarrow> string \<Rightarrow> string \<Rightarrow> string \<Rightarrow> string \<Rightarrow> string \<Rightarrow> string presult" where
  "v1_currentness_path E role challenge hello_digest device_record_digest grant_digest
      locator_dig =
     and_then (validate_challenge E challenge ''v1 currentness challenge'') (\<lambda>_.
     and_then (validate_digest E hello_digest ''v1 Hello digest'') (\<lambda>_.
     and_then (validate_digest E device_record_digest ''v1 device record digest'') (\<lambda>_.
     and_then (validate_digest E grant_digest ''v1 Grant digest'') (\<lambda>_.
     and_then (validate_digest E locator_dig ''v1 locator digest'') (\<lambda>_.
     and_then (canonical_digest E V1_CURRENTNESS_PATH_DOMAIN
        (ser_currentness_path_input role challenge hello_digest device_record_digest grant_digest
           locator_dig)) (\<lambda>digest.
     Ok (V1_CURRENTNESS_PATH_PREFIX @ digest @ ''.json'')))))))"

text \<open>The record pair in the order initiator, responder.\<close>

fun records_for_role :: "v1_currentness_role \<Rightarrow> 'r \<Rightarrow> 'r \<Rightarrow> 'r \<times> 'r" where
  "records_for_role Initiator own_record peer_record = (own_record, peer_record)"
| "records_for_role Responder own_record peer_record = (peer_record, own_record)"

section \<open>Proofs\<close>

text \<open>The four comparisons of digests, each computed only when the previous ones agree.\<close>

definition currentness_check_digests ::
  "env \<Rightarrow> v1_currentness_claims \<Rightarrow> v1_device_record \<Rightarrow> v1_signed_hello \<Rightarrow> unit presult" where
  "currentness_check_digests E claims own_record hello =
     and_then (hello_digest_of E hello) (\<lambda>hed.
     if pc_hello_digest claims \<noteq> hed then Err DeviceMismatch
     else and_then (record_digest E own_record) (\<lambda>rd.
     if pc_device_record_digest claims \<noteq> rd then Err DeviceMismatch
     else and_then (grant_digest_of E (r_authorization own_record)) (\<lambda>gd.
     if pc_grant_digest claims \<noteq> gd then Err DeviceMismatch
     else and_then (locator_digest E (r_locator own_record)) (\<lambda>ld.
     if pc_locator_digest claims \<noteq> ld then Err DeviceMismatch else Ok ()))))"

definition currentness_validate_claims ::
  "env \<Rightarrow> v1_currentness_claims \<Rightarrow> v1_device_record \<Rightarrow> v1_device_record \<Rightarrow> v1_signed_hello \<Rightarrow>
   v1_currentness_role \<Rightarrow> string \<Rightarrow> u64 \<Rightarrow> bool \<Rightarrow> unit presult" where
  "currentness_validate_claims E claims own_record peer_record hello expected_role
      expected_challenge now allow_loopback_dev =
     (if pc_version claims \<noteq> V1_PROTOCOL_VERSION
      then Err (UnsupportedVersion (pc_version claims))
      else if pc_role claims \<noteq> expected_role then Err DeviceMismatch
      else and_then (validate_challenge E (pc_challenge claims) ''v1 currentness challenge'') (\<lambda>_.
      if pc_challenge claims \<noteq> expected_challenge
        \<or> pc_challenge claims = hc_session_nonce (h_claims hello)
      then Err (InvalidEncoding ''v1 currentness challenge binding'')
      else (case records_for_role expected_role own_record peer_record of
        (initiator_record, responder_record) \<Rightarrow>
      and_then (hello_verify E hello initiator_record responder_record
                  (hc_application (h_claims hello)) now allow_loopback_dev) (\<lambda>_.
      and_then (validate_digest E (pc_hello_digest claims) ''v1 Hello digest'') (\<lambda>_.
      and_then (validate_digest E (pc_device_record_digest claims) ''v1 device record digest'') (\<lambda>_.
      and_then (validate_digest E (pc_grant_digest claims) ''v1 Grant digest'') (\<lambda>_.
      and_then (validate_digest E (pc_locator_digest claims) ''v1 locator digest'') (\<lambda>_.
      and_then (currentness_check_digests E claims own_record hello) (\<lambda>_.
      and_then (validate_currentness_window (pc_issued_at claims) (pc_expires_at claims) now) (\<lambda>_.
      if pc_issued_at claims < hc_issued_at (h_claims hello)
        \<or> pc_expires_at claims > hc_expires_at (h_claims hello)
        \<or> pc_expires_at claims > lc_expires_at (l_claims (r_locator own_record))
      then Err InvalidTimeWindow else Ok ()))))))))))"

definition currentness_sign ::
  "env \<Rightarrow> v1_device_credential \<Rightarrow> v1_device_record \<Rightarrow> v1_device_record \<Rightarrow> v1_signed_hello \<Rightarrow>
   v1_currentness_role \<Rightarrow> string \<Rightarrow> u64 \<Rightarrow> u64 \<Rightarrow> bool \<Rightarrow> v1_signed_currentness_proof presult" where
  "currentness_sign E credential own_record peer_record hello role challenge issued_at expires_at
      allow_loopback_dev =
     (if r_authorization own_record \<noteq> cr_authorization credential
        \<or> r_certificate own_record \<noteq> cr_certificate credential
      then Err DeviceMismatch
      else (case records_for_role role own_record peer_record of
        (initiator_record, responder_record) \<Rightarrow>
      and_then (hello_verify E hello initiator_record responder_record
                  (hc_application (h_claims hello)) issued_at allow_loopback_dev) (\<lambda>_.
      and_then (hello_digest_of E hello) (\<lambda>hed.
      and_then (record_digest E own_record) (\<lambda>rd.
      and_then (grant_digest_of E (r_authorization own_record)) (\<lambda>gd.
      and_then (locator_digest E (r_locator own_record)) (\<lambda>ld.
      (let claims =
         \<lparr>pc_version = V1_PROTOCOL_VERSION, pc_role = role, pc_challenge = challenge,
          pc_hello_digest = hed, pc_device_record_digest = rd, pc_grant_digest = gd,
          pc_locator_digest = ld, pc_issued_at = issued_at, pc_expires_at = expires_at\<rparr>
       in and_then (currentness_validate_claims E claims own_record peer_record hello role
                      (pc_challenge claims) issued_at allow_loopback_dev) (\<lambda>_.
          and_then (control_key E credential) (\<lambda>kp.
          and_then (canonical_for_signing E V1_CURRENTNESS_DOMAIN (ser_currentness_claims claims)) (\<lambda>m.
          (let proof_value = \<lparr>p_claims = claims, p_signature = encode_signature E (kp_sign E kp m)\<rparr>
           in and_then (ensure_serialized_bound E (ser_currentness_proof proof_value)
                          V1_MAX_CURRENTNESS_PROOF_BYTES ''v1 currentness proof size'') (\<lambda>_.
              Ok proof_value)))))))))))))"

definition currentness_verify ::
  "env \<Rightarrow> v1_signed_currentness_proof \<Rightarrow> v1_device_record \<Rightarrow> v1_device_record \<Rightarrow> v1_signed_hello \<Rightarrow>
   v1_currentness_role \<Rightarrow> string \<Rightarrow> u64 \<Rightarrow> bool \<Rightarrow> unit presult" where
  "currentness_verify E self own_record peer_record hello expected_role expected_challenge now
      allow_loopback_dev =
     and_then (ensure_serialized_bound E (ser_currentness_proof self)
                 V1_MAX_CURRENTNESS_PROOF_BYTES ''v1 currentness proof size'') (\<lambda>_.
     and_then (currentness_validate_claims E (p_claims self) own_record peer_record hello
                 expected_role expected_challenge now allow_loopback_dev) (\<lambda>_.
     and_then (control_public_key E (r_certificate own_record)) (\<lambda>key.
     verify_signature E key V1_CURRENTNESS_DOMAIN (ser_currentness_claims (p_claims self))
       (p_signature self))))"

definition currentness_path :: "env \<Rightarrow> v1_signed_currentness_proof \<Rightarrow> string presult" where
  "currentness_path E self =
     v1_currentness_path E (pc_role (p_claims self)) (pc_challenge (p_claims self))
       (pc_hello_digest (p_claims self)) (pc_device_record_digest (p_claims self))
       (pc_grant_digest (p_claims self)) (pc_locator_digest (p_claims self))"

section \<open>When a proof verifies\<close>

lemma currentness_check_digests_Ok_iff:
  "currentness_check_digests E c r h = Ok () \<longleftrightarrow>
     hello_digest_of E h = Ok (pc_hello_digest c) \<and>
     record_digest E r = Ok (pc_device_record_digest c) \<and>
     grant_digest_of E (r_authorization r) = Ok (pc_grant_digest c) \<and>
     locator_digest E (r_locator r) = Ok (pc_locator_digest c)"
  unfolding currentness_check_digests_def and_then_Ok_iff if_Err_Ok_iff by auto

lemma currentness_validate_claims_Ok_iff:
  "currentness_validate_claims E c own peer h role ch now allow = Ok () \<longleftrightarrow>
     pc_version c = V1_PROTOCOL_VERSION \<and> pc_role c = role \<and>
     validate_challenge E ch ''v1 currentness challenge'' = Ok () \<and> pc_challenge c = ch \<and>
     ch \<noteq> hc_session_nonce (h_claims h) \<and>
     (case records_for_role role own peer of (ir, rr) \<Rightarrow>
        hello_verify E h ir rr (hc_application (h_claims h)) now allow = Ok ()) \<and>
     validate_digest E (pc_hello_digest c) ''v1 Hello digest'' = Ok () \<and>
     validate_digest E (pc_device_record_digest c) ''v1 device record digest'' = Ok () \<and>
     validate_digest E (pc_grant_digest c) ''v1 Grant digest'' = Ok () \<and>
     validate_digest E (pc_locator_digest c) ''v1 locator digest'' = Ok () \<and>
     currentness_check_digests E c own h = Ok () \<and>
     validate_currentness_window (pc_issued_at c) (pc_expires_at c) now = Ok () \<and>
     hc_issued_at (h_claims h) \<le> pc_issued_at c \<and> pc_expires_at c \<le> hc_expires_at (h_claims h) \<and>
     pc_expires_at c \<le> lc_expires_at (l_claims (r_locator own))"
  unfolding currentness_validate_claims_def and_then_Ok_iff if_Err_Ok_iff
  by (cases role) (auto simp: not_less and_then_Ok_iff)

lemma currentness_verify_Ok_iff:
  "currentness_verify E p own peer h role ch now allow = Ok () \<longleftrightarrow>
     ensure_serialized_bound E (ser_currentness_proof p) V1_MAX_CURRENTNESS_PROOF_BYTES
       ''v1 currentness proof size'' = Ok () \<and>
     currentness_validate_claims E (p_claims p) own peer h role ch now allow = Ok () \<and>
     (\<exists>key. control_public_key E (r_certificate own) = Ok key \<and>
        verify_signature E key V1_CURRENTNESS_DOMAIN (ser_currentness_claims (p_claims p))
          (p_signature p) = Ok ())"
  by (auto simp: currentness_verify_def and_then_Ok_iff)

lemma currentness_validate_claims_window:
  "currentness_validate_claims E c own peer h role ch now allow = Ok () \<Longrightarrow>
   pc_issued_at c \<le> now \<and> now < pc_expires_at c"
  by (auto simp: currentness_validate_claims_Ok_iff validate_currentness_window_Ok_iff)

lemma currentness_validate_claims_later:
  assumes "currentness_validate_claims E c own peer h role ch now allow = Ok ()" "now \<le> now'"
    "now' < pc_expires_at c"
  shows "currentness_validate_claims E c own peer h role ch now' allow = Ok ()"
proof -
  have "now' < hc_expires_at (h_claims h)"
    using assms unfolding currentness_validate_claims_Ok_iff by (meson order_less_le_trans)
  moreover have "validate_currentness_window (pc_issued_at c) (pc_expires_at c) now' = Ok ()"
    using assms by (auto simp: currentness_validate_claims_Ok_iff validate_currentness_window_Ok_iff)
  ultimately show ?thesis
    using assms by (cases role) (auto simp: currentness_validate_claims_Ok_iff intro: hello_verify_later)
qed

interpretation currentness_proof: expiring
  "\<lambda>(p, own, peer, h, role, ch, allow) now. currentness_verify E p own peer h role ch now allow"
  "\<lambda>(p, own, peer, h, role, ch, allow). pc_expires_at (p_claims p)" for E
  by unfold_locales
    (auto simp: currentness_verify_Ok_iff dest: currentness_validate_claims_window
      intro: currentness_validate_claims_later)

lemma currentness_verify_window:
  "currentness_verify E p own peer h role ch now allow = Ok () \<Longrightarrow>
   pc_issued_at (p_claims p) \<le> now \<and> now < pc_expires_at (p_claims p) \<and>
   pc_expires_at (p_claims p) \<le> hc_expires_at (h_claims h)"
  by (auto simp: currentness_verify_Ok_iff currentness_validate_claims_Ok_iff
      validate_currentness_window_Ok_iff)

section \<open>Signing\<close>

lemma currentness_sign_Ok:
  assumes "currentness_sign E cred own peer h role ch iss ex allow = Ok p"
  obtains kp m where
    "r_certificate own = cr_certificate cred"
    "currentness_validate_claims E (p_claims p) own peer h role ch iss allow = Ok ()"
    "control_key E cred = Ok kp"
    "canonical_for_signing E V1_CURRENTNESS_DOMAIN (ser_currentness_claims (p_claims p)) = Ok m"
    "p_signature p = encode_signature E (kp_sign E kp m)"
    "ensure_serialized_bound E (ser_currentness_proof p) V1_MAX_CURRENTNESS_PROOF_BYTES
       ''v1 currentness proof size'' = Ok ()"
    "pc_expires_at (p_claims p) = ex" "pc_issued_at (p_claims p) = iss"
  using assms unfolding currentness_sign_def
  by (cases role) (auto simp: and_then_Ok_iff if_Err_Ok_iff Let_def)

lemma currentness_sign_verifies_at_issue:
  assumes laws: "b64_law E" "signature_codec_law E" "signing_law E" "z32_law E"
    and sign: "currentness_sign E cred own peer h role ch iss ex allow = Ok p"
  shows "currentness_verify E p own peer h role ch iss allow = Ok ()"
proof -
  from sign obtain kp m where
    s: "r_certificate own = cr_certificate cred"
      "currentness_validate_claims E (p_claims p) own peer h role ch iss allow = Ok ()"
      "control_key E cred = Ok kp"
      "canonical_for_signing E V1_CURRENTNESS_DOMAIN (ser_currentness_claims (p_claims p)) = Ok m"
      "p_signature p = encode_signature E (kp_sign E kp m)"
      "ensure_serialized_bound E (ser_currentness_proof p) V1_MAX_CURRENTNESS_PROOF_BYTES
         ''v1 currentness proof size'' = Ok ()"
    by (rule currentness_sign_Ok)
  from laws(4) s(3) have "control_public_key E (r_certificate own) = Ok (kp_public_key E kp)"
    unfolding s(1) by (rule control_key_parses)
  with s verify_signature_sign [OF laws(1-3) s(4) refl] show ?thesis
    by (simp add: currentness_verify_Ok_iff)
qed

text \<open>Only the claims of the proof enter its path, and they agree with the peer's own digests.\<close>

lemma currentness_path_agrees:
  assumes "currentness_validate_claims E (p_claims p) own peer h role ch now allow = Ok ()"
    and "hello_digest_of E h = Ok hed" "record_digest E own = Ok rd"
    and "grant_digest_of E (r_authorization own) = Ok gd" "locator_digest E (r_locator own) = Ok ld"
  shows "currentness_path E p = v1_currentness_path E role ch hed rd gd ld"
  using assms
  by (auto simp: currentness_path_def currentness_validate_claims_Ok_iff
      currentness_check_digests_Ok_iff)

section \<open>Serialisation\<close>

lemma de_ser_role [serde_simps]: "de_role (ser_role r) = Some r"
  by (cases r) (simp_all add: de_role_def)

lemma jcs_norm_ser_role [simp]: "jcs_norm (ser_role r) = ser_role r"
  by (cases r) simp_all

lemma exact_ser_role [simp]: "exact_numbers (ser_role r)"
  by (cases r) simp_all

lemma distinct_currentness_claims_fields [simp]: "distinct currentness_claims_fields"
  by (simp add: currentness_claims_fields_def)

lemma length_currentness_claims_fields [simp]: "length currentness_claims_fields = 9"
  by (simp add: currentness_claims_fields_def)

lemma distinct_currentness_path_fields [simp]: "distinct currentness_path_fields"
  by (simp add: currentness_path_fields_def)

lemma length_currentness_path_fields [simp]: "length currentness_path_fields = 6"
  by (simp add: currentness_path_fields_def)

lemma de_ser_currentness_claims [serde_simps]:
  "de_currentness_claims (ser_currentness_claims c) = Some c"
  by (simp add: de_currentness_claims_def ser_currentness_claims_def serde_simps)

lemma de_ser_currentness_proof [serde_simps]:
  "de_currentness_proof (ser_currentness_proof p) = Some p"
  by (simp add: de_currentness_proof_def ser_currentness_proof_def serde_simps)

lemma ser_currentness_path_input_inject:
  "jcs_norm (ser_currentness_path_input r c hed rd gd ld)
     = jcs_norm (ser_currentness_path_input r' c' hed' rd' gd' ld') \<Longrightarrow>
   (r, c, hed, rd, gd, ld) = (r', c', hed', rd', gd', ld')"
proof -
  assume eq: "jcs_norm (ser_currentness_path_input r c hed rd gd ld)
     = jcs_norm (ser_currentness_path_input r' c' hed' rd' gd' ld')"
  have de: "de_struct currentness_path_fields (jcs_norm (ser_currentness_path_input r c hed rd gd ld))
      = Some [ser_role r, JStr c, JStr hed, JStr rd, JStr gd, JStr ld]" for r c hed rd gd ld
    by (simp add: ser_currentness_path_input_def serde_simps)
  from de [of r c hed rd gd ld] de [of r' c' hed' rd' gd' ld'] eq
  have "ser_role r = ser_role r' \<and> c = c' \<and> hed = hed' \<and> rd = rd' \<and> gd = gd' \<and> ld = ld'"
    by simp
  then show ?thesis using de_ser_role by (metis option.inject)
qed

text \<open>Equal paths come from equal inputs, or SHA-256 has a collision.\<close>

lemma v1_currentness_path_binds:
  assumes "jcs_law E" "b64_law E"
    and "v1_currentness_path E r c hed rd gd ld = Ok p"
    and "v1_currentness_path E r' c' hed' rd' gd' ld' = Ok p"
  shows "(r, c, hed, rd, gd, ld) = (r', c', hed', rd', gd', ld') \<or> (\<exists>a b. sha256_collision E a b)"
proof -
  have exact: "exact_numbers (ser_currentness_path_input r c hed rd gd ld)" for r c hed rd gd ld
    by (simp add: ser_currentness_path_input_def ser_struct_def currentness_path_fields_def)
  from assms(3,4) obtain d where
    "canonical_digest E V1_CURRENTNESS_PATH_DOMAIN (ser_currentness_path_input r c hed rd gd ld) = Ok d"
    "canonical_digest E V1_CURRENTNESS_PATH_DOMAIN (ser_currentness_path_input r' c' hed' rd' gd' ld') = Ok d"
    by (auto simp: v1_currentness_path_def and_then_Ok_iff)
  from canonical_digest_binds [OF assms(1,2) this exact exact]
  show ?thesis using ser_currentness_path_input_inject by blast
qed

end
