(* ===== verification/Sequence.thy ===== *)
theory Sequence
  imports Currentness
begin

text \<open>
  Anti-rollback state (\<open>crates/client/src/sequence.rs\<close> and \<open>error.rs\<close>): the greatest
  authenticated counter and digest per key, and the publisher counters. This theory holds the
  operations on the ordered map and what they promise; the memory and file stores that run them
  are in the theories that follow.
\<close>

section \<open>Client errors\<close>

text \<open>
  \<open>StateOs\<close> and \<open>StateJson\<close> are the \<open>State\<close> errors whose message is the text of an
  operating-system or a JSON error.
\<close>

datatype os_error = OsFault string | ELOOP | EISDIR | EEXIST

datatype client_error =
    Protocol protocol_error
  | InvalidRelayUrl
  | Timeout string
  | Discovery string
  | State string
  | StateOs os_error
  | StateJson
  | Iroh string
  | ChannelClosed
  | UnexpectedPeer

type_synonym 'a cresult = "('a, client_error) result"

section \<open>State\<close>

definition MAX_STATE_BYTES :: nat where "MAX_STATE_BYTES = 1024 * 1024"
definition MAX_STATE_ENTRIES :: nat where "MAX_STATE_ENTRIES = 4096"
definition PUBLISHER_SCOPE_PREFIX :: string where "PUBLISHER_SCOPE_PREFIX = ''v1:publisher:''"

record authenticated_sequence_observation =
  o_identity :: string
  o_scope :: string
  o_counter :: u64
  o_digest :: bytes

datatype stored_sequence = Publisher u64 | Authenticated u64 bytes

fun stored_counter :: "stored_sequence \<Rightarrow> u64" where
  "stored_counter (Publisher counter) = counter"
| "stored_counter (Authenticated counter digest) = counter"

type_synonym sequence_state = "(string \<times> stored_sequence) list"

section \<open>Keys\<close>

definition scope_byte :: "char \<Rightarrow> bool" where
  "scope_byte c = (is_ascii_alphanumeric c \<or> c \<in> {CHR ''-'', CHR ''_'', CHR '':''})"

text \<open>A key text that parses and is the canonical text of the key.\<close>

definition parse_canonical :: "env \<Rightarrow> string \<Rightarrow> string \<Rightarrow> public_key cresult" where
  "parse_canonical E s message =
     and_then (ok_or (pk_parse E s) (State message)) (\<lambda>parsed.
     if pk_z32 E parsed \<noteq> s then Err (State message) else Ok parsed)"

definition state_key :: "env \<Rightarrow> string \<Rightarrow> string \<Rightarrow> string cresult" where
  "state_key E identity scope =
     and_then (parse_canonical E identity ''non-canonical Pubky identity'') (\<lambda>_.
     if scope = [] \<or> length scope > 128 \<or> \<not> list_all scope_byte scope
     then Err (State ''invalid sequence scope'')
     else Ok (identity @ '':'' @ scope))"

definition publisher_key :: "env \<Rightarrow> string \<Rightarrow> string \<Rightarrow> string cresult" where
  "publisher_key E identity control =
     and_then (parse_canonical E control ''non-canonical control key'') (\<lambda>_.
     state_key E identity (PUBLISHER_SCOPE_PREFIX @ control))"

definition observation_new ::
  "env \<Rightarrow> string \<Rightarrow> string \<Rightarrow> u64 \<Rightarrow> bytes \<Rightarrow> authenticated_sequence_observation cresult" where
  "observation_new E identity scope counter digest =
     and_then (state_key E identity scope) (\<lambda>_.
     if starts_with PUBLISHER_SCOPE_PREFIX scope
     then Err (State ''publisher sequence scope is reserved'')
     else if counter = 0 then Err (State ''sequence values must be greater than zero'')
     else Ok \<lparr>o_identity = identity, o_scope = scope, o_counter = counter, o_digest = digest\<rparr>)"

section \<open>Operations\<close>

type_synonym prepared_batch = "(string \<times> (u64 \<times> bytes)) list"

fun prepare_batch_loop ::
  "env \<Rightarrow> prepared_batch \<Rightarrow> authenticated_sequence_observation list \<Rightarrow> prepared_batch cresult" where
  "prepare_batch_loop E prepared [] = Ok prepared"
| "prepare_batch_loop E prepared (observation # observations) =
     (if starts_with PUBLISHER_SCOPE_PREFIX (o_scope observation)
      then Err (State ''publisher sequence scope is reserved'')
      else and_then (state_key E (o_identity observation) (o_scope observation)) (\<lambda>key.
      (let v = (o_counter observation, o_digest observation)
       in if (case map_of prepared key of None \<Rightarrow> False | Some previous \<Rightarrow> previous \<noteq> v)
          then Err (State ''authenticated batch contains conflicting duplicate keys'')
          else prepare_batch_loop E (bt_insert key v prepared) observations)))"

definition prepare_batch ::
  "env \<Rightarrow> authenticated_sequence_observation list \<Rightarrow> prepared_batch cresult" where
  "prepare_batch E observations = prepare_batch_loop E [] observations"

definition record_authenticated_value ::
  "sequence_state \<Rightarrow> string \<Rightarrow> u64 \<Rightarrow> bytes \<Rightarrow> sequence_state cresult" where
  "record_authenticated_value vs key counter digest =
     (let insert = Ok (bt_insert key (Authenticated counter digest) vs)
      in case map_of vs key of
        Some (Publisher _) \<Rightarrow>
          Err (State ''authenticated observation conflicts with publisher state'')
      | Some (Authenticated previous_counter previous_digest) \<Rightarrow>
          if counter < previous_counter then Err (State ''authenticated record rolled back'')
          else if counter = previous_counter
          then (if digest = previous_digest then Ok vs
                else Err (State ''authenticated record equivocated at an existing counter''))
          else insert
      | None \<Rightarrow>
          if length vs \<ge> MAX_STATE_ENTRIES
          then Err (State ''sequence store reached its entry limit'') else insert)"

fun record_authenticated_batch ::
  "sequence_state \<Rightarrow> prepared_batch \<Rightarrow> sequence_state cresult" where
  "record_authenticated_batch vs [] = Ok vs"
| "record_authenticated_batch vs ((key, (counter, digest)) # observations) =
     and_then (record_authenticated_value vs key counter digest) (\<lambda>vs'.
     record_authenticated_batch vs' observations)"

definition initialize_publisher :: "sequence_state \<Rightarrow> string \<Rightarrow> sequence_state cresult" where
  "initialize_publisher vs key =
     (if map_of vs key \<noteq> None
      then Err (State ''publisher counter is already initialized; rotate the device certificate'')
      else if length vs \<ge> MAX_STATE_ENTRIES
      then Err (State ''sequence store reached its entry limit'')
      else Ok (bt_insert key (Publisher 0) vs))"

definition next_publisher_value :: "sequence_state \<Rightarrow> string \<Rightarrow> (u64 \<times> sequence_state) cresult" where
  "next_publisher_value vs key =
     (case map_of vs key of
        None \<Rightarrow> Err (State ''publisher state is missing; rotate the device credential'')
      | Some (Authenticated _ _) \<Rightarrow> Err (State
          ''publisher counter conflicts with authenticated sequence state; rotate the device certificate'')
      | Some (Publisher counter) \<Rightarrow>
          and_then (ok_or (checked_add counter 1)
             (State ''publisher sequence exhausted; rotate the device certificate'')) (\<lambda>counter'.
          Ok (counter', bt_insert key (Publisher counter') vs)))"

section \<open>Encoding\<close>

definition ser_stored :: "stored_sequence \<Rightarrow> json" where
  "ser_stored v = (case v of
     Publisher counter \<Rightarrow> JObj [(''kind'', JStr ''publisher''), (''counter'', ser_uint counter)]
   | Authenticated counter digest \<Rightarrow>
       JObj [(''kind'', JStr ''authenticated''), (''counter'', ser_uint counter),
             (''digest'', ser_vec ser_uint digest)])"

text \<open>
  Internally tagged: the tag is taken out wherever it stands, the rest is read as the variant's
  fields.
\<close>

definition de_stored_variant :: "string \<Rightarrow> json \<Rightarrow> stored_sequence option" where
  "de_stored_variant tag rest =
     (if tag = ''publisher'' then
        (case de_struct [''counter''] rest of Some [c] \<Rightarrow> map_option Publisher (de_uint c) | _ \<Rightarrow> None)
      else if tag = ''authenticated'' then
        (case de_struct [''counter'', ''digest''] rest of
           Some [c, d] \<Rightarrow> do {
             c' \<leftarrow> de_uint c;
             d' \<leftarrow> de_vec de_uint d;
             (if length d' = 32 then Some (Authenticated c' d') else None) }
         | _ \<Rightarrow> None)
      else None)"

definition de_stored :: "json \<Rightarrow> stored_sequence option" where
  "de_stored j =
     (case j of
        JObj kvs \<Rightarrow>
          (case filter (\<lambda>kv. fst kv = ''kind'') kvs of
             [(_, JStr tag)] \<Rightarrow> de_stored_variant tag (JObj (filter (\<lambda>kv. fst kv \<noteq> ''kind'') kvs))
           | _ \<Rightarrow> None)
      | JArr (JStr tag # vs) \<Rightarrow> de_stored_variant tag (JArr vs)
      | _ \<Rightarrow> None)"

definition ser_state :: "sequence_state \<Rightarrow> json" where
  "ser_state vs = JObj (map (map_prod id ser_stored) vs)"

fun de_state_entries :: "sequence_state \<Rightarrow> (string \<times> json) list \<Rightarrow> sequence_state option" where
  "de_state_entries vs [] = Some vs"
| "de_state_entries vs ((k, j) # kvs) =
     do { v \<leftarrow> de_stored j; de_state_entries (bt_insert k v vs) kvs }"

definition de_state :: "json \<Rightarrow> sequence_state option" where
  "de_state j = (case j of JObj kvs \<Rightarrow> de_state_entries [] kvs | _ \<Rightarrow> None)"

section \<open>Bounds\<close>

definition validate_state_bounds :: "env \<Rightarrow> sequence_state \<Rightarrow> unit cresult" where
  "validate_state_bounds E vs =
     (if length vs > MAX_STATE_ENTRIES then Err (State ''sequence store reached its entry limit'')
      else and_then (ok_or (json_to_vec E (ser_state vs)) StateJson) (\<lambda>encoded.
      if length encoded > MAX_STATE_BYTES then Err (State ''sequence state is too large'')
      else Ok ()))"

definition valid_publisher_scope :: "env \<Rightarrow> string \<Rightarrow> bool" where
  "valid_publisher_scope E scope =
     (case strip_prefix PUBLISHER_SCOPE_PREFIX scope of
        None \<Rightarrow> False
      | Some control \<Rightarrow>
          (case pk_parse E control of None \<Rightarrow> False | Some parsed \<Rightarrow> pk_z32 E parsed = control))"

definition validate_stored_entry :: "env \<Rightarrow> string \<Rightarrow> stored_sequence \<Rightarrow> unit cresult" where
  "validate_stored_entry E key v =
     and_then (ok_or (split_once (CHR '':'') key) (State ''invalid sequence state key'')) (\<lambda>(identity, scope).
     and_then (state_key E identity scope) (\<lambda>key'.
     if key' \<noteq> key then Err (State ''non-canonical sequence state key'')
     else (case v of
        Authenticated counter _ \<Rightarrow>
          if counter = 0 then Err (State ''authenticated sequence state contains a zero counter'')
          else if starts_with PUBLISHER_SCOPE_PREFIX scope
          then Err (State ''authenticated sequence state uses a reserved scope'')
          else Ok ()
      | Publisher _ \<Rightarrow>
          if \<not> valid_publisher_scope E scope
          then Err (State ''publisher sequence state has an invalid scope'')
          else Ok ())))"

section \<open>Operations of a store\<close>

text \<open>
  The requests of the two store traits and of \<open>initialize_locator_publisher\<close>, and the update
  each runs on the state under the store's lock.
\<close>

datatype store_op =
    RecordBatch "authenticated_sequence_observation list"
  | InitializePublisher string string
  | NextSequence string string

datatype store_out = Done | Allocated u64

definition store_update :: "env \<Rightarrow> store_op \<Rightarrow> (sequence_state \<Rightarrow> (store_out \<times> sequence_state) cresult) cresult" where
  "store_update E op =
     (case op of
        RecordBatch observations \<Rightarrow>
          and_then (prepare_batch E observations) (\<lambda>prepared.
          Ok (\<lambda>vs. and_then (record_authenticated_batch vs prepared) (\<lambda>vs'. Ok (Done, vs'))))
      | InitializePublisher identity control \<Rightarrow>
          and_then (publisher_key E identity control) (\<lambda>key.
          Ok (\<lambda>vs. and_then (initialize_publisher vs key) (\<lambda>vs'. Ok (Done, vs'))))
      | NextSequence identity control \<Rightarrow>
          and_then (publisher_key E identity control) (\<lambda>key.
          Ok (\<lambda>vs. and_then (next_publisher_value vs key) (\<lambda>(n, vs'). Ok (Allocated n, vs')))))"

section \<open>Progress of an entry\<close>

text \<open>
  What never happens to an entry: a publisher counter or an authenticated counter decreases, the
  digest changes at one counter, or the entry changes kind or disappears.
\<close>

fun advances :: "stored_sequence option \<Rightarrow> stored_sequence option \<Rightarrow> bool" where
  "advances None _ = True"
| "advances (Some (Publisher c)) (Some (Publisher c')) = (c \<le> c')"
| "advances (Some (Authenticated c d)) (Some (Authenticated c' d')) = (c < c' \<or> c = c' \<and> d = d')"
| "advances _ _ = False"

definition state_advances :: "sequence_state \<Rightarrow> sequence_state \<Rightarrow> bool" where
  "state_advances vs vs' = (\<forall>k. advances (map_of vs k) (map_of vs' k))"

lemma advances_refl [simp]: "advances e e"
  by (cases "(e, e)" rule: advances.cases) auto

lemma advances_trans: "advances a b \<Longrightarrow> advances b c \<Longrightarrow> advances a c"
  by (cases "(a, b)" rule: advances.cases; cases "(b, c)" rule: advances.cases) auto

lemma state_advances_refl [simp]: "state_advances vs vs"
  by (simp add: state_advances_def)

lemma state_advances_trans:
  "state_advances a b \<Longrightarrow> state_advances b c \<Longrightarrow> state_advances a c"
  using advances_trans unfolding state_advances_def by blast

lemma state_advances_update:
  "map_of vs' = (map_of vs)(k \<mapsto> v) \<Longrightarrow> advances (map_of vs k) (Some v) \<Longrightarrow> state_advances vs vs'"
  by (simp add: state_advances_def)

section \<open>What the operations do\<close>

lemma record_authenticated_value_Ok:
  assumes "record_authenticated_value vs k c d = Ok vs'"
  shows "map_of vs' = (map_of vs)(k \<mapsto> Authenticated c d)"
    and "advances (map_of vs k) (Some (Authenticated c d))"
    and "vs' = vs \<or> vs' = bt_insert k (Authenticated c d) vs"
  using assms
  by (auto simp: record_authenticated_value_def Let_def fun_upd_idem
      split: option.splits stored_sequence.splits if_splits)

lemma record_authenticated_value_Ok_iff:
  "(\<exists>vs'. record_authenticated_value vs k c d = Ok vs') \<longleftrightarrow>
     advances (map_of vs k) (Some (Authenticated c d)) \<and>
     (map_of vs k = None \<longrightarrow> length vs < MAX_STATE_ENTRIES)"
  by (auto simp: record_authenticated_value_def Let_def
      split: option.splits stored_sequence.splits if_splits)

definition auth_entry :: "u64 \<times> bytes \<Rightarrow> stored_sequence" where
  "auth_entry p = Authenticated (fst p) (snd p)"

lemma record_authenticated_batch_Ok:
  assumes "record_authenticated_batch vs obs = Ok vs'" "distinct (map fst obs)"
  shows "map_of vs' = map_of vs ++ (map_option auth_entry \<circ> map_of obs)"
    and "state_advances vs vs'"
proof -
  from assms have "map_of vs' = map_of vs ++ (map_option auth_entry \<circ> map_of obs) \<and> state_advances vs vs'"
  proof (induction vs obs rule: record_authenticated_batch.induct)
    case (2 vs k c d obs)
    then obtain vs1 where v: "record_authenticated_value vs k c d = Ok vs1"
      and b: "record_authenticated_batch vs1 obs = Ok vs'"
      by (auto simp: and_then_Ok_iff)
    have none: "map_of obs k = None" using 2(3) by (simp add: map_of_eq_None_iff)
    from 2 v b have IH: "map_of vs' = map_of vs1 ++ (map_option auth_entry \<circ> map_of obs)"
      "state_advances vs1 vs'" by (auto simp: comp_def)
    have "state_advances vs vs1"
      using record_authenticated_value_Ok(1,2) [OF v] by (rule state_advances_update)
    with IH(2) have "state_advances vs vs'" by (blast intro: state_advances_trans)
    moreover have "map_of vs' = map_of vs ++ (map_option auth_entry \<circ> map_of ((k, c, d) # obs))"
      using none IH(1) record_authenticated_value_Ok(1) [OF v]
      by (auto simp: fun_eq_iff map_add_def auth_entry_def split: option.splits)
    ultimately show ?case by blast
  qed (simp add: fun_eq_iff map_add_def)
  then show "map_of vs' = map_of vs ++ (map_option auth_entry \<circ> map_of obs)"
    and "state_advances vs vs'" by auto
qed

lemma prepare_batch_loop_Ok:
  assumes "prepare_batch_loop E acc obs = Ok m" "bt_ok acc"
  shows "bt_ok m \<and> map_of acc \<subseteq>\<^sub>m map_of m \<and>
     (\<forall>ob \<in> set obs. \<exists>k. state_key E (o_identity ob) (o_scope ob) = Ok k \<and>
        map_of m k = Some (o_counter ob, o_digest ob) \<and>
        \<not> starts_with PUBLISHER_SCOPE_PREFIX (o_scope ob)) \<and>
     (\<forall>k v. map_of m k = Some v \<longrightarrow> map_of acc k = Some v \<or>
        (\<exists>ob \<in> set obs. state_key E (o_identity ob) (o_scope ob) = Ok k \<and>
           v = (o_counter ob, o_digest ob)))"
  using assms
proof (induction E acc obs rule: prepare_batch_loop.induct)
  case (2 E acc ob obs)
  let ?v = "(o_counter ob, o_digest ob)"
  from 2(2) obtain k where k: "state_key E (o_identity ob) (o_scope ob) = Ok k"
    and pub: "\<not> starts_with PUBLISHER_SCOPE_PREFIX (o_scope ob)"
    and same': "\<forall>v. map_of acc k = Some v \<longrightarrow> v = ?v"
    and rest: "prepare_batch_loop E (bt_insert k ?v acc) obs = Ok m"
    by (auto simp: and_then_Ok_iff if_Err_Ok_iff Let_def split: option.splits if_splits)
  then have same: "map_of acc k = None \<or> map_of acc k = Some ?v" by (cases "map_of acc k") auto
  from same have "\<not> (case map_of acc k of None \<Rightarrow> False | Some previous \<Rightarrow> previous \<noteq> ?v)"
    by auto
  from 2(1) [OF pub refl this rest bt_ok_insert [OF 2(3)]]
  have IH: "bt_ok m" "map_of (bt_insert k ?v acc) \<subseteq>\<^sub>m map_of m"
    "\<forall>ob \<in> set obs. \<exists>k. state_key E (o_identity ob) (o_scope ob) = Ok k \<and>
        map_of m k = Some (o_counter ob, o_digest ob) \<and>
        \<not> starts_with PUBLISHER_SCOPE_PREFIX (o_scope ob)"
    "\<forall>k' v. map_of m k' = Some v \<longrightarrow> map_of (bt_insert k ?v acc) k' = Some v \<or>
        (\<exists>ob \<in> set obs. state_key E (o_identity ob) (o_scope ob) = Ok k' \<and>
           v = (o_counter ob, o_digest ob))"
    by blast+
  from IH(2) have "map_of m k = Some ?v" by (auto simp: map_le_def)
  moreover have "map_of acc \<subseteq>\<^sub>m map_of m"
    using IH(2) same by (auto simp: map_le_def split: if_splits) (metis domI option.distinct(1))
  moreover have "map_of acc k' = Some v \<or> (\<exists>ob' \<in> set (ob # obs).
      state_key E (o_identity ob') (o_scope ob') = Ok k' \<and> v = (o_counter ob', o_digest ob'))"
    if "map_of m k' = Some v" for k' v
  proof (cases "k' = k")
    case True
    with that \<open>map_of m k = Some ?v\<close> k show ?thesis by simp
  next
    case False
    with IH(4) that show ?thesis by (metis fun_upd_other list.set_intros(2) map_of_bt_insert)
  qed
  ultimately show ?case using IH(1,3) k pub by simp
qed auto

lemma prepare_batch_Ok:
  assumes "prepare_batch E obs = Ok m"
  shows "bt_ok m"
    and "\<And>ob. ob \<in> set obs \<Longrightarrow> \<exists>k. state_key E (o_identity ob) (o_scope ob) = Ok k \<and>
        map_of m k = Some (o_counter ob, o_digest ob) \<and>
        \<not> starts_with PUBLISHER_SCOPE_PREFIX (o_scope ob)"
    and "\<And>k v. map_of m k = Some v \<Longrightarrow>
        \<exists>ob \<in> set obs. state_key E (o_identity ob) (o_scope ob) = Ok k \<and>
           v = (o_counter ob, o_digest ob)"
  using prepare_batch_loop_Ok [of E "[]" obs m] assms by (auto simp: prepare_batch_def)

lemma initialize_publisher_Ok_iff:
  "initialize_publisher vs k = Ok vs' \<longleftrightarrow>
     map_of vs k = None \<and> length vs < MAX_STATE_ENTRIES \<and> vs' = bt_insert k (Publisher 0) vs"
  by (auto simp: initialize_publisher_def)

lemma next_publisher_value_Ok_iff:
  "next_publisher_value vs k = Ok (n, vs') \<longleftrightarrow>
     (\<exists>c. map_of vs k = Some (Publisher c) \<and> checked_add c 1 = Some n \<and>
        vs' = bt_insert k (Publisher n) vs)"
  by (auto simp: next_publisher_value_def ok_iff split: option.splits stored_sequence.splits)

lemma checked_add_1_less: "checked_add c 1 = Some n \<Longrightarrow> c < (n :: u64)"
  by (simp add: checked_add_Some_iff word_less_nat_alt)

lemma store_update_advances:
  assumes "store_update E op = Ok f" "f vs = Ok (out, vs')"
  shows "state_advances vs vs'"
proof (cases op)
  case (RecordBatch obs)
  with assms obtain m where "prepare_batch E obs = Ok m" "record_authenticated_batch vs m = Ok vs'"
    by (auto simp: store_update_def and_then_Ok_iff)
  then show ?thesis using record_authenticated_batch_Ok(2) prepare_batch_Ok(1) bt_ok_distinct by blast
next
  case (InitializePublisher i c)
  with assms show ?thesis
    by (auto simp: store_update_def and_then_Ok_iff initialize_publisher_Ok_iff
        intro!: state_advances_update [OF map_of_bt_insert])
next
  case (NextSequence i c)
  with assms obtain k c0 n where "map_of vs k = Some (Publisher c0)" "checked_add c0 1 = Some n"
    "vs' = bt_insert k (Publisher n) vs"
    by (auto simp: store_update_def and_then_Ok_iff next_publisher_value_Ok_iff)
  then show ?thesis
    using checked_add_1_less [of c0 n]
    by (auto intro!: state_advances_update [OF map_of_bt_insert] simp: less_imp_le)
qed

text \<open>What an accepted batch records, and what an accepted allocation returns.\<close>

lemma store_update_batch:
  assumes "store_update E (RecordBatch obs) = Ok f" "f vs = Ok (out, vs')" "ob \<in> set obs"
    "state_key E (o_identity ob) (o_scope ob) = Ok k"
  shows "map_of vs' k = Some (Authenticated (o_counter ob) (o_digest ob))"
    and "advances (map_of vs k) (Some (Authenticated (o_counter ob) (o_digest ob)))"
proof -
  from assms obtain m where m: "prepare_batch E obs = Ok m" "record_authenticated_batch vs m = Ok vs'"
    by (auto simp: store_update_def and_then_Ok_iff)
  with assms(3,4) have "map_of m k = Some (o_counter ob, o_digest ob)"
    using prepare_batch_Ok(2) by fastforce
  with m show v: "map_of vs' k = Some (Authenticated (o_counter ob) (o_digest ob))"
    using record_authenticated_batch_Ok(1) [OF m(2)] prepare_batch_Ok(1) [OF m(1)]
    by (simp add: bt_ok_distinct map_add_def auth_entry_def)
  show "advances (map_of vs k) (Some (Authenticated (o_counter ob) (o_digest ob)))"
    using store_update_advances [OF assms(1,2)] v by (metis state_advances_def)
qed

lemma store_update_next:
  assumes "store_update E (NextSequence i c) = Ok f" "f vs = Ok (Allocated n, vs')"
    "publisher_key E i c = Ok k"
  obtains c0 where "map_of vs k = Some (Publisher c0)" "c0 < n" "unat n = unat c0 + 1"
    "map_of vs' k = Some (Publisher n)"
  using assms checked_add_1_less
  by (fastforce simp: store_update_def and_then_Ok_iff next_publisher_value_Ok_iff checked_add_Some_iff)

section \<open>Well-formed states\<close>

text \<open>
  A state the file store accepts: ordered keys, entries that pass \<open>validate_stored_entry\<close>, and
  32-byte digests (the array type of the source).
\<close>

fun digest_typed :: "stored_sequence \<Rightarrow> bool" where
  "digest_typed (Publisher c) = True"
| "digest_typed (Authenticated c d) = (length d = 32)"

definition state_ok :: "env \<Rightarrow> sequence_state \<Rightarrow> bool" where
  "state_ok E vs = (bt_ok vs \<and>
     (\<forall>(k, v) \<in> set vs. validate_stored_entry E k v = Ok () \<and> digest_typed v))"

definition observation_ok :: "env \<Rightarrow> authenticated_sequence_observation \<Rightarrow> bool" where
  "observation_ok E ob =
     (observation_new E (o_identity ob) (o_scope ob) (o_counter ob) (o_digest ob) = Ok ob \<and>
      length (o_digest ob) = 32)"

fun op_ok :: "env \<Rightarrow> store_op \<Rightarrow> bool" where
  "op_ok E (RecordBatch obs) = list_all (observation_ok E) obs"
| "op_ok E _ = True"

lemma parse_canonical_Ok_iff [ok_iff]:
  "parse_canonical E s m = Ok k \<longleftrightarrow> pk_parse E s = Some k \<and> pk_z32 E k = s"
  by (auto simp: parse_canonical_def ok_iff)

lemma state_key_Ok_iff:
  "state_key E i s = Ok k \<longleftrightarrow>
     k = i @ '':'' @ s \<and> (\<exists>p. pk_parse E i = Some p \<and> pk_z32 E p = i) \<and>
     s \<noteq> [] \<and> length s \<le> 128 \<and> list_all scope_byte s"
  by (auto simp: state_key_def ok_iff)

lemma colon_not_alphanumeric: "\<not> is_ascii_alphanumeric (CHR '':'')"
  by (simp add: is_ascii_alphanumeric_def Let_def is_ascii_digit_def)

lemma identity_no_colon:
  "z32_text_law E \<Longrightarrow> pk_parse E i = Some p \<Longrightarrow> pk_z32 E p = i \<Longrightarrow> CHR '':'' \<notin> set i"
  using colon_not_alphanumeric by (auto simp: z32_text_law_def list_all_iff)

lemma split_state_key:
  assumes "z32_text_law E" "state_key E i s = Ok k"
  shows "split_once (CHR '':'') k = Some (i, s)"
  using assms identity_no_colon by (auto simp: state_key_Ok_iff intro!: split_once_append)

lemma state_key_inject:
  "z32_text_law E \<Longrightarrow> state_key E i s = Ok k \<Longrightarrow> state_key E i' s' = Ok k \<Longrightarrow> i = i' \<and> s = s'"
  using split_state_key by (metis option.inject prod.inject)

text \<open>A publisher key is always well-formed: its scope has at most 65 bytes.\<close>

lemma publisher_key_Ok_iff:
  assumes "z32_text_law E"
  shows "publisher_key E i c = Ok k \<longleftrightarrow>
     (\<exists>p. pk_parse E c = Some p \<and> pk_z32 E p = c) \<and> (\<exists>p. pk_parse E i = Some p \<and> pk_z32 E p = i) \<and>
     k = i @ '':'' @ PUBLISHER_SCOPE_PREFIX @ c"
proof -
  have "length (PUBLISHER_SCOPE_PREFIX @ c) \<le> 128 \<and> list_all scope_byte (PUBLISHER_SCOPE_PREFIX @ c)
      \<and> PUBLISHER_SCOPE_PREFIX @ c \<noteq> []"
    if "pk_parse E c = Some p" "pk_z32 E p = c" for p
  proof -
    from assms that have "length c = 52" "list_all is_ascii_alphanumeric c"
      by (auto simp: z32_text_law_def)
    moreover from this have "list_all scope_byte c" by (auto simp: list_all_iff scope_byte_def)
    moreover have "list_all scope_byte PUBLISHER_SCOPE_PREFIX"
      by (simp add: PUBLISHER_SCOPE_PREFIX_def scope_byte_def is_ascii_alphanumeric_def
          is_ascii_digit_def)
    ultimately show ?thesis by (simp add: PUBLISHER_SCOPE_PREFIX_def)
  qed
  then show ?thesis
    by (auto simp: publisher_key_def and_then_Ok_iff parse_canonical_Ok_iff state_key_Ok_iff)
qed

end
