(* ===== verification/Sequence_Store.thy ===== *)
theory Sequence_Store
  imports Sequence
begin

text \<open>
  The contract of an anti-rollback store and its memory implementation
  (\<open>MemorySequenceStore\<close> of \<open>crates/client/src/sequence.rs\<close>). A store runs the updates of
  theory Sequence under a lock, so that a history of a store is a list of operations; the locale
  states what one operation may do to the stored state and derives what every history satisfies.
\<close>

section \<open>Well-formedness is kept\<close>

lemma state_ok_iff:
  "state_ok E vs \<longleftrightarrow> bt_ok vs \<and>
     (\<forall>k v. map_of vs k = Some v \<longrightarrow> validate_stored_entry E k v = Ok () \<and> digest_typed v)"
  unfolding state_ok_def using bt_ok_distinct [of vs] by (fastforce simp: map_of_eq_Some_iff)

lemma record_authenticated_batch_bt_ok:
  "record_authenticated_batch vs obs = Ok vs' \<Longrightarrow> bt_ok vs \<Longrightarrow> bt_ok vs'"
proof (induction vs obs rule: record_authenticated_batch.induct)
  case (2 vs k c d obs)
  then obtain vs1 where v: "record_authenticated_value vs k c d = Ok vs1"
    and b: "record_authenticated_batch vs1 obs = Ok vs'"
    by (auto simp: and_then_Ok_iff)
  from record_authenticated_value_Ok(3) [OF v] 2(3) have "bt_ok vs1" by auto
  with 2(1) [OF b] show ?case by blast
qed simp

lemma observation_ok_iff:
  "observation_ok E ob \<longleftrightarrow> (\<exists>k. state_key E (o_identity ob) (o_scope ob) = Ok k) \<and>
     \<not> starts_with PUBLISHER_SCOPE_PREFIX (o_scope ob) \<and> o_counter ob \<noteq> 0 \<and>
     length (o_digest ob) = 32"
  by (auto simp: observation_ok_def observation_new_def ok_iff)

lemma validate_authenticated_entry:
  assumes "z32_text_law E" "observation_ok E ob" "state_key E (o_identity ob) (o_scope ob) = Ok k"
  shows "validate_stored_entry E k (Authenticated (o_counter ob) (o_digest ob)) = Ok ()"
  using assms split_state_key [OF assms(1,3)]
  by (simp add: validate_stored_entry_def observation_ok_iff)

lemma validate_publisher_entry:
  assumes "z32_text_law E" "publisher_key E i c = Ok k"
  shows "validate_stored_entry E k (Publisher n) = Ok ()"
proof -
  from assms(2) obtain p where p: "pk_parse E c = Some p" "pk_z32 E p = c"
    and k: "state_key E i (PUBLISHER_SCOPE_PREFIX @ c) = Ok k"
    by (auto simp: publisher_key_def ok_iff)
  then show ?thesis
    using split_state_key [OF assms(1) k]
    by (simp add: validate_stored_entry_def valid_publisher_scope_def)
qed

lemma state_ok_insert:
  "state_ok E vs \<Longrightarrow> validate_stored_entry E k v = Ok () \<Longrightarrow> digest_typed v \<Longrightarrow>
   state_ok E (bt_insert k v vs)"
  by (auto simp: state_ok_iff)

lemma record_batch_state_ok:
  assumes "z32_text_law E" "state_ok E vs" "list_all (observation_ok E) obs"
    "prepare_batch E obs = Ok m" "record_authenticated_batch vs m = Ok vs'"
  shows "state_ok E vs'"
proof -
  have map: "map_of vs' = map_of vs ++ (map_option auth_entry \<circ> map_of m)"
    using record_authenticated_batch_Ok(1) [OF assms(5)] prepare_batch_Ok(1) [OF assms(4)]
      bt_ok_distinct by blast
  have "validate_stored_entry E k (auth_entry v) = Ok () \<and> digest_typed (auth_entry v)"
    if "map_of m k = Some v" for k v
  proof -
    from prepare_batch_Ok(3) [OF assms(4) that] obtain ob where
      ob: "ob \<in> set obs" "state_key E (o_identity ob) (o_scope ob) = Ok k"
        "v = (o_counter ob, o_digest ob)" by blast
    with assms(3) have "observation_ok E ob" by (simp add: list_all_iff)
    with ob show ?thesis
      using validate_authenticated_entry [OF assms(1) _ ob(2)]
      by (simp add: auth_entry_def observation_ok_iff)
  qed
  moreover have "bt_ok vs'"
    using record_authenticated_batch_bt_ok [OF assms(5)] assms(2) by (simp add: state_ok_iff)
  ultimately show ?thesis
    using assms(2) map by (auto simp: state_ok_iff map_add_def split: option.splits)
qed

lemma store_update_state_ok:
  assumes "z32_text_law E" "state_ok E vs" "op_ok E op" "store_update E op = Ok f"
    "f vs = Ok (out, vs')"
  shows "state_ok E vs'"
proof (cases op)
  case (RecordBatch obs)
  with assms obtain m where "prepare_batch E obs = Ok m" "record_authenticated_batch vs m = Ok vs'"
    by (auto simp: store_update_def and_then_Ok_iff)
  with RecordBatch assms(1-3) show ?thesis by (auto intro: record_batch_state_ok)
next
  case (InitializePublisher i c)
  with assms(4,5) obtain k where "publisher_key E i c = Ok k" "vs' = bt_insert k (Publisher 0) vs"
    by (auto simp: store_update_def and_then_Ok_iff initialize_publisher_Ok_iff)
  with assms(1,2) show ?thesis by (auto intro: state_ok_insert validate_publisher_entry)
next
  case (NextSequence i c)
  with assms(4,5) obtain k n where "publisher_key E i c = Ok k" "vs' = bt_insert k (Publisher n) vs"
    by (auto simp: store_update_def and_then_Ok_iff next_publisher_value_Ok_iff)
  with assms(1,2) show ?thesis by (auto intro: state_ok_insert validate_publisher_entry)
qed

section \<open>The contract\<close>

text \<open>
  A history: the operations a store was asked to run, with what it answered. The extra argument of
  a step holds whatever the environment of that step decides (input/output faults).
\<close>

type_synonym trace = "(store_op \<times> store_out cresult) list"

fun run_store :: "('x \<Rightarrow> 's \<Rightarrow> store_op \<Rightarrow> store_out cresult \<times> 's) \<Rightarrow> 's \<Rightarrow> ('x \<times> store_op) list \<Rightarrow>
    trace \<times> 's" where
  "run_store step s [] = ([], s)"
| "run_store step s ((x, op) # ops) =
     (case step x s op of (r, s') \<Rightarrow>
      case run_store step s' ops of (tr, s'') \<Rightarrow> ((op, r) # tr, s''))"

text \<open>
  Two answers of one history, the first before the second: an accepted observation never rolls
  back or equivocates, an allocated sequence is greater than every earlier one for its key.
\<close>

definition observation_follows ::
  "authenticated_sequence_observation \<Rightarrow> authenticated_sequence_observation \<Rightarrow> bool" where
  "observation_follows o1 o2 =
     (o_identity o1 = o_identity o2 \<and> o_scope o1 = o_scope o2 \<longrightarrow>
      o_counter o1 < o_counter o2 \<or> o_counter o1 = o_counter o2 \<and> o_digest o1 = o_digest o2)"

fun answers_follow :: "store_op \<times> store_out cresult \<Rightarrow> store_op \<times> store_out cresult \<Rightarrow> bool" where
  "answers_follow (RecordBatch obs1, Ok _) (RecordBatch obs2, Ok _) =
     list_all (\<lambda>o1. list_all (observation_follows o1) obs2) obs1"
| "answers_follow (NextSequence i1 c1, Ok (Allocated n1)) (NextSequence i2 c2, Ok (Allocated n2)) =
     (i1 = i2 \<and> c1 = c2 \<longrightarrow> n1 < n2)"
| "answers_follow _ _ = True"

text \<open>
  The contract. \<open>stored\<close> is the state a store holds. An operation leaves it alone or applies the
  whole update of the operation; it answers \<open>Ok\<close> only in the second case, with the update's
  answer.
\<close>

locale sequence_store =
  fixes E :: env
    and step :: "'x \<Rightarrow> 's \<Rightarrow> store_op \<Rightarrow> store_out cresult \<times> 's"
    and stored :: "'s \<Rightarrow> sequence_state"
    and inv :: "'s \<Rightarrow> bool"
  assumes step_inv: "inv s \<Longrightarrow> op_ok E op \<Longrightarrow> step x s op = (r, s') \<Longrightarrow> inv s'"
    and step_all_or_nothing:
      "inv s \<Longrightarrow> op_ok E op \<Longrightarrow> step x s op = (r, s') \<Longrightarrow>
       stored s' = stored s \<or>
       (\<exists>f out. store_update E op = Ok f \<and> f (stored s) = Ok (out, stored s'))"
    and step_Ok:
      "inv s \<Longrightarrow> op_ok E op \<Longrightarrow> step x s op = (Ok out, s') \<Longrightarrow>
       \<exists>f. store_update E op = Ok f \<and> f (stored s) = Ok (out, stored s')"
begin

lemma step_advances:
  "inv s \<Longrightarrow> op_ok E op \<Longrightarrow> step x s op = (r, s') \<Longrightarrow> state_advances (stored s) (stored s')"
  using step_all_or_nothing store_update_advances state_advances_refl by metis

lemma run_inv:
  "inv s \<Longrightarrow> list_all (\<lambda>(x, op). op_ok E op) ops \<Longrightarrow> run_store step s ops = (tr, s') \<Longrightarrow>
   inv s' \<and> state_advances (stored s) (stored s')"
proof (induction ops arbitrary: s tr)
  case (Cons a ops)
  obtain x op where a: "a = (x, op)" by (cases a)
  obtain r s1 where st: "step x s op = (r, s1)" by (cases "step x s op")
  with Cons a obtain tr1 where "run_store step s1 ops = (tr1, s')" by (auto split: prod.splits)
  moreover from Cons.prems a have ok: "op_ok E op" "list_all (\<lambda>(x, op). op_ok E op) ops" by auto
  moreover have "inv s1" using Cons.prems(1) ok st by (blast intro: step_inv)
  ultimately have "inv s' \<and> state_advances (stored s1) (stored s')" using Cons.IH by blast
  with step_advances [OF Cons.prems(1) ok(1) st] show ?case by (blast intro: state_advances_trans)
qed simp

text \<open>Every later answer respects an entry that the state already has.\<close>

lemma run_respects_batch:
  "inv s \<Longrightarrow> list_all (\<lambda>(x, op). op_ok E op) ops \<Longrightarrow>
   (RecordBatch obs, Ok out) \<in> set (fst (run_store step s ops)) \<Longrightarrow> ob \<in> set obs \<Longrightarrow>
   state_key E (o_identity ob) (o_scope ob) = Ok k \<Longrightarrow>
   advances (map_of (stored s) k) (Some (Authenticated (o_counter ob) (o_digest ob)))"
proof (induction ops arbitrary: s)
  case (Cons a ops)
  obtain x op where a: "a = (x, op)" by (cases a)
  obtain r s1 where st: "step x s op = (r, s1)" by (cases "step x s op")
  have ok: "op_ok E op" using Cons.prems a by simp
  have adv: "state_advances (stored s) (stored s1)"
    using Cons.prems ok st by (blast intro: step_advances)
  show ?case
  proof (cases "(RecordBatch obs, Ok out) = (op, r)")
    case True
    with st have "step x s (RecordBatch obs) = (Ok out, s1)" "op_ok E (RecordBatch obs)"
      using ok by auto
    from step_Ok [OF Cons.prems(1) this(2,1)] Cons.prems(4,5) show ?thesis
      using store_update_batch(2) by blast
  next
    case False
    with Cons.prems a st have "(RecordBatch obs, Ok out) \<in> set (fst (run_store step s1 ops))"
      by (auto split: prod.splits)
    moreover have "inv s1" using Cons.prems a st by (auto intro: step_inv)
    ultimately have "advances (map_of (stored s1) k) (Some (Authenticated (o_counter ob) (o_digest ob)))"
      using Cons a by auto
    with adv show ?thesis using advances_trans by (auto simp: state_advances_def)
  qed
qed simp

lemma run_respects_next:
  "inv s \<Longrightarrow> list_all (\<lambda>(x, op). op_ok E op) ops \<Longrightarrow>
   (NextSequence i c, Ok (Allocated n)) \<in> set (fst (run_store step s ops)) \<Longrightarrow>
   publisher_key E i c = Ok k \<Longrightarrow> map_of (stored s) k = Some (Publisher m) \<Longrightarrow> m < n"
proof (induction ops arbitrary: s m)
  case (Cons a ops)
  obtain x op where a: "a = (x, op)" by (cases a)
  obtain r s1 where st: "step x s op = (r, s1)" by (cases "step x s op")
  have ok: "op_ok E op" using Cons.prems a by simp
  show ?case
  proof (cases "(NextSequence i c, Ok (Allocated n)) = (op, r)")
    case True
    then obtain f where "store_update E (NextSequence i c) = Ok f"
      "f (stored s) = Ok (Allocated n, stored s1)"
      using step_Ok [OF Cons.prems(1) ok, of x "Allocated n" s1] st by auto
    with Cons.prems show ?thesis by (metis option.inject store_update_next stored_sequence.inject(1))
  next
    case False
    with Cons.prems a st have mem: "(NextSequence i c, Ok (Allocated n)) \<in> set (fst (run_store step s1 ops))"
      by (auto split: prod.splits)
    have "advances (Some (Publisher m)) (map_of (stored s1) k)"
      using step_advances [OF Cons.prems(1) ok st] Cons.prems(5) by (metis state_advances_def)
    then obtain m' where m': "map_of (stored s1) k = Some (Publisher m')" "m \<le> m'"
      by (cases "map_of (stored s1) k") (auto elim: advances.elims)
    have "inv s1" using Cons.prems(1) ok st by (auto intro: step_inv)
    with Cons.IH [OF this _ mem Cons.prems(4) m'(1)] Cons.prems(2) have "m' < n" by simp
    with m'(2) show ?thesis by simp
  qed
qed simp

lemma step_answers_follow:
  assumes "inv s" "op_ok E op" "step x s op = (r, s1)" "list_all (\<lambda>(x, op). op_ok E op) ops"
    "b \<in> set (fst (run_store step s1 ops))"
  shows "answers_follow (op, r) b"
proof -
  have inv1: "inv s1" using assms by (blast intro: step_inv)
  show ?thesis
  proof (cases "((op, r), b)" rule: answers_follow.cases)
    case (1 obs1 out1 obs2 out2)
    then obtain f where f: "store_update E (RecordBatch obs1) = Ok f"
      "f (stored s) = Ok (out1, stored s1)"
      using step_Ok [OF assms(1), of "RecordBatch obs1" x out1 s1] assms(2,3) by auto
    have "observation_follows o1 o2" if "o1 \<in> set obs1" "o2 \<in> set obs2" for o1 o2
    proof -
      from f(1) obtain m where "prepare_batch E obs1 = Ok m"
        by (auto simp: store_update_def and_then_Ok_iff)
      from prepare_batch_Ok(2) [OF this that(1)] obtain k where
        k: "state_key E (o_identity o1) (o_scope o1) = Ok k" by blast
      have "advances (map_of (stored s1) k) (Some (Authenticated (o_counter o2) (o_digest o2)))"
        if "state_key E (o_identity o2) (o_scope o2) = Ok k"
        using run_respects_batch [OF inv1 assms(4) _ \<open>o2 \<in> set obs2\<close> that] 1 assms(5) by auto
      with k store_update_batch(1) [OF f that(1) k] show ?thesis
        by (auto simp: observation_follows_def)
    qed
    with 1 show ?thesis by (simp add: list_all_iff)
  next
    case (2 i1 c1 n1 i2 c2 n2)
    then obtain f where f: "store_update E (NextSequence i1 c1) = Ok f"
      "f (stored s) = Ok (Allocated n1, stored s1)"
      using step_Ok [OF assms(1), of "NextSequence i1 c1" x "Allocated n1" s1] assms(2,3) by auto
    then obtain k where k: "publisher_key E i1 c1 = Ok k"
      by (auto simp: store_update_def and_then_Ok_iff)
    from store_update_next [OF f k] have "map_of (stored s1) k = Some (Publisher n1)" .
    with run_respects_next [OF inv1 assms(4) _ k this] 2 assms(5) show ?thesis by auto
  qed auto
qed

theorem run_answers_follow:
  "inv s \<Longrightarrow> list_all (\<lambda>(x, op). op_ok E op) ops \<Longrightarrow>
   sorted_wrt answers_follow (fst (run_store step s ops))"
proof (induction ops arbitrary: s)
  case (Cons a ops)
  obtain x op where a: "a = (x, op)" by (cases a)
  obtain r s1 where st: "step x s op = (r, s1)" by (cases "step x s op")
  have "inv s1" using Cons.prems a st by (auto intro: step_inv)
  then have "sorted_wrt answers_follow (fst (run_store step s1 ops))" using Cons a by simp
  moreover have "\<forall>b \<in> set (fst (run_store step s1 ops)). answers_follow (op, r) b"
    using Cons.prems a st step_answers_follow by auto
  ultimately show ?case using a st by (cases "run_store step s1 ops") simp
qed simp

end

section \<open>The memory store\<close>

definition update_memory ::
  "env \<Rightarrow> sequence_state \<Rightarrow> (sequence_state \<Rightarrow> ('t \<times> sequence_state) cresult) \<Rightarrow>
   't cresult \<times> sequence_state" where
  "update_memory E vs update =
     (case update vs of
        Err e \<Rightarrow> (Err e, vs)
      | Ok (result, staged) \<Rightarrow>
          (case validate_state_bounds E staged of
             Err e \<Rightarrow> (Err e, vs)
           | Ok _ \<Rightarrow> (Ok result, staged)))"

text \<open>
  \<open>record_batch\<close>, \<open>initialize_locator_publisher\<close> and \<open>next_locator_sequence\<close> of the memory
  store: the argument is checked before the lock is taken.
\<close>

definition memory_step :: "env \<Rightarrow> unit \<Rightarrow> sequence_state \<Rightarrow> store_op \<Rightarrow> store_out cresult \<times> sequence_state" where
  "memory_step E x vs op =
     (case store_update E op of
        Err e \<Rightarrow> (Err e, vs)
      | Ok update \<Rightarrow> update_memory E vs update)"

definition memory_inv :: "env \<Rightarrow> sequence_state \<Rightarrow> bool" where
  "memory_inv E vs = (z32_text_law E \<and> state_ok E vs)"

lemma memory_step_cases:
  assumes "memory_step E x vs op = (r, vs')"
  obtains (unchanged) e where "r = Err e" "vs' = vs"
  | (updated) f out where "store_update E op = Ok f" "f vs = Ok (out, vs')" "r = Ok out"
      "validate_state_bounds E vs' = Ok ()"
  using assms
  by (auto simp: memory_step_def update_memory_def split: result.splits prod.splits)

interpretation memory: sequence_store E "memory_step E" "\<lambda>vs. vs" "memory_inv E" for E
proof
  fix vs op x r vs'
  assume inv: "memory_inv E vs" and ok: "op_ok E op" and st: "memory_step E x vs op = (r, vs')"
  from st show "memory_inv E vs'"
    by (cases rule: memory_step_cases)
      (use inv ok in \<open>auto simp: memory_inv_def intro: store_update_state_ok\<close>)
  from st show "vs' = vs \<or> (\<exists>f out. store_update E op = Ok f \<and> f vs = Ok (out, vs'))"
    by (cases rule: memory_step_cases) auto
next
  fix vs op x out vs'
  assume "memory_step E x vs op = (Ok out, vs')"
  then show "\<exists>f. store_update E op = Ok f \<and> f vs = Ok (out, vs')"
    by (cases rule: memory_step_cases) auto
qed

end
