(* ===== verification/Sequence_File.thy ===== *)
theory Sequence_File
  imports Sequence_Store
begin

text \<open>
  The durable anti-rollback store (\<open>FileSequenceStore\<close> of \<open>crates/client/src/sequence.rs\<close>,
  unix variant): a directory with a lock file and a state file that is replaced by
  write, sync and rename. Every input/output call may fail; the failures of one operation are an
  argument. The lemmas show that the state file is replaced as a whole or not at all, that what
  an operation writes is read back by the next one, and that the store fulfils the contract of
  theory Sequence\_Store.
\<close>

section \<open>The directory\<close>

datatype file_kind = RegularFile | DirectoryFile | SymbolicLink | SpecialFile

record store_file =
  f_kind :: file_kind
  f_mode :: u32
  f_nlink :: u64
  f_bytes :: bytes

text \<open>The entries of the store's directory, and the process's file mode creation mask.\<close>

record store_dir =
  entries :: "string \<Rightarrow> store_file option"
  umask :: u32

text \<open>The outcome of each call, \<open>Some\<close> message for a failure, and what the environment picks.\<close>

record io_choices =
  io_open_lock :: "string option"
  io_lock_metadata :: "string option"
  io_lock :: "string option"
  io_symlink_metadata :: "string option"
  io_open :: "string option"
  io_metadata :: "string option"
  io_read :: "string option"
  io_create_new :: "string option"
  io_write_all :: "string option"
  io_written :: nat
  io_sync_all :: "string option"
  io_rename :: "string option"
  io_sync_directory :: "string option"
  io_remove_file :: "string option"
  io_unlock :: "string option"
  io_uuid :: string

definition no_faults :: io_choices where
  "no_faults = \<lparr>io_open_lock = None, io_lock_metadata = None, io_lock = None,
     io_symlink_metadata = None, io_open = None, io_metadata = None, io_read = None,
     io_create_new = None, io_write_all = None, io_written = 0, io_sync_all = None,
     io_rename = None, io_sync_directory = None, io_remove_file = None, io_unlock = None,
     io_uuid = []\<rparr>"

fun io_result :: "string option \<Rightarrow> unit cresult" where
  "io_result None = Ok ()"
| "io_result (Some message) = Err (StateOs (OsFault message))"

definition STATE_FILE :: string where "STATE_FILE = ''pubky2pubky-v1-sequences.json''"
definition LOCK_FILE :: string where "LOCK_FILE = ''.pubky2pubky-v1-sequences.lock''"

definition temporary_name :: "string \<Rightarrow> string" where
  "temporary_name uuid = ''.pubky2pubky-v1-sequences-'' @ uuid @ ''.tmp''"

text \<open>A file created with mode 0600, less the mask.\<close>

definition new_private_file :: "store_dir \<Rightarrow> bytes \<Rightarrow> store_file" where
  "new_private_file s b =
     \<lparr>f_kind = RegularFile, f_mode = and 0x180 (not (umask s)), f_nlink = 1, f_bytes = b\<rparr>"

section \<open>Checks\<close>

definition validate_private_directory :: "file_kind \<Rightarrow> u32 \<Rightarrow> unit cresult" where
  "validate_private_directory kind mode =
     (if kind \<noteq> DirectoryFile \<or> and mode 0x3F \<noteq> 0
      then Err (State ''sequence-store directory must be owner-only'') else Ok ())"

definition validate_private_file ::
  "store_file \<Rightarrow> unit cresult" where
  "validate_private_file f =
     (if and (f_mode f) 0x1FF \<noteq> 0x180 \<or> f_nlink f \<noteq> 1
      then Err (State ''sequence state must be a single-link mode-0600 file'') else Ok ())"

text \<open>
  \<open>FileSequenceStore::new\<close>: what \<open>symlink_metadata\<close> reported of the path, the outcome of
  creating it, and what \<open>metadata\<close> of the canonical path reports.
\<close>

datatype path_status = Missing | Present file_kind | StatusFault string

definition file_store_new ::
  "path_status \<Rightarrow> string option \<Rightarrow> string option \<Rightarrow> string option \<Rightarrow> file_kind \<times> u32 \<Rightarrow> unit cresult" where
  "file_store_new status create canonicalize metadata_fault metadata =
     and_then (case status of
         Present kind \<Rightarrow>
           if kind = SymbolicLink \<or> kind \<noteq> DirectoryFile
           then Err (State ''sequence-store path must be a real directory'') else Ok ()
       | Missing \<Rightarrow> io_result create
       | StatusFault message \<Rightarrow> Err (StateOs (OsFault message))) (\<lambda>_.
     and_then (io_result canonicalize) (\<lambda>_.
     and_then (io_result metadata_fault) (\<lambda>_.
     validate_private_directory (fst metadata) (snd metadata))))"

section \<open>Reading\<close>

fun validate_stored_entries :: "env \<Rightarrow> sequence_state \<Rightarrow> unit cresult" where
  "validate_stored_entries E [] = Ok ()"
| "validate_stored_entries E ((key, v) # vs) =
     and_then (validate_stored_entry E key v) (\<lambda>_. validate_stored_entries E vs)"

text \<open>\<open>open\<close> with \<open>O_NOFOLLOW\<close>; a directory can be opened for reading only.\<close>

definition no_follow_read :: "io_choices \<Rightarrow> store_file \<Rightarrow> unit cresult" where
  "no_follow_read io f =
     and_then (io_result (io_open io)) (\<lambda>_.
     if f_kind f = SymbolicLink then Err (StateOs ELOOP) else Ok ())"

definition read_state :: "env \<Rightarrow> io_choices \<Rightarrow> store_dir \<Rightarrow> sequence_state cresult" where
  "read_state E io s =
     and_then (io_result (io_symlink_metadata io)) (\<lambda>_.
     (case entries s STATE_FILE of
        None \<Rightarrow> Ok []
      | Some f \<Rightarrow>
          if f_kind f = SymbolicLink \<or> f_kind f \<noteq> RegularFile \<or> length (f_bytes f) > MAX_STATE_BYTES
          then Err (State ''invalid sequence state file'')
          else and_then (no_follow_read io f) (\<lambda>_.
          and_then (io_result (io_metadata io)) (\<lambda>_.
          and_then (validate_private_file f) (\<lambda>_.
          if length (f_bytes f) > MAX_STATE_BYTES then Err (State ''sequence state is too large'')
          else and_then (io_result (io_read io)) (\<lambda>_.
          (let b = take (MAX_STATE_BYTES + 1) (f_bytes f)
           in if length b > MAX_STATE_BYTES then Err (State ''sequence state is too large'')
              else and_then (ok_or (Option.bind (json_from_slice E b) de_state) StateJson) (\<lambda>vs.
              and_then (validate_state_bounds E vs) (\<lambda>_.
              and_then (validate_stored_entries E vs) (\<lambda>_.
              Ok vs)))))))))) "

section \<open>Writing\<close>

definition private_open_lock :: "io_choices \<Rightarrow> store_dir \<Rightarrow> store_file cresult \<times> store_dir" where
  "private_open_lock io s =
     (case io_result (io_open_lock io) of
        Err e \<Rightarrow> (Err e, s)
      | Ok _ \<Rightarrow>
          (case entries s LOCK_FILE of
             None \<Rightarrow> (let f = new_private_file s []
                      in (Ok f, s\<lparr>entries := (entries s)(LOCK_FILE \<mapsto> f)\<rparr>))
           | Some f \<Rightarrow>
               if f_kind f = SymbolicLink then (Err (StateOs ELOOP), s)
               else if f_kind f = DirectoryFile then (Err (StateOs EISDIR), s)
               else (Ok f, s)))"

definition open_and_lock :: "io_choices \<Rightarrow> store_dir \<Rightarrow> unit cresult \<times> store_dir" where
  "open_and_lock io s =
     (case private_open_lock io s of
        (Err e, s') \<Rightarrow> (Err e, s')
      | (Ok lock, s') \<Rightarrow>
          (and_then (io_result (io_lock_metadata io)) (\<lambda>_.
           and_then (validate_private_file lock) (\<lambda>_.
           io_result (io_lock io))), s'))"

text \<open>
  The closure of \<open>update_file\<close>: create the temporary file, write it, sync it, rename it over the
  state file and sync the directory. A failing \<open>write_all\<close> may have written any prefix.
\<close>

definition write_temporary :: "io_choices \<Rightarrow> store_dir \<Rightarrow> bytes \<Rightarrow> unit cresult \<times> store_dir" where
  "write_temporary io s encoded =
     (let temporary = temporary_name (io_uuid io);
          put = (\<lambda>b. s\<lparr>entries := (entries s)(temporary \<mapsto> new_private_file s b)\<rparr>)
      in case io_result (io_create_new io) of
        Err e \<Rightarrow> (Err e, s)
      | Ok _ \<Rightarrow>
          if entries s temporary \<noteq> None then (Err (StateOs EEXIST), s)
          else (case io_result (io_write_all io) of
             Err e \<Rightarrow> (Err e, put (take (io_written io) encoded))
           | Ok _ \<Rightarrow>
               (case io_result (io_sync_all io) of
                  Err e \<Rightarrow> (Err e, put encoded)
                | Ok _ \<Rightarrow>
                    (case io_result (io_rename io) of
                       Err e \<Rightarrow> (Err e, put encoded)
                     | Ok _ \<Rightarrow>
                         (io_result (io_sync_directory io),
                          s\<lparr>entries := (entries s)(STATE_FILE \<mapsto> new_private_file s encoded,
                                                    temporary := None)\<rparr>)))))"

definition remove_temporary :: "io_choices \<Rightarrow> store_dir \<Rightarrow> store_dir" where
  "remove_temporary io s =
     (case io_remove_file io of
        Some _ \<Rightarrow> s
      | None \<Rightarrow> s\<lparr>entries := (entries s)(temporary_name (io_uuid io) := None)\<rparr>)"

definition update_file ::
  "env \<Rightarrow> io_choices \<Rightarrow> store_dir \<Rightarrow> (sequence_state \<Rightarrow> ('t \<times> sequence_state) cresult) \<Rightarrow>
   't cresult \<times> store_dir" where
  "update_file E io s update =
     (case open_and_lock io s of
        (Err e, s1) \<Rightarrow> (Err e, s1)
      | (Ok _, s1) \<Rightarrow>
          (case and_then (read_state E io s1) (\<lambda>vs.
                and_then (update vs) (\<lambda>(result, vs').
                and_then (validate_state_bounds E vs') (\<lambda>_.
                and_then (ok_or (json_to_vec E (ser_state vs')) StateJson) (\<lambda>encoded.
                Ok (result, encoded))))) of
             Err e \<Rightarrow> (Err e, s1)
           | Ok (result, encoded) \<Rightarrow>
               (case write_temporary io s1 encoded of
                  (Err e, s2) \<Rightarrow> (Err e, remove_temporary io s2)
                | (Ok _, s2) \<Rightarrow>
                    (case io_result (io_unlock io) of
                       Err e \<Rightarrow> (Err e, s2)
                     | Ok _ \<Rightarrow> (Ok result, s2)))))"

text \<open>The three operations of the file store.\<close>

definition file_step :: "env \<Rightarrow> io_choices \<Rightarrow> store_dir \<Rightarrow> store_op \<Rightarrow> store_out cresult \<times> store_dir" where
  "file_step E io s op =
     (case store_update E op of
        Err e \<Rightarrow> (Err e, s)
      | Ok update \<Rightarrow> update_file E io s update)"

section \<open>Replacement as a whole\<close>

lemma temporary_name_neq [simp]:
  "temporary_name u \<noteq> STATE_FILE" "temporary_name u \<noteq> LOCK_FILE"
  "STATE_FILE \<noteq> temporary_name u" "LOCK_FILE \<noteq> STATE_FILE" "STATE_FILE \<noteq> LOCK_FILE"
  by (simp_all add: temporary_name_def STATE_FILE_def LOCK_FILE_def)

lemma umask_update_file:
  "umask (snd (open_and_lock io s)) = umask s" "umask (snd (write_temporary io s b)) = umask s"
  "umask (remove_temporary io s) = umask s"
  by (auto simp: open_and_lock_def private_open_lock_def write_temporary_def remove_temporary_def
      Let_def split: result.splits option.splits prod.splits)

lemma open_and_lock_state:
  "entries (snd (open_and_lock io s)) STATE_FILE = entries s STATE_FILE"
  by (auto simp: open_and_lock_def private_open_lock_def Let_def
      split: result.splits option.splits prod.splits)

lemma write_temporary_state:
  assumes "write_temporary io s b = (r, s')"
  shows "entries s' STATE_FILE = entries s STATE_FILE \<and> (\<exists>e. r = Err e) \<or>
         entries s' STATE_FILE = Some (new_private_file s b)"
  using assms
  by (auto simp: write_temporary_def Let_def split: result.splits if_splits) metis+

lemma remove_temporary_state [simp]:
  "entries (remove_temporary io s) STATE_FILE = entries s STATE_FILE"
  by (simp add: remove_temporary_def split: option.splits)

lemma read_state_cong:
  "entries s STATE_FILE = entries s' STATE_FILE \<Longrightarrow> read_state E io s = read_state E io s'"
  by (simp add: read_state_def)

lemma read_state_no_faults:
  "read_state E io s = Ok vs \<Longrightarrow> read_state E no_faults s = Ok vs"
  unfolding read_state_def no_follow_read_def
  by (auto simp: ok_iff no_faults_def split: option.splits)

lemma update_file_cases:
  assumes "update_file E io s update = (r, s')"
  obtains (unchanged) e where "r = Err e" "entries s' STATE_FILE = entries s STATE_FILE" "umask s' = umask s"
  | (replaced) vs result vs' encoded where "read_state E no_faults s = Ok vs"
      "update vs = Ok (result, vs')" "validate_state_bounds E vs' = Ok ()"
      "json_to_vec E (ser_state vs') = Some encoded"
      "entries s' STATE_FILE = Some (new_private_file s encoded)" "umask s' = umask s"
      "r = Ok result \<or> (\<exists>e. r = Err e)"
proof -
  obtain l s1 where lock: "open_and_lock io s = (l, s1)" by (cases "open_and_lock io s")
  then have s1: "entries s1 STATE_FILE = entries s STATE_FILE" "umask s1 = umask s"
    using open_and_lock_state [of io s] umask_update_file(1) [of io s] by simp_all
  show ?thesis
  proof (cases "\<exists>e. r = Err e \<and> s' = s1")
    case True
    with s1 unchanged show ?thesis by blast
  next
    case False
    with assms lock obtain vs result vs' encoded where
      *: "read_state E io s1 = Ok vs" "update vs = Ok (result, vs')"
        "validate_state_bounds E vs' = Ok ()" "json_to_vec E (ser_state vs') = Some encoded"
        "(case write_temporary io s1 encoded of
            (Err e, s2) \<Rightarrow> (Err e, remove_temporary io s2)
          | (Ok _, s2) \<Rightarrow> (case io_result (io_unlock io) of
              Err e \<Rightarrow> (Err e, s2) | Ok _ \<Rightarrow> (Ok result, s2))) = (r, s')"
      by (auto simp: update_file_def and_then_Ok_iff ok_or_Ok_iff split: result.splits)
    obtain w s2 where w: "write_temporary io s1 encoded = (w, s2)"
      by (cases "write_temporary io s1 encoded")
    then have u: "umask s2 = umask s" using umask_update_file(2) [of io s1 encoded] s1 by simp
    from *(5) w have s': "entries s' STATE_FILE = entries s2 STATE_FILE" "umask s' = umask s"
      and r: "r = Ok result \<or> (\<exists>e. r = Err e)" "\<exists>e. w = Err e \<Longrightarrow> \<exists>e. r = Err e"
      using u umask_update_file(3) by (auto split: result.splits)
    have read: "read_state E no_faults s = Ok vs"
      using *(1) read_state_no_faults read_state_cong [OF s1(1)] by metis
    from write_temporary_state [OF w] show ?thesis
    proof
      assume keep: "entries s2 STATE_FILE = entries s1 STATE_FILE \<and> (\<exists>e. w = Err e)"
      with r(2) obtain e where "r = Err e" by blast
      with keep s' s1 show ?thesis by (intro unchanged) simp_all
    next
      assume "entries s2 STATE_FILE = Some (new_private_file s1 encoded)"
      with s' s1 have "entries s' STATE_FILE = Some (new_private_file s encoded)"
        by (simp add: new_private_file_def)
      then show ?thesis using replaced read *(2-4) s'(2) r(1) by blast
    qed
  qed
qed

section \<open>Reading back\<close>

lemma bt_insert_last:
  "bt_ok (vs @ [(k, v)]) \<Longrightarrow> bt_insert k v vs = vs @ [(k, v)]"
proof (induction vs)
  case (Cons a vs)
  then show ?case by (cases a) (auto simp: bt_ok_def)
qed simp

lemma de_ser_digest:
  "de_vec de_uint (ser_vec ser_uint (d :: bytes)) = Some d"
  by (rule de_ser_vec) (simp add: serde_simps)

lemma de_ser_stored: "digest_typed v \<Longrightarrow> de_stored (ser_stored v) = Some v"
  by (cases v) (simp_all add: de_stored_def ser_stored_def de_stored_variant_def de_struct_def
      serde_simps de_ser_digest)

lemma de_ser_state_entries:
  "bt_ok (acc @ vs) \<Longrightarrow> (\<forall>(k, v) \<in> set vs. digest_typed v) \<Longrightarrow>
   de_state_entries acc (map (map_prod id ser_stored) vs) = Some (acc @ vs)"
proof (induction vs arbitrary: acc)
  case (Cons a vs)
  obtain k v where a: "a = (k, v)" by (cases a)
  from Cons.prems(1) a have "bt_ok (acc @ [(k, v)])" by (simp add: bt_ok_def sorted_wrt_append)
  then have "bt_insert k v acc = acc @ [(k, v)]" by (rule bt_insert_last)
  moreover have "de_stored (ser_stored v) = Some v" using Cons.prems(2) a de_ser_stored by auto
  ultimately show ?case using Cons.IH [of "acc @ [(k, v)]"] Cons.prems a by simp
qed simp

lemma de_ser_state: "state_ok E vs \<Longrightarrow> de_state (ser_state vs) = Some vs"
  using de_ser_state_entries [of "[]" vs] by (auto simp: de_state_def ser_state_def state_ok_def)

lemma validate_stored_entries_Ok_iff:
  "validate_stored_entries E vs = Ok () \<longleftrightarrow> (\<forall>(k, v) \<in> set vs. validate_stored_entry E k v = Ok ())"
  by (induction vs) (auto simp: and_then_Ok_iff)

lemma mask_disjoint: "and u a = 0 \<Longrightarrow> and a (not u) = (a :: 'a::len word)"
  by (rule bit_word_eqI) (metis bit_0_eq bit_and_iff bit_not_iff bot_apply bot_bool_def
      impossible_bit)

lemma private_mode: "and (umask s) 0x180 = 0 \<Longrightarrow> validate_private_file (new_private_file s b) = Ok ()"
  by (simp add: validate_private_file_def new_private_file_def mask_disjoint)

lemma read_state_written:
  assumes "json_text_law E" "and (umask s) 0x180 = 0" "state_ok E vs"
    "validate_state_bounds E vs = Ok ()" "json_to_vec E (ser_state vs) = Some encoded"
    "entries s' STATE_FILE = Some (new_private_file s encoded)"
  shows "read_state E no_faults s' = Ok vs"
proof -
  have "length encoded \<le> MAX_STATE_BYTES"
    using assms(4,5) by (auto simp: validate_state_bounds_def ok_iff)
  moreover have "json_from_slice E encoded = Some (ser_state vs)"
    using assms(1,5) by (simp add: json_text_law_def)
  moreover have "validate_stored_entries E vs = Ok ()"
    using assms(3) by (auto simp: validate_stored_entries_Ok_iff state_ok_def)
  ultimately show ?thesis
    using assms(4,6) private_mode [OF assms(2)] de_ser_state [OF assms(3)]
    by (simp add: read_state_def no_follow_read_def no_faults_def new_private_file_def Let_def)
qed

lemma bt_ok_de_state_entries: "de_state_entries acc kvs = Some vs \<Longrightarrow> bt_ok acc \<Longrightarrow> bt_ok vs"
  by (induction acc kvs rule: de_state_entries.induct) (auto split: bind_splits)

lemma digest_typed_de_stored: "de_stored j = Some v \<Longrightarrow> digest_typed v"
  by (auto simp: de_stored_def de_stored_variant_def
      split: json.splits list.splits prod.splits if_splits bind_splits option.splits)

lemma digest_typed_de_state_entries:
  "de_state_entries acc kvs = Some vs \<Longrightarrow> (\<forall>(k, v) \<in> set acc. digest_typed v) \<Longrightarrow>
   (\<forall>(k, v) \<in> set vs. digest_typed v)"
proof (induction acc kvs rule: de_state_entries.induct)
  case (2 acc k j kvs)
  then obtain v where v: "de_stored j = Some v" "de_state_entries (bt_insert k v acc) kvs = Some vs"
    by (auto split: bind_splits)
  then have "\<forall>(k, v) \<in> set (bt_insert k v acc). digest_typed v"
    using 2(3) set_bt_insert_subset [of k v acc] digest_typed_de_stored by fastforce
  with 2(1) v show ?case by blast
qed simp

lemma read_state_ok: "read_state E io s = Ok vs \<Longrightarrow> state_ok E vs"
  unfolding read_state_def
  by (auto simp: ok_iff Let_def state_ok_def validate_stored_entries_Ok_iff de_state_def
      split: option.splits bind_splits json.splits if_splits
      dest: bt_ok_de_state_entries digest_typed_de_state_entries)

section \<open>The contract\<close>

text \<open>The state the directory holds: what a read without faults returns.\<close>

definition file_values :: "env \<Rightarrow> store_dir \<Rightarrow> sequence_state" where
  "file_values E s = (case read_state E no_faults s of Ok vs \<Rightarrow> vs | Err _ \<Rightarrow> [])"

text \<open>
  The state file is readable, and the file mode creation mask keeps the owner's permissions.
\<close>

definition file_inv :: "env \<Rightarrow> store_dir \<Rightarrow> bool" where
  "file_inv E s = (z32_text_law E \<and> json_text_law E \<and> and (umask s) 0x180 = 0 \<and>
     is_ok (read_state E no_faults s))"

lemma file_step_cases:
  assumes "file_inv E s" "op_ok E op" "file_step E io s op = (r, s')"
  obtains (unchanged) e where "r = Err e" "file_inv E s'" "file_values E s' = file_values E s"
  | (updated) f out where "store_update E op = Ok f" "f (file_values E s) = Ok (out, file_values E s')"
      "file_inv E s'" "r = Ok out \<or> (\<exists>e. r = Err e)"
proof (cases "store_update E op")
  case (Err e)
  with assms unchanged show ?thesis by (auto simp: file_step_def)
next
  case (Ok f)
  with assms(3) have "update_file E io s f = (r, s')" by (simp add: file_step_def)
  then show ?thesis
  proof (cases rule: update_file_cases)
    case (unchanged e)
    have "read_state E no_faults s' = read_state E no_faults s"
      using unchanged(2) by (rule read_state_cong)
    with assms(1) unchanged that(1) show ?thesis by (simp add: file_inv_def file_values_def)
  next
    case (replaced vs out vs' encoded)
    have fv: "file_values E s = vs" using replaced(1) by (simp add: file_values_def)
    have "state_ok E vs'"
      using store_update_state_ok [OF _ _ assms(2) Ok replaced(2)] assms(1)
        read_state_ok [OF replaced(1)] by (simp add: file_inv_def)
    then have "read_state E no_faults s' = Ok vs'"
      using assms(1) replaced read_state_written by (auto simp: file_inv_def)
    then have "file_inv E s'" "file_values E s' = vs'"
      using assms(1) replaced(6) by (simp_all add: file_inv_def file_values_def)
    with replaced Ok fv that(2) show ?thesis by metis
  qed
qed

interpretation file_store: sequence_store E "file_step E" "file_values E" "file_inv E" for E
proof
  fix s op x r s'
  assume "file_inv E s" "op_ok E op" "file_step E x s op = (r, s')"
  note step = file_step_cases [OF this]
  show "file_inv E s'" by (cases rule: step) auto
  show "file_values E s' = file_values E s \<or>
      (\<exists>f out. store_update E op = Ok f \<and> f (file_values E s) = Ok (out, file_values E s'))"
    by (cases rule: step) auto
next
  fix s op x out s'
  assume "file_inv E s" "op_ok E op" "file_step E x s op = (Ok out, s')"
  note step = file_step_cases [OF this]
  show "\<exists>f. store_update E op = Ok f \<and> f (file_values E s) = Ok (out, file_values E s')"
    by (cases rule: step) auto
qed

end
