(* ===== verification/Demo_Env.thy ===== *)
theory Demo_Env
  imports Sequence_File
begin

text \<open>
  A small environment that has every law of theory Env: fixed-width digits for keys and
  signatures, hexadecimal text for base64, a tagged byte format for JSON. It shows that the laws
  can hold together and is where the theorems with hypotheses are applied to concrete inputs.
\<close>

section \<open>Digits\<close>

fun digits :: "nat \<Rightarrow> nat \<Rightarrow> nat \<Rightarrow> nat list" where
  "digits b 0 n = []"
| "digits b (Suc k) n = (n mod b) # digits b k (n div b)"

fun undigits :: "nat \<Rightarrow> nat list \<Rightarrow> nat" where
  "undigits b [] = 0"
| "undigits b (d # ds) = d + b * undigits b ds"

lemma length_digits [simp]: "length (digits b k n) = k"
  by (induction k arbitrary: n) auto

lemma digits_less: "0 < b \<Longrightarrow> d \<in> set (digits b k n) \<Longrightarrow> d < b"
  by (induction k arbitrary: n) auto

lemma undigits_digits: "n < b ^ k \<Longrightarrow> undigits b (digits b k n) = n"
proof (induction k arbitrary: n)
  case (Suc k)
  then have "n div b < b ^ k" by (simp add: less_mult_imp_div_less mult.commute)
  with Suc.IH show ?case by simp
qed simp

lemma undigits_less: "\<forall>d \<in> set ds. d < b \<Longrightarrow> undigits b ds < b ^ length ds"
proof (induction ds)
  case (Cons d ds)
  then have "undigits b ds + 1 \<le> b ^ length ds" by simp
  then have "b * (undigits b ds + 1) \<le> b * b ^ length ds" by (rule mult_le_mono2)
  with Cons.prems show ?case by (simp add: algebra_simps)
qed simp

lemma digits_undigits: "\<forall>d \<in> set ds. d < b \<Longrightarrow> digits b (length ds) (undigits b ds) = ds"
  by (induction ds) auto

text \<open>Words of 8 k bits as k bytes.\<close>

definition word_bytes :: "nat \<Rightarrow> 'a::len word \<Rightarrow> bytes" where
  "word_bytes k w = map of_nat (digits 256 k (unat w))"

definition bytes_word :: "bytes \<Rightarrow> 'a::len word" where
  "bytes_word b = of_nat (undigits 256 (map unat b))"

lemma length_word_bytes [simp]: "length (word_bytes k w) = k"
  by (simp add: word_bytes_def)

lemma map_unat_of_nat:
  "\<forall>d \<in> set ds. d < 256 \<Longrightarrow> map unat (map of_nat ds :: bytes) = ds"
  by (induction ds) (auto simp: unat_of_nat)

lemma map_of_nat_unat: "map of_nat (map unat b) = (b :: 'a::len word list)"
  by (induction b) auto

lemma bytes_word_bytes:
  "LENGTH('a::len) = 8 * k \<Longrightarrow> bytes_word (word_bytes k w) = (w :: 'a word)"
proof -
  assume k: "LENGTH('a) = 8 * k"
  have "unat w < 256 ^ k" using unat_lt_2p [of w] k by (simp add: power_mult)
  moreover have "map unat (word_bytes k w) = digits 256 k (unat w)"
    unfolding word_bytes_def using digits_less [of 256 _ k "unat w"] by (intro map_unat_of_nat) auto
  ultimately show ?thesis by (simp add: bytes_word_def undigits_digits)
qed

lemma word_bytes_word:
  "LENGTH('a::len) = 8 * length b \<Longrightarrow> word_bytes (length b) (bytes_word b :: 'a word) = b"
proof -
  assume k: "LENGTH('a) = 8 * length b"
  have all: "\<forall>d \<in> set (map unat b). d < 256" using unat_lt_2p [where 'a = 8] by auto
  have "undigits 256 (map unat b) < 256 ^ length b" using undigits_less [OF all] by simp
  then have "undigits 256 (map unat b) < 2 ^ LENGTH('a)" using k by (simp add: power_mult)
  then have "unat (bytes_word b :: 'a word) = undigits 256 (map unat b)"
    by (simp add: bytes_word_def unat_of_nat)
  then show ?thesis
    using digits_undigits [OF all] by (simp add: word_bytes_def map_of_nat_unat del: map_map)
qed

section \<open>Key text\<close>

definition z32_char :: "nat \<Rightarrow> char" where
  "z32_char d = (if d < 26 then char_of (97 + d) else char_of (22 + d))"

definition z32_value :: "char \<Rightarrow> nat" where
  "z32_value c = (let n = of_char c in if 97 \<le> n then n - 97 else n - 22)"

lemma z32_value_char: "d < 32 \<Longrightarrow> z32_value (z32_char d) = d"
  by (auto simp: z32_value_def z32_char_def Let_def)

lemma z32_char_alphanumeric: "d < 32 \<Longrightarrow> is_ascii_alphanumeric (z32_char d)"
  by (auto simp: z32_char_def is_ascii_alphanumeric_def is_ascii_digit_def Let_def)

fun demo_z32 :: "public_key \<Rightarrow> string" where
  "demo_z32 (PublicKey w) = map z32_char (digits 32 52 (unat w))"

definition demo_parse_key :: "string \<Rightarrow> public_key option" where
  "demo_parse_key s =
     (if length s = 52 then Some (PublicKey (of_nat (undigits 32 (map z32_value s)))) else None)"

lemma length_demo_z32 [simp]: "length (demo_z32 k) = 52"
  by (cases k) (simp del: digits.simps)

lemma demo_parse_z32: "demo_parse_key (demo_z32 k) = Some k"
proof (cases k)
  case (PublicKey w)
  have eq: "map z32_value (demo_z32 k) = digits 32 52 (unat w)"
    using digits_less [of 32 _ 52 "unat w"] PublicKey
    by (auto intro!: map_idI simp: z32_value_char simp del: digits.simps)
  have "unat w < 32 ^ 52"
    using unat_lt_2p [of w] by (rule less_le_trans) simp
  then have "undigits 32 (digits 32 52 (unat w)) = unat w" by (rule undigits_digits)
  with eq PublicKey show ?thesis by (simp add: demo_parse_key_def del: demo_z32.simps)
qed

lemma demo_z32_text: "list_all is_ascii_alphanumeric (demo_z32 k)"
  using digits_less [of 32 _ 52] z32_char_alphanumeric
  by (cases k) (auto simp: list_all_iff simp del: digits.simps)

section \<open>Hexadecimal text\<close>

definition hex_char :: "nat \<Rightarrow> char" where
  "hex_char n = char_of (97 + n)"

fun demo_b64 :: "bytes \<Rightarrow> string" where
  "demo_b64 [] = []"
| "demo_b64 (b # bs) = hex_char (unat b div 16) # hex_char (unat b mod 16) # demo_b64 bs"

fun demo_unb64 :: "string \<Rightarrow> bytes option" where
  "demo_unb64 [] = Some []"
| "demo_unb64 [c] = None"
| "demo_unb64 (c # d # s) =
     map_option ((#) (of_nat ((of_char c - 97) * 16 + (of_char d - 97)))) (demo_unb64 s)"

lemma of_hex_char: "n < 16 \<Longrightarrow> of_char (hex_char n) - 97 = n"
  by (simp add: hex_char_def)

lemma byte_halves: "unat (b :: byte) div 16 < 16"
  using unat_lt_2p [of b] by simp

lemma demo_unb64_b64: "demo_unb64 (demo_b64 b) = Some b"
  by (induction b) (auto simp: of_hex_char byte_halves)

lemma length_demo_b64 [simp]: "length (demo_b64 b) = 2 * length b"
  by (induction b) auto

lemma hex_char_alphabet: "n < 16 \<Longrightarrow> b64_alphabet (hex_char n)"
  by (auto simp: hex_char_def b64_alphabet_def is_ascii_alphanumeric_def Let_def)

lemma demo_b64_alphabet: "list_all b64_alphabet (demo_b64 b)"
  by (induction b) (auto simp: hex_char_alphabet byte_halves)

section \<open>A byte format for JSON\<close>

fun enc_nat :: "nat \<Rightarrow> bytes" where
  "enc_nat n = (if n < 128 then [of_nat n] else of_nat (128 + n mod 128) # enc_nat (n div 128))"

declare enc_nat.simps [simp del]

fun dec_nat :: "bytes \<Rightarrow> (nat \<times> bytes) option" where
  "dec_nat [] = None"
| "dec_nat (b # r) =
     (if unat b < 128 then Some (unat b, r)
      else map_option (\<lambda>(n, r'). (unat b - 128 + 128 * n, r')) (dec_nat r))"

lemma dec_enc_nat: "dec_nat (enc_nat n @ r) = Some (n, r)"
proof (induction n rule: enc_nat.induct)
  case (1 n)
  show ?case
  proof (cases "n < 128")
    case True
    then have "unat (of_nat n :: byte) = n" by (simp add: unat_of_nat)
    with True show ?thesis by (simp add: enc_nat.simps [of n])
  next
    case False
    have "unat (of_nat (128 + n mod 128) :: byte) = 128 + n mod 128" by (simp add: unat_of_nat del: of_nat_add)
    with False 1 show ?thesis by (simp add: enc_nat.simps [of n] del: of_nat_add)
  qed
qed

fun enc_str :: "string \<Rightarrow> bytes" where
  "enc_str [] = [0]"
| "enc_str (c # s) = 1 # byte_of_char c # enc_str s"

fun dec_str :: "bytes \<Rightarrow> (string \<times> bytes) option" where
  "dec_str (t # b # r) =
     (if t = 0 then Some ([], b # r)
      else map_option (\<lambda>(s, r'). (char_of_byte b # s, r')) (dec_str r))"
| "dec_str [t] = Some ([], [])"
| "dec_str [] = None"

lemma dec_enc_str: "dec_str (enc_str s @ r) = Some (s, r)"
proof (induction s)
  case Nil
  then show ?case by (cases r) auto
qed simp

lemma length_enc_str [simp]: "length (enc_str s) = 2 * length s + 1"
  by (induction s) auto

primrec enc :: "json \<Rightarrow> bytes" where
  "enc JNull = [0]"
| "enc (JBool b) = [1, if b then 1 else 0]"
| "enc (JNum n) = 2 # enc_nat n"
| "enc (JNumber s) = 3 # enc_str s"
| "enc (JStr s) = 4 # enc_str s"
| "enc (JArr vs) = 5 # concat (map ((#) 1) (map enc vs)) @ [0]"
| "enc (JObj kvs) = 6 # concat (map (\<lambda>(k, e). 1 # enc_str k @ e) (map (map_prod id enc) kvs)) @ [0]"

fun dec :: "nat \<Rightarrow> bytes \<Rightarrow> (json \<times> bytes) option"
  and dec_values :: "nat \<Rightarrow> bytes \<Rightarrow> (json list \<times> bytes) option"
  and dec_members :: "nat \<Rightarrow> bytes \<Rightarrow> ((string \<times> json) list \<times> bytes) option" where
  "dec 0 bs = None"
| "dec (Suc f) [] = None"
| "dec (Suc f) (t # bs) =
     (if t = 0 then Some (JNull, bs)
      else if t = 1 then (case bs of [] \<Rightarrow> None | b # r \<Rightarrow> Some (JBool (b = 1), r))
      else if t = 2 then map_option (apfst JNum) (dec_nat bs)
      else if t = 3 then map_option (apfst JNumber) (dec_str bs)
      else if t = 4 then map_option (apfst JStr) (dec_str bs)
      else if t = 5 then map_option (apfst JArr) (dec_values f bs)
      else if t = 6 then map_option (apfst JObj) (dec_members f bs)
      else None)"
| "dec_values 0 bs = None"
| "dec_values (Suc f) [] = None"
| "dec_values (Suc f) (t # bs) =
     (if t = 0 then Some ([], bs)
      else do { (v, r) \<leftarrow> dec f bs; (vs, r') \<leftarrow> dec_values f r; Some (v # vs, r') })"
| "dec_members 0 bs = None"
| "dec_members (Suc f) [] = None"
| "dec_members (Suc f) (t # bs) =
     (if t = 0 then Some ([], bs)
      else do { (k, r) \<leftarrow> dec_str bs; (v, r') \<leftarrow> dec f r; (kvs, r'') \<leftarrow> dec_members f r';
                Some ((k, v) # kvs, r'') })"

lemma dec_values_enc:
  "(\<And>v f r. v \<in> set vs \<Longrightarrow> length (enc v) \<le> f \<Longrightarrow> dec f (enc v @ r) = Some (v, r)) \<Longrightarrow>
   length (concat (map ((#) 1) (map enc vs)) @ [0]) \<le> f \<Longrightarrow>
   dec_values f ((concat (map ((#) 1) (map enc vs)) @ [0]) @ r) = Some (vs, r)"
proof (induction vs arbitrary: f)
  case Nil
  then show ?case by (cases f) auto
next
  case (Cons v vs)
  then obtain g where f: "f = Suc g" by (cases f) auto
  have "dec_values g ((concat (map ((#) 1) (map enc vs)) @ [0]) @ r) = Some (vs, r)"
    by (rule Cons.IH) (use Cons.prems f in auto)
  moreover have "dec g (enc v @ x) = Some (v, x)" for x using Cons.prems f by simp
  ultimately show ?case using f by simp
qed

lemma dec_members_enc:
  "(\<And>k v f r. (k, v) \<in> set kvs \<Longrightarrow> length (enc v) \<le> f \<Longrightarrow> dec f (enc v @ r) = Some (v, r)) \<Longrightarrow>
   length (concat (map (\<lambda>(k, e). 1 # enc_str k @ e) (map (map_prod id enc) kvs)) @ [0]) \<le> f \<Longrightarrow>
   dec_members f ((concat (map (\<lambda>(k, e). 1 # enc_str k @ e) (map (map_prod id enc) kvs)) @ [0]) @ r)
     = Some (kvs, r)"
proof (induction kvs arbitrary: f)
  case Nil
  then show ?case by (cases f) auto
next
  case (Cons a kvs)
  obtain k v where a: "a = (k, v)" by (cases a)
  from Cons.prems(2) a obtain g where f: "f = Suc g" by (cases f) auto
  have "dec_members g ((concat (map (\<lambda>(k, e). 1 # enc_str k @ e) (map (map_prod id enc) kvs)) @ [0]) @ r)
      = Some (kvs, r)"
    by (rule Cons.IH) (use Cons.prems f a in auto)
  moreover have "dec g (enc v @ x) = Some (v, x)" for x
    using Cons.prems(1) [of k v g x] Cons.prems(2) f a by auto
  ultimately show ?case using f a by (simp add: dec_enc_str id_def)
qed

lemma dec_enc: "length (enc j) \<le> f \<Longrightarrow> dec f (enc j @ r) = Some (j, r)"
proof (induction j arbitrary: f r)
  case (JArr vs)
  then obtain g where f: "f = Suc g" by (cases f) auto
  with JArr have "dec_values g ((concat (map ((#) 1) (map enc vs)) @ [0]) @ r) = Some (vs, r)"
    by (intro dec_values_enc) auto
  with f show ?case by simp
next
  case (JObj kvs)
  then obtain g where f: "f = Suc g" by (cases f) auto
  with JObj have "dec_members g ((concat (map (\<lambda>(k, e). 1 # enc_str k @ e) (map (map_prod id enc) kvs)) @ [0]) @ r)
      = Some (kvs, r)"
    by (intro dec_members_enc) (auto simp: snds.simps)
  with f show ?case by simp
next
  case JNull
  then show ?case by (cases f) auto
next
  case (JBool b)
  then show ?case by (cases f) auto
next
  case (JNum n)
  then show ?case by (cases f) (auto simp: dec_enc_nat)
next
  case (JNumber s)
  then show ?case by (cases f) (auto simp: dec_enc_str)
next
  case (JStr s)
  then show ?case by (cases f) (auto simp: dec_enc_str)
qed

lemma enc_inject: "enc a = enc b \<longleftrightarrow> a = b"
  by (metis dec_enc append_Nil2 fst_conv option.inject order_refl)

definition parse_json :: "bytes \<Rightarrow> json option" where
  "parse_json b =
     (if b = as_bytes V1_GRANT_HEADER_JSON then Some header_json
      else case dec (length b) b of Some (j, []) \<Rightarrow> Some j | _ \<Rightarrow> None)"

lemma enc_not_header: "enc j \<noteq> as_bytes V1_GRANT_HEADER_JSON"
proof -
  have "\<exists>t r. enc j = t # r \<and> t \<in> {0, 1, 2, 3, 4, 5, 6}" by (cases j) auto
  moreover have "\<exists>r. as_bytes V1_GRANT_HEADER_JSON = byte_of_char (CHR ''{'') # r"
    by (simp add: as_bytes_def V1_GRANT_HEADER_JSON_def Let_def)
  moreover have "byte_of_char (CHR ''{'') \<notin> {0, 1, 2, 3, 4, 5, 6}"
    by (simp add: byte_of_char_def)
  ultimately show ?thesis by auto
qed

lemma parse_enc: "parse_json (enc j) = Some j"
  using dec_enc [of j "length (enc j)" "[]"] enc_not_header by (simp add: parse_json_def)

section \<open>The environment\<close>

definition str_serde :: "(string \<Rightarrow> 'a) \<Rightarrow> ('a \<Rightarrow> string) \<Rightarrow> 'a serde" where
  "str_serde mk get = \<lparr>ser = (\<lambda>x. JStr (get x)), de = (\<lambda>j. map_option mk (de_string j))\<rparr>"

fun secret_of :: "keypair \<Rightarrow> 256 word" where "secret_of (Keypair w) = w"
fun key_of :: "public_key \<Rightarrow> 256 word" where "key_of (PublicKey w) = w"
fun sig_of :: "signature \<Rightarrow> 512 word" where "sig_of (Signature w) = w"
fun client_text :: "client_id \<Rightarrow> string" where "client_text (ClientId s) = s"
fun grant_id_text :: "grant_id \<Rightarrow> string" where "grant_id_text (GrantId s) = s"
fun capability_text :: "capability \<Rightarrow> string" where "capability_text (Capability s) = s"

definition demo_env :: env where
  "demo_env = \<lparr>
     jcs_to_vec = (\<lambda>j. Some (enc (jcs_norm j))),
     json_to_vec = (\<lambda>j. Some (enc j)),
     json_from_slice = parse_json,
     b64_encode = demo_b64,
     b64_decode = demo_unb64,
     sha256 = (\<lambda>b. take 32 (b @ replicate 32 0)),
     signature_from_slice = (\<lambda>b. if length b = 64 then Some (Signature (bytes_word b)) else None),
     signature_to_bytes = (\<lambda>s. word_bytes 64 (sig_of s)),
     pk_try_from_z32 = demo_parse_key,
     pk_parse = demo_parse_key,
     pk_z32 = demo_z32,
     pk_verify = (\<lambda>k m s. s = Signature (ucast (key_of k))),
     kp_from_secret = (\<lambda>b. Keypair (bytes_word b)),
     kp_secret = (\<lambda>k. word_bytes 32 (secret_of k)),
     kp_public_key = (\<lambda>k. PublicKey (secret_of k)),
     kp_sign = (\<lambda>k m. Signature (ucast (secret_of k))),
     pk_serde = \<lparr>ser = (\<lambda>k. JStr (demo_z32 k)), de = (\<lambda>j. Option.bind (de_string j) demo_parse_key)\<rparr>,
     client_id_serde = str_serde ClientId client_text,
     client_id_as_str = client_text,
     grant_id_serde = str_serde GrantId grant_id_text,
     grant_id_as_str = grant_id_text,
     capability_serde = str_serde Capability capability_text,
     capability_to_string = capability_text,
     capability_actions = (\<lambda>c. [ActionRead, ActionWrite]),
     scope_covers_path = (\<lambda>c p. True),
     storage_path_new = (\<lambda>s. Some (StoragePath s)),
     url_serde = str_serde Url url_as_str,
     url_parse = (\<lambda>s. Some (Url s)),
     url_scheme = (\<lambda>u. ''https''),
     url_username = (\<lambda>u. []),
     url_password = (\<lambda>u. None),
     url_host_str = (\<lambda>u. Some ''relay.example''),
     url_host = (\<lambda>u. Some (HostDomain ''relay.example'')),
     url_port = (\<lambda>u. None),
     url_path = (\<lambda>u. ''/''),
     url_query = (\<lambda>u. None),
     url_fragment = (\<lambda>u. None),
     url_origin = (\<lambda>u. OriginTuple ''https'' (url_as_str u) 443)\<rparr>"

lemma demo_serde [simp]:
  "json_to_vec demo_env = (\<lambda>j. Some (enc j))" "jcs_to_vec demo_env = (\<lambda>j. Some (enc (jcs_norm j)))"
  "b64_encode demo_env = demo_b64" "pk_z32 demo_env = demo_z32"
  "kp_public_key demo_env = (\<lambda>k. PublicKey (secret_of k))"
  by (simp_all add: demo_env_def)

lemma demo_b64_law: "b64_law demo_env"
  by (simp add: b64_law_def demo_env_def demo_unb64_b64)

lemma demo_b64_alphabet_law: "b64_alphabet_law demo_env"
  by (simp add: b64_alphabet_law_def demo_b64_alphabet)

lemma demo_sha256_law: "sha256_law demo_env"
  by (auto simp: sha256_law_def demo_env_def min_def)

lemma demo_signature_codec_law: "signature_codec_law demo_env"
proof -
  have "bytes_word (word_bytes 64 w) = (w :: 512 word)" for w by (rule bytes_word_bytes) simp
  moreover have "word_bytes 64 (bytes_word b :: 512 word) = b" if "length b = 64" for b
    using word_bytes_word [where 'a = 512, of b] that by simp
  moreover have "Signature (sig_of s) = s" for s by (cases s) simp
  ultimately show ?thesis by (auto simp: signature_codec_law_def demo_env_def split: if_splits)
qed

lemma demo_signing_law: "signing_law demo_env"
  by (simp add: signing_law_def demo_env_def)

lemma demo_z32_law: "z32_law demo_env"
  by (simp add: z32_law_def demo_env_def demo_parse_z32)

lemma demo_keypair_law: "keypair_law demo_env"
proof -
  have "bytes_word (word_bytes 32 w) = (w :: 256 word)" for w by (rule bytes_word_bytes) simp
  moreover have "Keypair (secret_of s) = s" for s by (cases s) simp
  ultimately show ?thesis by (simp add: keypair_law_def demo_env_def)
qed

lemma demo_z32_text_law: "z32_text_law demo_env"
  using demo_z32_text by (auto simp: z32_text_law_def demo_env_def)

lemma demo_url_serde_law: "url_serde_law demo_env"
proof -
  have "Url (url_as_str u) = u" for u by (cases u) simp
  then show ?thesis by (simp add: url_serde_law_def demo_env_def str_serde_def serde_simps)
qed

lemma demo_jcs_law: "jcs_law demo_env"
  by (auto simp: jcs_law_def enc_inject)

lemma demo_jcs_total_law: "jcs_total_law demo_env"
  by (simp add: jcs_total_law_def)

lemma demo_json_text_law: "json_text_law demo_env"
  by (auto simp: json_text_law_def demo_env_def parse_enc)

lemma demo_grant_serde_law: "grant_serde_law demo_env"
proof -
  have "ClientId (client_text c) = c" for c by (cases c) simp
  moreover have "GrantId (grant_id_text g) = g" for g by (cases g) simp
  moreover have "Capability (capability_text k) = k" for k by (cases k) simp
  ultimately show ?thesis
    by (simp add: grant_serde_law_def demo_env_def str_serde_def serde_simps demo_parse_z32)
qed

lemmas demo_laws = demo_b64_law demo_b64_alphabet_law demo_sha256_law demo_signature_codec_law
  demo_signing_law demo_z32_law demo_keypair_law demo_z32_text_law demo_url_serde_law demo_jcs_law
  demo_jcs_total_law demo_json_text_law demo_grant_serde_law

end
