(* ===== verification/Demo.thy ===== *)
theory Demo
  imports Demo_Env
begin

text \<open>
  Two devices in the environment of theory Demo\_Env that go through the protocol: Grant, device
  credential, record, Hello, Ack and currentness proofs, at times 10 to 120.
\<close>

section \<open>Parties\<close>

record party =
  root_key :: keypair
  cnf_key :: keypair
  control_pair :: keypair
  iroh_pair :: keypair

definition alice :: party where
  "alice = \<lparr>root_key = Keypair 1, cnf_key = Keypair 2, control_pair = Keypair 3, iroh_pair = Keypair 4\<rparr>"

definition bob :: party where
  "bob = \<lparr>root_key = Keypair 5, cnf_key = Keypair 6, control_pair = Keypair 7, iroh_pair = Keypair 8\<rparr>"

definition party_ok :: "party \<Rightarrow> bool" where
  "party_ok p = distinct [secret_of (root_key p), secret_of (cnf_key p), secret_of (control_pair p),
     secret_of (iroh_pair p)]"

lemma alice_bob_ok [simp]: "party_ok alice" "party_ok bob"
  by (simp_all add: party_ok_def alice_def bob_def)

definition party_id :: "party \<Rightarrow> string" where
  "party_id p = demo_z32 (PublicKey (secret_of (root_key p)))"

lemma length_party_id [simp]: "length (party_id p) = 52"
  by (simp add: party_id_def del: demo_z32.simps)

section \<open>Grants\<close>

definition demo_wire :: "party \<Rightarrow> v1_grant_claims_wire" where
  "demo_wire p = \<lparr>w_iss = PublicKey (secret_of (root_key p)), w_client_id = ClientId ''demo.app'',
     w_caps = [Capability ''/pub/pubky2pubky/:rw''], w_cnf = PublicKey (secret_of (cnf_key p)),
     w_jti = GrantId ''g'', w_iat = 10, w_exp = 120\<rparr>"

definition demo_grant :: "party \<Rightarrow> v1_grant_authorization" where
  "demo_grant p =
     \<lparr>grant_jws = canonical_jws demo_env (root_key p) (enc (ser_grant_wire demo_env (demo_wire p)))\<rparr>"

lemma length_enc_nat_small [simp]: "n < 128 \<Longrightarrow> length (enc_nat n) = 1"
  by (simp add: enc_nat.simps)

lemma length_enc_wire: "length (enc (ser_grant_wire demo_env (demo_wire p))) \<le> 500"
  by (simp add: ser_grant_wire_def ser_struct_def grant_wire_fields_def demo_wire_def ser_vec_def
      demo_env_def str_serde_def ser_uint_def del: demo_z32.simps)

lemma length_demo_jws: "length (grant_jws (demo_grant p)) \<le> 1300"
  using length_enc_wire [of p]
  by (simp add: demo_grant_def canonical_jws_def grant_signing_input_def Let_def
      V1_GRANT_HEADER_JSON_def demo_env_def)

lemma demo_client_id: "grant_check_client_id demo_env (into_claims (demo_wire p)) = Ok ()"
proof -
  have "str_chars ''demo.app'' = map of_char ''demo.app''"
    by (rule str_chars_ascii) (simp add: is_ascii_def)
  then show ?thesis
    by (simp add: grant_check_client_id_Ok_iff into_claims_def demo_wire_def demo_env_def
        is_control_def is_whitespace_def)
qed

lemma demo_grant_claims:
  assumes "party_ok p"
  shows "grant_check_claims demo_env (into_claims (demo_wire p)) (party_id p) 20 = Ok ()"
proof -
  have "parse_public_key demo_env (party_id p) = Ok (g_iss (into_claims (demo_wire p)))"
    using parse_public_key_z32 [OF demo_z32_law, of "PublicKey (secret_of (root_key p))"]
    by (simp add: party_id_def into_claims_def demo_wire_def del: demo_z32.simps)
  moreover have "validate_bounded_window 10 120 20 V1_MAX_GRANT_LIFETIME_SECONDS ''v1 Grant lifetime'' = Ok ()"
    by (simp add: validate_bounded_window_Ok_iff saturating_add_def MAX_CLOCK_SKEW_SECONDS_def
        V1_MAX_GRANT_LIFETIME_SECONDS_def)
  moreover have "grant_covers_storage demo_env (into_claims (demo_wire p))"
    by (simp add: grant_covers_storage_def into_claims_def demo_wire_def demo_env_def)
  ultimately show ?thesis
    using assms demo_client_id [of p]
    by (auto simp: grant_check_claims_Ok_iff into_claims_def demo_wire_def party_ok_def
        V1_MAX_GRANT_CAPABILITIES_def)
qed

lemma demo_header: "json_from_slice demo_env (as_bytes V1_GRANT_HEADER_JSON) = Some header_json"
  by (simp add: demo_env_def parse_json_def)

lemma enc_not_Nil [simp]: "enc j \<noteq> []"
  by (cases j) auto

lemma demo_grant_verifies:
  "party_ok p \<Longrightarrow> grant_verify demo_env (demo_grant p) (party_id p) 20 = Ok (into_claims (demo_wire p))"
  unfolding demo_grant_def
  using length_demo_jws [of p] demo_grant_claims [of p]
  by (intro grant_verify_canonical demo_laws demo_header)
    (simp_all add: demo_grant_def demo_wire_def V1_MAX_GRANT_JWS_BYTES_def)

section \<open>Credentials\<close>

fun the_ok :: "('a, 'e) result \<Rightarrow> 'a" where
  "the_ok (Ok x) = x"

definition demo_credential :: "party \<Rightarrow> v1_device_credential" where
  "demo_credential p = the_ok (issue demo_env (control_pair p) (iroh_pair p) (demo_grant p)
     (party_id p) (cnf_key p) ''phone'' 20 110)"

lemma demo_issue:
  assumes "party_ok p"
  shows "issue demo_env (control_pair p) (iroh_pair p) (demo_grant p) (party_id p) (cnf_key p)
      ''phone'' 20 110 = Ok (demo_credential p)"
    and "credential_verify demo_env (demo_credential p) 20 = Ok ()"
    and "cr_authorization (demo_credential p) = demo_grant p"
    and "cr_identity (demo_credential p) = party_id p"
    and "cc_expires_at (c_claims (cr_certificate (demo_credential p))) = 110"
    and "cc_issued_at (c_claims (cr_certificate (demo_credential p))) = 20"
    and "cr_control_signing_key (demo_credential p) = demo_z32 (PublicKey (secret_of (control_pair p)))"
    and "cr_iroh_endpoint_id (demo_credential p) = demo_z32 (PublicKey (secret_of (iroh_pair p)))"
    and "control_key demo_env (demo_credential p) = Ok (control_pair p)"
    and "cc_device_id (c_claims (cr_certificate (demo_credential p))) = ''phone''"
proof -
  have dev: "validate_device_id ''phone'' = Ok ()"
  proof -
    have "str_chars ''phone'' = map of_char ''phone''" by (rule str_chars_ascii) (simp add: is_ascii_def)
    then show ?thesis
      by (simp add: validate_device_id_def MAX_DEVICE_ID_BYTES_def is_control_def is_whitespace_def)
  qed
  have window: "validate_bounded_window 20 110 20 V1_MAX_DEVICE_CERTIFICATE_LIFETIME_SECONDS
      ''v1 certificate lifetime'' = Ok ()"
    by (simp add: validate_bounded_window_Ok_iff saturating_add_def MAX_CLOCK_SKEW_SECONDS_def
        V1_MAX_DEVICE_CERTIFICATE_LIFETIME_SECONDS_def MAX_CERTIFICATE_LIFETIME_SECONDS_def)
  have grant: "g_iat (into_claims (demo_wire p)) \<le> 20" "110 \<le> g_exp (into_claims (demo_wire p))"
    "kp_public_key demo_env (cnf_key p) = g_cnf (into_claims (demo_wire p))"
    "key_pairs_independent demo_env (into_claims (demo_wire p)) (control_pair p) (iroh_pair p)"
    using assms by (auto simp: into_claims_def demo_wire_def key_pairs_independent_def party_ok_def)
  have exact: "exact_time 20" "exact_time 110" by (simp_all add: exact_time_def)
  obtain c where c: "issue demo_env (control_pair p) (iroh_pair p) (demo_grant p) (party_id p)
        (cnf_key p) ''phone'' 20 110 = Ok c"
      "credential_verify demo_env c 20 = Ok ()" "cr_authorization c = demo_grant p"
      "cr_identity c = party_id p" "cc_expires_at (c_claims (cr_certificate c)) = 110"
      "cc_issued_at (c_claims (cr_certificate c)) = 20"
      "cr_control_signing_key c = pk_z32 demo_env (kp_public_key demo_env (control_pair p))"
      "cr_iroh_endpoint_id c = pk_z32 demo_env (kp_public_key demo_env (iroh_pair p))"
      "control_key demo_env c = Ok (control_pair p)"
      "cc_device_id (c_claims (cr_certificate c)) = ''phone''"
    by (rule issue_complete [OF demo_b64_law demo_sha256_law demo_signature_codec_law
          demo_signing_law demo_z32_law demo_keypair_law demo_jcs_total_law
          demo_grant_verifies [OF assms] dev window grant(1,2) exact grant(3,4)])
  then have "demo_credential p = c" by (simp add: demo_credential_def)
  with c show "issue demo_env (control_pair p) (iroh_pair p) (demo_grant p) (party_id p) (cnf_key p)
      ''phone'' 20 110 = Ok (demo_credential p)"
    and "credential_verify demo_env (demo_credential p) 20 = Ok ()"
    and "cr_authorization (demo_credential p) = demo_grant p"
    and "cr_identity (demo_credential p) = party_id p"
    and "cc_expires_at (c_claims (cr_certificate (demo_credential p))) = 110"
    and "cc_issued_at (c_claims (cr_certificate (demo_credential p))) = 20"
    and "cr_control_signing_key (demo_credential p) = demo_z32 (PublicKey (secret_of (control_pair p)))"
    and "cr_iroh_endpoint_id (demo_credential p) = demo_z32 (PublicKey (secret_of (iroh_pair p)))"
    and "control_key demo_env (demo_credential p) = Ok (control_pair p)"
    and "cc_device_id (c_claims (cr_certificate (demo_credential p))) = ''phone''"
    by (simp_all del: demo_z32.simps)
qed

section \<open>Sizes\<close>

lemma demo_digest_length: "canonical_digest demo_env d v = Ok s \<Longrightarrow> length s = 64"
  using demo_sha256_law by (auto simp: canonical_digest_Ok_iff sha256_law_def)

lemma demo_signature_length: "verify_signature demo_env k d v s = Ok () \<Longrightarrow> length s = 128"
proof -
  assume "verify_signature demo_env k d v s = Ok ()"
  then obtain b sig where "demo_b64 b = s" "signature_from_slice demo_env b = Some sig"
    by (auto simp: verify_signature_Ok_iff)
  moreover from this have "length b = 64" by (simp add: demo_env_def split: if_splits)
  ultimately show ?thesis by auto
qed

lemma demo_encode_signature_length [simp]: "length (encode_signature demo_env s) = 128"
  by (simp add: encode_signature_def demo_env_def)

lemma demo_key_length: "parse_public_key demo_env s = Ok k \<Longrightarrow> length s = 52"
  by (auto simp: parse_public_key_Ok_iff)

lemma length_enc_uint [simp]: "unat w < 128 \<Longrightarrow> length (enc (ser_uint w)) = 2"
  by (simp add: ser_uint_def)

lemma length_enc_JStr: "length (enc (JStr s)) = 2 * length s + 2"
  by simp

lemma demo_certificate_size:
  assumes "certificate_verify demo_env c (demo_grant p) (party_id p) 20 = Ok ()" "party_ok p"
    "unat (cc_issued_at (c_claims c)) < 128" "unat (cc_expires_at (c_claims c)) < 128"
    "cc_device_id (c_claims c) = ''phone''"
  shows "length (enc (ser_certificate c)) \<le> 1600"
proof -
  obtain g where g: "grant_verify demo_env (demo_grant p) (party_id p) 20 = Ok g"
      "cc_version (c_claims c) = V1_PROTOCOL_VERSION" "cc_identity (c_claims c) = party_id p"
      "certificate_check_bindings demo_env (c_claims c) (demo_grant p) g = Ok ()"
      "verify_signature demo_env (g_cnf g) V1_CERTIFICATE_DOMAIN
         (ser_certificate_claims (c_claims c)) (c_signature c) = Ok ()"
    using assms(1) by (auto simp: certificate_verify_Ok_iff)
  have "g = into_claims (demo_wire p)" using g(1) demo_grant_verifies [OF assms(2)] by simp
  with g(4) have b: "cc_grant_jti (c_claims c) = ''g''" "cc_client_id (c_claims c) = ''demo.app''"
    and d: "grant_digest_of demo_env (demo_grant p) = Ok (cc_grant_digest (c_claims c))"
    by (simp_all add: certificate_check_bindings_Ok_iff into_claims_def demo_wire_def demo_env_def)
  have v: "cc_version (c_claims c) = 1" "length (cc_grant_digest (c_claims c)) = 64"
    "length (c_signature c) = 128"
    using g(2) d demo_signature_length [OF g(5)]
    by (simp_all add: V1_PROTOCOL_VERSION_def grant_digest_of_def demo_digest_length)
  from certificate_verify_keys [OF assms(1)] have k: "length (cc_control_signing_key (c_claims c)) = 52"
    "length (cc_iroh_endpoint_id (c_claims c)) = 52" "length (cc_grant_cnf_key (c_claims c)) = 52"
    by (metis demo_key_length)+
  show ?thesis
    using v b k g(3) assms(3-5)
    by (simp add: ser_certificate_def ser_certificate_claims_def ser_struct_def
        certificate_claims_fields_def)
qed

section \<open>Records\<close>

definition demo_nonce :: "256 word \<Rightarrow> string" where
  "demo_nonce n = v1_random_challenge demo_env (Keypair n)"

lemma demo_nonce_valid [simp]: "validate_challenge demo_env (demo_nonce n) l = Ok ()"
  unfolding demo_nonce_def by (rule random_challenge_valid [OF demo_b64_law demo_keypair_law])

lemma length_demo_nonce [simp]: "length (demo_nonce n) = 64"
  by (simp add: demo_nonce_def v1_random_challenge_def demo_env_def)

lemma demo_nonce_inject [simp]: "demo_nonce a = demo_nonce b \<longleftrightarrow> a = b"
proof -
  have "demo_nonce a = demo_nonce b \<Longrightarrow> Keypair a = Keypair b"
    unfolding demo_nonce_def v1_random_challenge_def
    using demo_keypair_law b64_encode_inject [OF demo_b64_law] by (metis keypair_law_def)
  then show ?thesis by auto
qed

definition demo_relays :: "url list" where
  "demo_relays = [Url ''https://relay.example/'']"

lemma demo_relays_ok: "validate_relays demo_env demo_relays False = Ok ()"
  by (simp add: validate_relays_Ok_iff demo_relays_def validate_relay_url_def demo_env_def
      MAX_RELAY_URL_BYTES_def)

definition demo_locator :: "party \<Rightarrow> v1_signed_locator" where
  "demo_locator p = the_ok (locator_sign demo_env (demo_credential p) demo_relays (demo_nonce 20) 1 30 100)"

lemma demo_locator_sign:
  assumes "party_ok p"
  shows "locator_sign_with_policy demo_env (demo_credential p) demo_relays (demo_nonce 20) 1 (30, 100)
      False = Ok (demo_locator p)"
    and "lc_identity (l_claims (demo_locator p)) = party_id p"
    and "lc_instance_nonce (l_claims (demo_locator p)) = demo_nonce 20"
proof -
  note cred = demo_issue [OF assms]
  have v: "credential_verify demo_env (demo_credential p) 30 = Ok ()"
    by (rule credential_verify_later [OF cred(2)]) (simp_all add: cred(5))
  have exact: "exact_certificate (cr_certificate (demo_credential p))"
    by (simp add: exact_certificate_def exact_time_def cred(5,6))
  have window: "validate_bounded_window 30 100 30 V1_MAX_LOCATOR_LIFETIME_SECONDS
      ''v1 locator lifetime'' = Ok ()"
    by (simp add: validate_bounded_window_Ok_iff saturating_add_def MAX_CLOCK_SKEW_SECONDS_def
        V1_MAX_LOCATOR_LIFETIME_SECONDS_def)
  have times: "cc_issued_at (c_claims (cr_certificate (demo_credential p))) \<le> 30"
    "100 \<le> cc_expires_at (c_claims (cr_certificate (demo_credential p)))"
    by (simp_all add: cred(5,6))
  have e: "exact_time 1" "exact_time 30" "exact_time 100" by (simp_all add: exact_time_def)
  obtain l where "locator_sign_with_policy demo_env (demo_credential p) demo_relays (demo_nonce 20) 1
      (30, 100) False = Ok l" "lc_identity (l_claims l) = cr_identity (demo_credential p)"
    "lc_instance_nonce (l_claims l) = demo_nonce 20"
    by (rule locator_sign_complete [OF demo_b64_law demo_sha256_law demo_jcs_total_law
          demo_url_serde_law v exact demo_relays_ok demo_nonce_valid _ window times e]) simp_all
  then show "locator_sign_with_policy demo_env (demo_credential p) demo_relays (demo_nonce 20) 1 (30, 100)
      False = Ok (demo_locator p)"
    and "lc_identity (l_claims (demo_locator p)) = party_id p"
    and "lc_instance_nonce (l_claims (demo_locator p)) = demo_nonce 20"
    by (simp_all add: demo_locator_def locator_sign_def cred(4))
qed

definition demo_record :: "party \<Rightarrow> v1_device_record" where
  "demo_record p = \<lparr>r_authorization = demo_grant p, r_certificate = cr_certificate (demo_credential p),
     r_locator = demo_locator p\<rparr>"

lemma demo_locator_facts:
  assumes "party_ok p"
  shows "lc_issued_at (l_claims (demo_locator p)) = 30" "lc_expires_at (l_claims (demo_locator p)) = 100"
    "lc_sequence (l_claims (demo_locator p)) = 1" "lc_relay_urls (l_claims (demo_locator p)) = demo_relays"
    "lc_version (l_claims (demo_locator p)) = 1" "lc_alpn (l_claims (demo_locator p)) = V1_IROH_ALPN_TEXT"
    "length (lc_grant_digest (l_claims (demo_locator p))) = 64"
    "length (lc_device_certificate_digest (l_claims (demo_locator p))) = 64"
    "length (lc_control_signing_key (l_claims (demo_locator p))) = 52"
    "length (lc_iroh_endpoint_id (l_claims (demo_locator p))) = 52"
    "length (l_signature (demo_locator p)) = 128"
proof -
  note cred = demo_issue [OF assms]
  obtain kp m where "locator_validate_claims demo_env (l_claims (demo_locator p))
      (cr_authorization (demo_credential p)) (cr_certificate (demo_credential p))
      (cr_identity (demo_credential p)) 30 False None = Ok ()"
    and sig: "l_signature (demo_locator p) = encode_signature demo_env (kp_sign demo_env kp m)"
    and eqs: "lc_sequence (l_claims (demo_locator p)) = 1" "lc_issued_at (l_claims (demo_locator p)) = 30"
      "lc_expires_at (l_claims (demo_locator p)) = 100"
      "lc_relay_urls (l_claims (demo_locator p)) = demo_relays"
    by (rule locator_sign_with_policy_Ok [OF demo_locator_sign(1) [OF assms]])
  then have v: "lc_version (l_claims (demo_locator p)) = V1_PROTOCOL_VERSION"
    "lc_alpn (l_claims (demo_locator p)) = V1_IROH_ALPN_TEXT"
    "grant_digest_of demo_env (cr_authorization (demo_credential p))
       = Ok (lc_grant_digest (l_claims (demo_locator p)))"
    "certificate_digest demo_env (cr_certificate (demo_credential p))
       = Ok (lc_device_certificate_digest (l_claims (demo_locator p)))"
    "lc_control_signing_key (l_claims (demo_locator p)) = cr_control_signing_key (demo_credential p)"
    "lc_iroh_endpoint_id (l_claims (demo_locator p)) = cr_iroh_endpoint_id (demo_credential p)"
    unfolding locator_validate_claims_Ok_iff cr_defs by blast+
  show "lc_issued_at (l_claims (demo_locator p)) = 30" "lc_expires_at (l_claims (demo_locator p)) = 100"
    "lc_sequence (l_claims (demo_locator p)) = 1" "lc_relay_urls (l_claims (demo_locator p)) = demo_relays"
    "lc_version (l_claims (demo_locator p)) = 1" "lc_alpn (l_claims (demo_locator p)) = V1_IROH_ALPN_TEXT"
    by (fact eqs)+ (simp_all add: v(1,2) V1_PROTOCOL_VERSION_def)
  show "length (lc_grant_digest (l_claims (demo_locator p))) = 64"
    "length (lc_device_certificate_digest (l_claims (demo_locator p))) = 64"
    using v(3,4) unfolding grant_digest_of_def certificate_digest_def by (metis demo_digest_length)+
  show "length (lc_control_signing_key (l_claims (demo_locator p))) = 52"
    "length (lc_iroh_endpoint_id (l_claims (demo_locator p))) = 52"
    using v(5,6) cred(7,8) by (simp_all del: demo_z32.simps)
  show "length (l_signature (demo_locator p)) = 128" by (simp add: sig)
qed

lemma demo_record_size:
  assumes "party_ok p"
  shows "length (enc (ser_record demo_env (demo_record p))) \<le> 7000"
proof -
  note cred = demo_issue [OF assms]
  have "certificate_verify demo_env (cr_certificate (demo_credential p)) (demo_grant p) (party_id p) 20 = Ok ()"
    using cred(2-4) by (simp add: credential_verify_Ok_iff)
  then have cert: "length (enc (ser_certificate (cr_certificate (demo_credential p)))) \<le> 1600"
    by (rule demo_certificate_size [OF _ assms]) (simp_all add: cred(5,6,10))
  have auth: "length (enc (ser_grant_authorization (demo_grant p))) \<le> 2700"
    using length_demo_jws [of p] by (simp add: ser_grant_authorization_def ser_struct_def)
  have "length (enc (ser_vec (ser (url_serde demo_env)) demo_relays)) = 49"
    by (simp add: ser_vec_def demo_relays_def demo_env_def str_serde_def)
  then have "length (enc (ser_locator demo_env (demo_locator p))) \<le> 2000"
    using demo_locator_facts [OF assms] demo_locator_sign(2,3) [OF assms]
    by (simp add: ser_locator_def ser_locator_claims_def ser_struct_def locator_claims_fields_def
        V1_IROH_ALPN_TEXT_def)
  with cert auth show ?thesis
    by (simp add: ser_record_def ser_struct_def record_fields_def demo_record_def)
qed

lemma demo_record_verifies:
  assumes "party_ok p"
  shows "record_verify demo_env (demo_record p) (party_id p) 30 False None = Ok ()"
    and "record_new demo_env (demo_credential p) (demo_locator p) 30 False = Ok (demo_record p)"
proof -
  note cred = demo_issue [OF assms]
  have size: "ensure_serialized_bound demo_env (ser_record demo_env (demo_record p))
      V1_MAX_DEVICE_RECORD_BYTES ''v1 device record size'' = Ok ()"
    using demo_record_size [OF assms] by (simp add: ensure_serialized_bound_Ok_iff V1_MAX_DEVICE_RECORD_BYTES_def)
  have r: "demo_record p = \<lparr>r_authorization = cr_authorization (demo_credential p),
      r_certificate = cr_certificate (demo_credential p), r_locator = demo_locator p\<rparr>"
    by (simp add: demo_record_def cred(3))
  show new: "record_new demo_env (demo_credential p) (demo_locator p) 30 False = Ok (demo_record p)"
    by (rule record_new_signed [OF demo_b64_law demo_signature_codec_law demo_signing_law
          demo_z32_law demo_locator_sign(1) [OF assms] r size])
  then show "record_verify demo_env (demo_record p) (party_id p) 30 False None = Ok ()"
    by (metis record_new_Ok_iff cred(4))
qed

lemma demo_record_fields:
  assumes "party_ok p"
  shows "cc_identity (c_claims (r_certificate (demo_record p))) = party_id p"
    "cc_device_id (c_claims (r_certificate (demo_record p))) = ''phone''"
    "cc_control_signing_key (c_claims (r_certificate (demo_record p)))
       = demo_z32 (PublicKey (secret_of (control_pair p)))"
    "cc_iroh_endpoint_id (c_claims (r_certificate (demo_record p)))
       = demo_z32 (PublicKey (secret_of (iroh_pair p)))"
    "cc_issued_at (c_claims (r_certificate (demo_record p))) = 20"
    "cc_expires_at (c_claims (r_certificate (demo_record p))) = 110"
    "lc_expires_at (l_claims (r_locator (demo_record p))) = 100"
    "r_authorization (demo_record p) = cr_authorization (demo_credential p)"
    "r_certificate (demo_record p) = cr_certificate (demo_credential p)"
  using demo_issue [OF assms] demo_locator_facts [OF assms]
  by (simp_all add: demo_record_def cr_defs del: demo_z32.simps)

lemma demo_record_at:
  "party_ok p \<Longrightarrow> 30 \<le> now \<Longrightarrow> now < 100 \<Longrightarrow>
   record_verify demo_env (demo_record p) (party_id p) now False None = Ok ()"
  using record_verify_later [OF demo_record_verifies(1), of p now] by (simp add: demo_record_fields)

lemma demo_z32_inject [simp]: "demo_z32 a = demo_z32 b \<longleftrightarrow> a = b"
  by (metis demo_parse_z32 option.inject)

section \<open>Handshake\<close>

definition record_digest_text :: "party \<Rightarrow> string" where
  "record_digest_text p = the_ok (record_digest demo_env (demo_record p))"

lemma demo_record_digest: "record_digest demo_env (demo_record p) = Ok (record_digest_text p)"
proof -
  have "\<exists>d. record_digest demo_env (demo_record p) = Ok d"
    by (simp add: record_digest_def canonical_digest_Ok_iff canonical_for_signing_Ok_iff)
  then show ?thesis by (auto simp: record_digest_text_def)
qed

lemma demo_digest_facts:
  "length (record_digest_text p) = 64" "validate_digest demo_env (record_digest_text p) l = Ok ()"
  using demo_record_digest [of p] canonical_digest_valid [OF demo_b64_law demo_sha256_law]
  by (auto simp: record_digest_def demo_digest_length)

definition demo_hello_claims :: v1_hello_claims where
  "demo_hello_claims =
     \<lparr>hc_version = V1_PROTOCOL_VERSION, hc_from_device_record = demo_record alice,
      hc_from_identity = party_id alice, hc_from_device_id = ''phone'',
      hc_from_control_signing_key = demo_z32 (PublicKey 3),
      hc_from_iroh_endpoint_id = demo_z32 (PublicKey 4),
      hc_to_identity = party_id bob, hc_to_device_id = ''phone'',
      hc_to_control_signing_key = demo_z32 (PublicKey 7),
      hc_to_iroh_endpoint_id = demo_z32 (PublicKey 8), hc_application = ''chat'',
      hc_alpn = V1_IROH_ALPN_TEXT, hc_session_nonce = demo_nonce 21,
      hc_target_device_record_digest = record_digest_text bob, hc_issued_at = 40, hc_expires_at = 70\<rparr>"

lemma alice_bob_keys [simp]:
  "secret_of (control_pair alice) = 3" "secret_of (iroh_pair alice) = 4"
  "secret_of (control_pair bob) = 7" "secret_of (iroh_pair bob) = 8"
  by (simp_all add: alice_def bob_def)

lemma demo_hello_size:
  "length sig = 128 \<Longrightarrow> length (enc (ser_hello demo_env \<lparr>h_claims = demo_hello_claims, h_signature = sig\<rparr>)) \<le> 12000"
  using demo_record_size [of alice] demo_digest_facts(1) [of bob]
  by (simp add: ser_hello_def ser_hello_claims_def ser_struct_def hello_claims_fields_def
      demo_hello_claims_def V1_IROH_ALPN_TEXT_def V1_PROTOCOL_VERSION_def del: demo_z32.simps)

lemma demo_application: "validate_application ''chat'' = Ok ()"
  by (simp add: validate_application_def MAX_APPLICATION_BYTES_def application_byte_def
      is_ascii_alphanumeric_def Let_def)

lemma demo_hello_window:
  "validate_bounded_window 40 70 40 V1_MAX_HANDSHAKE_LIFETIME_SECONDS l = Ok ()"
  by (simp add: validate_bounded_window_Ok_iff saturating_add_def MAX_CLOCK_SKEW_SECONDS_def
      V1_MAX_HANDSHAKE_LIFETIME_SECONDS_def)

lemma demo_hello_core:
  "hello_validate_core demo_env demo_hello_claims (demo_record alice) (demo_record bob) ''chat'' 40 False
     = Ok ()"
proof -
  have "length (enc (ser_hello_claims demo_env demo_hello_claims)) \<le> 12000"
    using demo_hello_size [of "replicate 128 (CHR ''x'')"]
    by (simp add: ser_hello_def ser_struct_def)
  then have "ensure_serialized_bound demo_env (ser_hello_claims demo_env demo_hello_claims)
      V1_MAX_HELLO_BYTES ''v1 Hello size'' = Ok ()"
    by (simp add: ensure_serialized_bound_Ok_iff V1_MAX_HELLO_BYTES_def)
  moreover have "hello_devices_match demo_hello_claims (c_claims (r_certificate (demo_record alice)))
      (c_claims (r_certificate (demo_record bob)))"
    by (simp add: hello_devices_match_def demo_hello_claims_def demo_record_fields(1-7) del: demo_z32.simps)
  ultimately show ?thesis
    unfolding hello_validate_core_Ok_iff
    using demo_record_at [of alice 40] demo_record_at [of bob 40] demo_hello_window
      demo_application demo_digest_facts(2) demo_record_digest
    by (simp add: demo_hello_claims_def demo_record_fields(1-7) del: demo_z32.simps)
qed

definition demo_hello :: v1_signed_hello where
  "demo_hello = the_ok (hello_sign demo_env (demo_credential alice) (demo_record alice)
     (demo_record bob) ''chat'' (demo_nonce 21) (40, 70))"

lemma demo_hello_sign:
  "hello_sign demo_env (demo_credential alice) (demo_record alice) (demo_record bob) ''chat''
     (demo_nonce 21) (40, 70) = Ok demo_hello"
  "h_claims demo_hello = demo_hello_claims" "length (h_signature demo_hello) = 128"
proof -
  note cred = demo_issue [OF alice_bob_ok(1)]
  obtain m where m: "canonical_for_signing demo_env V1_HELLO_DOMAIN
      (ser_hello_claims demo_env demo_hello_claims) = Ok m"
    by (simp add: canonical_for_signing_Ok_iff)
  let ?h = "\<lparr>h_claims = demo_hello_claims,
      h_signature = encode_signature demo_env (kp_sign demo_env (control_pair alice) m)\<rparr>"
  have size: "ensure_serialized_bound demo_env (ser_hello demo_env ?h) V1_MAX_HELLO_BYTES
      ''v1 Hello size'' = Ok ()"
    using demo_hello_size [of "encode_signature demo_env (kp_sign demo_env (control_pair alice) m)"]
    by (simp add: ensure_serialized_bound_Ok_iff V1_MAX_HELLO_BYTES_def)
  have claims: "\<lparr>hc_version = V1_PROTOCOL_VERSION, hc_from_device_record = demo_record alice,
      hc_from_identity = party_id alice, hc_from_device_id = ''phone'',
      hc_from_control_signing_key = demo_z32 (PublicKey 3),
      hc_from_iroh_endpoint_id = demo_z32 (PublicKey 4),
      hc_to_identity = party_id bob, hc_to_device_id = ''phone'',
      hc_to_control_signing_key = demo_z32 (PublicKey 7),
      hc_to_iroh_endpoint_id = demo_z32 (PublicKey 8), hc_application = ''chat'',
      hc_alpn = V1_IROH_ALPN_TEXT, hc_session_nonce = demo_nonce 21,
      hc_target_device_record_digest = record_digest_text bob, hc_issued_at = 40, hc_expires_at = 70\<rparr>
      = demo_hello_claims"
    by (simp only: demo_hello_claims_def)
  have "hello_sign_with_policy demo_env (demo_credential alice) (demo_record alice) (demo_record bob)
      ''chat'' (demo_nonce 21) (40, 70) False = Ok ?h"
    unfolding hello_sign_with_policy_def
    using demo_record_at [of alice 40] demo_record_at [of bob 40] demo_record_digest [of bob]
      demo_hello_core m size cred(4,9)
      demo_record_fields [OF alice_bob_ok(1)] demo_record_fields [OF alice_bob_ok(2)]
    by (simp add: claims del: demo_z32.simps)
  then show "hello_sign demo_env (demo_credential alice) (demo_record alice) (demo_record bob) ''chat''
     (demo_nonce 21) (40, 70) = Ok demo_hello"
    "h_claims demo_hello = demo_hello_claims" "length (h_signature demo_hello) = 128"
    by (simp_all add: demo_hello_def hello_sign_def)
qed

lemma demo_hello_verifies:
  "40 \<le> now \<Longrightarrow> now < 70 \<Longrightarrow>
   hello_verify demo_env demo_hello (demo_record alice) (demo_record bob) ''chat'' now False = Ok ()"
proof -
  have "hello_verify demo_env demo_hello (demo_record alice) (demo_record bob) ''chat'' 40 False = Ok ()"
    using demo_hello_sign(1) unfolding hello_sign_def
    by (rule hello_sign_verifies_at_issue [OF demo_b64_law demo_signature_codec_law
          demo_signing_law demo_z32_law])
  then show "40 \<le> now \<Longrightarrow> now < 70 \<Longrightarrow>
      hello_verify demo_env demo_hello (demo_record alice) (demo_record bob) ''chat'' now False = Ok ()"
    by (rule hello_verify_later) (simp_all add: demo_hello_sign(2) demo_hello_claims_def)
qed

definition hello_digest_text :: string where
  "hello_digest_text = the_ok (hello_digest_of demo_env demo_hello)"

lemma demo_hello_digest: "hello_digest_of demo_env demo_hello = Ok hello_digest_text"
proof -
  have "\<exists>d. hello_digest_of demo_env demo_hello = Ok d"
    by (simp add: hello_digest_of_def canonical_digest_Ok_iff canonical_for_signing_Ok_iff)
  then show ?thesis by (auto simp: hello_digest_text_def)
qed

lemma demo_hello_digest_facts:
  "length hello_digest_text = 64" "validate_digest demo_env hello_digest_text l = Ok ()"
  using demo_hello_digest canonical_digest_valid [OF demo_b64_law demo_sha256_law]
  by (auto simp: hello_digest_of_def demo_digest_length)

definition demo_ack_claims :: v1_ack_claims where
  "demo_ack_claims =
     \<lparr>ac_version = V1_PROTOCOL_VERSION, ac_from_identity = party_id bob, ac_from_device_id = ''phone'',
      ac_from_control_signing_key = demo_z32 (PublicKey 7),
      ac_from_iroh_endpoint_id = demo_z32 (PublicKey 8),
      ac_to_identity = party_id alice, ac_to_device_id = ''phone'',
      ac_to_control_signing_key = demo_z32 (PublicKey 3),
      ac_to_iroh_endpoint_id = demo_z32 (PublicKey 4), ac_application = ''chat'',
      ac_alpn = V1_IROH_ALPN_TEXT, ac_session_nonce = demo_nonce 21,
      ac_responder_nonce = demo_nonce 23, ac_hello_digest = hello_digest_text,
      ac_responder_device_record_digest = record_digest_text bob, ac_issued_at = 40,
      ac_expires_at = 70\<rparr>"

lemma demo_ack_size:
  "length sig = 128 \<Longrightarrow> length (enc (ser_ack \<lparr>a_claims = demo_ack_claims, a_signature = sig\<rparr>)) \<le> 4000"
  using demo_hello_digest_facts(1) demo_digest_facts(1) [of bob]
  by (simp add: ser_ack_def ser_ack_claims_def ser_struct_def ack_claims_fields_def
      demo_ack_claims_def V1_IROH_ALPN_TEXT_def V1_PROTOCOL_VERSION_def del: demo_z32.simps)

lemma demo_ack_valid:
  "ack_validate_claims demo_env demo_ack_claims (r_certificate (demo_record bob)) (demo_record alice)
     (demo_record bob) demo_hello ''chat'' 40 False = Ok ()"
proof -
  have "ack_devices_match demo_ack_claims (c_claims (r_certificate (demo_record bob)))
      (c_claims (r_certificate (demo_record alice)))"
    by (simp add: ack_devices_match_def demo_ack_claims_def demo_record_fields(1-7) del: demo_z32.simps)
  then show ?thesis
    unfolding ack_validate_claims_Ok_iff
    using demo_hello_verifies [of 40] demo_hello_window demo_application demo_digest_facts(2)
      demo_record_digest demo_hello_digest demo_hello_digest_facts(2)
    by (simp add: demo_ack_claims_def demo_hello_sign(2) demo_hello_claims_def
        demo_record_fields(1-7) del: demo_z32.simps)
qed

definition demo_ack :: v1_signed_ack where
  "demo_ack = the_ok (ack_sign demo_env (demo_credential bob) demo_hello (demo_record alice)
     (demo_record bob) (demo_nonce 23) 40 70)"

lemma demo_ack_sign:
  "ack_sign demo_env (demo_credential bob) demo_hello (demo_record alice) (demo_record bob)
     (demo_nonce 23) 40 70 = Ok demo_ack"
  "a_claims demo_ack = demo_ack_claims"
proof -
  note cred = demo_issue [OF alice_bob_ok(2)]
  obtain m where m: "canonical_for_signing demo_env V1_ACK_DOMAIN (ser_ack_claims demo_ack_claims) = Ok m"
    by (simp add: canonical_for_signing_Ok_iff)
  let ?a = "\<lparr>a_claims = demo_ack_claims,
      a_signature = encode_signature demo_env (kp_sign demo_env (control_pair bob) m)\<rparr>"
  have size: "ensure_serialized_bound demo_env (ser_ack ?a) V1_MAX_ACK_BYTES ''v1 Ack size'' = Ok ()"
    using demo_ack_size [of "encode_signature demo_env (kp_sign demo_env (control_pair bob) m)"]
    by (simp add: ensure_serialized_bound_Ok_iff V1_MAX_ACK_BYTES_def)
  have h: "hc_application (h_claims demo_hello) = ''chat''"
    "hc_session_nonce (h_claims demo_hello) = demo_nonce 21"
    by (simp_all add: demo_hello_sign(2) demo_hello_claims_def)
  have "ack_sign_with_policy demo_env (demo_credential bob) demo_hello (demo_record alice)
      (demo_record bob) (demo_nonce 23) (40, 70) False = Ok ?a"
    unfolding ack_sign_with_policy_def
    using demo_hello_verifies [of 40] demo_record_digest [of bob] demo_hello_digest h
      demo_ack_valid m size cred(9)
      demo_record_fields [OF alice_bob_ok(1)] demo_record_fields [OF alice_bob_ok(2)]
    by (simp add: demo_ack_claims_def [symmetric] del: demo_z32.simps)
  then show "ack_sign demo_env (demo_credential bob) demo_hello (demo_record alice) (demo_record bob)
     (demo_nonce 23) 40 70 = Ok demo_ack" "a_claims demo_ack = demo_ack_claims"
    by (simp_all add: demo_ack_def ack_sign_def)
qed

section \<open>Currentness\<close>

definition grant_digest_text :: "party \<Rightarrow> string" where
  "grant_digest_text p = the_ok (grant_digest_of demo_env (demo_grant p))"

definition locator_digest_text :: "party \<Rightarrow> string" where
  "locator_digest_text p = the_ok (locator_digest demo_env (demo_locator p))"

definition demo_proof_claims :: "v1_currentness_role \<Rightarrow> party \<Rightarrow> v1_currentness_claims" where
  "demo_proof_claims role p =
     \<lparr>pc_version = V1_PROTOCOL_VERSION, pc_role = role, pc_challenge = demo_nonce 23,
      pc_hello_digest = hello_digest_text, pc_device_record_digest = record_digest_text p,
      pc_grant_digest = grant_digest_text p,
      pc_locator_digest = locator_digest_text p,
      pc_issued_at = 40, pc_expires_at = 70\<rparr>"

definition demo_role_party :: "v1_currentness_role \<Rightarrow> party" where
  "demo_role_party role = (case role of Initiator \<Rightarrow> alice | Responder \<Rightarrow> bob)"

definition demo_other_party :: "v1_currentness_role \<Rightarrow> party" where
  "demo_other_party role = (case role of Initiator \<Rightarrow> bob | Responder \<Rightarrow> alice)"

lemma demo_party_digests:
  "grant_digest_of demo_env (demo_grant p) = Ok (grant_digest_text p)"
  "locator_digest demo_env (demo_locator p) = Ok (locator_digest_text p)"
proof -
  have "\<exists>s. canonical_digest demo_env d v = Ok s" for d v
    by (simp add: canonical_digest_Ok_iff canonical_for_signing_Ok_iff)
  then show "grant_digest_of demo_env (demo_grant p) = Ok (grant_digest_text p)"
    "locator_digest demo_env (demo_locator p) = Ok (locator_digest_text p)"
    unfolding grant_digest_text_def locator_digest_text_def grant_digest_of_def locator_digest_def
    by (metis the_ok.simps)+
qed

lemma demo_party_digest_facts:
  "length (grant_digest_text p) = 64"
  "length (locator_digest_text p) = 64"
  "validate_digest demo_env (grant_digest_text p) l = Ok ()"
  "validate_digest demo_env (locator_digest_text p) l = Ok ()"
  using demo_party_digests [of p] canonical_digest_valid [OF demo_b64_law demo_sha256_law]
    demo_digest_length
  unfolding grant_digest_of_def locator_digest_def by blast+

lemma demo_proof_size:
  "length sig = 128 \<Longrightarrow>
   length (enc (ser_currentness_proof \<lparr>p_claims = demo_proof_claims role p, p_signature = sig\<rparr>)) \<le> 2000"
  using demo_hello_digest_facts(1) demo_digest_facts(1) [of p] demo_party_digest_facts(1,2) [of p]
  by (cases role)
    (simp_all add: ser_currentness_proof_def ser_currentness_claims_def ser_struct_def
      currentness_claims_fields_def demo_proof_claims_def V1_PROTOCOL_VERSION_def)

lemma demo_proof_valid:
  "currentness_validate_claims demo_env (demo_proof_claims role (demo_role_party role))
     (demo_record (demo_role_party role)) (demo_record (demo_other_party role)) demo_hello role
     (demo_nonce 23) 40 False = Ok ()"
proof -
  have window: "validate_currentness_window 40 70 40 = Ok ()"
    by (simp add: validate_currentness_window_Ok_iff V1_MAX_CURRENTNESS_LIFETIME_SECONDS_def)
  have "party_ok (demo_role_party role)" by (cases role) (simp_all add: demo_role_party_def)
  then have exp: "lc_expires_at (l_claims (r_locator (demo_record (demo_role_party role)))) = 100"
    by (rule demo_record_fields(7))
  have digests: "currentness_check_digests demo_env (demo_proof_claims role (demo_role_party role))
      (demo_record (demo_role_party role)) demo_hello = Ok ()"
    using demo_hello_digest demo_record_digest demo_party_digests [of "demo_role_party role"]
    by (simp add: currentness_check_digests_Ok_iff demo_proof_claims_def demo_record_def)
  have "case records_for_role role (demo_record (demo_role_party role))
        (demo_record (demo_other_party role)) of (ir, rr) \<Rightarrow>
      hello_verify demo_env demo_hello ir rr ''chat'' 40 False = Ok ()"
    using demo_hello_verifies [of 40] by (cases role) (simp_all add: demo_role_party_def demo_other_party_def)
  with window exp digests show ?thesis
    unfolding currentness_validate_claims_Ok_iff
    using demo_hello_digest_facts(2) demo_digest_facts(2) demo_party_digest_facts(3,4)
    by (simp add: demo_proof_claims_def demo_hello_sign(2) demo_hello_claims_def)
qed

definition demo_proof :: "v1_currentness_role \<Rightarrow> v1_signed_currentness_proof" where
  "demo_proof role = the_ok (currentness_sign demo_env (demo_credential (demo_role_party role))
     (demo_record (demo_role_party role)) (demo_record (demo_other_party role)) demo_hello role
     (demo_nonce 23) 40 70 False)"

lemma demo_proof_sign:
  "currentness_sign demo_env (demo_credential (demo_role_party role))
     (demo_record (demo_role_party role)) (demo_record (demo_other_party role)) demo_hello role
     (demo_nonce 23) 40 70 False = Ok (demo_proof role)"
  "p_claims (demo_proof role) = demo_proof_claims role (demo_role_party role)"
proof -
  let ?p = "demo_role_party role" and ?o = "demo_other_party role"
  have ok: "party_ok ?p" by (cases role) (simp_all add: demo_role_party_def)
  note cred = demo_issue [OF ok]
  let ?cl = "demo_proof_claims role ?p"
  obtain m where m: "canonical_for_signing demo_env V1_CURRENTNESS_DOMAIN (ser_currentness_claims ?cl) = Ok m"
    by (simp add: canonical_for_signing_Ok_iff)
  let ?s = "\<lparr>p_claims = ?cl,
      p_signature = encode_signature demo_env (kp_sign demo_env (control_pair ?p) m)\<rparr>"
  have size: "ensure_serialized_bound demo_env (ser_currentness_proof ?s)
      V1_MAX_CURRENTNESS_PROOF_BYTES ''v1 currentness proof size'' = Ok ()"
    using demo_proof_size [of "encode_signature demo_env (kp_sign demo_env (control_pair ?p) m)" role ?p]
    by (simp add: ensure_serialized_bound_Ok_iff V1_MAX_CURRENTNESS_PROOF_BYTES_def)
  have hello: "case records_for_role role (demo_record ?p) (demo_record ?o) of (ir, rr) \<Rightarrow>
      hello_verify demo_env demo_hello ir rr (hc_application (h_claims demo_hello)) 40 False = Ok ()"
    using demo_hello_verifies [of 40]
    by (cases role)
      (simp_all add: demo_role_party_def demo_other_party_def demo_hello_sign(2) demo_hello_claims_def)
  have own: "r_authorization (demo_record ?p) = demo_grant ?p" "r_locator (demo_record ?p) = demo_locator ?p"
    "cr_authorization (demo_credential ?p) = demo_grant ?p"
    "r_certificate (demo_record ?p) = cr_certificate (demo_credential ?p)"
    by (simp_all add: demo_record_def cred(3))
  have cl: "\<lparr>pc_version = V1_PROTOCOL_VERSION, pc_role = role, pc_challenge = demo_nonce 23,
      pc_hello_digest = hello_digest_text, pc_device_record_digest = record_digest_text ?p,
      pc_grant_digest = grant_digest_text ?p,
      pc_locator_digest = locator_digest_text ?p,
      pc_issued_at = 40, pc_expires_at = 70\<rparr> = ?cl"
    by (simp only: demo_proof_claims_def)
  have challenge: "pc_challenge ?cl = demo_nonce 23" by (simp add: demo_proof_claims_def)
  have "currentness_sign demo_env (demo_credential ?p) (demo_record ?p) (demo_record ?o) demo_hello role
      (demo_nonce 23) 40 70 False = Ok ?s"
    unfolding currentness_sign_def own
    using hello demo_record_digest [of ?p] demo_hello_digest demo_party_digests [of ?p]
      demo_proof_valid [of role] m size cred(9) cl challenge
    by (cases "records_for_role role (demo_record ?p) (demo_record ?o)") (simp add: Let_def)
  then show "currentness_sign demo_env (demo_credential ?p) (demo_record ?p) (demo_record ?o) demo_hello
      role (demo_nonce 23) 40 70 False = Ok (demo_proof role)"
    "p_claims (demo_proof role) = demo_proof_claims role ?p"
    by (simp_all add: demo_proof_def)
qed

end
