(* ===== verification/Protocol_Properties.thy ===== *)
theory Protocol_Properties
  imports Demo
begin

text \<open>
  What the signed objects of the protocol guarantee: the trust chain from the root-signed Grant
  to a device record, the binding of Hello, Ack and currentness proofs to exact records, and that
  what a valid device signs is accepted for exactly its lifetime.
\<close>

section \<open>Grant and device certificate\<close>

text \<open>
  C14: a Grant that verifies is, text by text, the canonical JWS of its claims: the fixed header,
  the serialised claims and a signature over both that the expected identity's key accepts. Its
  confirmation key differs from that identity, it has not expired, it was issued at most 120
  seconds in the future, lives at most two years, and one of its 1 to 32 distinct capabilities
  permits writing under the protocol's storage scope.
\<close>

theorem grant_verify_sound:
  assumes "grant_verify E a expected now = Ok claims"
  shows "\<exists>wire payload sig. claims = into_claims wire \<and>
      json_to_vec E (ser_grant_wire E wire) = Some payload \<and>
      (\<exists>s. signature_from_slice E s = Some sig \<and>
         grant_jws a = grant_signing_input E payload @ ''.'' @ b64_encode E s) \<and>
      pk_verify E (g_iss claims) (as_bytes (grant_signing_input E payload)) sig \<and>
      pk_z32 E (g_iss claims) = expected \<and> g_cnf claims \<noteq> g_iss claims \<and>
      now < g_exp claims \<and> unat (g_iat claims) \<le> unat now + 120 \<and>
      unat (g_exp claims) - unat (g_iat claims) \<le> 63072000 \<and>
      1 \<le> length (g_caps claims) \<and> length (g_caps claims) \<le> 32 \<and>
      distinct (map (capability_to_string E) (g_caps claims)) \<and> grant_covers_storage E claims"
proof -
  from assms obtain h p s where d: "grant_decode E (grant_jws a) = Ok (claims, h, p, s)"
    and sig: "grant_check_signature E claims h p s = Ok ()"
    and ok: "grant_check_claims E claims expected now = Ok ()"
    by (auto simp: grant_verify_Ok_iff)
  from d obtain wire b where w: "claims = into_claims wire"
    "json_to_vec E (ser_grant_wire E wire) = Some b"
    "h = b64_encode E (as_bytes V1_GRANT_HEADER_JSON)" "p = b64_encode E b"
    "grant_jws a = h @ ''.'' @ p @ ''.'' @ s" by (rule grant_decode_text)
  from sig obtain sb sg where s: "b64_encode E sb = s" "signature_from_slice E sb = Some sg"
    "pk_verify E (g_iss claims) (as_bytes (h @ ''.'' @ p)) sg"
    by (auto simp: grant_check_signature_Ok_iff)
  have window: "now < g_exp claims" "unat (g_iat claims) \<le> unat now + 120"
    "unat (g_exp claims) - unat (g_iat claims) \<le> 63072000"
    using ok by (auto simp: grant_check_claims_Ok_iff validate_bounded_window_Ok_iff word_order_nat
        unat_saturating_add MAX_CLOCK_SKEW_SECONDS_def unat_word_diff less_imp_le
        V1_MAX_GRANT_LIFETIME_SECONDS_def)
  have policy: "pk_z32 E (g_iss claims) = expected" "g_cnf claims \<noteq> g_iss claims"
    "1 \<le> length (g_caps claims)" "length (g_caps claims) \<le> 32"
    "distinct (map (capability_to_string E) (g_caps claims))" "grant_covers_storage E claims"
    using ok by (auto simp: grant_check_claims_Ok_iff parse_public_key_Ok_iff
        V1_MAX_GRANT_CAPABILITIES_def Suc_le_eq)
  have "grant_jws a = grant_signing_input E b @ ''.'' @ b64_encode E sb"
    "pk_verify E (g_iss claims) (as_bytes (grant_signing_input E b)) sg"
    using w s by (simp_all add: grant_signing_input_def)
  with w(1,2) s(2) window policy show ?thesis by blast
qed

theorem grant_verify_sound_witness:
  "g_cnf (into_claims (demo_wire alice)) \<noteq> g_iss (into_claims (demo_wire alice)) \<and>
   20 < g_exp (into_claims (demo_wire alice))"
  using grant_verify_sound [OF demo_grant_verifies [OF alice_bob_ok(1)]] by blast

text \<open>
  Conversely, the canonical JWS of claims that satisfy the policy, signed with the key of the
  expected identity, verifies and yields exactly these claims.
\<close>

theorem grant_verify_complete:
  assumes "b64_law E" "b64_alphabet_law E" "signature_codec_law E" "json_text_law E"
      "grant_serde_law E" "signing_law E"
    and "json_from_slice E (as_bytes V1_GRANT_HEADER_JSON) = Some header_json"
    and "json_to_vec E (ser_grant_wire E wire) = Some payload" "payload \<noteq> []"
    and "length (canonical_jws E kp payload) \<le> V1_MAX_GRANT_JWS_BYTES"
    and "w_iss wire = kp_public_key E kp"
    and "grant_check_claims E (into_claims wire) expected now = Ok ()"
  shows "from_jws E (canonical_jws E kp payload) expected now
           = Ok \<lparr>grant_jws = canonical_jws E kp payload\<rparr> \<and>
         grant_verify E \<lparr>grant_jws = canonical_jws E kp payload\<rparr> expected now = Ok (into_claims wire)"
  using grant_verify_canonical [OF assms] by (simp add: from_jws_def Let_def)

theorem grant_verify_complete_witness:
  "grant_verify demo_env (demo_grant bob) (party_id bob) 20 = Ok (into_claims (demo_wire bob))"
proof -
  have "json_to_vec demo_env (ser_grant_wire demo_env (demo_wire bob))
      = Some (enc (ser_grant_wire demo_env (demo_wire bob)))" by simp
  moreover have "length (canonical_jws demo_env (root_key bob) (enc (ser_grant_wire demo_env (demo_wire bob))))
      \<le> V1_MAX_GRANT_JWS_BYTES"
    using length_demo_jws [of bob] by (simp add: demo_grant_def V1_MAX_GRANT_JWS_BYTES_def)
  moreover have "w_iss (demo_wire bob) = kp_public_key demo_env (root_key bob)"
    by (simp add: demo_wire_def)
  ultimately show ?thesis
    using grant_verify_complete [OF demo_b64_law demo_b64_alphabet_law demo_signature_codec_law
        demo_json_text_law demo_grant_serde_law demo_signing_law demo_header _ enc_not_Nil _ _
        demo_grant_claims [OF alice_bob_ok(2)]]
    by (simp add: demo_grant_def)
qed

text \<open>
  C17: a verified device certificate is a delegation of a verified Grant: it is signed by the
  Grant's confirmation key, names the Grant's identity, client, id and digest, lies inside the
  Grant's lifetime for at most 90 days, and the root, confirmation, control and endpoint keys are
  four different keys.
\<close>

theorem certificate_verify_sound:
  assumes "certificate_verify E c a expected now = Ok ()"
  shows "\<exists>g control iroh. grant_verify E a expected now = Ok g \<and>
      parse_public_key E (cc_identity (c_claims c)) = Ok (g_iss g) \<and>
      parse_public_key E (cc_grant_cnf_key (c_claims c)) = Ok (g_cnf g) \<and>
      parse_public_key E (cc_control_signing_key (c_claims c)) = Ok control \<and>
      parse_public_key E (cc_iroh_endpoint_id (c_claims c)) = Ok iroh \<and>
      distinct [g_iss g, g_cnf g, control, iroh] \<and>
      grant_digest_of E a = Ok (cc_grant_digest (c_claims c)) \<and>
      cc_client_id (c_claims c) = client_id_as_str E (g_client_id g) \<and>
      cc_grant_jti (c_claims c) = grant_id_as_str E (g_jti g) \<and>
      verify_signature E (g_cnf g) V1_CERTIFICATE_DOMAIN (ser_certificate_claims (c_claims c))
        (c_signature c) = Ok () \<and>
      g_iat g \<le> cc_issued_at (c_claims c) \<and> cc_expires_at (c_claims c) \<le> g_exp g \<and>
      now < cc_expires_at (c_claims c) \<and>
      unat (cc_expires_at (c_claims c)) - unat (cc_issued_at (c_claims c)) \<le> 7776000"
proof -
  from assms obtain g where g: "grant_verify E a expected now = Ok g"
    "cc_identity (c_claims c) = expected"
    "certificate_check_bindings E (c_claims c) a g = Ok ()"
    "validate_bounded_window (cc_issued_at (c_claims c)) (cc_expires_at (c_claims c)) now
       V1_MAX_DEVICE_CERTIFICATE_LIFETIME_SECONDS ''v1 certificate lifetime'' = Ok ()"
    "g_iat g \<le> cc_issued_at (c_claims c)" "cc_expires_at (c_claims c) \<le> g_exp g"
    "certificate_check_keys E (c_claims c) g = Ok (g_cnf g)"
    "verify_signature E (g_cnf g) V1_CERTIFICATE_DOMAIN (ser_certificate_claims (c_claims c))
       (c_signature c) = Ok ()"
    by (auto simp: certificate_verify_Ok_iff)
  from grant_verify_identity [OF g(1)] g(2)
  have root: "parse_public_key E (cc_identity (c_claims c)) = Ok (g_iss g)" by simp
  from g(7) root obtain control iroh where k:
    "parse_public_key E (cc_control_signing_key (c_claims c)) = Ok control"
    "parse_public_key E (cc_iroh_endpoint_id (c_claims c)) = Ok iroh"
    "parse_public_key E (cc_grant_cnf_key (c_claims c)) = Ok (g_cnf g)"
    "control \<noteq> iroh" "control \<noteq> g_iss g" "control \<noteq> g_cnf g" "iroh \<noteq> g_iss g" "iroh \<noteq> g_cnf g"
    by (auto simp: certificate_check_keys_Ok_iff)
  have "distinct [g_iss g, g_cnf g, control, iroh]"
    using k grant_verify_window [OF g(1)] by auto
  moreover have "now < cc_expires_at (c_claims c)"
    "unat (cc_expires_at (c_claims c)) - unat (cc_issued_at (c_claims c)) \<le> 7776000"
    using g(4) by (auto simp: validate_bounded_window_Ok_iff word_order_nat unat_word_diff less_imp_le
        V1_MAX_DEVICE_CERTIFICATE_LIFETIME_SECONDS_def MAX_CERTIFICATE_LIFETIME_SECONDS_def)
  ultimately show ?thesis
    using g root k unfolding certificate_check_bindings_Ok_iff by blast
qed

theorem certificate_verify_sound_witness:
  "\<exists>g. grant_verify demo_env (demo_grant alice) (party_id alice) 20 = Ok g \<and>
     g_iat g \<le> cc_issued_at (c_claims (cr_certificate (demo_credential alice)))"
proof -
  have "certificate_verify demo_env (cr_certificate (demo_credential alice)) (demo_grant alice)
      (party_id alice) 20 = Ok ()"
    using demo_issue [OF alice_bob_ok(1)] by (simp add: credential_verify_Ok_iff)
  from certificate_verify_sound [OF this] show ?thesis by blast
qed

text \<open>
  C27: for a Grant that verifies, keys that are pairwise different and a window inside the Grant's
  of at most 90 days, issuing succeeds; the credential names the requested identity and keys,
  unlocks its control key, and from its issue on it verifies exactly until it expires.
\<close>

theorem issue_succeeds:
  assumes "b64_law E" "sha256_law E" "signature_codec_law E" "signing_law E" "z32_law E"
      "keypair_law E" "jcs_total_law E"
    and "grant_verify E a expected iss = Ok g" "validate_device_id dev = Ok ()"
    and "validate_bounded_window iss ex iss V1_MAX_DEVICE_CERTIFICATE_LIFETIME_SECONDS
           ''v1 certificate lifetime'' = Ok ()"
    and "g_iat g \<le> iss" "ex \<le> g_exp g" "exact_time iss" "exact_time ex"
    and "kp_public_key E cnf = g_cnf g" "key_pairs_independent E g control iroh"
  shows "\<exists>c. issue E control iroh a expected cnf dev iss ex = Ok c \<and>
      cr_identity c = expected \<and> control_key E c = Ok control \<and>
      (\<forall>now \<ge> iss. credential_verify E c now = Ok () \<longleftrightarrow> now < ex)"
proof -
  obtain c where c: "issue E control iroh a expected cnf dev iss ex = Ok c"
    "credential_verify E c iss = Ok ()" "cr_identity c = expected"
    "cc_expires_at (c_claims (cr_certificate c)) = ex" "control_key E c = Ok control"
    by (rule issue_complete [OF assms])
  from credential.check_iff [OF c(2)] c show ?thesis by auto
qed

theorem issue_succeeds_witness:
  "credential_verify demo_env (demo_credential alice) 109 = Ok () \<and>
   credential_verify demo_env (demo_credential alice) 110 \<noteq> Ok ()"
proof -
  let ?g = "into_claims (demo_wire alice)"
  have dev: "validate_device_id ''phone'' = Ok ()"
    by (simp add: validate_device_id_def MAX_DEVICE_ID_BYTES_def is_control_def is_whitespace_def
        str_chars_ascii is_ascii_def)
  have window: "validate_bounded_window 20 110 20 V1_MAX_DEVICE_CERTIFICATE_LIFETIME_SECONDS
      ''v1 certificate lifetime'' = Ok ()"
    by (simp add: validate_bounded_window_Ok_iff saturating_add_def MAX_CLOCK_SKEW_SECONDS_def
        V1_MAX_DEVICE_CERTIFICATE_LIFETIME_SECONDS_def MAX_CERTIFICATE_LIFETIME_SECONDS_def)
  have g: "g_iat ?g \<le> 20" "110 \<le> g_exp ?g" "kp_public_key demo_env (cnf_key alice) = g_cnf ?g"
    "key_pairs_independent demo_env ?g (control_pair alice) (iroh_pair alice)"
    by (simp_all add: into_claims_def demo_wire_def key_pairs_independent_def alice_def)
  have "exact_time 20" "exact_time 110" by (simp_all add: exact_time_def)
  from issue_succeeds [OF demo_b64_law demo_sha256_law demo_signature_codec_law demo_signing_law
      demo_z32_law demo_keypair_law demo_jcs_total_law demo_grant_verifies [OF alice_bob_ok(1)] dev
      window g(1,2) this g(3,4)]
  show ?thesis using demo_issue(1) [OF alice_bob_ok(1)] by auto
qed

section \<open>Device records\<close>

text \<open>
  C1: the chain of trust of a verified device record. Its locator is signed by the control key of
  a certificate that is signed by the confirmation key of a Grant that the expected identity
  signed; the locator names the digests of exactly this Grant and certificate; the three validity
  windows are nested and the innermost one, of at most 15 minutes, has not ended; the sequence is
  positive and not below the caller's floor; there are 1 to 4 different relays, and without the
  development flag every one of them is an https URL.
\<close>

theorem record_verify_sound:
  assumes "record_verify E r expected now allow floor = Ok ()"
  shows "\<exists>g control. grant_verify E (r_authorization r) expected now = Ok g \<and>
      certificate_verify E (r_certificate r) (r_authorization r) expected now = Ok () \<and>
      parse_public_key E (cc_control_signing_key (c_claims (r_certificate r))) = Ok control \<and>
      verify_signature E control V1_LOCATOR_DOMAIN (ser_locator_claims E (l_claims (r_locator r)))
        (l_signature (r_locator r)) = Ok () \<and>
      grant_digest_of E (r_authorization r) = Ok (lc_grant_digest (l_claims (r_locator r))) \<and>
      certificate_digest E (r_certificate r) = Ok (lc_device_certificate_digest (l_claims (r_locator r))) \<and>
      g_iat g \<le> cc_issued_at (c_claims (r_certificate r)) \<and>
      cc_issued_at (c_claims (r_certificate r)) \<le> lc_issued_at (l_claims (r_locator r)) \<and>
      now < lc_expires_at (l_claims (r_locator r)) \<and>
      lc_expires_at (l_claims (r_locator r)) \<le> cc_expires_at (c_claims (r_certificate r)) \<and>
      cc_expires_at (c_claims (r_certificate r)) \<le> g_exp g \<and>
      unat (lc_expires_at (l_claims (r_locator r))) \<le> unat now + 120 + 900 \<and>
      0 < lc_sequence (l_claims (r_locator r)) \<and>
      (\<forall>m. floor = Some m \<longrightarrow> m \<le> lc_sequence (l_claims (r_locator r))) \<and>
      1 \<le> length (lc_relay_urls (l_claims (r_locator r))) \<and>
      length (lc_relay_urls (l_claims (r_locator r))) \<le> 4 \<and>
      distinct (lc_relay_urls (l_claims (r_locator r))) \<and>
      (\<not> allow \<longrightarrow> (\<forall>u \<in> set (lc_relay_urls (l_claims (r_locator r))). url_scheme E u = ''https''))"
proof -
  let ?c = "c_claims (r_certificate r)" and ?l = "l_claims (r_locator r)"
  from assms obtain control where v: "locator_validate_claims E ?l (r_authorization r)
      (r_certificate r) expected now allow floor = Ok ()"
    and control: "parse_public_key E (cc_control_signing_key ?c) = Ok control"
    and sig: "verify_signature E control V1_LOCATOR_DOMAIN (ser_locator_claims E ?l)
      (l_signature (r_locator r)) = Ok ()"
    by (auto simp: record_verify_Ok_iff locator_verify_Ok_iff control_public_key_def)
  then have window: "validate_bounded_window (lc_issued_at ?l) (lc_expires_at ?l) now
      V1_MAX_LOCATOR_LIFETIME_SECONDS ''v1 locator lifetime'' = Ok ()"
    and relays: "validate_relays E (lc_relay_urls ?l) allow = Ok ()"
    and cert: "certificate_verify E (r_certificate r) (r_authorization r) expected now = Ok ()"
    and rest: "grant_digest_of E (r_authorization r) = Ok (lc_grant_digest ?l)"
      "certificate_digest E (r_certificate r) = Ok (lc_device_certificate_digest ?l)"
      "cc_issued_at ?c \<le> lc_issued_at ?l" "lc_expires_at ?l \<le> cc_expires_at ?c" "lc_sequence ?l \<noteq> 0"
      "\<forall>m. floor = Some m \<longrightarrow> m \<le> lc_sequence ?l"
    unfolding locator_validate_claims_Ok_iff by (auto split: option.splits)
  from certificate_verify_sound [OF cert] obtain g where
    g: "grant_verify E (r_authorization r) expected now = Ok g" "g_iat g \<le> cc_issued_at ?c"
      "cc_expires_at ?c \<le> g_exp g" by blast
  have "unat (lc_expires_at ?l) \<le> unat now + 120 + 900"
    using validate_bounded_window_horizon [OF window] by (simp add: V1_MAX_LOCATOR_LIFETIME_SECONDS_def)
  moreover have "now < lc_expires_at ?l" using window by (simp add: validate_bounded_window_Ok_iff)
  moreover have "1 \<le> length (lc_relay_urls ?l)" "length (lc_relay_urls ?l) \<le> 4"
    "distinct (lc_relay_urls ?l)"
    "\<not> allow \<longrightarrow> (\<forall>u \<in> set (lc_relay_urls ?l). url_scheme E u = ''https'')"
    using relays by (auto simp: validate_relays_Ok_iff Suc_le_eq intro: validate_relay_url_Ok_https)
  moreover have "0 < lc_sequence ?l" using rest(5) by (simp add: word_gt_0)
  ultimately show ?thesis using g cert control sig rest by blast
qed

theorem record_verify_sound_witness:
  "\<exists>g. grant_verify demo_env (r_authorization (demo_record alice)) (party_id alice) 30 = Ok g \<and>
     0 < lc_sequence (l_claims (r_locator (demo_record alice)))"
  using record_verify_sound [OF demo_record_verifies(1) [OF alice_bob_ok(1)]] by blast

text \<open>
  C28: a locator that a credential signs makes a record that the peers accept: unless it is too
  long, it verifies from its issue on exactly until the locator expires.
\<close>

theorem signed_record_verifies:
  assumes "b64_law E" "signature_codec_law E" "signing_law E" "z32_law E"
    and "locator_sign_with_policy E cred urls nonce sq (iss, ex) allow = Ok l"
    and "ensure_serialized_bound E
           (ser_record E \<lparr>r_authorization = cr_authorization cred, r_certificate = cr_certificate cred,
              r_locator = l\<rparr>) V1_MAX_DEVICE_RECORD_BYTES ''v1 device record size'' = Ok ()"
  shows "\<exists>r. record_new E cred l iss allow = Ok r \<and> r_locator r = l \<and>
      (\<forall>now \<ge> iss. record_verify E r (cr_identity cred) now allow (Some sq) = Ok () \<longleftrightarrow> now < ex)"
proof -
  define r where "r = \<lparr>r_authorization = cr_authorization cred,
      r_certificate = cr_certificate cred, r_locator = l\<rparr>"
  have new: "record_new E cred l iss allow = Ok r"
    using record_new_signed [OF assms(1-5) r_def] assms(6) by (simp add: r_def)
  then have v: "record_verify E r (cr_identity cred) iss allow None = Ok ()"
    unfolding record_new_Ok_iff by blast
  have l: "lc_sequence (l_claims l) = sq" "lc_expires_at (l_claims l) = ex"
    using assms(5) by (auto elim: locator_sign_with_policy_Ok)
  from v have "record_verify E r (cr_identity cred) iss allow (Some sq) = Ok ()"
    using l(1) by (auto simp: record_verify_Ok_iff locator_verify_Ok_iff
        locator_validate_claims_Ok_iff r_def)
  from device_record.check_iff [where E = E and x = "(r, cr_identity cred, allow, Some sq)" and now = iss]
    this new l(2) show ?thesis by (auto simp: r_def)
qed

theorem signed_record_verifies_witness:
  "record_verify demo_env (demo_record alice) (party_id alice) 99 False (Some 1) = Ok () \<and>
   record_verify demo_env (demo_record alice) (party_id alice) 100 False (Some 1) \<noteq> Ok ()"
proof -
  have cred: "cr_identity (demo_credential alice) = party_id alice"
    using demo_issue [OF alice_bob_ok(1)] by blast
  have r: "\<lparr>r_authorization = cr_authorization (demo_credential alice),
      r_certificate = cr_certificate (demo_credential alice), r_locator = demo_locator alice\<rparr>
      = demo_record alice"
    using demo_issue(3) [OF alice_bob_ok(1)] by (simp add: demo_record_def)
  have size: "ensure_serialized_bound demo_env (ser_record demo_env (demo_record alice))
      V1_MAX_DEVICE_RECORD_BYTES ''v1 device record size'' = Ok ()"
    using demo_record_verifies(1) [OF alice_bob_ok(1)] by (simp add: record_verify_Ok_iff)
  from signed_record_verifies [OF demo_b64_law demo_signature_codec_law demo_signing_law demo_z32_law
      demo_locator_sign(1) [OF alice_bob_ok(1)], unfolded r, OF size]
  show ?thesis using demo_record_verifies(2) [OF alice_bob_ok(1)] cred by auto
qed

text \<open>
  The JSON text of a record is read back as the same record, with the same verdict; and
  every record that \<open>decode_and_verify\<close> accepts came from at most 32 KiB and verifies.
\<close>

theorem record_decode_roundtrip:
  assumes "json_text_law E" "url_serde_law E" "json_to_vec E (ser_record E r) = Some b"
  shows "record_decode_and_verify E b expected now allow floor = Ok r' \<longleftrightarrow>
      r' = r \<and> length b \<le> 32768 \<and> record_verify E r expected now allow floor = Ok ()"
proof -
  have "json_from_slice E b = Some (ser_record E r)" using assms by (simp add: json_text_law_def)
  then show ?thesis
    using de_ser_record [OF assms(2), of r]
    by (auto simp: record_decode_and_verify_def ok_iff V1_MAX_DEVICE_RECORD_BYTES_def)
qed

theorem record_decode_roundtrip_witness:
  "record_decode_and_verify demo_env (enc (ser_record demo_env (demo_record bob))) (party_id bob) 30
     False None = Ok (demo_record bob)"
  using record_decode_roundtrip [OF demo_json_text_law demo_url_serde_law, of "demo_record bob"
      "enc (ser_record demo_env (demo_record bob))"]
    demo_record_size [OF alice_bob_ok(2)] demo_record_verifies(1) [OF alice_bob_ok(2)] by simp

text \<open>
  Two records with one digest are the same record, unless SHA-256 has a collision, as long as
  the times and sequences in them are exact in a double (below \<open>2^53\<close>).
\<close>

theorem record_digest_injective:
  assumes "jcs_law E" "b64_law E" "url_serde_law E"
    and "record_digest E r = Ok d" "record_digest E r' = Ok d" "exact_record r" "exact_record r'"
  shows "r = r' \<or> (\<exists>a b. sha256_collision E a b)"
  using assms by (rule record_digest_binds)

theorem record_digest_injective_witness:
  "demo_record alice = demo_record alice \<or> (\<exists>a b. sha256_collision demo_env a b)"
proof -
  have "exact_record (demo_record alice)"
    using demo_issue [OF alice_bob_ok(1)] demo_locator_facts [OF alice_bob_ok(1)]
    by (simp add: exact_record_def exact_time_def demo_record_def)
  then show ?thesis
    using record_digest_injective [OF demo_jcs_law demo_b64_law demo_url_serde_law
        demo_record_digest demo_record_digest] by blast
qed

text \<open>
  C40: a host in brackets, which is how the URL type writes an IPv6 address, is never a loopback
  host for the relay policy: the IPv6 loopback address is refused even with the development flag.
\<close>

theorem ipv6_loopback_relay_refused:
  assumes "url_host_str E u = Some (CHR ''['' # rest)" "url_scheme E u = ''http''"
  shows "\<not> local_relay_host E u \<and>
      validate_relay_url E u True = Err (InvalidEncoding ''v1 relay URL'')"
proof -
  have "\<not> eq_ignore_ascii_case (CHR ''['' # rest) ''localhost''"
    by (simp add: eq_ignore_ascii_case_def to_ascii_lowercase_def Let_def)
  then have "\<not> local_relay_host E u"
    using assms(1) by (simp add: local_relay_host_def parse_ip_bracket)
  then show ?thesis using assms(2) by (simp add: validate_relay_url_def Let_def)
qed

theorem ipv6_loopback_relay_refused_witness:
  "validate_relay_url (demo_env\<lparr>url_host_str := \<lambda>u. Some ''[::1]'', url_scheme := \<lambda>u. ''http''\<rparr>)
     (Url ''http://[::1]/'') True = Err (InvalidEncoding ''v1 relay URL'')"
  using ipv6_loopback_relay_refused
    [of "demo_env\<lparr>url_host_str := \<lambda>u. Some ''[::1]'', url_scheme := \<lambda>u. ''http''\<rparr>"
      "Url ''http://[::1]/''" "''::1]''"] by simp

section \<open>Hello and Ack\<close>

text \<open>
  C10: what a verified Hello guarantees to the responder: both records verify at that moment for
  the identities the Hello names, the sender's record is the one inside the Hello, the digest of
  the target's record is the one in the Hello, the devices and their keys are those of the two
  certificates and differ, the application and the fixed protocol name are as expected, the
  sender's control key signed it, and the Hello ends, after at most 120 seconds, before either
  record does.
\<close>

theorem hello_verify_sound:
  assumes "hello_verify E h sender target app now allow = Ok ()"
  shows "record_verify E sender (hc_from_identity (h_claims h)) now allow None = Ok () \<and>
      record_verify E target (hc_to_identity (h_claims h)) now allow None = Ok () \<and>
      hc_from_device_record (h_claims h) = sender \<and>
      record_digest E target = Ok (hc_target_device_record_digest (h_claims h)) \<and>
      hc_from_control_signing_key (h_claims h) = cc_control_signing_key (c_claims (r_certificate sender)) \<and>
      hc_to_control_signing_key (h_claims h) = cc_control_signing_key (c_claims (r_certificate target)) \<and>
      hc_from_control_signing_key (h_claims h) \<noteq> hc_to_control_signing_key (h_claims h) \<and>
      hc_from_iroh_endpoint_id (h_claims h) \<noteq> hc_to_iroh_endpoint_id (h_claims h) \<and>
      hc_application (h_claims h) = app \<and> hc_alpn (h_claims h) = V1_IROH_ALPN_TEXT \<and>
      (\<exists>key. control_public_key E (r_certificate sender) = Ok key \<and>
        verify_signature E key V1_HELLO_DOMAIN (ser_hello_claims E (h_claims h)) (h_signature h) = Ok ()) \<and>
      now < hc_expires_at (h_claims h) \<and>
      unat (hc_expires_at (h_claims h)) - unat (hc_issued_at (h_claims h)) \<le> 120 \<and>
      hc_expires_at (h_claims h) \<le> lc_expires_at (l_claims (r_locator sender)) \<and>
      hc_expires_at (h_claims h) \<le> lc_expires_at (l_claims (r_locator target))"
proof -
  from assms have core: "hello_validate_core E (h_claims h) sender target app now allow = Ok ()"
    and sig: "\<exists>key. control_public_key E (r_certificate sender) = Ok key \<and>
        verify_signature E key V1_HELLO_DOMAIN (ser_hello_claims E (h_claims h)) (h_signature h) = Ok ()"
    by (auto simp: hello_verify_Ok_iff)
  have dev: "hello_devices_match (h_claims h) (c_claims (r_certificate sender))
      (c_claims (r_certificate target))"
    and window: "validate_bounded_window (hc_issued_at (h_claims h)) (hc_expires_at (h_claims h)) now
      V1_MAX_HANDSHAKE_LIFETIME_SECONDS ''v1 Hello lifetime'' = Ok ()"
    using core unfolding hello_validate_core_Ok_iff by blast+
  have "now < hc_expires_at (h_claims h)"
    "unat (hc_expires_at (h_claims h)) - unat (hc_issued_at (h_claims h)) \<le> 120"
    using window by (auto simp: validate_bounded_window_Ok_iff word_order_nat unat_word_diff
        less_imp_le V1_MAX_HANDSHAKE_LIFETIME_SECONDS_def)
  then show ?thesis
    using core sig dev unfolding hello_validate_core_Ok_iff hello_devices_match_def by blast
qed

theorem hello_verify_sound_witness:
  "hc_from_device_record (h_claims demo_hello) = demo_record alice \<and>
   record_digest demo_env (demo_record bob) = Ok (hc_target_device_record_digest (h_claims demo_hello))"
  using hello_verify_sound [OF demo_hello_verifies [of 40]] by simp

text \<open>
  A Hello that is accepted for two target records is accepted for one record only, or SHA-256
  has a collision: a Hello cannot be redirected to another responder.
\<close>

theorem hello_target_unique:
  assumes "jcs_law E" "b64_law E" "url_serde_law E"
    and "hello_verify E h sender target app now allow = Ok ()"
    and "hello_verify E h sender' target' app' now' allow' = Ok ()"
    and "exact_record target" "exact_record target'"
  shows "sender = sender' \<and> (target = target' \<or> (\<exists>a b. sha256_collision E a b))"
  using record_digest_binds [OF assms(1-3)] assms(4-7) hello_verify_records(3,4) by metis

theorem hello_target_unique_witness:
  "demo_record alice = demo_record alice \<and>
   (demo_record bob = demo_record bob \<or> (\<exists>a b. sha256_collision demo_env a b))"
proof -
  have "exact_record (demo_record bob)"
    using demo_issue [OF alice_bob_ok(2)] demo_locator_facts [OF alice_bob_ok(2)]
    by (simp add: exact_record_def exact_time_def demo_record_def)
  then show ?thesis
    using hello_target_unique [OF demo_jcs_law demo_b64_law demo_url_serde_law
        demo_hello_verifies [of 40] demo_hello_verifies [of 50]] by simp
qed

text \<open>
  C29: a Hello and an Ack that a device signs are accepted by the peer from their issue on exactly
  until they expire.
\<close>

theorem handshake_sign_verifies:
  assumes "b64_law E" "signature_codec_law E" "signing_law E" "z32_law E"
    and "hello_sign_with_policy E cred sender target app nonce (iss, ex) allow = Ok h"
    and "ack_sign_with_policy E cred' h sender target nonce' (iss', ex') allow = Ok ack"
  shows "(\<forall>now \<ge> iss. hello_verify E h sender target app now allow = Ok () \<longleftrightarrow> now < ex) \<and>
    (\<forall>now \<ge> iss'. ack_verify E ack target sender h app now allow = Ok () \<longleftrightarrow> now < ex')"
proof -
  have h: "hc_application (h_claims h) = app" "hc_expires_at (h_claims h) = ex"
    using assms(5) by (auto elim: hello_sign_with_policy_Ok)
  have a: "ac_expires_at (a_claims ack) = ex'"
    using assms(6) by (auto elim: ack_sign_with_policy_Ok)
  from hello.check_iff [where E = E and x = "(h, sender, target, app, allow)" and now = iss]
    ack.check_iff [where E = E and x = "(ack, target, sender, h, app, allow)" and now = iss']
    hello_sign_verifies_at_issue [OF assms(1-5)] ack_sign_verifies_at_issue [OF assms(1-4,6)]
  show ?thesis by (simp add: h a)
qed

theorem handshake_sign_verifies_witness:
  "ack_verify demo_env demo_ack (demo_record bob) (demo_record alice) demo_hello ''chat'' 69 False = Ok () \<and>
   ack_verify demo_env demo_ack (demo_record bob) (demo_record alice) demo_hello ''chat'' 70 False \<noteq> Ok ()"
  using handshake_sign_verifies [OF demo_b64_law demo_signature_codec_law demo_signing_law
      demo_z32_law demo_hello_sign(1) [unfolded hello_sign_def] demo_ack_sign(1) [unfolded ack_sign_def]]
  by auto

text \<open>Two Hellos with one digest are equal, or their digested bytes are a collision.\<close>

lemma hello_digest_collides:
  assumes "jcs_law E" "b64_law E" "url_serde_law E"
    and "hello_digest_of E h = Ok d" "hello_digest_of E h' = Ok d" "exact_hello h" "exact_hello h'"
  shows "h = h' \<or> (\<exists>a a'. canonical_for_signing E V1_HELLO_DIGEST_DOMAIN (ser_hello E h) = Ok a \<and>
    canonical_for_signing E V1_HELLO_DIGEST_DOMAIN (ser_hello E h') = Ok a' \<and> sha256_collision E a a')"
proof -
  obtain a a' where a: "canonical_for_signing E V1_HELLO_DIGEST_DOMAIN (ser_hello E h) = Ok a"
    "canonical_for_signing E V1_HELLO_DIGEST_DOMAIN (ser_hello E h') = Ok a'"
    and "b64_encode E (sha256 E a) = b64_encode E (sha256 E a')"
    using assms(4,5) by (auto simp: hello_digest_of_def canonical_digest_Ok_iff)
  then have digest: "sha256 E a = sha256 E a'" using assms(2) by (simp add: b64_encode_inject)
  have "h = h'" if "a = a'"
  proof -
    have "exact_numbers (ser_hello E h)" "exact_numbers (ser_hello E h')"
      using assms(3,6,7) by (simp_all add: exact_ser_hello)
    then have "jcs_norm (ser_hello E h) = jcs_norm (ser_hello E h')"
      using canonical_for_signing_inject [OF assms(1) a(1) a(2) [folded that]] by blast
    then show "h = h'" using de_norm_hello [OF assms(3)] by (metis option.inject)
  qed
  then show ?thesis using a digest unfolding sha256_collision_def by blast
qed

text \<open>
  C34: a verified Ack answers one Hello: it verifies only together with that Hello, it repeats the
  Hello's session nonce next to a different responder nonce, and if it verifies for two different
  Hellos, the bytes that are digested of the one and of the other are a collision of SHA-256. The
  last part is for Hellos whose numbers (times, and the sequence of the record they carry) are at
  most \<open>2 ^ 53\<close>: beyond, canonical JSON writes numbers as doubles and need not keep them apart.
\<close>

theorem ack_binds_hello:
  assumes "jcs_law E" "b64_law E" "url_serde_law E"
    and "ack_verify E ack responder initiator h app now allow = Ok ()"
    and "ack_verify E ack responder' initiator' h' app' now' allow' = Ok ()"
    and "exact_hello h" "exact_hello h'"
  shows "hello_verify E h initiator responder app now allow = Ok () \<and>
    ac_session_nonce (a_claims ack) = hc_session_nonce (h_claims h) \<and>
    ac_responder_nonce (a_claims ack) \<noteq> hc_session_nonce (h_claims h) \<and>
    (h = h' \<or> (\<exists>a a'. canonical_for_signing E V1_HELLO_DIGEST_DOMAIN (ser_hello E h) = Ok a \<and>
       canonical_for_signing E V1_HELLO_DIGEST_DOMAIN (ser_hello E h') = Ok a' \<and>
       a \<noteq> a' \<and> sha256 E a = sha256 E a'))"
proof -
  have 1: "ack_validate_claims E (a_claims ack) (r_certificate responder) initiator responder h app
      now allow = Ok ()"
    and 2: "ack_validate_claims E (a_claims ack) (r_certificate responder') initiator' responder' h'
      app' now' allow' = Ok ()"
    using assms(4,5) by (auto simp: ack_verify_Ok_iff)
  have "hello_digest_of E h = Ok (ac_hello_digest (a_claims ack))"
    "hello_digest_of E h' = Ok (ac_hello_digest (a_claims ack))"
    using 1 2 unfolding ack_validate_claims_Ok_iff by blast+
  from hello_digest_collides [OF assms(1-3) this assms(6,7)] 1 show ?thesis
    unfolding ack_validate_claims_Ok_iff sha256_collision_def by (elim conjE, intro conjI) simp_all
qed

theorem ack_binds_hello_witness:
  "ac_session_nonce (a_claims demo_ack) = hc_session_nonce (h_claims demo_hello)"
proof -
  have v: "ack_verify demo_env demo_ack (demo_record bob) (demo_record alice) demo_hello ''chat'' 40
      False = Ok ()"
    using ack_sign_verifies_at_issue [OF demo_b64_law demo_signature_codec_law demo_signing_law
        demo_z32_law demo_ack_sign(1) [unfolded ack_sign_def]]
    by (simp add: demo_hello_sign(2) demo_hello_claims_def)
  have "exact_hello demo_hello"
    using demo_issue [OF alice_bob_ok(1)] demo_locator_facts [OF alice_bob_ok(1)]
    by (simp add: exact_hello_def exact_record_def exact_time_def demo_record_def demo_hello_sign(2)
        demo_hello_claims_def)
  from ack_binds_hello [OF demo_jcs_law demo_b64_law demo_url_serde_law v v this this]
  show ?thesis by blast
qed

section \<open>Currentness proofs\<close>

text \<open>
  C4: what a verified currentness proof guarantees: it was signed by the prover's control key for
  the expected role and challenge, the challenge has 16 to 32 bytes and is not the session nonce,
  the Hello verifies for the two records in the order of their roles, the digests are those of
  the prover's exact record, Grant and locator and of the exact Hello, and the present lies in a
  window of at most 30 seconds inside the Hello's and the locator's lifetimes.
\<close>

theorem currentness_verify_sound:
  assumes "currentness_verify E p own peer h role challenge now allow = Ok ()"
  shows "pc_role (p_claims p) = role \<and> pc_challenge (p_claims p) = challenge \<and>
    challenge \<noteq> hc_session_nonce (h_claims h) \<and>
    (\<exists>b. b64_decode E challenge = Some b \<and> 16 \<le> length b \<and> length b \<le> 32) \<and>
    (case records_for_role role own peer of (initiator, responder) \<Rightarrow>
       hello_verify E h initiator responder (hc_application (h_claims h)) now allow = Ok ()) \<and>
    hello_digest_of E h = Ok (pc_hello_digest (p_claims p)) \<and>
    record_digest E own = Ok (pc_device_record_digest (p_claims p)) \<and>
    grant_digest_of E (r_authorization own) = Ok (pc_grant_digest (p_claims p)) \<and>
    locator_digest E (r_locator own) = Ok (pc_locator_digest (p_claims p)) \<and>
    (\<exists>key. control_public_key E (r_certificate own) = Ok key \<and>
      verify_signature E key V1_CURRENTNESS_DOMAIN (ser_currentness_claims (p_claims p))
        (p_signature p) = Ok ()) \<and>
    pc_issued_at (p_claims p) \<le> now \<and> now < pc_expires_at (p_claims p) \<and>
    unat (pc_expires_at (p_claims p)) \<le> unat (pc_issued_at (p_claims p)) + 30 \<and>
    pc_expires_at (p_claims p) \<le> hc_expires_at (h_claims h) \<and>
    pc_expires_at (p_claims p) \<le> lc_expires_at (l_claims (r_locator own))"
proof -
  let ?c = "p_claims p"
  from assms have v: "currentness_validate_claims E ?c own peer h role challenge now allow = Ok ()"
    and sig: "\<exists>key. control_public_key E (r_certificate own) = Ok key \<and>
      verify_signature E key V1_CURRENTNESS_DOMAIN (ser_currentness_claims ?c) (p_signature p) = Ok ()"
    by (auto simp: currentness_verify_Ok_iff)
  then have window: "validate_currentness_window (pc_issued_at ?c) (pc_expires_at ?c) now = Ok ()"
    and ch: "validate_challenge E challenge ''v1 currentness challenge'' = Ok ()"
    and digests: "currentness_check_digests E ?c own h = Ok ()"
    unfolding currentness_validate_claims_Ok_iff by blast+
  have w: "pc_issued_at ?c \<le> now" "now < pc_expires_at ?c"
    "unat (pc_expires_at ?c) \<le> unat (pc_issued_at ?c) + 30"
    using window
    by (auto simp: validate_currentness_window_Ok_iff word_order_nat unat_word_diff less_imp_le
        V1_MAX_CURRENTNESS_LIFETIME_SECONDS_def)
  have "\<exists>b. b64_decode E challenge = Some b \<and> 16 \<le> length b \<and> length b \<le> 32"
    using ch by (auto simp: validate_challenge_Ok_iff)
  with v sig digests w show ?thesis
    unfolding currentness_validate_claims_Ok_iff currentness_check_digests_Ok_iff
    by (elim conjE, intro conjI) assumption+
qed

theorem currentness_verify_sound_witness:
  "pc_challenge (p_claims (demo_proof Responder)) = demo_nonce 23 \<and>
   unat (pc_expires_at (p_claims (demo_proof Responder)))
     \<le> unat (pc_issued_at (p_claims (demo_proof Responder))) + 30"
  using currentness_verify_sound [OF currentness_sign_verifies_at_issue [OF demo_b64_law
      demo_signature_codec_law demo_signing_law demo_z32_law demo_proof_sign(1) [of Responder]]]
  by blast

text \<open>
  C30: a signed currentness proof is accepted for exactly its lifetime, and it lies at the path
  that the peer computes beforehand from the challenge, the Hello and the prover's record.
\<close>

theorem currentness_sign_verifies:
  assumes "b64_law E" "signature_codec_law E" "signing_law E" "z32_law E"
    and "currentness_sign E cred own peer h role challenge iss ex allow = Ok p"
    and "hello_digest_of E h = Ok hello_dig" "record_digest E own = Ok record_dig"
    and "grant_digest_of E (r_authorization own) = Ok grant_dig"
    and "locator_digest E (r_locator own) = Ok locator_dig"
  shows "(\<forall>now \<ge> iss. currentness_verify E p own peer h role challenge now allow = Ok () \<longleftrightarrow> now < ex) \<and>
    currentness_path E p
      = v1_currentness_path E role challenge hello_dig record_dig grant_dig locator_dig"
proof -
  have ex: "pc_expires_at (p_claims p) = ex"
    and v: "currentness_validate_claims E (p_claims p) own peer h role challenge iss allow = Ok ()"
    using assms(5) by (auto elim: currentness_sign_Ok)
  from currentness_proof.check_iff [where E = E and x = "(p, own, peer, h, role, challenge, allow)"
      and now = iss] currentness_sign_verifies_at_issue [OF assms(1-5)]
  have "\<forall>now \<ge> iss. currentness_verify E p own peer h role challenge now allow = Ok () \<longleftrightarrow> now < ex"
    by (simp add: ex)
  with currentness_path_agrees [OF v assms(6-9)] show ?thesis by blast
qed

theorem currentness_sign_verifies_witness:
  "currentness_verify demo_env (demo_proof Initiator) (demo_record alice) (demo_record bob) demo_hello
     Initiator (demo_nonce 23) 69 False = Ok () \<and>
   currentness_verify demo_env (demo_proof Initiator) (demo_record alice) (demo_record bob) demo_hello
     Initiator (demo_nonce 23) 70 False \<noteq> Ok ()"
proof -
  have "grant_digest_of demo_env (r_authorization (demo_record alice)) = Ok (grant_digest_text alice)"
    "locator_digest demo_env (r_locator (demo_record alice)) = Ok (locator_digest_text alice)"
    using demo_party_digests [of alice] by (simp_all add: demo_record_def)
  from currentness_sign_verifies [OF demo_b64_law demo_signature_codec_law demo_signing_law
      demo_z32_law demo_proof_sign(1) [of Initiator, unfolded demo_role_party_def demo_other_party_def, simplified]
      demo_hello_digest demo_record_digest this]
  show ?thesis by auto
qed

text \<open>
  Proofs of different roles, challenges, Hellos or records lie at different paths, unless
  SHA-256 has a collision.
\<close>

theorem currentness_path_injective:
  assumes "jcs_law E" "b64_law E"
    and "v1_currentness_path E r c hed rd gd ld = Ok path"
    and "v1_currentness_path E r' c' hed' rd' gd' ld' = Ok path"
  shows "(r, c, hed, rd, gd, ld) = (r', c', hed', rd', gd', ld') \<or> (\<exists>a b. sha256_collision E a b)"
  using assms by (rule v1_currentness_path_binds)

theorem currentness_path_injective_witness:
  "\<exists>path. v1_currentness_path demo_env Initiator (demo_nonce 23) hello_digest_text
      (record_digest_text alice) (grant_digest_text alice) (locator_digest_text alice) = Ok path \<and>
    ((Initiator, demo_nonce 23) = (Initiator, demo_nonce 23) \<or> (\<exists>a b. sha256_collision demo_env a b))"
proof -
  have "\<exists>s. canonical_digest demo_env d v = Ok s" for d v
    by (simp add: canonical_digest_Ok_iff canonical_for_signing_Ok_iff)
  then obtain path where p: "v1_currentness_path demo_env Initiator (demo_nonce 23) hello_digest_text
      (record_digest_text alice) (grant_digest_text alice) (locator_digest_text alice) = Ok path"
    using demo_hello_digest_facts demo_digest_facts demo_party_digest_facts
    by (fastforce simp: v1_currentness_path_def and_then_Ok_iff)
  from currentness_path_injective [OF demo_jcs_law demo_b64_law p p] p show ?thesis by blast
qed

text \<open>
  C36: domain separation. For values whose numbers are at most \<open>2 ^ 53\<close>, the bytes that are signed
  determine the purpose and, up to the order of members, the signed value: no signature made for a
  certificate, locator, Hello, Ack or currentness proof with such numbers is one for another purpose
  or for other contents. Larger numbers, which the code admits as a publisher's sequence, are not
  covered: canonical JSON writes numbers as doubles.
\<close>

theorem signing_bytes_separate:
  assumes "jcs_law E" "canonical_for_signing E domain v = Ok b" "canonical_for_signing E domain' v' = Ok b"
    and "exact_numbers v" "exact_numbers v'"
  shows "domain = domain' \<and> jcs_norm v = jcs_norm v' \<and>
    distinct [V1_CERTIFICATE_DOMAIN, V1_LOCATOR_DOMAIN, V1_HELLO_DOMAIN, V1_ACK_DOMAIN,
      V1_CURRENTNESS_DOMAIN]"
  using canonical_for_signing_inject [OF assms] by (simp add: domain_defs)

theorem signing_bytes_separate_witness:
  "distinct [V1_CERTIFICATE_DOMAIN, V1_LOCATOR_DOMAIN, V1_HELLO_DOMAIN, V1_ACK_DOMAIN,
      V1_CURRENTNESS_DOMAIN] \<and>
   canonical_for_signing demo_env V1_HELLO_DOMAIN (JStr ''x'') = Ok (enc (jcs_norm
     (signing_envelope V1_HELLO_DOMAIN (JStr ''x''))))"
proof -
  have c: "canonical_for_signing demo_env V1_HELLO_DOMAIN (JStr ''x'') = Ok (enc (jcs_norm
     (signing_envelope V1_HELLO_DOMAIN (JStr ''x''))))"
    by (simp add: canonical_for_signing_Ok_iff)
  show ?thesis using signing_bytes_separate [OF demo_jcs_law c c] c by simp
qed

section \<open>Time windows\<close>

text \<open>
  The currentness window on 64-bit seconds, without overflow: it is accepted exactly when it
  has started, has not ended, and is at most 30 seconds long.
\<close>

theorem currentness_window_exact:
  "validate_currentness_window iss ex now = Ok () \<longleftrightarrow>
     unat iss \<le> unat now \<and> unat now < unat ex \<and> unat ex \<le> unat iss + 30"
  by (auto simp: validate_currentness_window_Ok_iff word_order_nat unat_word_diff less_imp_le
      V1_MAX_CURRENTNESS_LIFETIME_SECONDS_def)

text \<open>
  The general window on 64-bit seconds: it is accepted exactly when it is not empty, starts at
  most 120 seconds in the future (or the skewed clock saturates), has not ended, and is at most
  the given maximum long. The rejections come in the order: malformed, too early, expired, too long.
\<close>

theorem bounded_window_exact:
  "validate_bounded_window iss ex now maximum label =
     (if unat ex \<le> unat iss then Err InvalidTimeWindow
      else if min (unat now + 120) (2 ^ 64 - 1) < unat iss then Err NotYetValid
      else if unat ex \<le> unat now then Err Expired
      else if unat maximum < unat ex - unat iss then Err (InvalidEncoding label)
      else Ok ())"
  by (simp add: validate_bounded_window_def word_order_nat unat_saturating_add unat_word_diff
      MAX_CLOCK_SKEW_SECONDS_def)

end
