(* ===== verification/Sequence_Refinement.thy ===== *)
theory Sequence_Refinement
  imports Sequence_File
begin

text \<open>
  Without failures the file store of \<open>crates/client/src/sequence.rs\<close> answers and holds what its
  memory store would, and stays ready for the next operation.
\<close>

text \<open>
  The directory is ready for an operation: its lock file is absent or private, and the name of the
  temporary file is unused.
\<close>

definition file_ready :: "io_choices \<Rightarrow> store_dir \<Rightarrow> bool" where
  "file_ready io s \<longleftrightarrow>
     (case entries s LOCK_FILE of None \<Rightarrow> True
      | Some f \<Rightarrow> f_kind f = RegularFile \<and> validate_private_file f = Ok ()) \<and>
     entries s (temporary_name (io_uuid io)) = None"

lemma file_step_memory:
  assumes "file_inv E s" "op_ok E op" "file_ready io s" "io = no_faults\<lparr>io_uuid := uuid\<rparr>"
    and "file_step E io s op = (r, s')"
  shows "memory_step E () (file_values E s) op = (r, file_values E s')"
proof -
  obtain s1 where lock: "open_and_lock io s = (Ok (), s1)"
    and s1: "entries s1 (temporary_name (io_uuid io)) = None" "entries s1 STATE_FILE = entries s STATE_FILE"
    using assms(1,3,4) private_mode [of s "[]"] temporary_name_neq(2)
    by (auto simp: open_and_lock_def private_open_lock_def Let_def no_faults_def file_inv_def
        file_ready_def split: option.splits)
  have read: "read_state E io s1 = Ok (file_values E s)"
  proof -
    have "read_state E io s1 = read_state E no_faults s"
      using s1(2) assms(4)
      by (simp add: read_state_def no_follow_read_def no_faults_def split: option.split)
    with assms(1) show ?thesis by (auto simp: file_inv_def file_values_def is_ok_iff)
  qed
  have wtmp: "\<exists>s2. write_temporary io s1 b = (Ok (), s2)" for b
    using s1(1) assms(4) by (simp add: write_temporary_def Let_def no_faults_def)
  have unlock: "io_result (io_unlock io) = Ok ()" using assms(4) by (simp add: no_faults_def)
  show ?thesis
  proof (cases "memory_step E () (file_values E s) op")
    case (Pair r0 vs0)
    show ?thesis
    proof (cases r0)
      case (Err e)
      then have v0: "vs0 = file_values E s" using Pair by (auto elim: memory_step_cases)
      have "r = Err e \<and> entries s' STATE_FILE = entries s STATE_FILE"
        using Pair Err assms(5) lock read s1(2)
        by (auto simp: memory_step_def file_step_def update_memory_def update_file_def
            split: result.splits prod.splits)
      with Pair Err v0 show ?thesis
        using read_state_cong [of s' s E no_faults] by (simp add: file_values_def)
    next
      case (Ok out)
      then obtain f where f: "store_update E op = Ok f" "f (file_values E s) = Ok (out, vs0)"
        "validate_state_bounds E vs0 = Ok ()"
        using Pair by (auto elim: memory_step_cases)
      then obtain b where b: "json_to_vec E (ser_state vs0) = Some b"
        by (auto simp: validate_state_bounds_def ok_iff)
      from wtmp [of b] obtain s2 where w: "write_temporary io s1 b = (Ok (), s2)" by blast
      then have r: "r = Ok out" "s' = s2"
        using assms(5) f lock read b unlock
        by (auto simp: file_step_def update_file_def)
      obtain f' where "store_update E op = Ok f'" "f' (file_values E s) = Ok (out, file_values E s')"
        using file_store.step_Ok [OF assms(1,2)] assms(5) r(1) by blast
      with f(1,2) have "vs0 = file_values E s'" by simp
      with Pair Ok r show ?thesis by simp
    qed
  qed
qed

text \<open>An operation without failures leaves the directory ready.\<close>

lemma open_lock_ready:
  assumes "open_and_lock io s = (r, s1)" "file_ready io s" "and (umask s) 0x180 = 0"
  shows "file_ready io s1"
proof -
  have "s1 = s \<or> entries s LOCK_FILE = None \<and> s1 = s\<lparr>entries := (entries s)(LOCK_FILE \<mapsto> new_private_file s [])\<rparr>"
    using assms(1) by (auto simp: open_and_lock_def private_open_lock_def Let_def
        split: result.splits option.splits if_splits)
  moreover have "f_kind (new_private_file s []) = RegularFile \<and> validate_private_file (new_private_file s []) = Ok ()"
    by (rule conjI [OF _ private_mode [OF assms(3)]]) (simp only: new_private_file_def store_file.simps)
  ultimately show ?thesis
    using assms(2) by (auto simp: file_ready_def)
qed

lemma write_temporary_ready:
  assumes "write_temporary (no_faults\<lparr>io_uuid := uuid\<rparr>) s b = (r, s1)" "file_ready (no_faults\<lparr>io_uuid := uuid\<rparr>) s"
  shows "r = Ok () \<and> file_ready (no_faults\<lparr>io_uuid := uuid\<rparr>) s1"
  using assms by (simp add: write_temporary_def Let_def no_faults_def file_ready_def) (auto simp: temporary_name_def)

lemma file_step_ready:
  assumes "file_inv E s" "file_ready io s" "io = no_faults\<lparr>io_uuid := uuid\<rparr>"
    and "file_step E io s op = (r, s')"
  shows "file_ready io s'"
proof (cases "store_update E op")
  case (Ok update)
  obtain r1 s1 where lock: "open_and_lock io s = (r1, s1)" by fastforce
  have ready: "file_ready io s1" using open_lock_ready [OF lock assms(2)] assms(1) by (simp add: file_inv_def)
  have removed: "file_ready io s2 \<Longrightarrow> file_ready io (remove_temporary io s2)" for s2
    by (auto simp: file_ready_def remove_temporary_def split: option.splits)
  have "s' = s1 \<or> (\<exists>b r2 s2. write_temporary io s1 b = (r2, s2) \<and> (s' = s2 \<or> s' = remove_temporary io s2))"
    using assms(4) by (auto simp: file_step_def update_file_def Ok lock split: result.splits prod.splits)
  then show ?thesis
    using ready removed write_temporary_ready [of uuid s1, folded assms(3)] by blast
qed (use assms in \<open>simp add: file_step_def\<close>)

end
