(* ===== verification/Store_Properties.thy ===== *)
theory Store_Properties
  imports Demo Sequence_Refinement
begin

text \<open>
  What the anti-rollback stores guarantee over their histories: no accepted record rolls back or
  equivocates, allocated sequences increase, a batch is recorded as a whole, and the file store
  behaves as the memory store and survives failures of the file system.
\<close>

section \<open>Concrete requests\<close>

definition demo_observation :: "u64 \<Rightarrow> byte \<Rightarrow> authenticated_sequence_observation" where
  "demo_observation counter fill =
     \<lparr>o_identity = party_id alice, o_scope = ''locator:phone'', o_counter = counter,
      o_digest = replicate 32 fill\<rparr>"

lemma demo_identity_parses:
  "pk_parse demo_env (party_id p) = Some (PublicKey (secret_of (root_key p)))"
  "pk_z32 demo_env (PublicKey (secret_of (root_key p))) = party_id p"
  using demo_parse_z32 [of "PublicKey (secret_of (root_key p))"]
  by (simp_all add: party_id_def demo_env_def del: demo_z32.simps)

lemma demo_state_key:
  "state_key demo_env (party_id alice) ''locator:phone'' = Ok (party_id alice @ '':locator:phone'')"
  using demo_identity_parses [of alice]
  by (auto simp: state_key_Ok_iff scope_byte_def is_ascii_alphanumeric_def Let_def)

lemma demo_observation_ok: "c \<noteq> 0 \<Longrightarrow> observation_ok demo_env (demo_observation c b)"
  using demo_state_key
  by (simp add: observation_ok_iff demo_observation_def starts_with_def PUBLISHER_SCOPE_PREFIX_def)

lemma demo_publisher_key:
  "publisher_key demo_env (party_id alice) (party_id bob)
     = Ok (party_id alice @ '':v1:publisher:'' @ party_id bob)"
  using demo_identity_parses [of alice] demo_identity_parses [of bob]
  by (auto simp: publisher_key_Ok_iff [OF demo_z32_text_law] PUBLISHER_SCOPE_PREFIX_def)

definition demo_ops :: "store_op list" where
  "demo_ops = [InitializePublisher (party_id alice) (party_id bob),
     RecordBatch [demo_observation 7 1], NextSequence (party_id alice) (party_id bob),
     RecordBatch [demo_observation 6 1], RecordBatch [demo_observation 7 2],
     RecordBatch [demo_observation 8 2], NextSequence (party_id alice) (party_id bob)]"

lemma demo_ops_ok: "list_all (op_ok demo_env) demo_ops"
  by (simp add: demo_ops_def demo_observation_ok)

lemma state_ok_Nil [simp]: "state_ok E []"
  by (simp add: state_ok_def)

definition demo_dir :: store_dir where
  "demo_dir = \<lparr>entries = (\<lambda>n. None), umask = 0x12\<rparr>"

lemma demo_dir_inv: "file_inv demo_env demo_dir"
  using demo_z32_text_law demo_json_text_law
  by (simp add: file_inv_def demo_dir_def read_state_def no_faults_def is_ok_iff)

section \<open>Histories\<close>

text \<open>
  In every history of the memory store, from any well-formed state, an accepted observation
  for a key never has a smaller counter than an earlier accepted one, nor a different digest at
  the same counter, and a locator sequence is greater than all earlier ones of its key.
\<close>

theorem memory_store_no_rollback:
  assumes "z32_text_law E" "state_ok E vs" "list_all (op_ok E) ops"
  shows "sorted_wrt answers_follow (fst (run_store (memory_step E) vs (map (Pair ()) ops)))"
  using memory.run_answers_follow [of E vs "map (Pair ()) ops"] assms
  by (simp add: memory_inv_def list_all_iff)

theorem memory_store_no_rollback_witness:
  "sorted_wrt answers_follow (fst (run_store (memory_step demo_env) [] (map (Pair ()) demo_ops)))"
  using memory_store_no_rollback [OF demo_z32_text_law state_ok_Nil demo_ops_ok] .

text \<open>
  C5: the same holds for the file store, whatever input/output calls fail in any of the
  operations, as long as the state file is readable at the start.
\<close>

theorem file_store_no_rollback:
  assumes "z32_text_law E" "json_text_law E" "and (umask s) 0x180 = 0"
    and "read_state E no_faults s = Ok vs"
    and "list_all (\<lambda>(io, op). op_ok E op) steps"
  shows "sorted_wrt answers_follow (fst (run_store (file_step E) s steps)) \<and>
    file_inv E (snd (run_store (file_step E) s steps)) \<and>
    state_advances vs (file_values E (snd (run_store (file_step E) s steps)))"
proof -
  have inv: "file_inv E s" and vs: "file_values E s = vs"
    using assms(1-4) by (simp_all add: file_inv_def file_values_def is_ok_iff)
  from file_store.run_answers_follow [OF inv assms(5)]
    file_store.run_inv [OF inv assms(5), of "fst (run_store (file_step E) s steps)"
      "snd (run_store (file_step E) s steps)"] vs
  show ?thesis by simp
qed

theorem file_store_no_rollback_witness:
  "file_inv demo_env (snd (run_store (file_step demo_env) demo_dir
     [(no_faults, RecordBatch [demo_observation 7 1]),
      (no_faults\<lparr>io_sync_directory := Some ''EIO''\<rparr>, RecordBatch [demo_observation 9 1])]))"
proof -
  have "read_state demo_env no_faults demo_dir = Ok []"
    by (simp add: demo_dir_def read_state_def no_faults_def)
  moreover have "and (umask demo_dir) 0x180 = 0" by (simp add: demo_dir_def)
  moreover have "list_all (\<lambda>(io, op). op_ok demo_env op)
      [(no_faults, RecordBatch [demo_observation 7 1]),
       (no_faults\<lparr>io_sync_directory := Some ''EIO''\<rparr>, RecordBatch [demo_observation 9 1])]"
    by (simp add: demo_observation_ok)
  ultimately show ?thesis
    using file_store_no_rollback [OF demo_z32_text_law demo_json_text_law] by blast
qed

section \<open>Batches and counters\<close>

lemma batch_new_keys:
  assumes "record_authenticated_value vs k c d = Ok vs1" "bt_ok vs" "k \<notin> fst ` set m"
  shows "bt_ok vs1"
    and "length vs1 = length vs + (if map_of vs k = None then 1 else 0)"
    and "\<And>k'. k' \<in> fst ` set m \<Longrightarrow> map_of vs1 k' = map_of vs k'"
proof -
  note v = record_authenticated_value_Ok [OF assms(1)]
  from v(3) assms(2) show "bt_ok vs1" by auto
  have "k \<in> fst ` set vs \<longleftrightarrow> map_of vs k \<noteq> None" by (simp add: map_of_eq_None_iff)
  moreover have "vs1 = vs \<Longrightarrow> map_of vs k \<noteq> None" using v(1) by (metis fun_upd_same option.distinct(1))
  ultimately show "length vs1 = length vs + (if map_of vs k = None then 1 else 0)"
    using v(3) length_bt_insert [OF assms(2), of k "Authenticated c d"] by (elim disjE) simp_all
  show "\<And>k'. k' \<in> fst ` set m \<Longrightarrow> map_of vs1 k' = map_of vs k'"
    using v(1) assms(3) by auto
qed

text \<open>
  C37: a prepared batch is recorded if and only if every observation in it is new, raises the
  counter, or repeats counter and digest, and the new keys fit into the store; then exactly its
  entries are replaced. One bad observation rejects the whole batch.
\<close>

theorem record_batch_accepted_iff:
  assumes "bt_ok vs" "length vs \<le> MAX_STATE_ENTRIES" "distinct (map fst m)"
  shows "(\<exists>vs'. record_authenticated_batch vs m = Ok vs' \<and>
        map_of vs' = map_of vs ++ (map_option auth_entry \<circ> map_of m)) \<longleftrightarrow>
      (\<forall>(k, v) \<in> set m. advances (map_of vs k) (Some (auth_entry v))) \<and>
      length vs + length (filter (\<lambda>(k, v). map_of vs k = None) m) \<le> MAX_STATE_ENTRIES"
proof -
  have "(\<exists>vs'. record_authenticated_batch vs m = Ok vs') \<longleftrightarrow>
      (\<forall>(k, v) \<in> set m. advances (map_of vs k) (Some (auth_entry v))) \<and>
      length vs + length (filter (\<lambda>(k, v). map_of vs k = None) m) \<le> MAX_STATE_ENTRIES"
    using assms
  proof (induction vs m rule: record_authenticated_batch.induct)
    case (2 vs k c d m)
    show ?case
    proof (cases "record_authenticated_value vs k c d")
      case (Err e)
      then have "\<not> (advances (map_of vs k) (Some (Authenticated c d)) \<and>
          (map_of vs k = None \<longrightarrow> length vs < MAX_STATE_ENTRIES))"
        using record_authenticated_value_Ok_iff [of vs k c d] by auto
      with Err show ?thesis by (auto simp: auth_entry_def)
    next
      case (Ok vs1)
      have k: "k \<notin> fst ` set m" "distinct (map fst m)" using 2(4) by auto
      note new = batch_new_keys [OF Ok 2(2) k(1)]
      have "advances (map_of vs k) (Some (Authenticated c d))"
        "map_of vs k = None \<longrightarrow> length vs < MAX_STATE_ENTRIES"
        using Ok record_authenticated_value_Ok_iff [of vs k c d] by auto
      moreover from this have "length vs1 \<le> MAX_STATE_ENTRIES" using new(2) 2(3) by auto
      moreover have "filter (\<lambda>(k, v). map_of vs1 k = None) m = filter (\<lambda>(k, v). map_of vs k = None) m"
        using new(3) by (intro filter_cong) force+
      moreover have "(\<forall>(k, v) \<in> set m. advances (map_of vs1 k) (Some (auth_entry v))) \<longleftrightarrow>
          (\<forall>(k, v) \<in> set m. advances (map_of vs k) (Some (auth_entry v)))"
        using new(3) by force
      ultimately show ?thesis using 2(1) [OF new(1) _ k(2)] Ok new(2) by (auto simp: auth_entry_def)
    qed
  qed simp
  then show ?thesis using record_authenticated_batch_Ok(1) [OF _ assms(3)] by blast
qed

theorem record_batch_accepted_iff_witness:
  "\<not> (\<exists>vs'. record_authenticated_batch [(''k'', Authenticated 7 [1])] [(''j'', (1, [])), (''k'', (6, [1]))]
      = Ok vs' \<and> map_of vs' = map_of [(''k'', Authenticated 7 [1])] ++
        (map_option auth_entry \<circ> map_of [(''j'', (1, [])), (''k'', (6, [1]))]))"
  using record_batch_accepted_iff [of "[(''k'', Authenticated 7 [1])]"
      "[(''j'', (1, [])), (''k'', (6, [1]))]"]
  by (simp add: bt_ok_def MAX_STATE_ENTRIES_def auth_entry_def)

text \<open>
  Allocating a locator sequence, on every branch: an initialised counter yields its successor
  and stores it, the greatest 64-bit value is never passed, and a missing or foreign entry is an
  error that leaves the store as it is.
\<close>

theorem next_sequence_exact:
  assumes "publisher_key E identity control = Ok key"
  shows "memory_step E () vs (NextSequence identity control) =
    (case map_of vs key of
       Some (Publisher c) \<Rightarrow>
         if unat c = 2 ^ 64 - 1
         then (Err (State ''publisher sequence exhausted; rotate the device certificate''), vs)
         else (case validate_state_bounds E (bt_insert key (Publisher (c + 1)) vs) of
                 Ok _ \<Rightarrow> (Ok (Allocated (c + 1)), bt_insert key (Publisher (c + 1)) vs)
               | Err e \<Rightarrow> (Err e, vs))
     | Some (Authenticated _ _) \<Rightarrow> (Err (State
         ''publisher counter conflicts with authenticated sequence state; rotate the device certificate''), vs)
     | None \<Rightarrow> (Err (State ''publisher state is missing; rotate the device credential''), vs))"
proof -
  have "checked_add c 1 = (if unat c = 2 ^ 64 - 1 then None else Some (c + 1))" for c :: u64
    using unat_u64_less [of c] by (auto simp: checked_add_def)
  then show ?thesis
    using assms
    by (auto simp: memory_step_def store_update_def update_memory_def next_publisher_value_def
        split: option.splits stored_sequence.splits result.splits)
qed

theorem next_sequence_exact_witness:
  "memory_step demo_env () [] (NextSequence (party_id alice) (party_id bob))
     = (Err (State ''publisher state is missing; rotate the device credential''), [])"
  using next_sequence_exact [OF demo_publisher_key, of "[]"] by simp

section \<open>The file store\<close>

text \<open>
  C21: whatever calls fail, and at whatever point, an operation of the file store leaves the state
  file untouched and answers an error, or has replaced it by the complete encoding of the updated
  state, in a new file that only its owner can read and write.
\<close>

theorem file_store_atomic:
  assumes "file_step E io s op = (r, s')"
  shows "(entries s' STATE_FILE = entries s STATE_FILE \<and> (\<exists>e. r = Err e)) \<or>
    (\<exists>f vs out vs' encoded. store_update E op = Ok f \<and> read_state E no_faults s = Ok vs \<and>
       f vs = Ok (out, vs') \<and> validate_state_bounds E vs' = Ok () \<and>
       json_to_vec E (ser_state vs') = Some encoded \<and>
       entries s' STATE_FILE = Some (new_private_file s encoded) \<and> (\<forall>out'. r = Ok out' \<longrightarrow> out' = out))"
proof (cases "store_update E op")
  case (Err e)
  with assms show ?thesis by (auto simp: file_step_def)
next
  case (Ok f)
  with assms have "update_file E io s f = (r, s')" by (simp add: file_step_def)
  then show ?thesis
  proof (cases rule: update_file_cases)
    case (replaced vs result vs' encoded)
    then have "\<forall>out'. r = Ok out' \<longrightarrow> out' = result" by auto
    with replaced Ok show ?thesis by blast
  qed blast
qed

theorem file_store_atomic_witness:
  "entries (snd (file_step demo_env (no_faults\<lparr>io_open_lock := Some ''EIO''\<rparr>) demo_dir
     (RecordBatch []))) STATE_FILE = entries demo_dir STATE_FILE"
proof -
  have r: "file_step demo_env (no_faults\<lparr>io_open_lock := Some ''EIO''\<rparr>) demo_dir (RecordBatch [])
      = (Err (StateOs (OsFault ''EIO'')), demo_dir)"
    by (simp add: file_step_def store_update_def prepare_batch_def update_file_def open_and_lock_def
        private_open_lock_def no_faults_def)
  show ?thesis using file_store_atomic [OF r] r by (simp add: demo_dir_def)
qed

text \<open>
  C18: without failures the file store refines the memory store: it gives the answer the memory
  store gives on the state it holds, and then holds the state the memory store would have. Its
  lock file must be absent or private, and the temporary name unused.
\<close>

theorem file_store_refines_memory:
  assumes "file_inv E s" "op_ok E op"
    and "case entries s LOCK_FILE of None \<Rightarrow> True
         | Some f \<Rightarrow> f_kind f = RegularFile \<and> validate_private_file f = Ok ()"
    and "entries s (temporary_name (io_uuid io)) = None" "io = no_faults\<lparr>io_uuid := uuid\<rparr>"
    and "file_step E io s op = (r, s')"
  shows "memory_step E () (file_values E s) op = (r, file_values E s')"
  using file_step_memory [of E s op io uuid r s'] assms by (simp add: file_ready_def)

theorem file_store_refines_memory_witness:
  "\<exists>s'. file_step demo_env no_faults demo_dir (RecordBatch [demo_observation 7 1])
      = (fst (memory_step demo_env () [] (RecordBatch [demo_observation 7 1])), s')"
proof -
  obtain r s' where st: "file_step demo_env no_faults demo_dir (RecordBatch [demo_observation 7 1]) = (r, s')"
    by (cases "file_step demo_env no_faults demo_dir (RecordBatch [demo_observation 7 1])")
  have "file_values demo_env demo_dir = []"
    by (simp add: file_values_def demo_dir_def read_state_def no_faults_def)
  moreover have "no_faults = no_faults\<lparr>io_uuid := []\<rparr>" by (simp add: no_faults_def)
  ultimately show ?thesis
    using file_store_refines_memory [OF demo_dir_inv, of "RecordBatch [demo_observation 7 1]" no_faults
        "[]" r s'] st
    by (simp add: demo_observation_ok demo_dir_def)
qed

end
