(* ===== verification/Client_Op.thy ===== *)
theory Client_Op
  imports Sequence
begin

text \<open>
  Vocabulary of the effectful code: an \<open>async\<close> operation on a world is a function
  that returns a \<open>Result\<close> and the world it leaves, \<open>op_bind\<close> is the \<open>?\<close> operator on
  it; durations and instants; decimal text of integers.
\<close>

section \<open>Operations on a world\<close>

type_synonym ('w, 'a, 'e) fallible_op = "'w \<Rightarrow> ('a, 'e) result \<times> 'w"
type_synonym ('w, 'a) op = "('w, 'a, client_error) fallible_op"

definition op_return :: "'a \<Rightarrow> ('w, 'a, 'e) fallible_op" where
  "op_return x w = (Ok x, w)"

definition op_fail :: "'e \<Rightarrow> ('w, 'a, 'e) fallible_op" where
  "op_fail e w = (Err e, w)"

definition op_bind ::
  "('w, 'a, 'e) fallible_op \<Rightarrow> ('a \<Rightarrow> ('w, 'b, 'e) fallible_op) \<Rightarrow> ('w, 'b, 'e) fallible_op" where
  "op_bind m f w = (case m w of (Ok x, w') \<Rightarrow> f x w' | (Err e, w') \<Rightarrow> (Err e, w'))"

definition op_lift :: "('a, 'e) result \<Rightarrow> ('w, 'a, 'e) fallible_op" where
  "op_lift r w = (r, w)"

definition op_guard :: "bool \<Rightarrow> 'e \<Rightarrow> ('w, unit, 'e) fallible_op" where
  "op_guard failing e w = (if failing then Err e else Ok (), w)"

lemma op_bind_Ok_iff [ok_iff]:
  "op_bind m f w = (Ok y, w'') \<longleftrightarrow> (\<exists>x w'. m w = (Ok x, w') \<and> f x w' = (Ok y, w''))"
  by (auto simp: op_bind_def split: prod.splits result.splits)

lemma op_bindE:
  assumes "op_bind m f w = (Ok y, w'')"
  obtains x w' where "m w = (Ok x, w')" and "f x w' = (Ok y, w'')"
  using assms by (auto simp: op_bind_Ok_iff)

lemma op_bind_Err_iff:
  "op_bind m f w = (Err e, w'') \<longleftrightarrow>
     m w = (Err e, w'') \<or> (\<exists>x w'. m w = (Ok x, w') \<and> f x w' = (Err e, w''))"
  by (auto simp: op_bind_def split: prod.splits result.splits)

lemma op_return_iff [ok_iff]: "op_return x w = (Ok y, w') \<longleftrightarrow> y = x \<and> w' = w"
  by (auto simp: op_return_def)

lemma op_fail_iff [ok_iff]: "op_fail e w = (Ok y, w') \<longleftrightarrow> False"
  by (simp add: op_fail_def)

lemma op_lift_iff [ok_iff]: "op_lift r w = (Ok y, w') \<longleftrightarrow> r = Ok y \<and> w' = w"
  by (auto simp: op_lift_def)

lemma op_guard_iff [ok_iff]: "op_guard b e w = (Ok u, w') \<longleftrightarrow> \<not> b \<and> w' = w"
  by (auto simp: op_guard_def)

text \<open>
  A property that every step keeps is kept by the composition, whatever the steps return.
\<close>

lemma op_bind_invariant:
  assumes "P w" and "\<And>r v. m w = (r, v) \<Longrightarrow> P v"
    and "\<And>x v r v'. m w = (Ok x, v) \<Longrightarrow> P v \<Longrightarrow> f x v = (r, v') \<Longrightarrow> P v'"
    and "op_bind m f w = (r, w')"
  shows "P w'"
  using assms by (auto simp: op_bind_def split: prod.splits result.splits)

section \<open>Time\<close>

text \<open>
  A \<open>Duration\<close> is a number of nanoseconds, an \<open>Instant\<close> a number of nanoseconds since an
  arbitrary origin, as unbounded naturals: the configuration bounds every duration that is added
  to an instant by five minutes.
\<close>

type_synonym duration = nat
type_synonym instant = nat

definition from_secs :: "nat \<Rightarrow> duration" where
  "from_secs s = s * 1000000000"

definition as_secs :: "duration \<Rightarrow> nat" where
  "as_secs d = d div 1000000000"

lemma as_secs_from_secs [simp]: "as_secs (from_secs s) = s"
  by (simp add: as_secs_def from_secs_def)

definition checked_duration_since :: "instant \<Rightarrow> instant \<Rightarrow> duration option" where
  "checked_duration_since later earlier = (if earlier \<le> later then Some (later - earlier) else None)"

text \<open>
  The clocks and timers of the runtime, over the world. \<open>time::timeout\<close> either lets its
  operation run to the end or abandons it when the time elapses: \<open>rt_elapse\<close> then gives the
  world the abandoned operation leaves, about which nothing is known.
\<close>

record 'w runtime =
  rt_now_seconds :: "'w \<Rightarrow> u64 \<times> 'w"
  rt_instant :: "'w \<Rightarrow> instant \<times> 'w"
  rt_elapse :: "duration \<Rightarrow> 'w \<Rightarrow> 'w option"

definition now_seconds :: "'w runtime \<Rightarrow> ('w, u64) op" where
  "now_seconds T w = (let (t, w') = rt_now_seconds T w in (Ok t, w'))"

definition instant_now :: "'w runtime \<Rightarrow> ('w, instant) op" where
  "instant_now T w = (let (t, w') = rt_instant T w in (Ok t, w'))"

definition op_timeout :: "'w runtime \<Rightarrow> duration \<Rightarrow> string \<Rightarrow> ('w, 'a) op \<Rightarrow> ('w, 'a) op" where
  "op_timeout T d message m w =
     (case rt_elapse T d w of Some w' \<Rightarrow> (Err (Timeout message), w') | None \<Rightarrow> m w)"

lemma op_timeout_Ok [ok_iff]:
  "op_timeout T d message m w = (Ok x, w') \<longleftrightarrow> rt_elapse T d w = None \<and> m w = (Ok x, w')"
  by (auto simp: op_timeout_def split: option.splits)

text \<open>Protocol errors inside client operations.\<close>

definition op_protocol :: "'a presult \<Rightarrow> ('w, 'a) op" where
  "op_protocol r = op_lift (map_err Protocol r)"

lemma op_protocol_iff [ok_iff]: "op_protocol r w = (Ok x, w') \<longleftrightarrow> r = Ok x \<and> w' = w"
  by (auto simp: op_protocol_def ok_iff)

lemmas op_Ok = op_bind_Ok_iff op_return_iff op_fail_iff op_lift_iff op_guard_iff op_timeout_Ok
  op_protocol_iff

section \<open>Decimal text\<close>

definition digit_char :: "nat \<Rightarrow> char" where
  "digit_char d = char_of (48 + d)"

fun show_nat :: "nat \<Rightarrow> string" where
  "show_nat n = (if n < 10 then [digit_char n] else show_nat (n div 10) @ [digit_char (n mod 10)])"

declare show_nat.simps [simp del]

end
