(* ===== verification/Peer_Stream.thy ===== *)
theory Peer_Stream
  imports Client_Op
begin

text \<open>
  Framed messages on a QUIC stream and the authenticated \<open>Peer\<close>
  (\<open>crates/client/src/peer.rs\<close>, and the framing helpers at the end of
  \<open>crates/client/src/v1_peer.rs\<close>). The streams and the connection are iroh's: their
  operations are the fields of the record \<open>quic\<close>, over opaque stream and connection states.
\<close>

section \<open>The transport\<close>

text \<open>
  \<open>time::timeout\<close> around an operation of the transport gives \<open>None\<close> when the time elapsed.
\<close>

record iroh_path =
  path_is_selected :: bool
  path_is_ip :: bool
  path_is_relay :: bool

record ('s, 'r, 'c) quic =
  q_write_all :: "'s \<Rightarrow> bytes \<Rightarrow> (unit, string) result \<times> 's"
  q_flush :: "duration \<Rightarrow> 's \<Rightarrow> (unit, string) result option \<times> 's"
  q_finish :: "'s \<Rightarrow> (unit, string) result \<times> 's"
  q_stopped :: "duration \<Rightarrow> 's \<Rightarrow> (nat option, string) result option"
  q_read_exact :: "'r \<Rightarrow> nat \<Rightarrow> (bytes, string) result \<times> 'r"
  q_read_one :: "duration \<Rightarrow> 'r \<Rightarrow> (nat option, string) result option \<times> 'r"
  q_close :: "'c \<Rightarrow> nat \<Rightarrow> string \<Rightarrow> 'c"
  q_paths :: "'c \<Rightarrow> iroh_path list"

text \<open>
  What iroh documents: a QUIC stream delivers the bytes written, in order. \<open>sent s\<close> is what
  was written to the stream, \<open>avail r\<close> what the stream still delivers before its end.
  \<open>write_all\<close> writes everything or fails after some prefix; \<open>read_exact\<close> gives exactly the
  next \<open>n\<close> bytes, or fails when the stream ends before.
\<close>

definition send_stream_law :: "('s, 'r, 'c) quic \<Rightarrow> ('s \<Rightarrow> bytes) \<Rightarrow> bool" where
  "send_stream_law Q sent =
     (\<forall>s b. case q_write_all Q s b of
        (Ok _, s') \<Rightarrow> sent s' = sent s @ b
      | (Err _, s') \<Rightarrow> (\<exists>n \<le> length b. sent s' = sent s @ take n b))"

definition recv_stream_law :: "('s, 'r, 'c) quic \<Rightarrow> ('r \<Rightarrow> bytes) \<Rightarrow> bool" where
  "recv_stream_law Q avail =
     (\<forall>r n. case q_read_exact Q r n of
        (Ok b, r') \<Rightarrow> n \<le> length (avail r) \<and> b = take n (avail r) \<and> avail r' = drop n (avail r)
      | (Err _, r') \<Rightarrow> length (avail r) < n)"

section \<open>Frames\<close>

definition u32_to_be_bytes :: "u32 \<Rightarrow> bytes" where
  "u32_to_be_bytes w =
     [of_nat (unat w div 2 ^ 24), of_nat (unat w div 2 ^ 16), of_nat (unat w div 2 ^ 8), of_nat (unat w)]"

definition u32_from_be_bytes :: "bytes \<Rightarrow> u32" where
  "u32_from_be_bytes b = of_nat (foldl (\<lambda>n d. n * 256 + unat d) 0 b)"

text \<open>\<open>u32::try_from(len)\<close>.\<close>

definition u32_try_from :: "nat \<Rightarrow> u32 option" where
  "u32_try_from n = (if n < 2 ^ 32 then Some (of_nat n) else None)"

definition write_all :: "('s, 'r, 'c) quic \<Rightarrow> bytes \<Rightarrow> ('s, unit) op" where
  "write_all Q b s = (let (result, s') = q_write_all Q s b in (map_err Iroh result, s'))"

definition read_exact :: "('s, 'r, 'c) quic \<Rightarrow> nat \<Rightarrow> ('r, bytes) op" where
  "read_exact Q n r = (let (result, r') = q_read_exact Q r n in (map_err Iroh result, r'))"

definition write_frame :: "('s, 'r, 'c) quic \<Rightarrow> string \<Rightarrow> bytes \<Rightarrow> ('s, unit) op" where
  "write_frame Q too_large b =
     op_bind (op_lift (ok_or (u32_try_from (length b)) (Iroh too_large))) (\<lambda>len.
     op_bind (write_all Q (u32_to_be_bytes len)) (\<lambda>_.
     write_all Q b))"

definition read_frame :: "('s, 'r, 'c) quic \<Rightarrow> string \<Rightarrow> nat \<Rightarrow> ('r, bytes) op" where
  "read_frame Q what maximum =
     op_bind (read_exact Q 4) (\<lambda>encoded_length.
     let len = unat (u32_from_be_bytes encoded_length)
     in op_bind (op_guard (len > maximum)
          (Iroh (what @ '' exceeds the '' @ show_nat maximum @ '' byte limit''))) (\<lambda>_.
     read_exact Q len))"

text \<open>The two copies of the helpers differ in the texts of their errors.\<close>

definition write_bytes :: "('s, 'r, 'c) quic \<Rightarrow> bytes \<Rightarrow> ('s, unit) op" where
  "write_bytes Q = write_frame Q ''QUIC message is too large''"

definition read_bytes :: "('s, 'r, 'c) quic \<Rightarrow> nat \<Rightarrow> ('r, bytes) op" where
  "read_bytes Q = read_frame Q ''peer message''"

definition v1_write_bytes :: "('s, 'r, 'c) quic \<Rightarrow> bytes \<Rightarrow> ('s, unit) op" where
  "v1_write_bytes Q = write_frame Q ''v1 QUIC frame is too large''"

definition v1_read_bytes :: "('s, 'r, 'c) quic \<Rightarrow> nat \<Rightarrow> ('r, bytes) op" where
  "v1_read_bytes Q = read_frame Q ''v1 peer frame''"

definition write_json ::
  "env \<Rightarrow> ('s, 'r, 'c) quic \<Rightarrow> ('a \<Rightarrow> json) \<Rightarrow> 'a \<Rightarrow> nat \<Rightarrow> ('s, unit) op" where
  "write_json E Q ser_value v maximum =
     op_bind (op_lift (ok_or (json_to_vec E (ser_value v)) (Iroh ''JSON serialization failed''))) (\<lambda>b.
     op_bind (op_guard (length b > maximum) (Iroh ''v1 QUIC control message exceeds byte limit'')) (\<lambda>_.
     v1_write_bytes Q b))"

definition read_json ::
  "env \<Rightarrow> ('s, 'r, 'c) quic \<Rightarrow> (json \<Rightarrow> 'a option) \<Rightarrow> nat \<Rightarrow> ('r, 'a) op" where
  "read_json E Q de_value maximum =
     op_bind (v1_read_bytes Q maximum) (\<lambda>b.
     op_lift (ok_or (Option.bind (json_from_slice E b) de_value)
       (Iroh ''malformed v1 QUIC control message'')))"

section \<open>Peers\<close>

datatype connection_path = Direct | Relayed | UnknownPath

record ('s, 'r, 'c) peer =
  connection :: 'c
  send :: "'s option"
  recv :: 'r
  session_id :: bytes
  remote_identity :: string
  remote_device_id :: string
  max_message_bytes :: nat

definition peer_new ::
  "'c \<Rightarrow> 's \<Rightarrow> 'r \<Rightarrow> bytes \<Rightarrow> string \<Rightarrow> string \<Rightarrow> nat \<Rightarrow> ('s, 'r, 'c) peer" where
  "peer_new c s r sid identity device maximum =
     \<lparr>connection = c, send = Some s, recv = r, session_id = sid, remote_identity = identity,
      remote_device_id = device, max_message_bytes = maximum\<rparr>"

text \<open>
  The send stream is locked for a whole operation, so an operation is one step. On \<open>None\<close> it
  was taken by \<open>finish\<close> or \<open>close\<close>.
\<close>

definition on_send :: "('s, 'a) op \<Rightarrow> (('s, 'r, 'c) peer, 'a) op" where
  "on_send m p =
     (case send p of
        None \<Rightarrow> (Err ChannelClosed, p)
      | Some s \<Rightarrow> (let (result, s') = m s in (result, p\<lparr>send := Some s'\<rparr>)))"

definition on_recv :: "('r, 'a) op \<Rightarrow> (('s, 'r, 'c) peer, 'a) op" where
  "on_recv m p = (let (result, r') = m (recv p) in (result, p\<lparr>recv := r'\<rparr>))"

definition peer_send :: "('s, 'r, 'c) quic \<Rightarrow> bytes \<Rightarrow> (('s, 'r, 'c) peer, unit) op" where
  "peer_send Q data p =
     (if length data > max_message_bytes p
      then (Err (Iroh (''message exceeds the '' @ show_nat (max_message_bytes p) @ '' byte limit'')), p)
      else on_send (write_bytes Q data) p)"

definition peer_send_text :: "('s, 'r, 'c) quic \<Rightarrow> string \<Rightarrow> (('s, 'r, 'c) peer, unit) op" where
  "peer_send_text Q s = peer_send Q (as_bytes s)"

definition peer_recv :: "('s, 'r, 'c) quic \<Rightarrow> (('s, 'r, 'c) peer, bytes) op" where
  "peer_recv Q p = on_recv (read_bytes Q (max_message_bytes p)) p"

definition path_kind :: "iroh_path \<Rightarrow> connection_path" where
  "path_kind x = (if path_is_ip x then Direct else if path_is_relay x then Relayed else UnknownPath)"

definition selected_of :: "iroh_path list \<Rightarrow> connection_path" where
  "selected_of paths =
     (case find path_is_selected paths of None \<Rightarrow> UnknownPath | Some x \<Rightarrow> path_kind x)"

definition selected_path :: "('s, 'r, 'c) quic \<Rightarrow> 'c \<Rightarrow> connection_path" where
  "selected_path Q c = selected_of (q_paths Q c)"

definition peer_path :: "('s, 'r, 'c) quic \<Rightarrow> ('s, 'r, 'c) peer \<Rightarrow> connection_path" where
  "peer_path Q p = selected_path Q (connection p)"

text \<open>
  \<open>wait_for_path\<close>: the snapshots the stream of paths gives before the time elapses, and
  whether it ended by then; the connection's own state when the time elapsed is \<open>p\<close>.
\<close>

fun wait_for_path_loop :: "connection_path \<Rightarrow> iroh_path list list \<Rightarrow> connection_path option" where
  "wait_for_path_loop preferred [] = None"
| "wait_for_path_loop preferred (snapshot # snapshots) =
     (if selected_of snapshot = preferred then Some preferred
      else wait_for_path_loop preferred snapshots)"

definition wait_for_path ::
  "('s, 'r, 'c) quic \<Rightarrow> connection_path \<Rightarrow> iroh_path list list \<Rightarrow> bool \<Rightarrow> ('s, 'r, 'c) peer \<Rightarrow>
   connection_path" where
  "wait_for_path Q preferred snapshots ended p =
     (case wait_for_path_loop preferred snapshots of
        Some found \<Rightarrow> found
      | None \<Rightarrow> if ended then UnknownPath else peer_path Q p)"

definition peer_flush :: "('s, 'r, 'c) quic \<Rightarrow> duration \<Rightarrow> (('s, 'r, 'c) peer, unit) op" where
  "peer_flush Q timeout =
     on_send (\<lambda>s. let (result, s') = q_flush Q timeout s
       in (case result of
             None \<Rightarrow> Err (Timeout ''flushing peer QUIC stream'')
           | Some r \<Rightarrow> map_err Iroh r, s'))"

definition peer_finish :: "('s, 'r, 'c) quic \<Rightarrow> duration \<Rightarrow> (('s, 'r, 'c) peer, unit) op" where
  "peer_finish Q timeout p =
     (case send p of
        None \<Rightarrow> (Err ChannelClosed, p)
      | Some s \<Rightarrow>
          (let (finished, s') = q_finish Q s
           in (and_then (map_err Iroh finished) (\<lambda>_.
               case q_stopped Q timeout s' of
                 None \<Rightarrow> Err (Timeout ''draining peer QUIC stream'')
               | Some (Err e) \<Rightarrow> Err (Iroh e)
               | Some (Ok (Some code)) \<Rightarrow>
                   Err (Iroh (''peer stopped QUIC stream with code '' @ show_nat code))
               | Some (Ok None) \<Rightarrow> Ok ()),
               p\<lparr>send := None\<rparr>)))"

definition wait_for_peer_finish :: "('s, 'r, 'c) quic \<Rightarrow> duration \<Rightarrow> (('s, 'r, 'c) peer, unit) op" where
  "wait_for_peer_finish Q timeout =
     on_recv (\<lambda>r. let (result, r') = q_read_one Q timeout r
       in (case result of
             None \<Rightarrow> Err (Timeout ''waiting for peer QUIC stream finish'')
           | Some (Err e) \<Rightarrow> Err (Iroh e)
           | Some (Ok None) \<Rightarrow> Ok ()
           | Some (Ok (Some n)) \<Rightarrow>
               if n = 0 then Ok ()
               else Err (Iroh ''peer sent trailing bytes after the close handshake''), r'))"

text \<open>
  The stream taken by \<open>close\<close> is finished on a best-effort basis and dropped: its state is no
  longer part of the peer.
\<close>

definition peer_close :: "('s, 'r, 'c) quic \<Rightarrow> (('s, 'r, 'c) peer, unit) op" where
  "peer_close Q p =
     (Ok (), p\<lparr>send := None, connection := q_close Q (connection p) 0 ''application closed''\<rparr>)"

definition peer_drop :: "('s, 'r, 'c) quic \<Rightarrow> ('s, 'r, 'c) peer \<Rightarrow> 'c" where
  "peer_drop Q p = q_close Q (connection p) 0 ''peer dropped''"

section \<open>Codec of frames\<close>

definition frame :: "bytes \<Rightarrow> bytes" where
  "frame b = u32_to_be_bytes (of_nat (length b)) @ b"

lemma length_u32_to_be_bytes [simp]: "length (u32_to_be_bytes w) = 4"
  by (simp add: u32_to_be_bytes_def)

lemma unat_of_nat_byte: "unat (of_nat n :: byte) = n mod 256"
  by (simp add: unat_of_nat)

lemma be_digits: "n < 2 ^ 32 \<Longrightarrow>
   ((n div 2 ^ 24 mod 256 * 256 + n div 2 ^ 16 mod 256) * 256 + n div 2 ^ 8 mod 256) * 256 + n mod 256
     = (n :: nat)"
proof -
  assume n: "n < 2 ^ 32"
  have "n div 2 ^ 16 = n div 2 ^ 24 * 256 + n div 2 ^ 16 mod 256"
    "n div 2 ^ 8 = n div 2 ^ 16 * 256 + n div 2 ^ 8 mod 256" "n = n div 2 ^ 8 * 256 + n mod 256"
    using div_mult_mod_eq [of "n div 2 ^ 16" 256] div_mult_mod_eq [of "n div 2 ^ 8" 256]
      div_mult_mod_eq [of n 256]
    by (simp_all flip: div_mult2_eq add: mult.commute)
  moreover have "n div 2 ^ 24 mod 256 = n div 2 ^ 24" using n by simp
  ultimately show ?thesis by metis
qed

lemma unat_be_bytes:
  "unat (u32_from_be_bytes [b0, b1, b2, b3])
     = ((unat b0 * 256 + unat b1) * 256 + unat b2) * 256 + unat b3"
proof -
  have "unat b0 < 256" "unat b1 < 256" "unat b2 < 256" "unat b3 < 256"
    using unat_lt_2p [of b0] unat_lt_2p [of b1] unat_lt_2p [of b2] unat_lt_2p [of b3] by simp_all
  then have "((unat b0 * 256 + unat b1) * 256 + unat b2) * 256 + unat b3 < 2 ^ 32" by simp
  then show ?thesis
    unfolding u32_from_be_bytes_def
    by (simp only: foldl.simps unat_of_nat mult_0 add_0) simp
qed

lemma u32_from_to_be_bytes [simp]: "u32_from_be_bytes (u32_to_be_bytes w) = w"
proof -
  have "unat w < 2 ^ 32" using unat_lt_2p [of w] by simp
  note be_digits [OF this]
  then have "unat (u32_from_be_bytes (u32_to_be_bytes w)) = unat w"
    by (simp only: u32_to_be_bytes_def unat_be_bytes unat_of_nat_byte)
  then show ?thesis by (simp add: word_unat_eq_iff)
qed

lemma u32_to_from_be_bytes:
  assumes "length b = 4"
  shows "u32_to_be_bytes (u32_from_be_bytes b) = b"
proof -
  obtain b0 b1 b2 b3 where b: "b = [b0, b1, b2, b3]"
    using assms by (auto simp: numeral_eq_Suc length_Suc_conv)
  have lt: "unat b0 < 256" "unat b1 < 256" "unat b2 < 256" "unat b3 < 256"
    using unat_lt_2p [of b0] unat_lt_2p [of b1] unat_lt_2p [of b2] unat_lt_2p [of b3] by simp_all
  let ?n = "((unat b0 * 256 + unat b1) * 256 + unat b2) * 256 + unat b3"
  have "unat (u32_from_be_bytes b) = ?n" by (simp only: b unat_be_bytes)
  moreover have "?n div 2 ^ 24 = unat b0" "?n div 2 ^ 16 = unat b0 * 256 + unat b1"
    "?n div 2 ^ 8 = (unat b0 * 256 + unat b1) * 256 + unat b2" using lt by simp_all
  moreover have "(of_nat (x * 256 + y) :: byte) = of_nat y" for x y
    by (simp only: word_unat_eq_iff unat_of_nat_byte) simp
  ultimately show ?thesis
    by (simp only: u32_to_be_bytes_def b) (simp add: word_unat_eq_iff unat_of_nat_byte)
qed

lemma length_frame [simp]: "length (frame b) = 4 + length b"
  by (simp add: frame_def)

lemma u32_try_from_Some_iff: "u32_try_from n = Some w \<longleftrightarrow> n < 2 ^ 32 \<and> w = of_nat n"
  by (auto simp: u32_try_from_def)

section \<open>Frames on a stream\<close>

lemma write_all_sent:
  assumes "send_stream_law Q sent" and "write_all Q b s = (Ok u, s')"
  shows "sent s' = sent s @ b"
proof -
  obtain r where "q_write_all Q s b = (r, s')" "r = Ok ()"
    using assms(2) by (auto simp: write_all_def ok_iff split: prod.splits)
  with assms(1) show ?thesis unfolding send_stream_law_def by (metis (mono_tags) case_prod_conv result.simps(5))
qed

lemma write_frame_sent:
  assumes "send_stream_law Q sent" and "write_frame Q msg b s = (Ok u, s')"
  shows "sent s' = sent s @ frame b" and "length b < 2 ^ 32"
proof -
  obtain s1 where len: "length b < 2 ^ 32"
    and w: "write_all Q (u32_to_be_bytes (of_nat (length b))) s = (Ok (), s1)"
      "write_all Q b s1 = (Ok (), s')"
    using assms(2) by (auto simp: write_frame_def ok_iff u32_try_from_Some_iff)
  show "sent s' = sent s @ frame b"
    using write_all_sent [OF assms(1) w(1)] write_all_sent [OF assms(1) w(2)] by (simp add: frame_def)
  show "length b < 2 ^ 32" by (rule len)
qed

lemma read_exact_Ok_iff:
  assumes "recv_stream_law Q avail"
  shows "(\<exists>r'. read_exact Q n r = (Ok b, r')) \<longleftrightarrow> n \<le> length (avail r) \<and> b = take n (avail r)"
    and "read_exact Q n r = (Ok b, r') \<Longrightarrow>
      n \<le> length (avail r) \<and> b = take n (avail r) \<and> avail r' = drop n (avail r)"
proof -
  obtain x v where q: "q_read_exact Q r n = (x, v)" by fastforce
  then have law: "case x of Ok b \<Rightarrow> n \<le> length (avail r) \<and> b = take n (avail r) \<and> avail v = drop n (avail r)
      | Err _ \<Rightarrow> length (avail r) < n"
    using assms unfolding recv_stream_law_def by (metis (mono_tags) case_prod_conv)
  then show "(\<exists>r'. read_exact Q n r = (Ok b, r')) \<longleftrightarrow> n \<le> length (avail r) \<and> b = take n (avail r)"
    using q by (cases x) (auto simp: read_exact_def)
  assume "read_exact Q n r = (Ok b, r')"
  then show "n \<le> length (avail r) \<and> b = take n (avail r) \<and> avail r' = drop n (avail r)"
    using q law by (cases x) (auto simp: read_exact_def)
qed

text \<open>
  Reading a frame succeeds exactly on the frame of a message within the limit, and consumes
  exactly this frame.
\<close>

lemma read_frame_Ok:
  assumes law: "recv_stream_law Q avail" and ok: "read_frame Q msg maximum r = (Ok b, r')"
  shows "length b \<le> maximum \<and> length b < 2 ^ 32 \<and> avail r = frame b @ avail r'"
proof -
  obtain h r1 where h: "read_exact Q 4 r = (Ok h, r1)"
    and n: "unat (u32_from_be_bytes h) \<le> maximum"
    and b: "read_exact Q (unat (u32_from_be_bytes h)) r1 = (Ok b, r')"
    using ok by (auto simp: read_frame_def ok_iff Let_def)
  note h' = read_exact_Ok_iff(2) [OF law h] and b' = read_exact_Ok_iff(2) [OF law b]
  have len: "length h = 4" "length b = unat (u32_from_be_bytes h)" using h' b' by auto
  have "of_nat (length b) = u32_from_be_bytes h" by (simp add: len)
  then have "frame b = h @ b" by (simp add: frame_def u32_to_from_be_bytes len)
  moreover have "avail r = h @ avail r1" "avail r1 = b @ avail r'"
    using h' b' by (metis append_take_drop_id)+
  moreover have "length b < 2 ^ 32" using len unat_lt_2p [of "u32_from_be_bytes h"] by simp
  ultimately show ?thesis using n len by simp
qed

lemma read_frame_frame:
  assumes law: "recv_stream_law Q avail" and av: "avail r = frame b @ rest"
    and len: "length b \<le> maximum" "length b < 2 ^ 32"
  shows "\<exists>r'. read_frame Q msg maximum r = (Ok b, r') \<and> avail r' = rest"
proof -
  let ?h = "u32_to_be_bytes (of_nat (length b))"
  obtain r1 where h: "read_exact Q 4 r = (Ok ?h, r1)"
    using read_exact_Ok_iff(1) [OF law, of 4 r ?h] av by (auto simp: frame_def)
  have a1: "avail r1 = b @ rest" using read_exact_Ok_iff(2) [OF law h] av by (simp add: frame_def)
  have n: "unat (of_nat (length b) :: u32) = length b" using len by (simp add: unat_of_nat)
  obtain r2 where r2: "read_exact Q (length b) r1 = (Ok b, r2)"
    using read_exact_Ok_iff(1) [OF law, of "length b" r1 b] a1 by auto
  have "avail r2 = rest" using read_exact_Ok_iff(2) [OF law r2] a1 by simp
  moreover have "read_frame Q msg maximum r = (Ok b, r2)"
    using h r2 n len by (simp add: read_frame_def op_bind_def op_guard_def Let_def)
  ultimately show ?thesis by blast
qed

lemma read_frame_too_long:
  assumes law: "recv_stream_law Q avail" and "avail r = h @ rest" "length h = 4"
    and "maximum < unat (u32_from_be_bytes h)"
  shows "\<exists>r'. read_frame Q msg maximum r
      = (Err (Iroh (msg @ '' exceeds the '' @ show_nat maximum @ '' byte limit'')), r') \<and> avail r' = rest"
proof -
  obtain r1 where h: "read_exact Q 4 r = (Ok h, r1)"
    using read_exact_Ok_iff(1) [OF law, of 4 r h] assms by auto
  moreover have "avail r1 = rest" using read_exact_Ok_iff(2) [OF law h] assms by simp
  ultimately show ?thesis
    using assms(4) by (auto simp: read_frame_def op_bind_def op_guard_def Let_def)
qed

section \<open>Control messages\<close>

lemma write_json_Ok:
  assumes "send_stream_law Q sent" and "write_json E Q ser_value v maximum s = (Ok u, s')"
  shows "\<exists>b. json_to_vec E (ser_value v) = Some b \<and> length b \<le> maximum \<and> length b < 2 ^ 32 \<and>
    sent s' = sent s @ frame b"
  using assms write_frame_sent [OF assms(1)]
  by (fastforce simp: write_json_def v1_write_bytes_def ok_iff)

lemma read_json_Ok:
  assumes "recv_stream_law Q avail" and "read_json E Q de_value maximum r = (Ok v, r')"
  shows "\<exists>b. length b \<le> maximum \<and> avail r = frame b @ avail r' \<and>
    Option.bind (json_from_slice E b) de_value = Some v"
  using assms read_frame_Ok [OF assms(1)]
  by (fastforce simp: read_json_def v1_read_bytes_def ok_iff)

lemma read_json_frame:
  assumes law: "recv_stream_law Q avail" and av: "avail r = frame b @ rest"
    and len: "length b \<le> maximum" "length b < 2 ^ 32"
    and de: "Option.bind (json_from_slice E b) de_value = Some v"
  shows "\<exists>r'. read_json E Q de_value maximum r = (Ok v, r') \<and> avail r' = rest"
proof -
  obtain r' where "read_frame Q ''v1 peer frame'' maximum r = (Ok b, r')" "avail r' = rest"
    using read_frame_frame [OF law av len] by blast
  then show ?thesis by (auto simp: read_json_def v1_read_bytes_def op_bind_def op_lift_def de)
qed

section \<open>Sequences of messages\<close>

fun send_all :: "('s, 'r, 'c) quic \<Rightarrow> bytes list \<Rightarrow> (('s, 'r, 'c) peer, unit) op" where
  "send_all Q [] = op_return ()"
| "send_all Q (m # ms) = op_bind (peer_send Q m) (\<lambda>_. send_all Q ms)"

fun recv_all :: "('s, 'r, 'c) quic \<Rightarrow> nat \<Rightarrow> (('s, 'r, 'c) peer, bytes list) op" where
  "recv_all Q 0 = op_return []"
| "recv_all Q (Suc n) =
     op_bind (peer_recv Q) (\<lambda>m. op_bind (recv_all Q n) (\<lambda>ms. op_return (m # ms)))"

lemma peer_send_Ok:
  assumes "send_stream_law Q sent" and "peer_send Q m p = (Ok u, p')"
  shows "\<exists>s s'. send p = Some s \<and> p' = p\<lparr>send := Some s'\<rparr> \<and> sent s' = sent s @ frame m \<and>
    length m \<le> max_message_bytes p \<and> length m < 2 ^ 32"
proof -
  obtain s s' where "send p = Some s" "write_frame Q ''QUIC message is too large'' m s = (Ok (), s')"
    "p' = p\<lparr>send := Some s'\<rparr>" "length m \<le> max_message_bytes p"
    using assms(2) by (auto simp: peer_send_def on_send_def write_bytes_def split: if_splits option.splits prod.splits)
  then show ?thesis using write_frame_sent [OF assms(1)] by blast
qed

lemma send_all_Ok:
  assumes "send_stream_law Q sent" and "send_all Q ms p = (Ok u, p')" and "send p = Some s"
  shows "\<exists>s'. p' = p\<lparr>send := Some s'\<rparr> \<and> sent s' = sent s @ concat (map frame ms) \<and>
    list_all (\<lambda>m. length m \<le> max_message_bytes p \<and> length m < 2 ^ 32) ms"
  using assms(2,3)
proof (induction ms arbitrary: p s)
  case Nil
  then have "p' = p\<lparr>send := Some s\<rparr>" by (simp add: ok_iff)
  then show ?case by (intro exI [of _ s]) simp
next
  case (Cons m ms)
  obtain p1 where m: "peer_send Q m p = (Ok (), p1)" and rest: "send_all Q ms p1 = (Ok u, p')"
    using Cons.prems(1) by (auto simp: ok_iff)
  obtain s1 where s1: "p1 = p\<lparr>send := Some s1\<rparr>" "sent s1 = sent s @ frame m"
      "length m \<le> max_message_bytes p" "length m < 2 ^ 32"
    using peer_send_Ok [OF assms(1) m] Cons.prems(2) by auto
  obtain s' where s': "p' = p1\<lparr>send := Some s'\<rparr>" "sent s' = sent s1 @ concat (map frame ms)"
      "list_all (\<lambda>m. length m \<le> max_message_bytes p1 \<and> length m < 2 ^ 32) ms"
    using Cons.IH [OF rest, of s1] s1(1) by auto
  then show ?case using s1 by (intro exI [of _ s']) simp
qed

lemma recv_all_frames:
  assumes law: "recv_stream_law Q avail"
    and "list_all (\<lambda>m. length m \<le> max_message_bytes p \<and> length m < 2 ^ 32) ms"
    and "avail (recv p) = concat (map frame ms) @ rest"
  shows "\<exists>r'. recv_all Q (length ms) p = (Ok ms, p\<lparr>recv := r'\<rparr>) \<and> avail r' = rest"
  using assms(2,3)
proof (induction ms arbitrary: p)
  case Nil
  then show ?case by (intro exI [of _ "recv p"]) (simp add: op_return_def)
next
  case (Cons m ms)
  obtain r1 where r1: "read_frame Q ''peer message'' (max_message_bytes p) (recv p) = (Ok m, r1)"
      "avail r1 = concat (map frame ms) @ rest"
    using read_frame_frame [OF law, of "recv p" m "concat (map frame ms) @ rest"] Cons.prems by auto
  obtain r' where "recv_all Q (length ms) (p\<lparr>recv := r1\<rparr>) = (Ok ms, p\<lparr>recv := r'\<rparr>)" "avail r' = rest"
    using Cons.IH [of "p\<lparr>recv := r1\<rparr>"] Cons.prems r1(2) by auto
  then show ?case
    using r1(1) by (auto simp: peer_recv_def on_recv_def read_bytes_def op_bind_def op_return_def)
qed

text \<open>What a peer receives: messages within its limit, each the contents of one frame.\<close>

lemma recv_all_Ok:
  assumes law: "recv_stream_law Q avail" and "recv_all Q n p = (Ok ms, p')"
  shows "length ms = n \<and> avail (recv p) = concat (map frame ms) @ avail (recv p') \<and>
    list_all (\<lambda>m. length m \<le> max_message_bytes p) ms"
  using assms(2)
proof (induction n arbitrary: p ms)
  case 0
  then show ?case by (simp add: ok_iff)
next
  case (Suc n)
  obtain m p1 ms' where m: "peer_recv Q p = (Ok m, p1)" and ms': "recv_all Q n p1 = (Ok ms', p')"
    and ms: "ms = m # ms'" using Suc.prems by (auto simp: ok_iff)
  obtain r1 where r1: "read_frame Q ''peer message'' (max_message_bytes p) (recv p) = (Ok m, r1)"
      "p1 = p\<lparr>recv := r1\<rparr>"
    using m by (auto simp: peer_recv_def on_recv_def read_bytes_def split: prod.splits)
  then show ?case using read_frame_Ok [OF law r1(1)] Suc.IH [OF ms'] ms by simp
qed

section \<open>Closing\<close>

text \<open>One call of the interface of a peer, whatever it returns.\<close>

inductive peer_step :: "('s, 'r, 'c) quic \<Rightarrow> ('s, 'r, 'c) peer \<Rightarrow> ('s, 'r, 'c) peer \<Rightarrow> bool" for Q where
  step_send: "peer_step Q p (snd (peer_send Q data p))"
| step_send_text: "peer_step Q p (snd (peer_send_text Q s p))"
| step_recv: "peer_step Q p (snd (peer_recv Q p))"
| step_flush: "peer_step Q p (snd (peer_flush Q timeout p))"
| step_finish: "peer_step Q p (snd (peer_finish Q timeout p))"
| step_wait_finish: "peer_step Q p (snd (wait_for_peer_finish Q timeout p))"
| step_close: "peer_step Q p (snd (peer_close Q p))"

lemmas peer_op_defs = peer_send_def peer_send_text_def peer_recv_def peer_flush_def peer_finish_def
  wait_for_peer_finish_def peer_close_def on_send_def on_recv_def

lemma peer_step_closed:
  assumes "peer_step Q p p'" and "send p = None"
  shows "send p' = None"
  using assms by cases (auto simp: peer_op_defs split: prod.splits)

lemma peer_step_names:
  assumes "peer_step Q p p'"
  shows "session_id p' = session_id p" "remote_identity p' = remote_identity p"
    "remote_device_id p' = remote_device_id p" "max_message_bytes p' = max_message_bytes p"
  using assms by (cases; auto simp: peer_op_defs Let_def split: prod.splits option.splits)+

lemma peer_steps_closed:
  "(peer_step Q)\<^sup>*\<^sup>* p p' \<Longrightarrow> send p = None \<Longrightarrow> send p' = None"
  by (induction rule: rtranclp_induct) (auto dest: peer_step_closed)

lemma peer_steps_names:
  assumes "(peer_step Q)\<^sup>*\<^sup>* p p'"
  shows "session_id p' = session_id p \<and> remote_identity p' = remote_identity p \<and>
    remote_device_id p' = remote_device_id p \<and> max_message_bytes p' = max_message_bytes p"
  using assms by (induction rule: rtranclp_induct) (simp_all add: peer_step_names)

lemma send_closed: "send p = None \<Longrightarrow> length data \<le> max_message_bytes p \<Longrightarrow>
   peer_send Q data p = (Err ChannelClosed, p)"
  by (simp add: peer_send_def on_send_def)

end
