(* ===== verification/Pending_Queue.thy ===== *)
theory Pending_Queue
  imports Peer_Stream "HOL-Library.Multiset"
begin

text \<open>
  The queue of authenticated Hellos that wait for consent (\<open>PendingV1\<close>, \<open>IncomingV1\<close> and
  \<open>PendingQueue\<close> of \<open>crates/client/src/v1_peer.rs\<close>). The mutex makes every operation one
  step. An \<open>IncomingV1\<close> that leaves the queue without being handed out is dropped, which closes
  its connection: every operation returns what it dropped.
\<close>

section \<open>Data\<close>

record resolved_v1_device =
  rd_path :: string
  rd_record :: v1_device_record

text \<open>
  \<open>expiry_cancel\<close> is whether the sender half of the cancel channel is held; the resolver is
  shared by all entries and part of the world; the semaphore permit that an entry owns is counted in
  theory Accept\_Loop.
\<close>

record ('s, 'r, 'c) pending_v1 =
  pd_connection :: 'c
  pd_send :: 's
  pd_recv :: 'r
  pd_local :: v1_device_credential
  pd_sender :: resolved_v1_device
  pd_target :: resolved_v1_device
  pd_hello :: v1_signed_hello
  pd_max_message_bytes :: nat
  pd_allow_insecure_loopback_relay :: bool
  pd_deadline :: instant
  pd_expiry_cancel :: bool

record ('s, 'r, 'c) incoming_v1 =
  in_pending :: "('s, 'r, 'c) pending_v1 option"

definition incoming_identity :: "('s, 'r, 'c) incoming_v1 \<Rightarrow> string" where
  "incoming_identity inc =
     (case in_pending inc of None \<Rightarrow> [] | Some p \<Rightarrow> hc_from_identity (h_claims (pd_hello p)))"

definition incoming_device_id :: "('s, 'r, 'c) incoming_v1 \<Rightarrow> string" where
  "incoming_device_id inc =
     (case in_pending inc of None \<Rightarrow> [] | Some p \<Rightarrow> hc_from_device_id (h_claims (pd_hello p)))"

definition incoming_application :: "('s, 'r, 'c) incoming_v1 \<Rightarrow> string" where
  "incoming_application inc =
     (case in_pending inc of None \<Rightarrow> [] | Some p \<Rightarrow> hc_application (h_claims (pd_hello p)))"

record ('s, 'r, 'c) pending_queue =
  pq_order :: "string list"
  pq_entries :: "(string, ('s, 'r, 'c) incoming_v1) hash_map"
  pq_per_identity :: "(string, nat) hash_map"
  pq_closed :: bool
  pq_capacity :: nat
  pq_per_identity_capacity :: nat

section \<open>Operations\<close>

definition pq_new :: "nat \<Rightarrow> nat \<Rightarrow> ('s, 'r, 'c) pending_queue" where
  "pq_new capacity per_identity_capacity =
     \<lparr>pq_order = [], pq_entries = [], pq_per_identity = [], pq_closed = False,
      pq_capacity = capacity, pq_per_identity_capacity = per_identity_capacity\<rparr>"

definition decrement_identity :: "string \<Rightarrow> (string, nat) hash_map \<Rightarrow> (string, nat) hash_map" where
  "decrement_identity identity m =
     (case map_of m identity of
        None \<Rightarrow> m
      | Some n \<Rightarrow>
          let n' = n - 1
          in if n' = 0 then AList.delete identity m else AList.update identity n' m)"

definition pq_remove ::
  "string \<Rightarrow> ('s, 'r, 'c) pending_queue \<Rightarrow> ('s, 'r, 'c) incoming_v1 option \<times> ('s, 'r, 'c) pending_queue" where
  "pq_remove key q =
     (case map_of (pq_entries q) key of
        None \<Rightarrow> (None, q)
      | Some inc \<Rightarrow>
          (Some inc, q\<lparr>pq_entries := AList.delete key (pq_entries q),
             pq_order := filter (\<lambda>queued. queued \<noteq> key) (pq_order q),
             pq_per_identity := decrement_identity (incoming_identity inc) (pq_per_identity q)\<rparr>))"

definition incoming_live :: "instant \<Rightarrow> ('s, 'r, 'c) incoming_v1 \<Rightarrow> bool" where
  "incoming_live now inc =
     (case in_pending inc of None \<Rightarrow> False | Some p \<Rightarrow> now < pd_deadline p)"

fun pq_remove_keys ::
  "string list \<Rightarrow> ('s, 'r, 'c) pending_queue \<Rightarrow>
   ('s, 'r, 'c) incoming_v1 list \<times> ('s, 'r, 'c) pending_queue" where
  "pq_remove_keys [] q = ([], q)"
| "pq_remove_keys (key # ks) q =
     (let (removed, q') = pq_remove key q; (dropped, q'') = pq_remove_keys ks q'
      in (case removed of None \<Rightarrow> dropped | Some inc \<Rightarrow> inc # dropped, q''))"

definition pq_prune_expired ::
  "instant \<Rightarrow> ('s, 'r, 'c) pending_queue \<Rightarrow>
   ('s, 'r, 'c) incoming_v1 list \<times> ('s, 'r, 'c) pending_queue" where
  "pq_prune_expired now q =
     pq_remove_keys (map fst (filter (\<lambda>(k, inc). \<not> incoming_live now inc) (pq_entries q))) q"

definition pq_insert ::
  "string \<Rightarrow> ('s, 'r, 'c) incoming_v1 \<Rightarrow> instant \<Rightarrow> ('s, 'r, 'c) pending_queue \<Rightarrow>
   unit cresult \<times> ('s, 'r, 'c) incoming_v1 list \<times> ('s, 'r, 'c) pending_queue" where
  "pq_insert key inc now q0 =
     (let (dropped, q) = pq_prune_expired now q0;
          identity = incoming_identity inc;
          pending = (case map_of (pq_per_identity q) identity of None \<Rightarrow> 0 | Some n \<Rightarrow> n)
      in if pq_closed q then (Err ChannelClosed, dropped @ [inc], q)
         else if length (pq_entries q) \<ge> pq_capacity q \<or> hm_contains (pq_entries q) key
         then (Err (Iroh ''authenticated v1 peer queue is full''), dropped @ [inc], q)
         else if pending \<ge> pq_per_identity_capacity q
         then (Err (Iroh ''authenticated v1 identity pending limit reached''), dropped @ [inc], q)
         else (Ok (), dropped,
               q\<lparr>pq_per_identity := AList.update identity (pending + 1) (pq_per_identity q),
                 pq_order := pq_order q @ [key],
                 pq_entries := AList.update key inc (pq_entries q)\<rparr>))"

definition pq_expire ::
  "string \<Rightarrow> ('s, 'r, 'c) pending_queue \<Rightarrow>
   ('s, 'r, 'c) incoming_v1 list \<times> ('s, 'r, 'c) pending_queue" where
  "pq_expire key q =
     (let (removed, q') = pq_remove key q
      in (case removed of None \<Rightarrow> [] | Some inc \<Rightarrow> [inc], q'))"

text \<open>The inner loop of \<open>next\<close>: a popped key without an entry is skipped.\<close>

function pq_pop ::
  "('s, 'r, 'c) pending_queue \<Rightarrow> ('s, 'r, 'c) incoming_v1 option \<times> ('s, 'r, 'c) pending_queue" where
  "pq_pop q =
     (case pq_order q of
        [] \<Rightarrow> (None, q)
      | key # rest \<Rightarrow>
          (case pq_remove key (q\<lparr>pq_order := rest\<rparr>) of
             (Some inc, q') \<Rightarrow> (Some inc, q')
           | (None, q') \<Rightarrow> pq_pop q'))"
  by pat_completeness auto

lemma pq_remove_None: "pq_remove key q = (None, q') \<Longrightarrow> q' = q"
  by (simp add: pq_remove_def split: option.splits)

termination pq_pop
  by (relation "measure (\<lambda>q. length (pq_order q))") (auto dest!: sym [THEN pq_remove_None])

declare pq_pop.simps [simp del]

text \<open>
  One round of \<open>next\<close>: an answer, or \<open>None\<close> when the task waits for a notification and
  tries again.
\<close>

definition pq_next ::
  "instant \<Rightarrow> ('s, 'r, 'c) pending_queue \<Rightarrow>
   ('s, 'r, 'c) incoming_v1 cresult option \<times> ('s, 'r, 'c) incoming_v1 list \<times>
   ('s, 'r, 'c) pending_queue" where
  "pq_next now q0 =
     (let (dropped, q1) = pq_prune_expired now q0; (popped, q) = pq_pop q1
      in case popped of
           Some inc \<Rightarrow> (Some (Ok inc), dropped, q)
         | None \<Rightarrow> (if pq_closed q then Some (Err ChannelClosed) else None, dropped, q))"

definition pq_close ::
  "('s, 'r, 'c) pending_queue \<Rightarrow>
   ('s, 'r, 'c) incoming_v1 list \<times> ('s, 'r, 'c) pending_queue" where
  "pq_close q =
     (map snd (pq_entries q),
      q\<lparr>pq_closed := True, pq_order := [], pq_per_identity := [], pq_entries := []\<rparr>)"

section \<open>Invariant\<close>

definition identity_pending :: "string \<Rightarrow> (string, ('s, 'r, 'c) incoming_v1) hash_map \<Rightarrow> nat" where
  "identity_pending identity m = length (filter (\<lambda>(k, inc). incoming_identity inc = identity) m)"

text \<open>The counters count the entries, and no counter is zero.\<close>

definition counts_ok ::
  "(string, ('s, 'r, 'c) incoming_v1) hash_map \<Rightarrow> (string, nat) hash_map \<Rightarrow> bool" where
  "counts_ok m counts =
     (\<forall>identity. map_of counts identity =
        (if identity_pending identity m = 0 then None else Some (identity_pending identity m)))"

definition pq_inv :: "('s, 'r, 'c) pending_queue \<Rightarrow> bool" where
  "pq_inv q =
     (distinct (map fst (pq_entries q)) \<and> distinct (pq_order q) \<and>
      set (pq_order q) = fst ` set (pq_entries q) \<and>
      counts_ok (pq_entries q) (pq_per_identity q) \<and>
      length (pq_entries q) \<le> pq_capacity q \<and>
      (\<forall>identity. identity_pending identity (pq_entries q) \<le> pq_per_identity_capacity q) \<and>
      (pq_closed q \<longrightarrow> pq_entries q = []))"

lemma pq_new_inv: "pq_inv (pq_new capacity per_identity)"
  by (simp add: pq_inv_def pq_new_def counts_ok_def identity_pending_def)

lemma identity_pending_delete:
  assumes "distinct (map fst m)" and "map_of m k = Some inc"
  shows "identity_pending i m
    = identity_pending i (AList.delete k m) + (if incoming_identity inc = i then 1 else 0)"
  using assms
proof (induction m)
  case (Cons a m)
  obtain k' inc' where a: "a = (k', inc')" by fastforce
  show ?case
  proof (cases "k' = k")
    case True
    then have "AList.delete k m = m" using Cons.prems a by (auto intro: delete_id)
    then show ?thesis using Cons.prems a True by (simp add: identity_pending_def)
  next
    case False
    then show ?thesis using Cons a by (auto simp: identity_pending_def)
  qed
qed simp

lemma counts_ok_decrement:
  assumes "distinct (map fst m)" and "map_of m k = Some inc" and "counts_ok m counts"
  shows "counts_ok (AList.delete k m) (decrement_identity (incoming_identity inc) counts)"
proof -
  have eq: "identity_pending i (AList.delete k m)
      = identity_pending i m - (if incoming_identity inc = i then 1 else 0)" for i
    using identity_pending_delete [OF assms(1,2), of i] by simp
  have pos: "identity_pending (incoming_identity inc) m \<noteq> 0"
    using identity_pending_delete [OF assms(1,2), of "incoming_identity inc"] by simp
  show ?thesis
    unfolding counts_ok_def eq decrement_identity_def
    using assms(3) pos
    by (auto simp: counts_ok_def Let_def delete_conv' map_of_delete update_conv')
qed

lemma counts_ok_increment:
  assumes "counts_ok m counts" and "\<not> hm_contains m k"
    and n_def: "n = (case map_of counts (incoming_identity inc) of None \<Rightarrow> 0 | Some n \<Rightarrow> n)"
  shows "counts_ok (AList.update k inc m) (AList.update (incoming_identity inc) (n + 1) counts)"
    and "n = identity_pending (incoming_identity inc) m"
proof -
  show n: "n = identity_pending (incoming_identity inc) m"
    using assms(1) by (simp add: n_def counts_ok_def)
  show "counts_ok (AList.update k inc m) (AList.update (incoming_identity inc) (n + 1) counts)"
    unfolding counts_ok_def hm_insert_new [OF assms(2)] update_conv' n
    using assms(1) by (auto simp: counts_ok_def identity_pending_def)
qed

lemma pq_remove_Some_iff:
  "pq_remove k q = (Some inc, q') \<longleftrightarrow>
     map_of (pq_entries q) k = Some inc \<and>
     q' = q\<lparr>pq_entries := AList.delete k (pq_entries q),
            pq_order := filter (\<lambda>x. x \<noteq> k) (pq_order q),
            pq_per_identity := decrement_identity (incoming_identity inc) (pq_per_identity q)\<rparr>"
  by (auto simp: pq_remove_def split: option.splits)

lemma identity_pending_delete_le: "identity_pending i (AList.delete k m) \<le> identity_pending i m"
proof -
  have "filter p (filter p' m) = filter p' (filter p m)" for p p' by (induction m) auto
  then show ?thesis unfolding identity_pending_def AList.delete_eq by (metis length_filter_le)
qed

text \<open>Removing an entry, also when its key was already taken out of the order.\<close>

lemma pq_remove_inv_order:
  assumes inv: "pq_inv q" and rem: "pq_remove k (q\<lparr>pq_order := ks\<rparr>) = (Some inc, q')"
    and ks: "filter (\<lambda>x. x \<noteq> k) ks = filter (\<lambda>x. x \<noteq> k) (pq_order q)"
  shows "pq_inv q'"
proof -
  from rem have k: "map_of (pq_entries q) k = Some inc"
    and q': "q' = q\<lparr>pq_entries := AList.delete k (pq_entries q),
      pq_order := filter (\<lambda>x. x \<noteq> k) (pq_order q),
      pq_per_identity := decrement_identity (incoming_identity inc) (pq_per_identity q)\<rparr>"
    using ks by (simp_all add: pq_remove_Some_iff)
  have "identity_pending i (AList.delete k (pq_entries q)) \<le> pq_per_identity_capacity q" for i
    using identity_pending_delete_le [of i k "pq_entries q"] inv by (auto simp: pq_inv_def intro: order_trans)
  moreover have "fst ` set (AList.delete k (pq_entries q)) = fst ` set (pq_entries q) - {k}"
    by (auto simp: set_hm_delete)
  ultimately show ?thesis
    using inv k length_delete_le [of k "pq_entries q"]
    by (auto simp: pq_inv_def q' distinct_delete counts_ok_decrement)
qed

lemma pq_remove_inv: "pq_inv q \<Longrightarrow> pq_remove k q = (r, q') \<Longrightarrow> pq_inv q'"
  by (cases r) (auto dest: pq_remove_None pq_remove_inv_order [of q k "pq_order q"])

section \<open>The queue as a list\<close>

text \<open>
  The abstract state: the waiting entries in the order of their arrival, and whether the queue is
  closed. The counters and the map are gone; the limits are on the list itself.
\<close>

definition pq_view :: "('s, 'r, 'c) pending_queue \<Rightarrow> (string \<times> ('s, 'r, 'c) incoming_v1) list" where
  "pq_view q = map (\<lambda>k. (k, the (map_of (pq_entries q) k))) (pq_order q)"

definition live_entries ::
  "instant \<Rightarrow> (string \<times> ('s, 'r, 'c) incoming_v1) list \<Rightarrow> (string \<times> ('s, 'r, 'c) incoming_v1) list" where
  "live_entries now xs = filter (\<lambda>(k, inc). incoming_live now inc) xs"

definition fifo_insert ::
  "nat \<Rightarrow> nat \<Rightarrow> string \<Rightarrow> ('s, 'r, 'c) incoming_v1 \<Rightarrow> instant \<Rightarrow> bool \<Rightarrow>
   (string \<times> ('s, 'r, 'c) incoming_v1) list \<Rightarrow>
   unit cresult \<times> (string \<times> ('s, 'r, 'c) incoming_v1) list" where
  "fifo_insert capacity per_identity key inc now closed xs =
     (let live = live_entries now xs
      in if closed then (Err ChannelClosed, live)
         else if length live \<ge> capacity \<or> key \<in> fst ` set live
         then (Err (Iroh ''authenticated v1 peer queue is full''), live)
         else if identity_pending (incoming_identity inc) live \<ge> per_identity
         then (Err (Iroh ''authenticated v1 identity pending limit reached''), live)
         else (Ok (), live @ [(key, inc)]))"

definition fifo_next ::
  "instant \<Rightarrow> bool \<Rightarrow> (string \<times> ('s, 'r, 'c) incoming_v1) list \<Rightarrow>
   ('s, 'r, 'c) incoming_v1 cresult option \<times> (string \<times> ('s, 'r, 'c) incoming_v1) list" where
  "fifo_next now closed xs =
     (case live_entries now xs of
        [] \<Rightarrow> (if closed then Some (Err ChannelClosed) else None, [])
      | (k, inc) # rest \<Rightarrow> (Some (Ok inc), rest))"

lemma pq_view_set: "pq_inv q \<Longrightarrow> set (pq_view q) = set (pq_entries q)"
proof -
  assume inv: "pq_inv q"
  then have d: "distinct (map fst (pq_entries q))" and o': "set (pq_order q) = fst ` set (pq_entries q)"
    by (simp_all add: pq_inv_def)
  have "set (pq_view q) = (\<lambda>k. (k, the (map_of (pq_entries q) k))) ` fst ` set (pq_entries q)"
    by (simp add: pq_view_def o')
  also have "\<dots> = set (pq_entries q)"
  proof -
    have "(\<lambda>k. (k, the (map_of (pq_entries q) k))) (fst kv) = kv" if "kv \<in> set (pq_entries q)" for kv
    proof (cases kv)
      case (Pair a b)
      then have "map_of (pq_entries q) a = Some b" using that d by (simp only: map_of_is_SomeI)
      then show ?thesis by (simp add: Pair)
    qed
    then show ?thesis by (force simp: image_image)
  qed
  finally show ?thesis .
qed

lemma pq_view_fst [simp]: "map fst (pq_view q) = pq_order q"
  by (simp add: pq_view_def comp_def)

lemma pq_view_mset: "pq_inv q \<Longrightarrow> mset (pq_view q) = mset (pq_entries q)"
proof -
  assume inv: "pq_inv q"
  then have "distinct (map fst (pq_view q))" "distinct (map fst (pq_entries q))"
    by (simp_all add: pq_inv_def)
  then have "distinct (pq_view q)" "distinct (pq_entries q)" by (simp_all only: distinct_map)
  with pq_view_set [OF inv] show ?thesis by (simp add: set_eq_iff_mset_eq_distinct)
qed

lemma pq_view_length: "pq_inv q \<Longrightarrow> length (pq_view q) = length (pq_entries q)"
  by (metis pq_view_mset size_mset)

lemma identity_pending_mset: "mset xs = mset ys \<Longrightarrow> identity_pending i xs = identity_pending i ys"
  unfolding identity_pending_def by (metis mset_filter size_mset)

lemma pq_view_remove:
  assumes "pq_remove k q = (Some inc, q')"
  shows "pq_view q' = filter (\<lambda>(k', _). k' \<noteq> k) (pq_view q)"
proof -
  have "map (\<lambda>x. (x, the (map_of (AList.delete k m) x))) (filter (\<lambda>x. x \<noteq> k) ks)
      = filter (\<lambda>(k', _). k' \<noteq> k) (map (\<lambda>x. (x, the (map_of m x))) ks)"
    for m :: "(string, ('a, 'b, 'c) incoming_v1) hash_map" and ks
    by (induction ks) (auto simp: map_of_delete)
  with assms show ?thesis by (auto simp: pq_remove_Some_iff pq_view_def)
qed

section \<open>Every operation keeps the invariant and refines the list\<close>

text \<open>What an operation does to the fields it does not mention.\<close>

definition same_limits :: "('s, 'r, 'c) pending_queue \<Rightarrow> ('s, 'r, 'c) pending_queue \<Rightarrow> bool" where
  "same_limits q q' = (pq_closed q' = pq_closed q \<and> pq_capacity q' = pq_capacity q \<and>
     pq_per_identity_capacity q' = pq_per_identity_capacity q)"

lemma same_limits_refl [simp]: "same_limits q q"
  by (simp add: same_limits_def)

lemma same_limits_remove: "pq_remove k q = (r, q') \<Longrightarrow> same_limits q q'"
  by (auto simp: pq_remove_def same_limits_def split: option.splits)

lemma mset_delete:
  assumes "distinct (map fst m)" and "map_of m k = Some v"
  shows "mset m = add_mset (k, v) (mset (AList.delete k m))"
  using assms
proof (induction m)
  case (Cons a m)
  then show ?case by (cases "fst a = k") (auto simp: delete_id)
qed simp

definition waiting :: "('s, 'r, 'c) pending_queue \<Rightarrow> ('s, 'r, 'c) incoming_v1 multiset" where
  "waiting q = mset (map snd (pq_entries q))"

lemma waiting_remove:
  assumes "pq_inv q" and "pq_remove k q = (Some inc, q')"
  shows "waiting q = add_mset inc (waiting q')"
proof -
  have "mset (pq_entries q) = add_mset (k, inc) (mset (pq_entries q'))"
    using mset_delete [of "pq_entries q" k inc] assms by (simp add: pq_inv_def pq_remove_Some_iff)
  then show ?thesis by (simp add: waiting_def)
qed

lemma pq_remove_keys_ok:
  assumes "pq_inv q" and "pq_remove_keys ks q = (dropped, q')"
  shows "pq_inv q' \<and> same_limits q q' \<and> waiting q = mset dropped + waiting q' \<and>
    pq_view q' = filter (\<lambda>(k, _). k \<notin> set ks) (pq_view q)"
  using assms
proof (induction ks arbitrary: q dropped)
  case Nil
  then show ?case by simp
next
  case (Cons k ks)
  obtain r q1 d where r: "pq_remove k q = (r, q1)" and d: "pq_remove_keys ks q1 = (d, q')"
    and dropped: "dropped = (case r of None \<Rightarrow> d | Some inc \<Rightarrow> inc # d)"
    using Cons.prems(2) by (auto split: prod.splits)
  have inv1: "pq_inv q1" by (rule pq_remove_inv [OF Cons.prems(1) r])
  note IH = Cons.IH [OF inv1 d] and lim = same_limits_remove [OF r]
  have view: "pq_view q1 = filter (\<lambda>(k', _). k' \<noteq> k) (pq_view q)"
  proof (cases r)
    case None
    then have "q1 = q" "k \<notin> fst ` set (pq_entries q)"
      using r by (auto simp: pq_remove_def map_of_eq_None_iff split: option.splits)
    then have "\<forall>x \<in> set (pq_view q). case x of (k', _) \<Rightarrow> k' \<noteq> k"
      using pq_view_set [OF Cons.prems(1)] by force
    then show ?thesis using \<open>q1 = q\<close> by (metis (no_types, lifting) filter_True)
  next
    case (Some inc)
    then show ?thesis using pq_view_remove r by simp
  qed
  have "waiting q = (case r of None \<Rightarrow> waiting q1 | Some inc \<Rightarrow> add_mset inc (waiting q1))"
    using r waiting_remove [OF Cons.prems(1)] pq_remove_None by (cases r) fastforce+
  then have "waiting q = mset dropped + waiting q'" using IH dropped by (cases r) simp_all
  moreover have "pq_view q' = filter (\<lambda>(k', _). k' \<notin> set (k # ks)) (pq_view q)"
    using IH view by (auto intro: filter_cong)
  moreover have "same_limits q q'" using lim IH by (simp add: same_limits_def)
  ultimately show ?case using IH by simp
qed

lemma pq_prune_ok:
  assumes inv: "pq_inv q" and prune: "pq_prune_expired now q = (dropped, q')"
  shows "pq_inv q' \<and> same_limits q q' \<and> waiting q = mset dropped + waiting q' \<and>
    pq_view q' = live_entries now (pq_view q)"
proof -
  let ?ks = "map fst (filter (\<lambda>(k, inc). \<not> incoming_live now inc) (pq_entries q))"
  have d: "distinct (map fst (pq_entries q))" using inv by (simp add: pq_inv_def)
  have "k \<notin> set ?ks \<longleftrightarrow> incoming_live now inc" if "(k, inc) \<in> set (pq_view q)" for k inc
  proof -
    have mem: "(k, inc) \<in> set (pq_entries q)" using that pq_view_set [OF inv] by simp
    have "inc' = inc" if "(k, inc') \<in> set (pq_entries q)" for inc'
      by (rule eq_key_imp_eq_value [OF d that mem])
    then have "(\<exists>inc'. (k, inc') \<in> set (pq_entries q) \<and> \<not> incoming_live now inc') \<longleftrightarrow> \<not> incoming_live now inc"
      using mem by metis
    then show ?thesis by (auto simp: image_iff split: prod.splits)
  qed
  then have "filter (\<lambda>(k, _). k \<notin> set ?ks) (pq_view q) = live_entries now (pq_view q)"
    unfolding live_entries_def by (intro filter_cong) auto
  with pq_remove_keys_ok [OF inv prune [unfolded pq_prune_expired_def]] show ?thesis by simp
qed

lemma pq_insert_ok:
  assumes inv: "pq_inv q" and ins: "pq_insert key inc now q = (r, dropped, q')"
  shows "pq_inv q' \<and> same_limits q q' \<and> waiting q + {#inc#} = mset dropped + waiting q' \<and>
    fifo_insert (pq_capacity q) (pq_per_identity_capacity q) key inc now (pq_closed q) (pq_view q)
      = (r, pq_view q')"
proof -
  obtain d q1 where prune: "pq_prune_expired now q = (d, q1)" by fastforce
  note q1 = pq_prune_ok [OF inv prune]
  let ?n = "case map_of (pq_per_identity q1) (incoming_identity inc) of None \<Rightarrow> 0 | Some n \<Rightarrow> n"
  have inv1: "pq_inv q1" using q1 by simp
  have n: "?n = identity_pending (incoming_identity inc) (pq_view q1)"
    using inv1 identity_pending_mset [OF pq_view_mset [OF inv1]]
    by (auto simp: pq_inv_def counts_ok_def)
  have len: "length (pq_view q1) = length (pq_entries q1)" by (rule pq_view_length [OF inv1])
  have keys: "hm_contains (pq_entries q1) key \<longleftrightarrow> key \<in> fst ` set (pq_view q1)"
    by (simp add: hm_contains_def pq_view_set [OF inv1])
  have lim: "pq_closed q1 = pq_closed q" "pq_capacity q1 = pq_capacity q"
    "pq_per_identity_capacity q1 = pq_per_identity_capacity q" using q1 by (simp_all add: same_limits_def)
  show ?thesis
  proof (cases "pq_closed q1 \<or> pq_capacity q1 \<le> length (pq_entries q1) \<or> hm_contains (pq_entries q1) key
      \<or> pq_per_identity_capacity q1 \<le> ?n")
    case True
    then have out: "q' = q1" "dropped = d @ [inc]"
      using ins prune by (auto simp: pq_insert_def Let_def split: if_splits)
    moreover have "fifo_insert (pq_capacity q) (pq_per_identity_capacity q) key inc now (pq_closed q) (pq_view q)
        = (r, pq_view q1)"
      using True ins prune q1 len keys lim n
      by (auto simp: fifo_insert_def pq_insert_def Let_def split: if_splits)
    ultimately show ?thesis using q1 by simp
  next
    case False
    let ?q = "q1\<lparr>pq_per_identity := AList.update (incoming_identity inc) (?n + 1) (pq_per_identity q1),
      pq_order := pq_order q1 @ [key], pq_entries := AList.update key inc (pq_entries q1)\<rparr>"
    have new: "\<not> hm_contains (pq_entries q1) key" using False by simp
    have out: "q' = ?q" "dropped = d" "r = Ok ()"
      using False ins prune by (auto simp: pq_insert_def Let_def split: if_splits)
    have counts: "counts_ok (pq_entries q1) (pq_per_identity q1)" using inv1 by (simp add: pq_inv_def)
    note upd = counts_ok_increment [OF counts new refl, of inc]
    have ents: "pq_entries q' = pq_entries q1 @ [(key, inc)]"
      by (simp add: out hm_insert_new [OF new])
    have "pq_inv q'"
      unfolding pq_inv_def ents
      using inv1 False new upd hm_insert_new [OF new, of inc]
      by (auto simp: pq_inv_def out hm_contains_def identity_pending_def)
    moreover have "pq_view q' = pq_view q1 @ [(key, inc)]"
    proof -
      have "key \<notin> set (pq_order q1)" using new inv1 by (simp add: pq_inv_def hm_contains_def)
      then have "map (\<lambda>k. (k, the (map_of (pq_entries q') k))) (pq_order q1) = pq_view q1"
        unfolding pq_view_def ents by (intro map_cong) (auto simp: map_add_def split: option.splits)
      moreover have "map_of (pq_entries q') key = Some inc" by (simp add: out update_conv')
      ultimately show ?thesis by (simp add: pq_view_def out)
    qed
    moreover have "waiting q' = waiting q1 + {#inc#}" by (simp add: waiting_def ents)
    ultimately show ?thesis
      using q1 False len keys lim n by (simp add: out fifo_insert_def same_limits_def)
  qed
qed

lemma pq_expire_ok:
  assumes inv: "pq_inv q" and ex: "pq_expire k q = (dropped, q')"
  shows "pq_inv q' \<and> same_limits q q' \<and> waiting q = mset dropped + waiting q' \<and>
    pq_view q' = filter (\<lambda>(k', _). k' \<noteq> k) (pq_view q)"
proof -
  have "pq_remove_keys [k] q = (dropped, q')"
    using ex by (auto simp: pq_expire_def split: prod.splits option.splits)
  from pq_remove_keys_ok [OF inv this] show ?thesis by simp
qed

lemma pq_pop_ok:
  assumes inv: "pq_inv q"
  shows "case pq_view q of
      [] \<Rightarrow> pq_pop q = (None, q)
    | (k, inc) # rest \<Rightarrow> \<exists>q'. pq_pop q = (Some inc, q') \<and> pq_inv q' \<and> same_limits q q' \<and>
        waiting q = add_mset inc (waiting q') \<and> pq_view q' = rest"
proof (cases "pq_order q")
  case Nil
  then show ?thesis by (simp add: pq_view_def pq_pop.simps)
next
  case (Cons k ks)
  have k: "k \<in> fst ` set (pq_entries q)" "k \<notin> set ks" using inv Cons by (auto simp: pq_inv_def)
  then obtain inc where inc: "map_of (pq_entries q) k = Some inc"
    by (metis map_of_eq_None_iff not_None_eq)
  have ks: "filter (\<lambda>x. x \<noteq> k) ks = filter (\<lambda>x. x \<noteq> k) (pq_order q)" "filter (\<lambda>x. x \<noteq> k) ks = ks"
    using Cons k(2) by (auto simp: filter_id_conv)
  obtain q' where q': "pq_remove k (q\<lparr>pq_order := ks\<rparr>) = (Some inc, q')" "pq_remove k q = (Some inc, q')"
    using inc ks by (simp add: pq_remove_def)
  have "pq_pop q = (Some inc, q')" by (subst pq_pop.simps) (simp add: Cons q'(1))
  moreover have "pq_inv q'" by (rule pq_remove_inv [OF inv q'(2)])
  moreover have "pq_view q = (k, inc) # map (\<lambda>k. (k, the (map_of (pq_entries q) k))) ks"
    by (simp add: pq_view_def Cons inc)
  moreover have "pq_view q' = map (\<lambda>k. (k, the (map_of (pq_entries q) k))) ks"
    using pq_view_remove [OF q'(2)] ks(2) by (simp add: pq_view_def Cons filter_map comp_def)
  ultimately show ?thesis
    using same_limits_remove [OF q'(2)] waiting_remove [OF inv q'(2)] by simp
qed

lemma pq_next_ok:
  assumes inv: "pq_inv q" and nx: "pq_next now q = (r, dropped, q')"
  shows "pq_inv q' \<and> same_limits q q' \<and> fifo_next now (pq_closed q) (pq_view q) = (r, pq_view q') \<and>
    waiting q = mset dropped + (case r of Some (Ok inc) \<Rightarrow> {#inc#} | _ \<Rightarrow> {#}) + waiting q'"
proof -
  obtain d q1 where prune: "pq_prune_expired now q = (d, q1)" by fastforce
  note q1 = pq_prune_ok [OF inv prune]
  then have inv1: "pq_inv q1" by simp
  show ?thesis
  proof (cases "pq_view q1")
    case Nil
    then have "pq_pop q1 = (None, q1)" using pq_pop_ok [OF inv1] by simp
    then show ?thesis
      using nx prune q1 Nil by (auto simp: pq_next_def fifo_next_def same_limits_def)
  next
    case (Cons x rest)
    obtain k inc where x: "x = (k, inc)" by fastforce
    obtain q2 where q2: "pq_pop q1 = (Some inc, q2)" "pq_inv q2" "same_limits q1 q2"
        "waiting q1 = add_mset inc (waiting q2)" "pq_view q2 = rest"
      using pq_pop_ok [OF inv1] by (auto simp: Cons x)
    then have "q' = q2" "r = Some (Ok inc)" "dropped = d"
      using nx prune by (auto simp: pq_next_def)
    moreover have "live_entries now (pq_view q) = (k, inc) # rest" using q1 Cons x by simp
    ultimately show ?thesis using q1 q2 by (simp add: fifo_next_def same_limits_def)
  qed
qed

lemma pq_close_ok:
  assumes "pq_inv q" and "pq_close q = (dropped, q')"
  shows "pq_inv q' \<and> pq_closed q' \<and> pq_view q' = [] \<and> waiting q = mset dropped + waiting q'"
  using assms
  by (auto simp: pq_close_def pq_inv_def pq_view_def waiting_def counts_ok_def identity_pending_def)

lemma set_live_entries: "set (live_entries now xs) \<subseteq> set xs"
  by (auto simp: live_entries_def)

lemma fifo_insert_set:
  "fifo_insert capacity per_identity key inc now closed xs = (r, ys) \<Longrightarrow>
   set ys \<subseteq> insert (key, inc) (set xs)"
  using set_live_entries [of now xs] by (auto simp: fifo_insert_def Let_def split: if_splits)

lemma fifo_insert_Ok_mem:
  "fifo_insert capacity per_identity key inc now closed xs = (Ok u, ys) \<Longrightarrow> (key, inc) \<in> set ys"
  by (auto simp: fifo_insert_def Let_def split: if_splits)

lemma fifo_next_set: "fifo_next now closed xs = (r, ys) \<Longrightarrow> set ys \<subseteq> set xs"
  using set_live_entries [of now xs]
  by (auto simp: fifo_next_def split: list.splits)

section \<open>Nothing is lost\<close>

text \<open>
  The contract of a queue whose entries own a connection: whatever is offered is later handed to
  the application, dropped (and so closed), or still waiting, each exactly once.
\<close>

datatype 'i queue_call = QInsert string 'i instant | QExpire string | QNext instant | QClose

locale accounted_queue =
  fixes ins :: "string \<Rightarrow> 'i \<Rightarrow> instant \<Rightarrow> 'q \<Rightarrow> unit cresult \<times> 'i list \<times> 'q"
    and exp :: "string \<Rightarrow> 'q \<Rightarrow> 'i list \<times> 'q"
    and nxt :: "instant \<Rightarrow> 'q \<Rightarrow> 'i cresult option \<times> 'i list \<times> 'q"
    and cls :: "'q \<Rightarrow> 'i list \<times> 'q"
    and inv :: "'q \<Rightarrow> bool"
    and held :: "'q \<Rightarrow> 'i multiset"
  assumes ins_account: "inv q \<Longrightarrow> ins k i now q = (r, d, q') \<Longrightarrow>
        inv q' \<and> held q + {#i#} = mset d + held q'"
    and exp_account: "inv q \<Longrightarrow> exp k q = (d, q') \<Longrightarrow> inv q' \<and> held q = mset d + held q'"
    and nxt_account: "inv q \<Longrightarrow> nxt now q = (ans, d, q') \<Longrightarrow>
        inv q' \<and> held q = mset d + (case ans of Some (Ok i) \<Rightarrow> {#i#} | _ \<Rightarrow> {#}) + held q'"
    and cls_account: "inv q \<Longrightarrow> cls q = (d, q') \<Longrightarrow> inv q' \<and> held q = mset d + held q'"
begin

text \<open>One call: what it hands out, what it drops, and the queue after it.\<close>

fun call :: "'i queue_call \<Rightarrow> 'q \<Rightarrow> 'i list \<times> 'i list \<times> 'q" where
  "call (QInsert k i now) q = (let (_, d, q') = ins k i now q in ([], d, q'))"
| "call (QExpire k) q = (let (d, q') = exp k q in ([], d, q'))"
| "call (QNext now) q =
     (let (ans, d, q') = nxt now q in (case ans of Some (Ok i) \<Rightarrow> [i] | _ \<Rightarrow> [], d, q'))"
| "call QClose q = (let (d, q') = cls q in ([], d, q'))"

fun offered :: "'i queue_call list \<Rightarrow> 'i list" where
  "offered [] = []"
| "offered (QInsert k i now # cs) = i # offered cs"
| "offered (_ # cs) = offered cs"

fun calls :: "'i queue_call list \<Rightarrow> 'q \<Rightarrow> 'i list \<times> 'i list \<times> 'q" where
  "calls [] q = ([], [], q)"
| "calls (c # cs) q =
     (let (h, d, q') = call c q; (h', d', q'') = calls cs q' in (h @ h', d @ d', q''))"

lemma call_account:
  assumes "inv q" and "call c q = (h, d, q')"
  shows "inv q'" and "held q + mset (offered [c]) = mset h + mset d + held q'"
proof -
  have "inv q' \<and> held q + mset (offered [c]) = mset h + mset d + held q'"
  proof (cases c)
    case (QInsert k i now)
    then show ?thesis using assms ins_account by (fastforce split: prod.splits)
  next
    case (QExpire k)
    then show ?thesis using assms exp_account by (fastforce split: prod.splits)
  next
    case (QNext now)
    obtain ans where ans: "nxt now q = (ans, d, q')" "h = (case ans of Some (Ok i) \<Rightarrow> [i] | _ \<Rightarrow> [])"
      using assms(2) QNext by (auto split: prod.splits)
    then show ?thesis
      using nxt_account [OF assms(1) ans(1)] QNext
      by (auto split: option.splits result.splits)
  next
    case QClose
    then show ?thesis using assms cls_account by (fastforce split: prod.splits)
  qed
  then show "inv q'" "held q + mset (offered [c]) = mset h + mset d + held q'" by auto
qed

lemma offered_Cons: "offered (c # cs) = offered [c] @ offered cs"
  by (cases c) simp_all

lemma calls_account:
  assumes "inv q" and "calls cs q = (h, d, q')"
  shows "inv q' \<and> held q + mset (offered cs) = mset h + mset d + held q'"
  using assms
proof (induction cs arbitrary: q h d)
  case Nil
  then show ?case by simp
next
  case (Cons c cs)
  obtain h1 d1 q1 h2 d2 where c: "call c q = (h1, d1, q1)" and cs: "calls cs q1 = (h2, d2, q')"
    and hd: "h = h1 @ h2" "d = d1 @ d2"
    using Cons.prems(2) by (auto split: prod.splits)
  note step = call_account [OF Cons.prems(1) c]
  have "held q + mset (offered [c]) + mset (offered cs)
      = mset h1 + mset d1 + (held q1 + mset (offered cs))" using step(2) by simp
  with Cons.IH [OF step(1) cs] show ?case
    unfolding offered_Cons [of c cs] by (simp add: hd ac_simps)
qed

end

interpretation pending: accounted_queue pq_insert pq_expire pq_next pq_close pq_inv waiting
proof
  fix q :: "('a, 'b, 'c) pending_queue" and k i now r d q'
  assume "pq_inv q" "pq_insert k i now q = (r, d, q')"
  then show "pq_inv q' \<and> waiting q + {#i#} = mset d + waiting q'" using pq_insert_ok by blast
next
  fix q :: "('a, 'b, 'c) pending_queue" and k d q'
  assume "pq_inv q" "pq_expire k q = (d, q')"
  then show "pq_inv q' \<and> waiting q = mset d + waiting q'" using pq_expire_ok by blast
next
  fix q :: "('a, 'b, 'c) pending_queue" and now ans d q'
  assume "pq_inv q" "pq_next now q = (ans, d, q')"
  then show "pq_inv q' \<and> waiting q
      = mset d + (case ans of Some (Ok i) \<Rightarrow> {#i#} | _ \<Rightarrow> {#}) + waiting q'"
    using pq_next_ok by blast
next
  fix q :: "('a, 'b, 'c) pending_queue" and d q'
  assume "pq_inv q" "pq_close q = (d, q')"
  then show "pq_inv q' \<and> waiting q = mset d + waiting q'" using pq_close_ok by blast
qed

end
