(* ===== verification/Discovery.thy ===== *)
theory Discovery
  imports Pending_Queue "HOL-Library.Product_Lexorder"
begin

text \<open>
  Homeserver discovery and publication (\<open>crates/client/src/v1_discovery.rs\<close>). The resolver
  interface is a record of operations on a world; \<open>pubky_resolver\<close> implements it over the
  Pubky SDK, whose calls are the fields of \<open>pubky_api\<close>, and \<open>static_resolver\<close> over an
  in-memory store.
\<close>

section \<open>Configuration\<close>

definition V1_MAX_DEVICES :: nat where "V1_MAX_DEVICES = 8"
definition ABSOLUTE_MAX_TOTAL_BYTES :: nat where
  "ABSOLUTE_MAX_TOTAL_BYTES = 8 * V1_MAX_DEVICE_RECORD_BYTES"
definition LIST_DETECTION_LIMIT :: u16 where "LIST_DETECTION_LIMIT = 9"

record v1_discovery_config =
  dc_connect_timeout :: duration
  dc_overall_timeout :: duration
  dc_record_max_bytes :: nat
  dc_total_record_max_bytes :: nat
  dc_currentness_max_bytes :: nat
  dc_allow_insecure_loopback_relay :: bool

definition discovery_config_default :: v1_discovery_config where
  "discovery_config_default =
     \<lparr>dc_connect_timeout = from_secs 10, dc_overall_timeout = from_secs 30,
      dc_record_max_bytes = V1_MAX_DEVICE_RECORD_BYTES,
      dc_total_record_max_bytes = ABSOLUTE_MAX_TOTAL_BYTES,
      dc_currentness_max_bytes = V1_MAX_CURRENTNESS_PROOF_BYTES,
      dc_allow_insecure_loopback_relay = False\<rparr>"

definition discovery_config_validate :: "v1_discovery_config \<Rightarrow> unit cresult" where
  "discovery_config_validate self =
     (if dc_connect_timeout self = 0
        \<or> dc_overall_timeout self = 0
        \<or> dc_connect_timeout self > dc_overall_timeout self
        \<or> dc_record_max_bytes self = 0
        \<or> dc_record_max_bytes self > V1_MAX_DEVICE_RECORD_BYTES
        \<or> dc_total_record_max_bytes self < dc_record_max_bytes self
        \<or> dc_total_record_max_bytes self > ABSOLUTE_MAX_TOTAL_BYTES
        \<or> dc_currentness_max_bytes self = 0
        \<or> dc_currentness_max_bytes self > V1_MAX_CURRENTNESS_PROOF_BYTES
      then Err (Discovery ''invalid v1 discovery resource bounds'') else Ok ())"

section \<open>Names and paths\<close>

definition canonical_identity :: "env \<Rightarrow> string \<Rightarrow> string cresult" where
  "canonical_identity E identity =
     and_then (ok_or (pk_parse E identity) (Discovery ''invalid Pubky identity'')) (\<lambda>key.
     let canonical = pk_z32 E key
     in if canonical \<noteq> identity then Err (Discovery ''Pubky identity is not canonical'')
        else Ok canonical)"

definition validate_hash_path :: "env \<Rightarrow> string \<Rightarrow> string \<Rightarrow> string \<Rightarrow> unit cresult" where
  "validate_hash_path E path prefix label =
     (let invalid = Discovery (''invalid '' @ label @ '' path'')
      in and_then (ok_or (strip_prefix prefix path) invalid) (\<lambda>name.
         and_then (ok_or (strip_suffix ''.json'' name) invalid) (\<lambda>digest.
         if CHR ''/'' \<in> set digest then Err invalid
         else and_then (ok_or (b64_decode E digest) invalid) (\<lambda>b.
         if length b \<noteq> 32 \<or> b64_encode E b \<noteq> digest then Err invalid else Ok ()))))"

definition validate_device_path :: "env \<Rightarrow> string \<Rightarrow> unit cresult" where
  "validate_device_path E path =
     validate_hash_path E path V1_DEVICE_RECORD_PATH_PREFIX ''v1 device record''"

definition validate_currentness_path :: "env \<Rightarrow> string \<Rightarrow> unit cresult" where
  "validate_currentness_path E path =
     validate_hash_path E path V1_CURRENTNESS_PATH_PREFIX ''v1 currentness proof''"

definition addressed :: "env \<Rightarrow> string \<Rightarrow> string \<Rightarrow> string cresult" where
  "addressed E identity path =
     and_then (canonical_identity E identity) (\<lambda>identity'.
     if \<not> starts_with ''/'' path
        \<or> str_contains ''..'' path
        \<or> list_ex (\<lambda>c. c \<in> {CHR ''?'', CHR ''#'', CHR 0x5C}) path
     then Err (Discovery ''invalid v1 public-storage path'')
     else Ok (''pubky://'' @ identity' @ path))"

definition storage_key :: "string \<Rightarrow> string \<Rightarrow> string" where
  "storage_key identity path = identity @ '':'' @ path"

definition record_observation ::
  "env \<Rightarrow> v1_device_record \<Rightarrow> authenticated_sequence_observation cresult" where
  "record_observation E r =
     and_then (map_err Protocol (record_digest E r)) (\<lambda>encoded.
     and_then (ok_or (b64_decode E encoded) (State ''invalid v1 record digest'')) (\<lambda>b.
     if b64_encode E b \<noteq> encoded then Err (State ''non-canonical v1 record digest'')
     else if length b \<noteq> 32 then Err (State ''invalid v1 record digest length'')
     else observation_new E (cc_identity (c_claims (r_certificate r)))
            (''v1:locator:'' @ cc_control_signing_key (c_claims (r_certificate r)))
            (lc_sequence (l_claims (r_locator r))) b))"

section \<open>The interface\<close>

record 'w v1_device_resolver =
  rv_resolve_devices :: "string \<Rightarrow> ('w, resolved_v1_device list) op"
  rv_fetch_device_record :: "string \<Rightarrow> string \<Rightarrow> ('w, resolved_v1_device) op"
  rv_fetch_currentness_proof :: "string \<Rightarrow> string \<Rightarrow> ('w, v1_signed_currentness_proof) op"
  rv_publish_currentness_proof :: "v1_signed_currentness_proof \<Rightarrow> ('w, unit) op"
  rv_delete_currentness_proof :: "v1_signed_currentness_proof \<Rightarrow> ('w, unit) op"
  rv_commit_remote_record :: "resolved_v1_device \<Rightarrow> ('w, unit) op"

text \<open>
  Both implementations commit in the same way: verify again, compare the path, and record one
  observation in the sequence store.
\<close>

definition commit_record ::
  "env \<Rightarrow> 'w runtime \<Rightarrow> (authenticated_sequence_observation list \<Rightarrow> ('w, unit) op) \<Rightarrow> bool \<Rightarrow>
   resolved_v1_device \<Rightarrow> ('w, unit) op" where
  "commit_record E T record_batch allow device =
     op_bind (now_seconds T) (\<lambda>now.
     op_bind (op_protocol (record_verify E (rd_record device)
       (cc_identity (c_claims (r_certificate (rd_record device)))) now allow None)) (\<lambda>_.
     op_bind (op_protocol (record_path E (rd_record device))) (\<lambda>path.
     op_bind (op_guard (path \<noteq> rd_path device) UnexpectedPeer) (\<lambda>_.
     op_bind (op_lift (record_observation E (rd_record device))) (\<lambda>observation.
     record_batch [observation])))))"

section \<open>The Pubky resolver\<close>

text \<open>
  Responses: the declared length and the chunks of the body. \<open>pa_get\<close> is \<open>get\<close> under the
  connection timeout (\<open>None\<close> when it elapsed).
\<close>

record http_response =
  resp_content_length :: "u64 option"
  resp_chunks :: "(bytes, string) result list"

record list_entry =
  le_owner :: public_key
  le_path :: string

record 'w pubky_api =
  pa_get :: "duration \<Rightarrow> string \<Rightarrow> 'w \<Rightarrow> (http_response, string) result option \<times> 'w"
  pa_list :: "string \<Rightarrow> bool \<Rightarrow> u16 \<Rightarrow> 'w \<Rightarrow> (list_entry list, string) result \<times> 'w"
  pa_session_public_key :: public_key
  pa_put :: "string \<Rightarrow> bytes \<Rightarrow> 'w \<Rightarrow> (unit, string) result \<times> 'w"
  pa_delete :: "string \<Rightarrow> 'w \<Rightarrow> (unit, string) result \<times> 'w"
  pa_record_batch :: "authenticated_sequence_observation list \<Rightarrow> ('w, unit) op"

definition discovery_op :: "('w \<Rightarrow> ('a, string) result \<times> 'w) \<Rightarrow> ('w, 'a) op" where
  "discovery_op m w = (let (result, w') = m w in (map_err Discovery result, w'))"

lemma discovery_op_iff [ok_iff]: "discovery_op m w = (Ok x, w') \<longleftrightarrow> m w = (Ok x, w')"
  by (auto simp: discovery_op_def ok_iff split: prod.splits)

fun fetch_chunks :: "nat \<Rightarrow> bytes \<Rightarrow> (bytes, string) result list \<Rightarrow> bytes cresult" where
  "fetch_chunks maximum b [] = Ok b"
| "fetch_chunks maximum b (Err e # chunks) = Err (Discovery e)"
| "fetch_chunks maximum b (Ok chunk # chunks) =
     (if length chunk > maximum - length b
      then Err (Discovery ''v1 discovery record exceeds byte limit'')
      else fetch_chunks maximum (b @ chunk) chunks)"

definition fetch_bounded ::
  "'w pubky_api \<Rightarrow> v1_discovery_config \<Rightarrow> string \<Rightarrow> nat \<Rightarrow> ('w, bytes) op" where
  "fetch_bounded A config address maximum w =
     (let (answer, w') = pa_get A (dc_connect_timeout config) address w
      in (case answer of
            None \<Rightarrow> Err (Timeout ''connecting to v1 Pubky public storage'')
          | Some r \<Rightarrow> and_then (map_err Discovery r) (\<lambda>response.
              if (case resp_content_length response of
                    None \<Rightarrow> False | Some declared \<Rightarrow> unat declared > maximum)
              then Err (Discovery ''v1 discovery record declares an oversized body'')
              else fetch_chunks maximum [] (resp_chunks response)), w'))"

definition fetch_record_inner ::
  "env \<Rightarrow> 'w runtime \<Rightarrow> 'w pubky_api \<Rightarrow> v1_discovery_config \<Rightarrow> string \<Rightarrow> string \<Rightarrow>
   ('w, resolved_v1_device) op" where
  "fetch_record_inner E T A config identity path =
     op_bind (op_lift (validate_device_path E path)) (\<lambda>_.
     op_bind (op_lift (addressed E identity path)) (\<lambda>address.
     op_bind (fetch_bounded A config address (dc_record_max_bytes config)) (\<lambda>b.
     op_bind (now_seconds T) (\<lambda>now.
     op_bind (op_protocol (record_decode_and_verify E b identity now
       (dc_allow_insecure_loopback_relay config) None)) (\<lambda>r.
     op_bind (op_protocol (record_path E r)) (\<lambda>actual.
     op_bind (op_guard (actual \<noteq> path) UnexpectedPeer) (\<lambda>_.
     op_return \<lparr>rd_path = path, rd_record = r\<rparr>)))))))"

fun listing_paths :: "env \<Rightarrow> string \<Rightarrow> string list \<Rightarrow> list_entry list \<Rightarrow> string list cresult" where
  "listing_paths E identity paths [] = Ok paths"
| "listing_paths E identity paths (entry # entries) =
     (if pk_z32 E (le_owner entry) \<noteq> identity then Err UnexpectedPeer
      else and_then (validate_device_path E (le_path entry)) (\<lambda>_.
      if le_path entry \<in> set paths then Err (Discovery ''duplicate v1 device listing entry'')
      else listing_paths E identity (paths @ [le_path entry]) entries))"

text \<open>The running total is a 64-bit \<open>usize\<close>.\<close>

fun fetch_listed ::
  "env \<Rightarrow> 'w runtime \<Rightarrow> 'w pubky_api \<Rightarrow> v1_discovery_config \<Rightarrow> string \<Rightarrow> nat \<Rightarrow>
   resolved_v1_device list \<Rightarrow> string list \<Rightarrow> ('w, resolved_v1_device list) op" where
  "fetch_listed E T A config identity total_bytes devices [] = op_return devices"
| "fetch_listed E T A config identity total_bytes devices (path # paths) =
     op_bind (fetch_record_inner E T A config identity path) (\<lambda>device.
     op_bind (op_lift (ok_or (json_to_vec E (ser_record E (rd_record device)))
       (Discovery ''JSON serialization failed''))) (\<lambda>encoded.
     op_bind (op_guard (total_bytes + length encoded \<ge> 2 ^ 64) (Discovery ''v1 byte total overflow'')) (\<lambda>_.
     op_bind (op_guard (total_bytes + length encoded > dc_total_record_max_bytes config)
       (Discovery ''v1 device records exceed aggregate byte limit'')) (\<lambda>_.
     fetch_listed E T A config identity (total_bytes + length encoded) (devices @ [device]) paths))))"

definition device_order :: "resolved_v1_device \<Rightarrow> string \<times> string" where
  "device_order d = (cc_device_id (c_claims (r_certificate (rd_record d))),
     cc_control_signing_key (c_claims (r_certificate (rd_record d))))"

definition resolve_inner ::
  "env \<Rightarrow> 'w runtime \<Rightarrow> 'w pubky_api \<Rightarrow> v1_discovery_config \<Rightarrow> string \<Rightarrow>
   ('w, resolved_v1_device list) op" where
  "resolve_inner E T A config identity0 =
     op_bind (op_lift (canonical_identity E identity0)) (\<lambda>identity.
     op_bind (op_lift (addressed E identity V1_DEVICE_RECORD_PATH_PREFIX)) (\<lambda>prefix_address.
     op_bind (discovery_op (pa_list A prefix_address True LIST_DETECTION_LIMIT)) (\<lambda>entries.
     op_bind (op_guard (length entries > V1_MAX_DEVICES)
       (Discovery ''v1 device listing exceeds the eight-device limit'')) (\<lambda>_.
     op_bind (op_lift (listing_paths E identity [] entries)) (\<lambda>paths.
     op_bind (fetch_listed E T A config identity 0 [] (sort paths)) (\<lambda>devices.
     op_return (sort_key device_order devices)))))))"

section \<open>Publication\<close>

definition publish_v1_device_record ::
  "env \<Rightarrow> 'w runtime \<Rightarrow> 'w pubky_api \<Rightarrow> v1_device_record \<Rightarrow> bool \<Rightarrow> ('w, unit) op" where
  "publish_v1_device_record E T A r allow =
     (let identity = pk_z32 E (pa_session_public_key A)
      in op_bind (now_seconds T) (\<lambda>now.
         op_bind (op_protocol (record_verify E r identity now allow None)) (\<lambda>_.
         op_bind (op_lift (ok_or (json_to_vec E (ser_record E r))
           (Discovery ''JSON serialization failed''))) (\<lambda>encoded.
         op_bind (op_guard (length encoded > V1_MAX_DEVICE_RECORD_BYTES)
           (Discovery ''v1 device record exceeds publication limit'')) (\<lambda>_.
         op_bind (op_protocol (record_path E r)) (\<lambda>path.
         discovery_op (pa_put A path encoded)))))))"

definition delete_v1_device_record ::
  "env \<Rightarrow> 'w pubky_api \<Rightarrow> v1_device_record \<Rightarrow> ('w, unit) op" where
  "delete_v1_device_record E A r =
     op_bind (op_guard (pk_z32 E (pa_session_public_key A) \<noteq> cc_identity (c_claims (r_certificate r)))
       UnexpectedPeer) (\<lambda>_.
     op_bind (op_protocol (record_path E r)) (\<lambda>path.
     discovery_op (pa_delete A path)))"

definition publish_v1_currentness_proof ::
  "env \<Rightarrow> 'w pubky_api \<Rightarrow> v1_signed_currentness_proof \<Rightarrow> ('w, unit) op" where
  "publish_v1_currentness_proof E A proof =
     op_bind (op_lift (ok_or (json_to_vec E (ser_currentness_proof proof))
       (Discovery ''JSON serialization failed''))) (\<lambda>encoded.
     op_bind (op_guard (length encoded > V1_MAX_CURRENTNESS_PROOF_BYTES)
       (Discovery ''v1 currentness proof exceeds publication limit'')) (\<lambda>_.
     op_bind (op_protocol (currentness_path E proof)) (\<lambda>path.
     discovery_op (pa_put A path encoded))))"

definition delete_v1_currentness_proof ::
  "env \<Rightarrow> 'w pubky_api \<Rightarrow> v1_signed_currentness_proof \<Rightarrow> ('w, unit) op" where
  "delete_v1_currentness_proof E A proof =
     op_bind (op_protocol (currentness_path E proof)) (\<lambda>path.
     discovery_op (pa_delete A path))"

section \<open>The resolver as an object\<close>

definition pubky_resolve_devices ::
  "env \<Rightarrow> 'w runtime \<Rightarrow> 'w pubky_api \<Rightarrow> v1_discovery_config \<Rightarrow> string \<Rightarrow>
   ('w, resolved_v1_device list) op" where
  "pubky_resolve_devices E T A config identity =
     op_bind (op_lift (discovery_config_validate config)) (\<lambda>_.
     op_timeout T (dc_overall_timeout config) ''listing v1 Pubky devices''
       (resolve_inner E T A config identity))"

definition pubky_fetch_device_record ::
  "env \<Rightarrow> 'w runtime \<Rightarrow> 'w pubky_api \<Rightarrow> v1_discovery_config \<Rightarrow> string \<Rightarrow> string \<Rightarrow>
   ('w, resolved_v1_device) op" where
  "pubky_fetch_device_record E T A config identity path =
     op_bind (op_lift (discovery_config_validate config)) (\<lambda>_.
     op_bind (op_lift (canonical_identity E identity)) (\<lambda>identity'.
     op_timeout T (dc_overall_timeout config) ''fetching exact v1 device record''
       (fetch_record_inner E T A config identity' path)))"

definition pubky_fetch_currentness_proof ::
  "env \<Rightarrow> 'w runtime \<Rightarrow> 'w pubky_api \<Rightarrow> v1_discovery_config \<Rightarrow> string \<Rightarrow> string \<Rightarrow>
   ('w, v1_signed_currentness_proof) op" where
  "pubky_fetch_currentness_proof E T A config identity path =
     op_bind (op_lift (discovery_config_validate config)) (\<lambda>_.
     op_bind (op_lift (canonical_identity E identity)) (\<lambda>identity'.
     op_bind (op_lift (validate_currentness_path E path)) (\<lambda>_.
     op_bind (op_lift (addressed E identity' path)) (\<lambda>address.
     op_bind (op_timeout T (dc_overall_timeout config) ''fetching exact v1 currentness proof''
       (fetch_bounded A config address (dc_currentness_max_bytes config))) (\<lambda>b.
     op_lift (ok_or (Option.bind (json_from_slice E b) de_currentness_proof)
       (Discovery ''malformed v1 currentness proof'')))))))"

definition pubky_resolver ::
  "env \<Rightarrow> 'w runtime \<Rightarrow> 'w pubky_api \<Rightarrow> v1_discovery_config \<Rightarrow> 'w v1_device_resolver" where
  "pubky_resolver E T A config =
     \<lparr>rv_resolve_devices = pubky_resolve_devices E T A config,
      rv_fetch_device_record = pubky_fetch_device_record E T A config,
      rv_fetch_currentness_proof = pubky_fetch_currentness_proof E T A config,
      rv_publish_currentness_proof = publish_v1_currentness_proof E A,
      rv_delete_currentness_proof = delete_v1_currentness_proof E A,
      rv_commit_remote_record =
        commit_record E T (pa_record_batch A) (dc_allow_insecure_loopback_relay config)\<rparr>"

section \<open>The contract of a resolver\<close>

text \<open>
  What a resolver returns or commits was verified for the identity, at some reading of the clock,
  and lies at the path derived from its keys.
\<close>

definition resolved_ok :: "env \<Rightarrow> bool \<Rightarrow> string \<Rightarrow> resolved_v1_device \<Rightarrow> bool" where
  "resolved_ok E allow identity d =
     ((\<exists>now. record_verify E (rd_record d) identity now allow None = Ok ()) \<and>
      record_path E (rd_record d) = Ok (rd_path d))"

locale device_resolver =
  fixes E :: env and allow :: bool and R :: "'w v1_device_resolver"
  assumes resolve_ok: "rv_resolve_devices R identity w = (Ok ds, w') \<Longrightarrow>
        length ds \<le> V1_MAX_DEVICES \<and> list_all (resolved_ok E allow identity) ds"
    and fetch_ok: "rv_fetch_device_record R identity path w = (Ok d, w') \<Longrightarrow>
        rd_path d = path \<and> resolved_ok E allow identity d"
    and commit_ok: "rv_commit_remote_record R d w = (Ok u, w') \<Longrightarrow>
        resolved_ok E allow (cc_identity (c_claims (r_certificate (rd_record d)))) d"
begin

text \<open>Resolving and then committing what was resolved is about one identity throughout.\<close>

lemma resolved_identity:
  assumes "rv_resolve_devices R identity w = (Ok ds, w')" and "d \<in> set ds"
  shows "cc_identity (c_claims (r_certificate (rd_record d))) = identity"
proof -
  obtain now where "record_verify E (rd_record d) identity now allow None = Ok ()"
    using resolve_ok [OF assms(1)] assms(2) by (auto simp: list_all_iff resolved_ok_def)
  then show ?thesis
    by (simp add: record_verify_Ok_iff locator_verify_Ok_iff locator_validate_claims_Ok_iff)
qed

end

lemma canonical_identity_Ok_iff [ok_iff]:
  "canonical_identity E s = Ok t \<longleftrightarrow> t = s \<and> (\<exists>k. pk_parse E s = Some k \<and> pk_z32 E k = s)"
  by (auto simp: canonical_identity_def ok_iff Let_def)

lemma addressed_Ok_iff [ok_iff]:
  "addressed E identity path = Ok a \<longleftrightarrow>
     canonical_identity E identity = Ok identity \<and> starts_with ''/'' path \<and> \<not> str_contains ''..'' path \<and>
     (\<forall>c \<in> set path. c \<notin> {CHR ''?'', CHR ''#'', CHR 0x5C}) \<and> a = ''pubky://'' @ identity @ path"
  by (auto simp: addressed_def ok_iff list_ex_iff)

lemma validate_hash_path_Ok_iff:
  "validate_hash_path E path prefix label = Ok () \<longleftrightarrow>
     (\<exists>digest b. path = prefix @ digest @ ''.json'' \<and> CHR ''/'' \<notin> set digest \<and>
        b64_decode E digest = Some b \<and> length b = 32 \<and> b64_encode E b = digest)"
  by (auto simp: validate_hash_path_def ok_iff Let_def strip_prefix_iff strip_suffix_iff)

section \<open>Paths the protocol derives are addressable\<close>

lemma two_dots: "str_contains ''..'' s \<Longrightarrow> 2 \<le> count_list s (CHR ''.'')"
proof (induction s)
  case (Cons c cs)
  show ?case
  proof (cases "starts_with ''..'' (c # cs)")
    case True
    then show ?thesis by (auto simp: starts_with_iff)
  next
    case False
    then show ?thesis using Cons by auto
  qed
qed simp

lemma b64_alphabet_only:
  assumes "b64_alphabet_law E" and "c \<in> {CHR ''.'', CHR ''/'', CHR ''?'', CHR ''#'', CHR 0x5C}"
  shows "c \<notin> set (b64_encode E b)"
proof -
  have "\<not> b64_alphabet c"
    using assms(2) by (auto simp: b64_alphabet_def is_ascii_alphanumeric_def is_ascii_digit_def Let_def)
  then show ?thesis using assms(1) by (auto simp: b64_alphabet_law_def list_all_iff)
qed

lemma digest_path_valid:
  assumes "b64_law E" "b64_alphabet_law E" "sha256_law E" and "canonical_digest E d v = Ok digest"
  shows "validate_hash_path E (prefix @ digest @ ''.json'') prefix label = Ok ()"
proof -
  obtain b where b: "b64_decode E digest = Some b" "b64_encode E b = digest" "length b = 32"
    using canonical_digest_valid [OF assms(1,3,4)] by (auto simp: validate_digest_Ok_iff)
  moreover have "CHR ''/'' \<notin> set digest" using b64_alphabet_only [OF assms(2), of _ b] b(2) by blast
  ultimately show ?thesis unfolding validate_hash_path_Ok_iff by blast
qed

lemma hash_path_addressed:
  assumes "b64_alphabet_law E" and "validate_hash_path E path prefix label = Ok ()"
    and "canonical_identity E identity = Ok identity"
    and "prefix \<in> {V1_DEVICE_RECORD_PATH_PREFIX, V1_CURRENTNESS_PATH_PREFIX}"
  shows "addressed E identity path = Ok (''pubky://'' @ identity @ path)"
proof -
  obtain digest b where path: "path = prefix @ digest @ ''.json''" and b: "b64_encode E b = digest"
    using assms(2) by (auto simp: validate_hash_path_Ok_iff)
  have clean: "CHR ''.'' \<notin> set digest" "CHR ''?'' \<notin> set digest" "CHR ''#'' \<notin> set digest"
    "CHR 0x5C \<notin> set digest"
    using b64_alphabet_only [OF assms(1), of _ b] b by auto
  have "count_list path (CHR ''.'') < 2"
    using assms(4) clean(1)
    by (auto simp: path V1_DEVICE_RECORD_PATH_PREFIX_def V1_CURRENTNESS_PATH_PREFIX_def)
  moreover have "starts_with ''/'' path"
    using assms(4)
    by (auto simp: path starts_with_iff V1_DEVICE_RECORD_PATH_PREFIX_def V1_CURRENTNESS_PATH_PREFIX_def)
  moreover have "\<forall>c \<in> set path. c \<notin> {CHR ''?'', CHR ''#'', CHR 0x5C}"
    using assms(4) clean
    by (auto simp: path V1_DEVICE_RECORD_PATH_PREFIX_def V1_CURRENTNESS_PATH_PREFIX_def)
  ultimately show ?thesis using assms(3) two_dots [of path] by (auto simp: addressed_Ok_iff)
qed

lemma record_path_addressed:
  assumes "b64_law E" "b64_alphabet_law E" "sha256_law E" and "record_path E r = Ok path"
    and "canonical_identity E identity = Ok identity"
  shows "validate_device_path E path = Ok ()"
    and "addressed E identity path = Ok (''pubky://'' @ identity @ path)"
proof -
  obtain d v digest where "canonical_digest E d v = Ok digest"
    and path: "path = V1_DEVICE_RECORD_PATH_PREFIX @ digest @ ''.json''"
    using assms(4) by (auto simp: record_path_def v1_device_record_path_def and_then_Ok_iff)
  then have v: "validate_hash_path E path V1_DEVICE_RECORD_PATH_PREFIX label = Ok ()" for label
    unfolding path by (intro digest_path_valid [OF assms(1-3)])
  then show "validate_device_path E path = Ok ()" by (simp add: validate_device_path_def)
  show "addressed E identity path = Ok (''pubky://'' @ identity @ path)"
    by (rule hash_path_addressed [OF assms(2) v assms(5)]) simp
qed

lemma currentness_path_addressed:
  assumes "b64_law E" "b64_alphabet_law E" "sha256_law E"
    and "v1_currentness_path E role challenge hed rd gd ld = Ok path"
    and "canonical_identity E identity = Ok identity"
  shows "validate_currentness_path E path = Ok ()"
    and "addressed E identity path = Ok (''pubky://'' @ identity @ path)"
proof -
  obtain d v digest where "canonical_digest E d v = Ok digest"
    and path: "path = V1_CURRENTNESS_PATH_PREFIX @ digest @ ''.json''"
    using assms(4) by (auto simp: v1_currentness_path_def and_then_Ok_iff)
  then have v: "validate_hash_path E path V1_CURRENTNESS_PATH_PREFIX label = Ok ()" for label
    unfolding path by (intro digest_path_valid [OF assms(1-3)])
  then show "validate_currentness_path E path = Ok ()" by (simp add: validate_currentness_path_def)
  show "addressed E identity path = Ok (''pubky://'' @ identity @ path)"
    by (rule hash_path_addressed [OF assms(2) v assms(5)]) simp
qed

section \<open>What discovery returns\<close>

lemma commit_record_Ok:
  assumes "commit_record E T batch allow d w = (Ok u, w')"
  shows "resolved_ok E allow (cc_identity (c_claims (r_certificate (rd_record d)))) d"
    and "\<exists>observation w1. record_observation E (rd_record d) = Ok observation \<and>
      batch [observation] w1 = (Ok u, w')"
  using assms unfolding commit_record_def op_Ok by (auto simp: resolved_ok_def)

text \<open>A bounded fetch is the body of the response, and never longer than the limit.\<close>

lemma fetch_chunks_Ok_iff:
  "length b \<le> maximum \<Longrightarrow> fetch_chunks maximum b chunks = Ok b' \<longleftrightarrow>
     (\<exists>cs. chunks = map Ok cs \<and> b' = b @ concat cs \<and> length b' \<le> maximum)"
proof (induction maximum b chunks rule: fetch_chunks.induct)
  case (3 maximum b chunk chunks)
  show ?case
  proof (cases "length chunk > maximum - length b")
    case True
    then show ?thesis using "3.prems" by (auto simp: Cons_eq_map_conv)
  next
    case False
    then show ?thesis using 3 by (auto simp: Cons_eq_map_conv)
  qed
qed (auto simp: Cons_eq_map_conv)

lemma fetch_bounded_Ok:
  assumes "fetch_bounded A config address maximum w = (Ok b, w')"
  shows "\<exists>response cs. pa_get A (dc_connect_timeout config) address w = (Some (Ok response), w') \<and>
    resp_chunks response = map Ok cs \<and> b = concat cs \<and> length b \<le> maximum"
proof -
  obtain answer w1 where g: "pa_get A (dc_connect_timeout config) address w = (answer, w1)" by fastforce
  with assms obtain response where "answer = Some (Ok response)" "w1 = w'"
    "fetch_chunks maximum [] (resp_chunks response) = Ok b"
    by (auto simp: fetch_bounded_def ok_iff split: option.splits if_splits)
  then show ?thesis using g fetch_chunks_Ok_iff [of "[]" maximum "resp_chunks response" b] by auto
qed

lemma fetch_record_inner_Ok:
  assumes "fetch_record_inner E T A config identity path w = (Ok d, w')"
  shows "rd_path d = path" and "resolved_ok E (dc_allow_insecure_loopback_relay config) identity d"
    and "validate_device_path E path = Ok ()"
proof -
  obtain now b where "validate_device_path E path = Ok ()"
    and "record_decode_and_verify E b identity now (dc_allow_insecure_loopback_relay config) None
      = Ok (rd_record d)"
    and "record_path E (rd_record d) = Ok path" "rd_path d = path"
    using assms unfolding fetch_record_inner_def op_Ok by auto
  then show "rd_path d = path" "resolved_ok E (dc_allow_insecure_loopback_relay config) identity d"
    "validate_device_path E path = Ok ()"
    by (auto simp: resolved_ok_def record_decode_and_verify_def and_then_Ok_iff split: if_splits)
qed

lemma listing_paths_Ok:
  assumes "listing_paths E identity paths entries = Ok ps" and "distinct paths"
  shows "ps = paths @ map le_path entries" and "distinct ps"
  using assms
  by (induction E identity paths entries rule: listing_paths.induct) (auto simp: ok_iff)

text \<open>The bytes of a list of records, as they are re-encoded.\<close>

definition encoded_bytes :: "env \<Rightarrow> resolved_v1_device list \<Rightarrow> nat" where
  "encoded_bytes E ds = sum_list (map (\<lambda>d. case json_to_vec E (ser_record E (rd_record d)) of
     None \<Rightarrow> 0 | Some b \<Rightarrow> length b) ds)"

lemma fetch_listed_Ok:
  assumes "fetch_listed E T A config identity n devices paths w = (Ok ds, w')"
    and "n \<le> dc_total_record_max_bytes config"
  shows "\<exists>new. ds = devices @ new \<and> map rd_path new = paths \<and>
    list_all (resolved_ok E (dc_allow_insecure_loopback_relay config) identity) new \<and>
    n + encoded_bytes E new \<le> dc_total_record_max_bytes config"
  using assms
proof (induction paths arbitrary: n devices w)
  case Nil
  then show ?case by (auto simp: ok_iff encoded_bytes_def)
next
  case (Cons path paths)
  obtain d w1 b where d: "fetch_record_inner E T A config identity path w = (Ok d, w1)"
    and b: "json_to_vec E (ser_record E (rd_record d)) = Some b"
    and n: "n + length b \<le> dc_total_record_max_bytes config"
    and rest: "fetch_listed E T A config identity (n + length b) (devices @ [d]) paths w1 = (Ok ds, w')"
    using Cons.prems(1) unfolding fetch_listed.simps op_Ok ok_or_Ok_iff by auto
  obtain new where new: "ds = (devices @ [d]) @ new" "map rd_path new = paths"
      "list_all (resolved_ok E (dc_allow_insecure_loopback_relay config) identity) new"
      "n + length b + encoded_bytes E new \<le> dc_total_record_max_bytes config"
    using Cons.IH [OF rest n] by blast
  then show ?case
    using fetch_record_inner_Ok [OF d] b by (intro exI [of _ "d # new"]) (simp add: encoded_bytes_def)
qed

lemma encoded_bytes_mset: "mset ds = mset ds' \<Longrightarrow> encoded_bytes E ds = encoded_bytes E ds'"
  unfolding encoded_bytes_def by (subst (1 2) sum_mset_sum_list [symmetric]) (simp only: mset_map)

lemma resolve_inner_Ok:
  assumes "resolve_inner E T A config identity w = (Ok ds, w')"
  shows "length ds \<le> V1_MAX_DEVICES" and "distinct (map rd_path ds)"
    and "list_all (resolved_ok E (dc_allow_insecure_loopback_relay config) identity) ds"
    and "encoded_bytes E ds \<le> dc_total_record_max_bytes config"
    and "sorted (map device_order ds)"
proof -
  obtain entries paths devices w1 where entries: "length entries \<le> V1_MAX_DEVICES"
    and paths: "listing_paths E identity [] entries = Ok paths"
    and devices: "fetch_listed E T A config identity 0 [] (sort paths) w1 = (Ok devices, w')"
    and ds: "ds = sort_key device_order devices"
    using assms unfolding resolve_inner_def op_Ok canonical_identity_Ok_iff not_less by blast
  note ps = listing_paths_Ok [OF paths]
  obtain new where new: "devices = new" "map rd_path new = sort paths"
      "list_all (resolved_ok E (dc_allow_insecure_loopback_relay config) identity) new"
      "encoded_bytes E new \<le> dc_total_record_max_bytes config"
    using fetch_listed_Ok [OF devices] by auto
  have perm: "mset ds = mset new" by (simp add: ds new)
  have "length ds = length (map rd_path new)" using perm by (metis length_map size_mset)
  then show "length ds \<le> V1_MAX_DEVICES" using entries ps new(2) by simp
  have "mset (map rd_path ds) = mset paths" using perm new(2) by (metis mset_map mset_sort)
  then show "distinct (map rd_path ds)" using ps by (metis distinct.simps(1) mset_eq_imp_distinct_iff)
  show "list_all (resolved_ok E (dc_allow_insecure_loopback_relay config) identity) ds"
    using new(3) perm by (metis list_all_iff set_mset_mset)
  show "encoded_bytes E ds \<le> dc_total_record_max_bytes config"
    using new(4) encoded_bytes_mset [OF perm] by simp
  show "sorted (map device_order ds)" by (simp add: ds)
qed

interpretation pubky: device_resolver E "dc_allow_insecure_loopback_relay config" "pubky_resolver E T A config"
  for E T A config
proof
  fix identity w ds w'
  assume "rv_resolve_devices (pubky_resolver E T A config) identity w = (Ok ds, w')"
  then obtain v where "resolve_inner E T A config identity v = (Ok ds, w')"
    by (auto simp: pubky_resolver_def pubky_resolve_devices_def op_Ok)
  then show "length ds \<le> V1_MAX_DEVICES \<and>
      list_all (resolved_ok E (dc_allow_insecure_loopback_relay config) identity) ds"
    using resolve_inner_Ok(1,3) by (intro conjI)
next
  fix identity path w d w'
  assume "rv_fetch_device_record (pubky_resolver E T A config) identity path w = (Ok d, w')"
  then obtain v where "fetch_record_inner E T A config identity path v = (Ok d, w')"
    by (auto simp: pubky_resolver_def pubky_fetch_device_record_def op_Ok canonical_identity_Ok_iff)
  then show "rd_path d = path \<and> resolved_ok E (dc_allow_insecure_loopback_relay config) identity d"
    using fetch_record_inner_Ok(1,2) by (intro conjI)
next
  fix d w u w'
  assume "rv_commit_remote_record (pubky_resolver E T A config) d w = (Ok u, w')"
  then show "resolved_ok E (dc_allow_insecure_loopback_relay config)
      (cc_identity (c_claims (r_certificate (rd_record d)))) d"
    by (auto simp: pubky_resolver_def dest: commit_record_Ok(1))
qed

end
