(* ===== verification/Client_Config.thy ===== *)
theory Client_Config
  imports Client_Op
begin

text \<open>
  The client's policy (\<open>V1ClientConfig\<close> and the relay functions of
  \<open>crates/client/src/v1_peer.rs\<close>, with \<open>PathPolicy\<close>, \<open>PublicContactDisclosure\<close> and
  \<open>IrohRelayConfig\<close> of \<open>peer.rs\<close>): its validation, and the relays a client dials. The
  argument \<open>wasm\<close> is \<open>cfg!(target_arch = "wasm32")\<close>.
\<close>

section \<open>Policy data\<close>

datatype public_contact_disclosure =
    AcknowledgePreConsentNetworkExposure
  | AcknowledgePreConsentRelayMetadataExposure

datatype path_policy = DirectWithRelayFallback | RelayOnly

record iroh_relay_config =
  ir_url :: url
  ir_auth_token :: "string option"

definition relay_config_new :: "url \<Rightarrow> iroh_relay_config" where
  "relay_config_new url = \<lparr>ir_url = url, ir_auth_token = None\<rparr>"

definition with_auth_token :: "string \<Rightarrow> iroh_relay_config \<Rightarrow> iroh_relay_config" where
  "with_auth_token token self = self\<lparr>ir_auth_token := Some token\<rparr>"

datatype socket_addr = SocketAddr ip_addr u16

fun socket_is_ipv4 :: "socket_addr \<Rightarrow> bool" where
  "socket_is_ipv4 (SocketAddr (V4 a) port) = True"
| "socket_is_ipv4 (SocketAddr (V6 a) port) = False"

definition MAX_APPLICATIONS :: nat where "MAX_APPLICATIONS = 16"
definition MAX_TRUSTED_RELAYS :: nat where "MAX_TRUSTED_RELAYS = 4"
definition MAX_CA_CERTIFICATES :: nat where "MAX_CA_CERTIFICATES = 16"
definition MAX_CA_CERTIFICATE_BYTES :: nat where "MAX_CA_CERTIFICATE_BYTES = 64 * 1024"
definition MAX_AUTH_TOKEN_BYTES :: nat where "MAX_AUTH_TOKEN_BYTES = 4 * 1024"
definition MAX_BROWSER_MESSAGE_BYTES :: nat where "MAX_BROWSER_MESSAGE_BYTES = 64 * 1024"
definition DEFAULT_NATIVE_MESSAGE_BYTES :: nat where "DEFAULT_NATIVE_MESSAGE_BYTES = 16 * 1024 * 1024"
definition PER_CONNECTION_RECEIVE_WINDOW :: u32 where "PER_CONNECTION_RECEIVE_WINDOW = 64 * 1024"
definition MAX_PRE_HELLO_TIMEOUT :: duration where "MAX_PRE_HELLO_TIMEOUT = from_secs 10"
definition MAX_TIMEOUT :: duration where "MAX_TIMEOUT = from_secs (5 * 60)"
definition MAX_PROOF_CONTROL_BYTES :: nat where "MAX_PROOF_CONTROL_BYTES = 4 * 1024"
definition MAX_ACTIVE_RECORDS :: nat where "MAX_ACTIVE_RECORDS = 8"

lemmas client_limits = MAX_APPLICATIONS_def MAX_TRUSTED_RELAYS_def MAX_CA_CERTIFICATES_def
  MAX_CA_CERTIFICATE_BYTES_def MAX_AUTH_TOKEN_BYTES_def MAX_BROWSER_MESSAGE_BYTES_def
  DEFAULT_NATIVE_MESSAGE_BYTES_def MAX_PRE_HELLO_TIMEOUT_def MAX_TIMEOUT_def
  MAX_PROOF_CONTROL_BYTES_def MAX_ACTIVE_RECORDS_def

record v1_client_config =
  cfg_path_policy :: path_policy
  cfg_trusted_relays :: "iroh_relay_config list"
  cfg_relay_ca_certificates :: "bytes list"
  cfg_allow_insecure_loopback_relay :: bool
  cfg_udp_bind_addresses :: "socket_addr list"
  cfg_endpoint_online_timeout :: duration
  cfg_pre_hello_timeout :: duration
  cfg_negotiation_timeout :: duration
  cfg_peer_handshake_timeout :: duration
  cfg_max_message_bytes :: nat
  cfg_max_unauthenticated_handshakes :: nat
  cfg_incoming_queue_capacity :: nat
  cfg_max_pending_per_identity :: nat
  cfg_replay_cache_capacity :: nat
  cfg_replay_cache_per_identity_capacity :: nat
  cfg_accepted_applications :: "string list"
  cfg_disclosure :: public_contact_disclosure

definition config_direct :: "public_contact_disclosure \<Rightarrow> string list \<Rightarrow> v1_client_config" where
  "config_direct disclosure accepted_applications =
     \<lparr>cfg_path_policy = DirectWithRelayFallback, cfg_trusted_relays = [],
      cfg_relay_ca_certificates = [], cfg_allow_insecure_loopback_relay = False,
      cfg_udp_bind_addresses = [SocketAddr (V4 [0, 0, 0, 0]) 0],
      cfg_endpoint_online_timeout = from_secs 15, cfg_pre_hello_timeout = from_secs 3,
      cfg_negotiation_timeout = from_secs 30, cfg_peer_handshake_timeout = from_secs 20,
      cfg_max_message_bytes = DEFAULT_NATIVE_MESSAGE_BYTES,
      cfg_max_unauthenticated_handshakes = 16, cfg_incoming_queue_capacity = 16,
      cfg_max_pending_per_identity = 2, cfg_replay_cache_capacity = 1024,
      cfg_replay_cache_per_identity_capacity = 32,
      cfg_accepted_applications = accepted_applications, cfg_disclosure = disclosure\<rparr>"

definition config_relay_only ::
  "bool \<Rightarrow> public_contact_disclosure \<Rightarrow> string list \<Rightarrow> v1_client_config" where
  "config_relay_only wasm disclosure accepted_applications =
     \<lparr>cfg_path_policy = RelayOnly, cfg_trusted_relays = [],
      cfg_relay_ca_certificates = [], cfg_allow_insecure_loopback_relay = False,
      cfg_udp_bind_addresses = [],
      cfg_endpoint_online_timeout = from_secs 15, cfg_pre_hello_timeout = from_secs 3,
      cfg_negotiation_timeout = from_secs 30, cfg_peer_handshake_timeout = from_secs 20,
      cfg_max_message_bytes =
        (if wasm then MAX_BROWSER_MESSAGE_BYTES else DEFAULT_NATIVE_MESSAGE_BYTES),
      cfg_max_unauthenticated_handshakes = 16, cfg_incoming_queue_capacity = 16,
      cfg_max_pending_per_identity = 2, cfg_replay_cache_capacity = 1024,
      cfg_replay_cache_per_identity_capacity = 32,
      cfg_accepted_applications = accepted_applications, cfg_disclosure = disclosure\<rparr>"

section \<open>Relays\<close>

definition trusted_local_host :: "env \<Rightarrow> url \<Rightarrow> bool \<Rightarrow> bool" where
  "trusted_local_host E url browser_wasm =
     (case url_host_str E url of
        None \<Rightarrow> False
      | Some host \<Rightarrow>
          if browser_wasm
          then url_host E url = Some (HostIpv4 [127, 0, 0, 1])
            \<or> url_host E url = Some (HostIpv6 [0, 0, 0, 0, 0, 0, 0, 1])
          else eq_ignore_ascii_case host ''localhost''
            \<or> (case parse_ip host of Some a \<Rightarrow> is_loopback a | None \<Rightarrow> False))"

definition validate_trusted_relay_url_for_environment :: "env \<Rightarrow> url \<Rightarrow> bool \<Rightarrow> bool \<Rightarrow> unit cresult" where
  "validate_trusted_relay_url_for_environment E url allow_loopback browser_wasm =
     (let secure = (url_scheme E url = ''https'');
          local = (allow_loopback \<and> url_scheme E url = ''http''
            \<and> trusted_local_host E url browser_wasm \<and> (\<not> browser_wasm \<or> url_port E url \<noteq> None))
      in if (\<not> secure \<and> \<not> local)
           \<or> url_host_str E url = None
           \<or> url_username E url \<noteq> []
           \<or> url_password E url \<noteq> None
           \<or> url_path E url \<noteq> ''/''
           \<or> url_query E url \<noteq> None
           \<or> url_fragment E url \<noteq> None
         then Err InvalidRelayUrl else Ok ())"

definition validate_trusted_relay_url :: "env \<Rightarrow> bool \<Rightarrow> url \<Rightarrow> bool \<Rightarrow> unit cresult" where
  "validate_trusted_relay_url E wasm url allow_loopback =
     validate_trusted_relay_url_for_environment E url allow_loopback wasm"

definition origin_text :: "env \<Rightarrow> url \<Rightarrow> string cresult" where
  "origin_text E url =
     (case url_origin E url of
        OriginTuple scheme host port \<Rightarrow> Ok (scheme @ ''://'' @ host @ '':'' @ show_nat (unat port))
      | OriginOpaque _ \<Rightarrow> Err InvalidRelayUrl)"

fun collect_origins :: "env \<Rightarrow> url list \<Rightarrow> string list cresult" where
  "collect_origins E [] = Ok []"
| "collect_origins E (u # us) =
     and_then (origin_text E u) (\<lambda>x. and_then (collect_origins E us) (\<lambda>xs. Ok (x # xs)))"

definition trusted_destination_relays ::
  "env \<Rightarrow> v1_signed_locator \<Rightarrow> v1_client_config \<Rightarrow> url list cresult" where
  "trusted_destination_relays E loc config =
     and_then (collect_origins E (lc_relay_urls (l_claims loc))) (\<lambda>advertised.
     let trusted = map ir_url (filter (\<lambda>relay.
           case origin_text E (ir_url relay) of Ok x \<Rightarrow> x \<in> set advertised | Err _ \<Rightarrow> False)
           (cfg_trusted_relays config))
     in Ok (remdups_adj (sort_key url_as_str trusted)))"

section \<open>Validation\<close>

definition client_validate_application :: "string \<Rightarrow> unit cresult" where
  "client_validate_application application =
     (if application = [] \<or> length application > 128 \<or> \<not> list_all application_byte application
      then Err (Iroh ''invalid v1 application identifier'') else Ok ())"

definition validate_browser_constraints :: "v1_client_config \<Rightarrow> unit cresult" where
  "validate_browser_constraints self =
     (if cfg_path_policy self \<noteq> RelayOnly
        \<or> cfg_relay_ca_certificates self \<noteq> []
        \<or> list_ex (\<lambda>relay. ir_auth_token relay \<noteq> None) (cfg_trusted_relays self)
        \<or> cfg_max_message_bytes self > MAX_BROWSER_MESSAGE_BYTES
      then Err (Iroh ''browser v1 requires relay-only transport without tokens, custom CAs, or oversized messages'')
      else Ok ())"

definition auth_token_ok :: "string option \<Rightarrow> bool" where
  "auth_token_ok token = (case token of None \<Rightarrow> True
     | Some t \<Rightarrow> t \<noteq> [] \<and> length t \<le> MAX_AUTH_TOKEN_BYTES)"

fun validate_trusted_relays_loop ::
  "env \<Rightarrow> bool \<Rightarrow> bool \<Rightarrow> string list \<Rightarrow> iroh_relay_config list \<Rightarrow> unit cresult" where
  "validate_trusted_relays_loop E wasm allow origins [] = Ok ()"
| "validate_trusted_relays_loop E wasm allow origins (relay # relays) =
     and_then (validate_trusted_relay_url E wasm (ir_url relay) allow) (\<lambda>_.
     and_then (origin_text E (ir_url relay)) (\<lambda>x.
     if x \<in> set origins then Err (Iroh ''duplicate v1 trusted relay origin'')
     else if \<not> auth_token_ok (ir_auth_token relay)
     then Err (Iroh ''invalid local v1 relay authentication token'')
     else validate_trusted_relays_loop E wasm allow (x # origins) relays))"

definition validate_udp :: "v1_client_config \<Rightarrow> unit cresult" where
  "validate_udp self =
     (case cfg_path_policy self of
        DirectWithRelayFallback \<Rightarrow>
          if cfg_udp_bind_addresses self = [] \<or> length (cfg_udp_bind_addresses self) > 2
          then Err (Iroh ''v1 direct mode requires one or two UDP bind addresses'')
          else if \<not> distinct (map socket_is_ipv4 (cfg_udp_bind_addresses self))
          then Err (Iroh ''v1 accepts at most one UDP bind per IP family'')
          else Ok ()
      | RelayOnly \<Rightarrow>
          if cfg_udp_bind_addresses self \<noteq> []
          then Err (Iroh ''v1 relay-only mode forbids UDP bind addresses'') else Ok ())"

text \<open>\<open>(low..=high).contains(&n)\<close>.\<close>

definition in_range :: "nat \<Rightarrow> nat \<Rightarrow> nat \<Rightarrow> bool" where
  "in_range low high n = (low \<le> n \<and> n \<le> high)"

definition validate_bounds :: "v1_client_config \<Rightarrow> unit cresult" where
  "validate_bounds self =
     (if cfg_endpoint_online_timeout self = 0
        \<or> cfg_pre_hello_timeout self = 0
        \<or> cfg_negotiation_timeout self = 0
        \<or> cfg_peer_handshake_timeout self = 0
        \<or> cfg_endpoint_online_timeout self > MAX_TIMEOUT
        \<or> cfg_pre_hello_timeout self > MAX_PRE_HELLO_TIMEOUT
        \<or> cfg_negotiation_timeout self > MAX_TIMEOUT
        \<or> cfg_peer_handshake_timeout self > MAX_TIMEOUT
        \<or> cfg_max_message_bytes self = 0
        \<or> cfg_max_message_bytes self > 2 ^ 32 - 1
        \<or> \<not> in_range 1 64 (cfg_max_unauthenticated_handshakes self)
        \<or> \<not> in_range 1 64 (cfg_incoming_queue_capacity self)
        \<or> \<not> in_range 1 (cfg_incoming_queue_capacity self) (cfg_max_pending_per_identity self)
        \<or> \<not> in_range 1 4096 (cfg_replay_cache_capacity self)
        \<or> \<not> in_range 1 (cfg_replay_cache_capacity self) (cfg_replay_cache_per_identity_capacity self)
      then Err (Iroh ''invalid v1 client resource bounds'') else Ok ())"

fun validate_applications_loop :: "string list \<Rightarrow> string list \<Rightarrow> unit cresult" where
  "validate_applications_loop applications [] = Ok ()"
| "validate_applications_loop applications (application # rest) =
     and_then (client_validate_application application) (\<lambda>_.
     if application \<in> set applications then Err (Iroh ''duplicate v1 inbound application'')
     else validate_applications_loop (application # applications) rest)"

definition config_validate :: "env \<Rightarrow> bool \<Rightarrow> v1_client_config \<Rightarrow> unit cresult" where
  "config_validate E wasm self =
     (if (cfg_path_policy self, cfg_disclosure self) \<notin>
          {(DirectWithRelayFallback, AcknowledgePreConsentNetworkExposure),
           (RelayOnly, AcknowledgePreConsentRelayMetadataExposure)}
      then Err (Iroh ''v1 path policy does not match its privacy acknowledgement'')
      else and_then (if wasm then validate_browser_constraints self else Ok ()) (\<lambda>_.
      if cfg_trusted_relays self = [] \<or> length (cfg_trusted_relays self) > MAX_TRUSTED_RELAYS
      then Err (Iroh ''v1 requires one to four locally trusted relays'')
      else and_then (validate_trusted_relays_loop E wasm (cfg_allow_insecure_loopback_relay self) []
             (cfg_trusted_relays self)) (\<lambda>_.
      if length (cfg_relay_ca_certificates self) > MAX_CA_CERTIFICATES
         \<or> list_ex (\<lambda>certificate. certificate = [] \<or> length certificate > MAX_CA_CERTIFICATE_BYTES)
             (cfg_relay_ca_certificates self)
      then Err (Iroh ''invalid local v1 relay CA certificate set'')
      else and_then (validate_udp self) (\<lambda>_.
      and_then (validate_bounds self) (\<lambda>_.
      if cfg_accepted_applications self = []
         \<or> length (cfg_accepted_applications self) > MAX_APPLICATIONS
      then Err (Iroh ''v1 requires a bounded inbound application allowlist'')
      else validate_applications_loop [] (cfg_accepted_applications self))))))"

section \<open>What validation accepts\<close>

text \<open>The relays have origins, all different and none seen before.\<close>

definition fresh_origins :: "env \<Rightarrow> string list \<Rightarrow> iroh_relay_config list \<Rightarrow> bool" where
  "fresh_origins E seen relays =
     (\<exists>origins. map (origin_text E \<circ> ir_url) relays = map Ok origins \<and> distinct origins \<and>
        set origins \<inter> set seen = {})"

lemma fresh_origins_Nil [simp]: "fresh_origins E seen []"
  by (simp add: fresh_origins_def)

lemma fresh_origins_Cons [simp]:
  "fresh_origins E seen (relay # relays) \<longleftrightarrow>
     (\<exists>x. origin_text E (ir_url relay) = Ok x \<and> x \<notin> set seen \<and> fresh_origins E (x # seen) relays)"
  (is "?L \<longleftrightarrow> ?R")
proof
  assume ?L
  then show ?R by (auto simp: fresh_origins_def Cons_eq_map_conv)
next
  assume ?R
  then obtain x origins where "origin_text E (ir_url relay) = Ok x" "x \<notin> set seen"
    "map (origin_text E \<circ> ir_url) relays = map Ok origins" "distinct origins"
    "set origins \<inter> set (x # seen) = {}"
    by (auto simp: fresh_origins_def)
  then show ?L unfolding fresh_origins_def by (intro exI [of _ "x # origins"]) auto
qed

lemma validate_trusted_relays_loop_Ok_iff:
  "validate_trusted_relays_loop E wasm allow seen relays = Ok () \<longleftrightarrow>
     (\<forall>relay \<in> set relays. validate_trusted_relay_url E wasm (ir_url relay) allow = Ok () \<and>
        auth_token_ok (ir_auth_token relay)) \<and> fresh_origins E seen relays"
proof (induction E wasm allow seen relays rule: validate_trusted_relays_loop.induct)
  case (2 E wasm allow seen relay relays)
  show ?case
    using 2 by (cases "origin_text E (ir_url relay)")
      (auto simp: ok_iff)
qed simp

lemma client_validate_application_Ok_iff [ok_iff]:
  "client_validate_application a = Ok () \<longleftrightarrow> validate_application a = Ok ()"
  by (auto simp: client_validate_application_def validate_application_def MAX_APPLICATION_BYTES_def)

lemma validate_applications_loop_Ok_iff [ok_iff]:
  "validate_applications_loop seen as = Ok () \<longleftrightarrow>
     (\<forall>a \<in> set as. validate_application a = Ok ()) \<and> distinct as \<and> set as \<inter> set seen = {}"
  by (induction seen as rule: validate_applications_loop.induct) (auto simp: ok_iff)

lemma validate_udp_Ok_iff [ok_iff]:
  "validate_udp c = Ok () \<longleftrightarrow>
     (case cfg_path_policy c of
        DirectWithRelayFallback \<Rightarrow> cfg_udp_bind_addresses c \<noteq> [] \<and> length (cfg_udp_bind_addresses c) \<le> 2 \<and>
          distinct (map socket_is_ipv4 (cfg_udp_bind_addresses c))
      | RelayOnly \<Rightarrow> cfg_udp_bind_addresses c = [])"
  by (auto simp: validate_udp_def split: path_policy.splits)

lemma validate_bounds_Ok_iff [ok_iff]:
  "validate_bounds c = Ok () \<longleftrightarrow>
     0 < cfg_endpoint_online_timeout c \<and> cfg_endpoint_online_timeout c \<le> from_secs 300 \<and>
     0 < cfg_pre_hello_timeout c \<and> cfg_pre_hello_timeout c \<le> from_secs 10 \<and>
     0 < cfg_negotiation_timeout c \<and> cfg_negotiation_timeout c \<le> from_secs 300 \<and>
     0 < cfg_peer_handshake_timeout c \<and> cfg_peer_handshake_timeout c \<le> from_secs 300 \<and>
     0 < cfg_max_message_bytes c \<and> cfg_max_message_bytes c < 2 ^ 32 \<and>
     1 \<le> cfg_max_unauthenticated_handshakes c \<and> cfg_max_unauthenticated_handshakes c \<le> 64 \<and>
     1 \<le> cfg_max_pending_per_identity c \<and>
     cfg_max_pending_per_identity c \<le> cfg_incoming_queue_capacity c \<and>
     cfg_incoming_queue_capacity c \<le> 64 \<and>
     1 \<le> cfg_replay_cache_per_identity_capacity c \<and>
     cfg_replay_cache_per_identity_capacity c \<le> cfg_replay_cache_capacity c \<and>
     cfg_replay_cache_capacity c \<le> 4096"
  by (auto simp: validate_bounds_def in_range_def MAX_TIMEOUT_def MAX_PRE_HELLO_TIMEOUT_def)

lemma validate_browser_constraints_Ok_iff [ok_iff]:
  "validate_browser_constraints c = Ok () \<longleftrightarrow>
     cfg_path_policy c = RelayOnly \<and> cfg_relay_ca_certificates c = [] \<and>
     (\<forall>relay \<in> set (cfg_trusted_relays c). ir_auth_token relay = None) \<and>
     cfg_max_message_bytes c \<le> 64 * 1024"
  by (auto simp: validate_browser_constraints_def list_ex_iff MAX_BROWSER_MESSAGE_BYTES_def)

text \<open>
  The native check of a configured relay and the protocol's check of a published relay agree, up
  to the protocol's limit on the length of the URL.
\<close>

lemma native_relay_check:
  "validate_trusted_relay_url E False u allow = Ok () \<and> length (url_as_str u) \<le> MAX_RELAY_URL_BYTES
   \<longleftrightarrow> validate_relay_url E u allow = Ok ()"
  by (auto simp: validate_trusted_relay_url_def validate_trusted_relay_url_for_environment_def
      validate_relay_url_def trusted_local_host_def local_relay_host_def Let_def split: option.splits)

lemma configured_relays_distinct:
  assumes "fresh_origins E seen relays"
  shows "distinct (map ir_url relays)"
proof -
  obtain origins where assms: "map (origin_text E \<circ> ir_url) relays = map Ok origins" "distinct origins"
    using assms by (auto simp: fresh_origins_def)
  have "map (origin_text E) (map ir_url relays) = map Ok origins" using assms(1) by simp
  then have "distinct (map (origin_text E) (map ir_url relays))"
    using assms(2) by (simp add: distinct_map inj_on_def)
  then show ?thesis by (rule distinct_map [THEN iffD1, THEN conjunct1])
qed

section \<open>The relays a client dials\<close>

lemma collect_origins_Ok_iff: "collect_origins E us = Ok xs \<longleftrightarrow> map (origin_text E) us = map Ok xs"
  by (induction us arbitrary: xs) (auto simp: ok_iff Cons_eq_map_conv map_eq_Cons_conv)

lemma sorted_remdups_adj_distinct:
  "sorted (xs :: 'a::linorder list) \<Longrightarrow> distinct (remdups_adj xs)"
  by (induction xs rule: remdups_adj.induct) (auto simp: less_le)

lemma remdups_adj_sort_urls:
  "distinct (remdups_adj (sort_key url_as_str us))"
  "sorted (map url_as_str (remdups_adj (sort_key url_as_str us)))"
  "set (remdups_adj (sort_key url_as_str us)) = set us"
proof -
  have inj: "remdups_adj (map url_as_str vs) = map url_as_str (remdups_adj vs)" for vs
    by (rule remdups_adj_map_injective) (simp add: inj_def)
  have "sorted (map url_as_str (sort_key url_as_str us))" by simp
  then have "distinct (map url_as_str (remdups_adj (sort_key url_as_str us)))"
    unfolding inj [symmetric] by (rule sorted_remdups_adj_distinct)
  then show "distinct (remdups_adj (sort_key url_as_str us))"
    by (rule distinct_map [THEN iffD1, THEN conjunct1])
  show "sorted (map url_as_str (remdups_adj (sort_key url_as_str us)))"
    unfolding inj [symmetric] by simp
qed simp

lemma trusted_destination_relays_Ok:
  assumes "trusted_destination_relays E loc config = Ok us"
  shows "distinct us" and "sorted (map url_as_str us)"
    and "set us = {ir_url relay | relay. relay \<in> set (cfg_trusted_relays config) \<and>
      (\<exists>u \<in> set (lc_relay_urls (l_claims loc)). \<exists>x. origin_text E u = Ok x \<and>
         origin_text E (ir_url relay) = Ok x)}"
proof -
  obtain xs where xs: "map (origin_text E) (lc_relay_urls (l_claims loc)) = map Ok xs"
    and us: "us = remdups_adj (sort_key url_as_str (map ir_url (filter (\<lambda>relay.
           case origin_text E (ir_url relay) of Ok x \<Rightarrow> x \<in> set xs | Err _ \<Rightarrow> False)
           (cfg_trusted_relays config))))"
    using assms by (auto simp: trusted_destination_relays_def ok_iff collect_origins_Ok_iff Let_def)
  show "distinct us" "sorted (map url_as_str us)" unfolding us by (rule remdups_adj_sort_urls)+
  have "origin_text E ` set (lc_relay_urls (l_claims loc)) = Ok ` set xs"
    using arg_cong [OF xs, of set] by simp
  then have "(Ok x :: string cresult) \<in> Ok ` set xs \<longleftrightarrow> Ok x \<in> origin_text E ` set (lc_relay_urls (l_claims loc))" for x
    by simp
  then have mem: "x \<in> set xs \<longleftrightarrow> (\<exists>u \<in> set (lc_relay_urls (l_claims loc)). origin_text E u = Ok x)" for x
    by (auto simp: image_iff) metis
  show "set us = {ir_url relay | relay. relay \<in> set (cfg_trusted_relays config) \<and>
      (\<exists>u \<in> set (lc_relay_urls (l_claims loc)). \<exists>x. origin_text E u = Ok x \<and>
         origin_text E (ir_url relay) = Ok x)}"
    (is "_ = ?R")
  proof -
    have "(case origin_text E (ir_url relay) of Ok x \<Rightarrow> x \<in> set xs | Err _ \<Rightarrow> False) \<longleftrightarrow>
        (\<exists>u \<in> set (lc_relay_urls (l_claims loc)). \<exists>x. origin_text E u = Ok x \<and>
           origin_text E (ir_url relay) = Ok x)" for relay
      by (cases "origin_text E (ir_url relay)") (auto simp: mem)
    then show ?thesis unfolding us remdups_adj_sort_urls(3) set_map set_filter image_Collect by auto
  qed
qed

end
