(* ===== verification/Exchange.thy ===== *)
theory Exchange
  imports Discovery Client_Config
begin

text \<open>
  The mutual currentness exchange (\<open>accept_pending\<close>, \<open>outbound_proof_exchange\<close> and their
  helpers in \<open>crates/client/src/v1_peer.rs\<close>). One side's code runs on a session: the two
  stream halves and the rest of the world, which the resolver works on.
\<close>

section \<open>Sessions\<close>

record ('s, 'r, 'w) session =
  ss_send :: 's
  ss_recv :: 'r
  ss_world :: 'w

definition on_tx :: "('s, 'a) op \<Rightarrow> (('s, 'r, 'w) session, 'a) op" where
  "on_tx m ss = (let (result, s') = m (ss_send ss) in (result, ss\<lparr>ss_send := s'\<rparr>))"

definition on_rx :: "('r, 'a) op \<Rightarrow> (('s, 'r, 'w) session, 'a) op" where
  "on_rx m ss = (let (result, r') = m (ss_recv ss) in (result, ss\<lparr>ss_recv := r'\<rparr>))"

definition on_world :: "('w, 'a) op \<Rightarrow> (('s, 'r, 'w) session, 'a) op" where
  "on_world m ss = (let (result, w') = m (ss_world ss) in (result, ss\<lparr>ss_world := w'\<rparr>))"

text \<open>\<open>let _ = operation.await;\<close>\<close>

definition op_ignore :: "('w, 'a) op \<Rightarrow> ('w, unit) op" where
  "op_ignore m w = (Ok (), snd (m w))"

text \<open>An operation whose result is inspected later.\<close>

definition op_capture :: "('w, 'a) op \<Rightarrow> ('w, 'a cresult) op" where
  "op_capture m w = (let (result, w') = m w in (Ok result, w'))"

lemma op_capture_Ok: "op_capture m w = (Ok r, w') \<longleftrightarrow> m w = (r, w')"
  by (auto simp: op_capture_def split: prod.splits)

lemma on_tx_Ok: "on_tx m ss = (Ok x, ss') \<longleftrightarrow> (\<exists>s'. m (ss_send ss) = (Ok x, s') \<and> ss' = ss\<lparr>ss_send := s'\<rparr>)"
  by (auto simp: on_tx_def split: prod.splits)

lemma on_rx_Ok: "on_rx m ss = (Ok x, ss') \<longleftrightarrow> (\<exists>r'. m (ss_recv ss) = (Ok x, r') \<and> ss' = ss\<lparr>ss_recv := r'\<rparr>)"
  by (auto simp: on_rx_def split: prod.splits)

lemma on_world_Ok:
  "on_world m ss = (Ok x, ss') \<longleftrightarrow> (\<exists>w'. m (ss_world ss) = (Ok x, w') \<and> ss' = ss\<lparr>ss_world := w'\<rparr>)"
  by (auto simp: on_world_def split: prod.splits)

lemma op_ignore_Ok: "op_ignore m w = (Ok u, w') \<longleftrightarrow> w' = snd (m w)"
  by (auto simp: op_ignore_def)

lemmas session_Ok = op_Ok on_tx_Ok on_rx_Ok on_world_Ok op_ignore_Ok op_capture_Ok

section \<open>Control messages\<close>

record proof_ready =
  pr_version :: u16
  pr_challenge :: string
  pr_initiator_proof_path :: string
  pr_responder_proof_path :: string

record proof_confirmed =
  pf_version :: u16
  pf_challenge :: string
  pf_initiator_proof_path :: string
  pf_responder_proof_path :: string

definition proof_control_fields :: "string list" where
  "proof_control_fields = [''version'', ''challenge'', ''initiator_proof_path'', ''responder_proof_path'']"

definition ser_proof_ready :: "proof_ready \<Rightarrow> json" where
  "ser_proof_ready m = ser_struct proof_control_fields
     [ser_uint (pr_version m), JStr (pr_challenge m), JStr (pr_initiator_proof_path m),
      JStr (pr_responder_proof_path m)]"

definition de_proof_ready :: "json \<Rightarrow> proof_ready option" where
  "de_proof_ready j =
     (case de_struct proof_control_fields j of
        Some [a, b, c, d] \<Rightarrow> do {
          a' \<leftarrow> de_uint a; b' \<leftarrow> de_string b; c' \<leftarrow> de_string c; d' \<leftarrow> de_string d;
          Some \<lparr>pr_version = a', pr_challenge = b', pr_initiator_proof_path = c',
                pr_responder_proof_path = d'\<rparr> }
      | _ \<Rightarrow> None)"

definition ser_proof_confirmed :: "proof_confirmed \<Rightarrow> json" where
  "ser_proof_confirmed m = ser_struct proof_control_fields
     [ser_uint (pf_version m), JStr (pf_challenge m), JStr (pf_initiator_proof_path m),
      JStr (pf_responder_proof_path m)]"

definition de_proof_confirmed :: "json \<Rightarrow> proof_confirmed option" where
  "de_proof_confirmed j =
     (case de_struct proof_control_fields j of
        Some [a, b, c, d] \<Rightarrow> do {
          a' \<leftarrow> de_uint a; b' \<leftarrow> de_string b; c' \<leftarrow> de_string c; d' \<leftarrow> de_string d;
          Some \<lparr>pf_version = a', pf_challenge = b', pf_initiator_proof_path = c',
                pf_responder_proof_path = d'\<rparr> }
      | _ \<Rightarrow> None)"

lemma distinct_proof_control_fields [simp]: "distinct proof_control_fields" "length proof_control_fields = 4"
  by (simp_all add: proof_control_fields_def)

lemma de_ser_proof_ready [serde_simps]: "de_proof_ready (ser_proof_ready m) = Some m"
  by (simp add: de_proof_ready_def ser_proof_ready_def serde_simps)

lemma de_ser_proof_confirmed [serde_simps]: "de_proof_confirmed (ser_proof_confirmed m) = Some m"
  by (simp add: de_proof_confirmed_def ser_proof_confirmed_def serde_simps)

definition peer_currentness_path ::
  "env \<Rightarrow> v1_currentness_role \<Rightarrow> string \<Rightarrow> v1_signed_hello \<Rightarrow> v1_device_record \<Rightarrow> string presult" where
  "peer_currentness_path E role challenge hello r =
     and_then (hello_digest_of E hello) (\<lambda>hed.
     and_then (record_digest E r) (\<lambda>rd.
     and_then (grant_digest_of E (r_authorization r)) (\<lambda>gd.
     and_then (locator_digest E (r_locator r)) (\<lambda>ld.
     v1_currentness_path E role challenge hed rd gd ld))))"

text \<open>The paths are computed only when the earlier comparisons agree.\<close>

definition validate_proof_control ::
  "env \<Rightarrow> u16 \<Rightarrow> string \<Rightarrow> string \<Rightarrow> string \<Rightarrow> string \<Rightarrow> v1_signed_hello \<Rightarrow> v1_device_record \<Rightarrow>
   v1_device_record \<Rightarrow> unit cresult" where
  "validate_proof_control E version received_challenge expected_challenge initiator_path
      responder_path hello initiator_record responder_record =
     (if version \<noteq> V1_PROTOCOL_VERSION \<or> received_challenge \<noteq> expected_challenge
      then Err UnexpectedPeer
      else and_then (map_err Protocol (peer_currentness_path E Initiator expected_challenge hello
             initiator_record)) (\<lambda>ip.
      if initiator_path \<noteq> ip then Err UnexpectedPeer
      else and_then (map_err Protocol (peer_currentness_path E Responder expected_challenge hello
             responder_record)) (\<lambda>rp.
      if responder_path \<noteq> rp then Err UnexpectedPeer else Ok ())))"

text \<open>\<open>Uuid::from_slice\<close> accepts every 16 bytes, which are the identifier.\<close>

definition nonce_uuid :: "env \<Rightarrow> string \<Rightarrow> bytes cresult" where
  "nonce_uuid E nonce =
     and_then (ok_or (b64_decode E nonce) UnexpectedPeer) (\<lambda>decoded.
     if length decoded < 16 then Err UnexpectedPeer else Ok (take 16 decoded))"

section \<open>The responder\<close>

definition accept_operation ::
  "env \<Rightarrow> ('s, 'r, 'c) quic \<Rightarrow> ('s, 'r, 'w) session runtime \<Rightarrow> 'w v1_device_resolver \<Rightarrow>
   ('s, 'r, 'c) pending_v1 \<Rightarrow> v1_signed_ack \<Rightarrow> string \<Rightarrow> (('s, 'r, 'w) session, unit) op" where
  "accept_operation E Q S R pd ack challenge =
     op_bind (on_tx (write_json E Q ser_ack ack V1_MAX_ACK_BYTES)) (\<lambda>_.
     op_bind (on_rx (read_json E Q de_proof_ready MAX_PROOF_CONTROL_BYTES)) (\<lambda>ready.
     op_bind (op_lift (validate_proof_control E (pr_version ready) (pr_challenge ready) challenge
       (pr_initiator_proof_path ready) (pr_responder_proof_path ready) (pd_hello pd)
       (rd_record (pd_sender pd)) (rd_record (pd_target pd)))) (\<lambda>_.
     op_bind (on_world (rv_fetch_currentness_proof R (hc_from_identity (h_claims (pd_hello pd)))
       (pr_initiator_proof_path ready))) (\<lambda>initiator_proof.
     op_bind (now_seconds S) (\<lambda>now.
     op_bind (op_protocol (currentness_verify E initiator_proof (rd_record (pd_sender pd))
       (rd_record (pd_target pd)) (pd_hello pd) Initiator challenge now
       (pd_allow_insecure_loopback_relay pd))) (\<lambda>_.
     op_bind (on_world (rv_commit_remote_record R (pd_sender pd))) (\<lambda>_.
     on_tx (write_json E Q ser_proof_confirmed
       \<lparr>pf_version = V1_PROTOCOL_VERSION, pf_challenge = challenge,
        pf_initiator_proof_path = pr_initiator_proof_path ready,
        pf_responder_proof_path = pr_responder_proof_path ready\<rparr> MAX_PROOF_CONTROL_BYTES))))))))"

text \<open>
  The time limit covers the exchange of messages. When it elapses the function returns at once;
  otherwise the published proof is deleted, whatever the exchange returned.
\<close>

definition accept_pending_session ::
  "env \<Rightarrow> ('s, 'r, 'c) quic \<Rightarrow> ('s, 'r, 'w) session runtime \<Rightarrow> 'w v1_device_resolver \<Rightarrow> keypair \<Rightarrow>
   ('s, 'r, 'c) pending_v1 \<Rightarrow> (('s, 'r, 'w) session, bytes) op" where
  "accept_pending_session E Q S R random pd =
     op_bind (instant_now S) (\<lambda>instant.
     op_bind (op_lift (ok_or (checked_duration_since (pd_deadline pd) instant)
       (Timeout ''accepting inbound v1 peer''))) (\<lambda>remaining.
     op_bind (now_seconds S) (\<lambda>now.
     let expires_at = min (hc_expires_at (h_claims (pd_hello pd)))
           (saturating_add now V1_MAX_CURRENTNESS_LIFETIME_SECONDS);
         challenge = v1_random_challenge E random
     in op_bind (op_guard (expires_at \<le> now) (Timeout ''accepting inbound v1 peer'')) (\<lambda>_.
     op_bind (op_protocol
       (if pd_allow_insecure_loopback_relay pd
        then ack_sign_for_local_development E (pd_local pd) (pd_hello pd)
               (rd_record (pd_sender pd)) (rd_record (pd_target pd)) challenge now expires_at
        else ack_sign E (pd_local pd) (pd_hello pd)
               (rd_record (pd_sender pd)) (rd_record (pd_target pd)) challenge now expires_at)) (\<lambda>ack.
     op_bind (op_protocol (currentness_sign E (pd_local pd) (rd_record (pd_target pd))
       (rd_record (pd_sender pd)) (pd_hello pd) Responder challenge now expires_at
       (pd_allow_insecure_loopback_relay pd))) (\<lambda>proof.
     op_bind (on_world (rv_publish_currentness_proof R proof)) (\<lambda>_.
     op_bind (op_timeout S remaining ''completing accepted v1 currentness exchange''
       (op_capture (accept_operation E Q S R pd ack challenge))) (\<lambda>exchange.
     op_bind (op_ignore (on_world (rv_delete_currentness_proof R proof))) (\<lambda>_.
     op_bind (op_lift exchange) (\<lambda>_.
     op_lift (nonce_uuid E (hc_session_nonce (h_claims (pd_hello pd))))))))))))))"

definition accept_pending ::
  "env \<Rightarrow> ('s, 'r, 'c) quic \<Rightarrow> ('s, 'r, 'w) session runtime \<Rightarrow> 'w v1_device_resolver \<Rightarrow> keypair \<Rightarrow>
   ('s, 'r, 'c) pending_v1 \<Rightarrow> ('w, ('s, 'r, 'c) peer) op" where
  "accept_pending E Q S R random pd0 w =
     (let pd = pd0\<lparr>pd_expiry_cancel := False\<rparr>;
          (result, ss) = accept_pending_session E Q S R random pd
            \<lparr>ss_send = pd_send pd, ss_recv = pd_recv pd, ss_world = w\<rparr>
      in (and_then result (\<lambda>sid.
            Ok (peer_new (pd_connection pd) (ss_send ss) (ss_recv ss) sid
              (cc_identity (c_claims (r_certificate (rd_record (pd_sender pd)))))
              (cc_device_id (c_claims (r_certificate (rd_record (pd_sender pd)))))
              (pd_max_message_bytes pd))), ss_world ss))"

text \<open>
  \<open>IncomingV1::accept\<close> and \<open>reject\<close> consume the entry. The second component is the
  connection's state when it is closed by the call.
\<close>

definition incoming_accept ::
  "env \<Rightarrow> ('s, 'r, 'c) quic \<Rightarrow> ('s, 'r, 'w) session runtime \<Rightarrow> 'w v1_device_resolver \<Rightarrow> keypair \<Rightarrow>
   ('s, 'r, 'c) incoming_v1 \<Rightarrow> 'w \<Rightarrow> ('s, 'r, 'c) peer cresult \<times> 'c option \<times> 'w" where
  "incoming_accept E Q S R random self w =
     (case in_pending self of
        None \<Rightarrow> (Err ChannelClosed, None, w)
      | Some pd \<Rightarrow>
          (let (result, w') = accept_pending E Q S R random pd w
           in (result,
               case result of
                 Err e \<Rightarrow> Some (q_close Q (pd_connection pd) 1 ''v1 accepted handshake failed'')
               | Ok p \<Rightarrow> None, w')))"

definition incoming_reject :: "('s, 'r, 'c) quic \<Rightarrow> ('s, 'r, 'c) incoming_v1 \<Rightarrow> 'c option" where
  "incoming_reject Q self =
     map_option (\<lambda>pd. q_close Q (pd_connection pd) 1 ''application rejected v1 Hello'') (in_pending self)"

definition incoming_drop :: "('s, 'r, 'c) quic \<Rightarrow> ('s, 'r, 'c) incoming_v1 \<Rightarrow> 'c option" where
  "incoming_drop Q self =
     map_option (\<lambda>pd. q_close Q (pd_connection pd) 1 ''application dropped v1 Hello'') (in_pending self)"

section \<open>The initiator\<close>

definition outbound_operation ::
  "env \<Rightarrow> ('s, 'r, 'c) quic \<Rightarrow> ('s, 'r, 'w) session runtime \<Rightarrow> 'w v1_device_resolver \<Rightarrow> bool \<Rightarrow>
   v1_signed_hello \<Rightarrow> v1_device_record \<Rightarrow> resolved_v1_device \<Rightarrow> v1_signed_currentness_proof \<Rightarrow> string \<Rightarrow>
   (('s, 'r, 'w) session, unit) op" where
  "outbound_operation E Q S R allow hello sender_record target proof challenge =
     op_bind (op_protocol (currentness_path E proof)) (\<lambda>initiator_path.
     op_bind (op_protocol (peer_currentness_path E Responder challenge hello (rd_record target))) (\<lambda>responder_path.
     op_bind (on_world (rv_fetch_currentness_proof R
       (cc_identity (c_claims (r_certificate (rd_record target)))) responder_path)) (\<lambda>responder_proof.
     op_bind (now_seconds S) (\<lambda>now.
     op_bind (op_protocol (currentness_verify E responder_proof (rd_record target) sender_record hello
       Responder challenge now allow)) (\<lambda>_.
     op_bind (on_tx (write_json E Q ser_proof_ready
       \<lparr>pr_version = V1_PROTOCOL_VERSION, pr_challenge = challenge,
        pr_initiator_proof_path = initiator_path, pr_responder_proof_path = responder_path\<rparr>
       MAX_PROOF_CONTROL_BYTES)) (\<lambda>_.
     op_bind (on_rx (read_json E Q de_proof_confirmed MAX_PROOF_CONTROL_BYTES)) (\<lambda>confirmed.
     op_bind (op_guard (pf_version confirmed \<noteq> V1_PROTOCOL_VERSION
         \<or> pf_challenge confirmed \<noteq> challenge
         \<or> pf_initiator_proof_path confirmed \<noteq> initiator_path
         \<or> pf_responder_proof_path confirmed \<noteq> responder_path) UnexpectedPeer) (\<lambda>_.
     on_world (rv_commit_remote_record R target)))))))))"

definition outbound_proof_exchange ::
  "env \<Rightarrow> ('s, 'r, 'c) quic \<Rightarrow> ('s, 'r, 'w) session runtime \<Rightarrow> 'w v1_device_resolver \<Rightarrow>
   v1_device_credential \<Rightarrow> bool \<Rightarrow> v1_signed_hello \<Rightarrow> v1_device_record \<Rightarrow> resolved_v1_device \<Rightarrow>
   string \<Rightarrow> (('s, 'r, 'w) session, unit) op" where
  "outbound_proof_exchange E Q S R credential allow hello sender_record target application =
     op_bind (on_tx (write_json E Q (ser_hello E) hello V1_MAX_HELLO_BYTES)) (\<lambda>_.
     op_bind (on_rx (read_json E Q de_ack V1_MAX_ACK_BYTES)) (\<lambda>ack.
     op_bind (now_seconds S) (\<lambda>now.
     op_bind (op_protocol (ack_verify E ack (rd_record target) sender_record hello application now
       allow)) (\<lambda>_.
     let challenge = ac_responder_nonce (a_claims ack)
     in op_bind (op_protocol (currentness_sign E credential sender_record (rd_record target) hello
          Initiator challenge (ac_issued_at (a_claims ack)) (ac_expires_at (a_claims ack)) allow)) (\<lambda>proof.
     op_bind (on_world (rv_publish_currentness_proof R proof)) (\<lambda>_.
     op_bind (op_capture (outbound_operation E Q S R allow hello sender_record target proof
       challenge)) (\<lambda>result.
     op_bind (op_ignore (on_world (rv_delete_currentness_proof R proof))) (\<lambda>_.
     op_lift result))))))))"

section \<open>What a completed exchange did\<close>

text \<open>
  The evidence behind an accepted exchange: the peer's proof was fetched from its own identity at
  the path the exchange determines, verified for the role and the challenge, and the peer's record
  was committed after that.
\<close>

definition peer_proved ::
  "env \<Rightarrow> 'w v1_device_resolver \<Rightarrow> bool \<Rightarrow> v1_currentness_role \<Rightarrow> string \<Rightarrow> v1_signed_hello \<Rightarrow>
   string \<Rightarrow> resolved_v1_device \<Rightarrow> v1_device_record \<Rightarrow> bool" where
  "peer_proved E R allow role challenge hello identity device own =
     (\<exists>path proof now w1 w2 w3 w4.
        peer_currentness_path E role challenge hello (rd_record device) = Ok path \<and>
        rv_fetch_currentness_proof R identity path w1 = (Ok proof, w2) \<and>
        currentness_verify E proof (rd_record device) own hello role challenge now allow = Ok () \<and>
        rv_commit_remote_record R device w3 = (Ok (), w4))"

lemma validate_proof_control_Ok_iff:
  "validate_proof_control E version received expected ip rp hello ir rr = Ok () \<longleftrightarrow>
     version = V1_PROTOCOL_VERSION \<and> received = expected \<and>
     peer_currentness_path E Initiator expected hello ir = Ok ip \<and>
     peer_currentness_path E Responder expected hello rr = Ok rp"
  by (auto simp: validate_proof_control_def ok_iff)

lemma nonce_uuid_Ok_iff:
  "nonce_uuid E nonce = Ok u \<longleftrightarrow> (\<exists>b. b64_decode E nonce = Some b \<and> 16 \<le> length b \<and> u = take 16 b)"
  by (auto simp: nonce_uuid_def ok_iff)

lemma accept_operation_Ok:
  assumes "accept_operation E Q S R pd ack challenge ss = (Ok u, ss')"
  shows "peer_proved E R (pd_allow_insecure_loopback_relay pd) Initiator challenge (pd_hello pd)
      (hc_from_identity (h_claims (pd_hello pd))) (pd_sender pd) (rd_record (pd_target pd))"
    and "\<exists>ip rp s1. write_json E Q ser_proof_confirmed
        \<lparr>pf_version = V1_PROTOCOL_VERSION, pf_challenge = challenge,
         pf_initiator_proof_path = ip, pf_responder_proof_path = rp\<rparr> MAX_PROOF_CONTROL_BYTES s1
          = (Ok (), ss_send ss')"
proof -
  obtain ready :: proof_ready and pf now ss1 ss2 ss3 ss4 ss5 ss6 u1 u2 u3 where
    control: "op_lift (validate_proof_control E (pr_version ready) (pr_challenge ready) challenge
       (pr_initiator_proof_path ready) (pr_responder_proof_path ready) (pd_hello pd)
       (rd_record (pd_sender pd)) (rd_record (pd_target pd))) ss1 = (Ok u1, ss2)"
    and fetch: "on_world (rv_fetch_currentness_proof R (hc_from_identity (h_claims (pd_hello pd)))
       (pr_initiator_proof_path ready)) ss2 = (Ok pf, ss3)"
    and clock: "now_seconds S ss3 = (Ok now, ss4)"
    and verify: "op_protocol (currentness_verify E pf (rd_record (pd_sender pd))
       (rd_record (pd_target pd)) (pd_hello pd) Initiator challenge now
       (pd_allow_insecure_loopback_relay pd)) ss4 = (Ok u2, ss5)"
    and commit: "on_world (rv_commit_remote_record R (pd_sender pd)) ss5 = (Ok u3, ss6)"
    and confirmed: "on_tx (write_json E Q ser_proof_confirmed
        \<lparr>pf_version = V1_PROTOCOL_VERSION, pf_challenge = challenge,
         pf_initiator_proof_path = pr_initiator_proof_path ready,
         pf_responder_proof_path = pr_responder_proof_path ready\<rparr> MAX_PROOF_CONTROL_BYTES) ss6
          = (Ok u, ss')"
    using assms unfolding accept_operation_def by (elim op_bindE) (rule that)
  have "peer_currentness_path E Initiator challenge (pd_hello pd) (rd_record (pd_sender pd))
      = Ok (pr_initiator_proof_path ready)"
    using control by (simp add: validate_proof_control_Ok_iff session_Ok)
  with fetch verify commit
  show "peer_proved E R (pd_allow_insecure_loopback_relay pd) Initiator challenge (pd_hello pd)
      (hc_from_identity (h_claims (pd_hello pd))) (pd_sender pd) (rd_record (pd_target pd))"
    unfolding peer_proved_def session_Ok by fastforce
  show "\<exists>ip rp s1. write_json E Q ser_proof_confirmed
        \<lparr>pf_version = V1_PROTOCOL_VERSION, pf_challenge = challenge,
         pf_initiator_proof_path = ip, pf_responder_proof_path = rp\<rparr> MAX_PROOF_CONTROL_BYTES s1
          = (Ok (), ss_send ss')" using confirmed by (auto simp: session_Ok) blast
qed

lemma accept_pending_session_Ok:
  assumes "accept_pending_session E Q S R random pd ss = (Ok sid, ss')"
  shows "\<exists>ack ss1 ss2. accept_operation E Q S R pd ack (v1_random_challenge E random) ss1 = (Ok (), ss2) \<and>
      ss_send ss' = ss_send ss2 \<and> ss_recv ss' = ss_recv ss2 \<and>
      nonce_uuid E (hc_session_nonce (h_claims (pd_hello pd))) = Ok sid"
proof -
  obtain ack ss1 ss2 pf where
    "accept_operation E Q S R pd ack (v1_random_challenge E random) ss1 = (Ok (), ss2)"
    "ss' = snd (on_world (rv_delete_currentness_proof R pf) ss2)"
    "nonce_uuid E (hc_session_nonce (h_claims (pd_hello pd))) = Ok sid"
    using assms unfolding accept_pending_session_def Let_def session_Ok by auto
  then show ?thesis by (auto simp: on_world_def split: prod.splits)
qed

lemma accept_pending_Ok:
  assumes "accept_pending E Q S R random pd w = (Ok p, w')"
  shows "peer_proved E R (pd_allow_insecure_loopback_relay pd) Initiator (v1_random_challenge E random)
      (pd_hello pd) (hc_from_identity (h_claims (pd_hello pd))) (pd_sender pd) (rd_record (pd_target pd))"
    and "\<exists>ip rp s1 s2. write_json E Q ser_proof_confirmed
        \<lparr>pf_version = V1_PROTOCOL_VERSION, pf_challenge = v1_random_challenge E random,
         pf_initiator_proof_path = ip, pf_responder_proof_path = rp\<rparr> MAX_PROOF_CONTROL_BYTES s1
          = (Ok (), s2) \<and> send p = Some s2"
    and "connection p = pd_connection pd"
    and "nonce_uuid E (hc_session_nonce (h_claims (pd_hello pd))) = Ok (session_id p)"
    and "remote_identity p = cc_identity (c_claims (r_certificate (rd_record (pd_sender pd))))"
    and "remote_device_id p = cc_device_id (c_claims (r_certificate (rd_record (pd_sender pd))))"
    and "max_message_bytes p = pd_max_message_bytes pd"
proof -
  let ?pd = "pd\<lparr>pd_expiry_cancel := False\<rparr>"
  obtain sid ss where s: "accept_pending_session E Q S R random ?pd
      \<lparr>ss_send = pd_send pd, ss_recv = pd_recv pd, ss_world = w\<rparr> = (Ok sid, ss)"
    and p: "p = peer_new (pd_connection pd) (ss_send ss) (ss_recv ss) sid
              (cc_identity (c_claims (r_certificate (rd_record (pd_sender pd)))))
              (cc_device_id (c_claims (r_certificate (rd_record (pd_sender pd)))))
              (pd_max_message_bytes pd)"
    using assms by (auto simp: accept_pending_def Let_def and_then_Ok_iff split: prod.splits)
  obtain ack ss1 ss2 where o':
      "accept_operation E Q S R ?pd ack (v1_random_challenge E random) ss1 = (Ok (), ss2)"
      "ss_send ss = ss_send ss2" "nonce_uuid E (hc_session_nonce (h_claims (pd_hello pd))) = Ok sid"
    using accept_pending_session_Ok [OF s] by auto
  note fin = accept_operation_Ok [OF o'(1)]
  show "peer_proved E R (pd_allow_insecure_loopback_relay pd) Initiator (v1_random_challenge E random)
      (pd_hello pd) (hc_from_identity (h_claims (pd_hello pd))) (pd_sender pd) (rd_record (pd_target pd))"
    using fin(1) by simp
  show "\<exists>ip rp s1 s2. write_json E Q ser_proof_confirmed
        \<lparr>pf_version = V1_PROTOCOL_VERSION, pf_challenge = v1_random_challenge E random,
         pf_initiator_proof_path = ip, pf_responder_proof_path = rp\<rparr> MAX_PROOF_CONTROL_BYTES s1
          = (Ok (), s2) \<and> send p = Some s2"
    using fin(2) o'(2) by (auto simp: p peer_new_def)
  show "connection p = pd_connection pd"
    "nonce_uuid E (hc_session_nonce (h_claims (pd_hello pd))) = Ok (session_id p)"
    "remote_identity p = cc_identity (c_claims (r_certificate (rd_record (pd_sender pd))))"
    "remote_device_id p = cc_device_id (c_claims (r_certificate (rd_record (pd_sender pd))))"
    "max_message_bytes p = pd_max_message_bytes pd"
    by (simp_all add: p peer_new_def o'(3))
qed

lemma outbound_operation_Ok:
  assumes "outbound_operation E Q S R allow hello sender_record target pf challenge ss = (Ok u, ss')"
  shows "peer_proved E R allow Responder challenge hello
      (cc_identity (c_claims (r_certificate (rd_record target)))) target sender_record"
    and "\<exists>r1 r2 confirmed. read_json E Q de_proof_confirmed MAX_PROOF_CONTROL_BYTES r1 = (Ok confirmed, r2) \<and>
      pf_challenge confirmed = challenge \<and> currentness_path E pf = Ok (pf_initiator_proof_path confirmed) \<and>
      peer_currentness_path E Responder challenge hello (rd_record target)
        = Ok (pf_responder_proof_path confirmed)"
proof -
  obtain confirmed :: proof_confirmed and ip rp pv now ss1 ss2 ss3 ss4 ss5 ss6 ss7 ss8 ss9 u1 u2 u3 where
    ip: "op_protocol (currentness_path E pf) ss = (Ok ip, ss1)"
    and rp: "op_protocol (peer_currentness_path E Responder challenge hello (rd_record target)) ss1
      = (Ok rp, ss2)"
    and fetch: "on_world (rv_fetch_currentness_proof R
       (cc_identity (c_claims (r_certificate (rd_record target)))) rp) ss2 = (Ok pv, ss3)"
    and clock: "now_seconds S ss3 = (Ok now, ss4)"
    and verify: "op_protocol (currentness_verify E pv (rd_record target) sender_record hello
       Responder challenge now allow) ss4 = (Ok u1, ss5)"
    and ready: "on_tx (write_json E Q ser_proof_ready
       \<lparr>pr_version = V1_PROTOCOL_VERSION, pr_challenge = challenge,
        pr_initiator_proof_path = ip, pr_responder_proof_path = rp\<rparr>
       MAX_PROOF_CONTROL_BYTES) ss5 = (Ok u2, ss6)"
    and confirmed: "on_rx (read_json E Q de_proof_confirmed MAX_PROOF_CONTROL_BYTES) ss6 = (Ok confirmed, ss7)"
    and check: "op_guard (pf_version confirmed \<noteq> V1_PROTOCOL_VERSION
         \<or> pf_challenge confirmed \<noteq> challenge
         \<or> pf_initiator_proof_path confirmed \<noteq> ip
         \<or> pf_responder_proof_path confirmed \<noteq> rp) UnexpectedPeer ss7 = (Ok u3, ss8)"
    and commit: "on_world (rv_commit_remote_record R target) ss8 = (Ok u, ss')"
    using assms unfolding outbound_operation_def by (elim op_bindE) (rule that)
  show "peer_proved E R allow Responder challenge hello
      (cc_identity (c_claims (r_certificate (rd_record target)))) target sender_record"
    using rp fetch verify commit unfolding peer_proved_def session_Ok by fastforce
  have "read_json E Q de_proof_confirmed MAX_PROOF_CONTROL_BYTES (ss_recv ss6) = (Ok confirmed, ss_recv ss7)"
    using confirmed by (auto simp: session_Ok)
  then show "\<exists>r1 r2 confirmed. read_json E Q de_proof_confirmed MAX_PROOF_CONTROL_BYTES r1 = (Ok confirmed, r2) \<and>
      pf_challenge confirmed = challenge \<and> currentness_path E pf = Ok (pf_initiator_proof_path confirmed) \<and>
      peer_currentness_path E Responder challenge hello (rd_record target)
        = Ok (pf_responder_proof_path confirmed)"
    using check ip rp by (intro exI [of _ "ss_recv ss6"] exI [of _ "ss_recv ss7"] exI [of _ confirmed])
      (auto simp: session_Ok)
qed

lemma outbound_proof_exchange_Ok:
  assumes "outbound_proof_exchange E Q S R credential allow hello sender_record target application ss
    = (Ok u, ss')"
  obtains ack now pf where
    "ack_verify E ack (rd_record target) sender_record hello application now allow = Ok ()"
    "currentness_sign E credential sender_record (rd_record target) hello Initiator
       (ac_responder_nonce (a_claims ack)) (ac_issued_at (a_claims ack)) (ac_expires_at (a_claims ack))
       allow = Ok pf"
    "peer_proved E R allow Responder (ac_responder_nonce (a_claims ack)) hello
       (cc_identity (c_claims (r_certificate (rd_record target)))) target sender_record"
proof -
  obtain ack :: v1_signed_ack and now pf result ss1 ss2 ss3 ss4 ss5 ss6 ss7 ss8 u1 u2 u3 u4 where
    "on_tx (write_json E Q (ser_hello E) hello V1_MAX_HELLO_BYTES) ss = (Ok u1, ss1)"
    "on_rx (read_json E Q de_ack V1_MAX_ACK_BYTES) ss1 = (Ok ack, ss2)"
    "now_seconds S ss2 = (Ok now, ss3)"
    and verify: "op_protocol (ack_verify E ack (rd_record target) sender_record hello application now
       allow) ss3 = (Ok u2, ss4)"
    and sign: "op_protocol (currentness_sign E credential sender_record (rd_record target) hello
          Initiator (ac_responder_nonce (a_claims ack)) (ac_issued_at (a_claims ack))
          (ac_expires_at (a_claims ack)) allow) ss4 = (Ok pf, ss5)"
    and "on_world (rv_publish_currentness_proof R pf) ss5 = (Ok u3, ss6)"
    and opn: "op_capture (outbound_operation E Q S R allow hello sender_record target pf
       (ac_responder_nonce (a_claims ack))) ss6 = (Ok result, ss7)"
    and "op_ignore (on_world (rv_delete_currentness_proof R pf)) ss7 = (Ok u4, ss8)"
    and result: "op_lift result ss8 = (Ok u, ss')"
    using assms unfolding outbound_proof_exchange_def Let_def by (elim op_bindE) (rule that)
  have "outbound_operation E Q S R allow hello sender_record target pf
      (ac_responder_nonce (a_claims ack)) ss6 = (Ok u, ss7)"
    using opn result by (simp add: session_Ok)
  from outbound_operation_Ok(1) [OF this] show ?thesis
    using verify sign by (intro that) (auto simp: session_Ok)
qed

end
