(* ===== verification/Replay_Cache.thy ===== *)
theory Replay_Cache
  imports Client_Op
begin

text \<open>
  The replay cache of authenticated Hellos (\<open>ReplayCache\<close> of
  \<open>crates/client/src/v1_peer.rs\<close>) and the contract its client relies on: a key is reserved at
  most once until it expires.
\<close>

record replay_entry =
  re_identity :: string
  re_expires_at :: u64

record replay_cache =
  rc_capacity :: nat
  rc_per_identity_capacity :: nat
  rc_entries :: "(string, replay_entry) hash_map"

definition replay_new :: "nat \<Rightarrow> nat \<Rightarrow> replay_cache" where
  "replay_new capacity per_identity_capacity =
     \<lparr>rc_capacity = capacity, rc_per_identity_capacity = per_identity_capacity, rc_entries = []\<rparr>"

definition identity_entries :: "string \<Rightarrow> (string, replay_entry) hash_map \<Rightarrow> nat" where
  "identity_entries identity m = length (filter (\<lambda>(k, entry). re_identity entry = identity) m)"

text \<open>Expired entries are dropped first, also when the insertion is refused.\<close>

definition replay_insert :: "string \<Rightarrow> string \<Rightarrow> u64 \<Rightarrow> u64 \<Rightarrow> (replay_cache, unit) op" where
  "replay_insert key identity expires_at now c =
     (let live = hm_retain (\<lambda>_ entry. re_expires_at entry > now) (rc_entries c);
          c' = c\<lparr>rc_entries := live\<rparr>
      in if hm_contains live key then (Err UnexpectedPeer, c')
         else if length live \<ge> rc_capacity c
         then (Err (Iroh ''v1 replay cache reached its authenticated-entry limit''), c')
         else if identity_entries identity live \<ge> rc_per_identity_capacity c
         then (Err (Iroh ''v1 replay cache reached its per-identity limit''), c')
         else (Ok (), c\<lparr>rc_entries := AList.update key
                 \<lparr>re_identity = identity, re_expires_at = expires_at\<rparr> live\<rparr>))"

definition replay_remove :: "string \<Rightarrow> replay_cache \<Rightarrow> replay_cache" where
  "replay_remove key c = c\<lparr>rc_entries := AList.delete key (rc_entries c)\<rparr>"

section \<open>The contract\<close>

text \<open>
  \<open>held c k\<close> is the time until which the guard refuses \<open>k\<close>. A client reserves keys, may
  release one it reserved, and reads a clock at every call.
\<close>

datatype replay_event = Reserve string string u64 u64 | Release string

locale replay_guard =
  fixes reserve :: "string \<Rightarrow> string \<Rightarrow> u64 \<Rightarrow> u64 \<Rightarrow> ('c, unit) op"
    and release :: "string \<Rightarrow> 'c \<Rightarrow> 'c"
    and held :: "'c \<Rightarrow> string \<Rightarrow> u64 option"
    and inv :: "'c \<Rightarrow> bool"
  assumes reserve_inv: "inv c \<Longrightarrow> reserve k i e now c = (r, c') \<Longrightarrow> inv c'"
    and release_inv: "inv c \<Longrightarrow> inv (release k c)"
    and reserve_fresh: "inv c \<Longrightarrow> reserve k i e now c = (Ok u, c') \<Longrightarrow> held c k = Some e' \<Longrightarrow> e' \<le> now"
    and reserve_held: "inv c \<Longrightarrow> reserve k i e now c = (Ok u, c') \<Longrightarrow> held c' k = Some e"
    and reserve_keeps: "inv c \<Longrightarrow> reserve k i e now c = (r, c') \<Longrightarrow> held c k' = Some e' \<Longrightarrow> now < e' \<Longrightarrow>
          held c' k' = Some e'"
    and release_other: "inv c \<Longrightarrow> k' \<noteq> k \<Longrightarrow> held (release k c) k' = held c k'"
begin

fun run :: "'c \<Rightarrow> replay_event list \<Rightarrow> 'c" where
  "run c [] = c"
| "run c (Reserve k i e now # evs) = run (snd (reserve k i e now c)) evs"
| "run c (Release k # evs) = run (release k c) evs"

lemma run_inv: "inv c \<Longrightarrow> inv (run c evs)"
proof (induction evs arbitrary: c)
  case (Cons ev evs)
  show ?case
  proof (cases ev)
    case (Reserve k i e now)
    obtain r c' where "reserve k i e now c = (r, c')" by fastforce
    then show ?thesis using Cons Reserve reserve_inv by (metis run.simps(2) snd_conv)
  next
    case (Release k)
    then show ?thesis using Cons release_inv by simp
  qed
qed simp

lemma run_holds:
  assumes "inv c" and "held c k = Some e"
    and "\<forall>ev \<in> set evs. case ev of Reserve k' i' e' now \<Rightarrow> now < e | Release k' \<Rightarrow> k' \<noteq> k"
  shows "held (run c evs) k = Some e"
  using assms
proof (induction evs arbitrary: c)
  case (Cons ev evs)
  show ?case
  proof (cases ev)
    case (Reserve k' i' e' now)
    obtain r c' where c': "reserve k' i' e' now c = (r, c')" by fastforce
    have "held c' k = Some e" using reserve_keeps [OF Cons.prems(1) c' Cons.prems(2)] Cons.prems(3) Reserve
      by simp
    then show ?thesis using Cons Reserve c' reserve_inv [OF Cons.prems(1) c'] by simp
  next
    case (Release k')
    then have "held (release k' c) k = Some e" using release_other [OF Cons.prems(1), of k k'] Cons.prems by auto
    then show ?thesis using Cons Release release_inv by simp
  qed
qed simp

text \<open>A key reserved until \<open>e\<close> is not reserved again before \<open>e\<close>.\<close>

lemma no_second_reservation:
  assumes "inv c" and first: "reserve k i e now c = (Ok u, c')"
    and quiet: "\<forall>ev \<in> set evs. case ev of Reserve k' i' e' t \<Rightarrow> t < e | Release k' \<Rightarrow> k' \<noteq> k"
    and "now' < e"
  shows "fst (reserve k i' e' now' (run c' evs)) \<noteq> Ok ()"
proof
  assume "fst (reserve k i' e' now' (run c' evs)) = Ok ()"
  then obtain c'' where again: "reserve k i' e' now' (run c' evs) = (Ok (), c'')" by (metis prod.collapse)
  have inv': "inv c'" by (rule reserve_inv [OF assms(1) first])
  have "held (run c' evs) k = Some e"
    by (rule run_holds [OF inv' reserve_held [OF assms(1) first] quiet])
  with reserve_fresh [OF run_inv [OF inv'] again] assms(4) show False by fastforce
qed

end

section \<open>The cache provides it\<close>

definition replay_inv :: "replay_cache \<Rightarrow> bool" where
  "replay_inv c =
     (distinct (map fst (rc_entries c)) \<and> length (rc_entries c) \<le> rc_capacity c \<and>
      (\<forall>identity. identity_entries identity (rc_entries c) \<le> rc_per_identity_capacity c))"

definition replay_held :: "replay_cache \<Rightarrow> string \<Rightarrow> u64 option" where
  "replay_held c k = map_option re_expires_at (map_of (rc_entries c) k)"

lemma replay_new_inv: "replay_inv (replay_new capacity per_identity)"
  by (simp add: replay_inv_def replay_new_def identity_entries_def)

lemma identity_entries_retain_le: "identity_entries i (hm_retain p m) \<le> identity_entries i m"
proof -
  have "filter q (filter p' m) = filter p' (filter q m)" for q p' by (induction m) auto
  then show ?thesis unfolding identity_entries_def hm_retain_def by (metis length_filter_le)
qed

lemma identity_entries_delete_le: "identity_entries i (AList.delete k m) \<le> identity_entries i m"
  unfolding AList.delete_eq using identity_entries_retain_le [of i "\<lambda>k' _. k \<noteq> k'" m]
  by (simp add: hm_retain_def)

lemma replay_retain_inv:
  assumes "replay_inv c"
  shows "replay_inv (c\<lparr>rc_entries := hm_retain p (rc_entries c)\<rparr>)"
proof -
  have "identity_entries i (hm_retain p (rc_entries c)) \<le> rc_per_identity_capacity c" for i
    using identity_entries_retain_le [of i p "rc_entries c"] assms
    by (auto simp: replay_inv_def intro: order_trans)
  then show ?thesis
    using assms length_hm_retain_le [of p "rc_entries c"]
    by (auto simp: replay_inv_def distinct_hm_retain)
qed

lemma replay_insert_cases:
  assumes "replay_insert k i e now c = (r, c')"
  defines "live \<equiv> hm_retain (\<lambda>_ entry. re_expires_at entry > now) (rc_entries c)"
  obtains (refused) err where "r = Err err" "c' = c\<lparr>rc_entries := live\<rparr>"
    "err = UnexpectedPeer \<longleftrightarrow> hm_contains live k"
  | (inserted) "r = Ok ()" "\<not> hm_contains live k" "length live < rc_capacity c"
      "identity_entries i live < rc_per_identity_capacity c"
      "c' = c\<lparr>rc_entries := live @ [(k, \<lparr>re_identity = i, re_expires_at = e\<rparr>)]\<rparr>"
  using assms by (auto simp: replay_insert_def Let_def hm_insert_new split: if_splits)

lemma replay_insert_inv:
  assumes inv: "replay_inv c" and ins: "replay_insert k i e now c = (r, c')"
  shows "replay_inv c'"
  using ins
proof (cases rule: replay_insert_cases)
  case (refused err)
  then show ?thesis by (simp add: replay_retain_inv [OF inv])
next
  case inserted
  have "replay_inv (c\<lparr>rc_entries := hm_retain (\<lambda>_ entry. re_expires_at entry > now) (rc_entries c)\<rparr>)"
    by (rule replay_retain_inv [OF inv])
  then show ?thesis
    using inserted by (auto simp: replay_inv_def identity_entries_def hm_contains_def image_iff)
qed

lemma replay_held_live:
  assumes "replay_inv c" and "replay_held c k = Some e" and "now < e"
  shows "\<exists>entry. map_of (hm_retain (\<lambda>_ entry. re_expires_at entry > now) (rc_entries c)) k = Some entry
    \<and> re_expires_at entry = e"
  using assms by (auto simp: replay_held_def replay_inv_def map_of_hm_retain)

lemma replay_insert_keeps:
  assumes inv: "replay_inv c" and ins: "replay_insert k i e now c = (r, c')"
    and "replay_held c k' = Some e'" and "now < e'"
  shows "replay_held c' k' = Some e'"
proof -
  obtain entry where entry:
    "map_of (hm_retain (\<lambda>_ entry. re_expires_at entry > now) (rc_entries c)) k' = Some entry"
    "re_expires_at entry = e'"
    using replay_held_live [OF inv assms(3,4)] by blast
  from ins show ?thesis
    by (cases rule: replay_insert_cases) (use entry in \<open>simp_all add: replay_held_def map_add_Some_iff\<close>)
qed

lemma replay_insert_held:
  assumes "replay_insert k i e now c = (Ok u, c')"
  shows "replay_held c' k = Some e"
  using assms
  by (cases rule: replay_insert_cases)
     (auto simp: replay_held_def hm_contains_not_iff map_add_def)

lemma replay_insert_fresh:
  assumes "replay_inv c" and "replay_insert k i e now c = (Ok u, c')" and "replay_held c k = Some e'"
  shows "e' \<le> now"
proof (rule ccontr)
  assume "\<not> e' \<le> now"
  then have "now < e'" by simp
  with replay_held_live [OF assms(1,3)]
  have "hm_contains (hm_retain (\<lambda>_ entry. re_expires_at entry > now) (rc_entries c)) k"
    by (auto simp: hm_contains_iff)
  with assms(2) show False by (simp add: replay_insert_def Let_def)
qed

lemma replay_remove_inv:
  assumes "replay_inv c"
  shows "replay_inv (replay_remove k c)"
proof -
  have "identity_entries i (AList.delete k (rc_entries c)) \<le> rc_per_identity_capacity c" for i
    using identity_entries_delete_le [of i k "rc_entries c"] assms
    by (auto simp: replay_inv_def intro: order_trans)
  then show ?thesis
    using assms length_delete_le [of k "rc_entries c"]
    by (auto simp: replay_inv_def replay_remove_def distinct_delete)
qed

interpretation replay: replay_guard replay_insert replay_remove replay_held replay_inv
proof
  fix c k i e now r c'
  assume "replay_inv c" "replay_insert k i e now c = (r, c')"
  then show "replay_inv c'" by (rule replay_insert_inv)
next
  fix c k i e now e' u c'
  assume "replay_inv c" "replay_insert k i e now c = (Ok u, c')" "replay_held c k = Some e'"
  then show "e' \<le> now" by (rule replay_insert_fresh)
next
  fix c k i e now u c'
  assume "replay_inv c" "replay_insert k i e now c = (Ok u, c')"
  then show "replay_held c' k = Some e" by (intro replay_insert_held)
next
  fix c k i e now r c' k' e'
  assume "replay_inv c" "replay_insert k i e now c = (r, c')" "replay_held c k' = Some e'" "now < e'"
  then show "replay_held c' k' = Some e'" by (rule replay_insert_keeps)
next
  fix c k assume "replay_inv c" then show "replay_inv (replay_remove k c)" by (rule replay_remove_inv)
next
  fix c :: replay_cache and k' k :: string
  assume "k' \<noteq> k" then show "replay_held (replay_remove k c) k' = replay_held c k'"
    by (simp add: replay_held_def replay_remove_def delete_conv' map_of_delete)
qed

text \<open>
  An insertion answers in one of four ways, and exactly by these conditions on the live entries.
\<close>

lemma replay_insert_Ok_iff:
  assumes "replay_inv c"
  shows "fst (replay_insert k i e now c) = Ok () \<longleftrightarrow>
    (\<forall>e'. replay_held c k = Some e' \<longrightarrow> e' \<le> now) \<and>
    card {k'. \<exists>e'. replay_held c k' = Some e' \<and> now < e'} < rc_capacity c \<and>
    card {k'. \<exists>x. map_of (rc_entries c) k' = Some x \<and> now < re_expires_at x \<and> re_identity x = i}
      < rc_per_identity_capacity c"
proof -
  let ?live = "hm_retain (\<lambda>_ entry. re_expires_at entry > now) (rc_entries c)"
  have dist: "distinct (map fst (rc_entries c))" using assms by (simp add: replay_inv_def)
  then have dl: "distinct (map fst ?live)" by (rule distinct_hm_retain)
  have card_keys: "length m = card (fst ` set m)" if "distinct (map fst m)" for m :: "(string \<times> replay_entry) list"
    using that distinct_card [of "map fst m"] by simp
  have live: "fst ` set ?live = {k'. \<exists>e'. replay_held c k' = Some e' \<and> now < e'}"
    using dist by (force simp: set_hm_retain replay_held_def)
  have df: "distinct (map fst (filter (\<lambda>(k, x). re_identity x = i) ?live))"
    using dl by (simp add: distinct_map_filter)
  have mine: "fst ` set (filter (\<lambda>(k, x). re_identity x = i) ?live)
      = {k'. \<exists>x. map_of (rc_entries c) k' = Some x \<and> now < re_expires_at x \<and> re_identity x = i}"
    using dist by (force simp: set_hm_retain)
  have cont: "hm_contains ?live k \<longleftrightarrow> (\<exists>e'. replay_held c k = Some e' \<and> now < e')"
    unfolding hm_contains_def live by simp
  show ?thesis
    unfolding replay_insert_def Let_def identity_entries_def
    using card_keys [OF dl] card_keys [OF df] cont unfolding live mine
    by (auto simp: not_le)
qed

end
