(* ===== verification/Client.thy ===== *)
theory Client
  imports Exchange Replay_Cache
begin

text \<open>
  The client endpoint (\<open>V1Client\<close> and the inbound path of
  \<open>crates/client/src/v1_peer.rs\<close>): registering local records, dialing, and authenticating
  inbound Hellos up to the consent queue. An operation runs on the client's own state and the
  world around it; the iroh endpoint is the record \<open>endpoint_api\<close>.
\<close>

section \<open>The endpoint\<close>

datatype endpoint_id = EndpointId "256 word"

text \<open>What \<open>bind\<close> hands to iroh's builder.\<close>

record endpoint_options =
  eo_secret_key :: bytes
  eo_alpns :: "string list"
  eo_relays :: "iroh_relay_config list"
  eo_ca_certificates :: "bytes list"
  eo_bind_addresses :: "socket_addr list"
  eo_max_tls_tickets :: nat
  eo_max_concurrent_bidi_streams :: nat
  eo_max_concurrent_uni_streams :: nat
  eo_stream_receive_window :: u32
  eo_receive_window :: u32

record ('s, 'r, 'c, 'w) endpoint_api =
  ep_public_z32 :: "bytes \<Rightarrow> string"
  ep_bind_addr :: "socket_addr \<Rightarrow> (unit, string) result"
  ep_bind :: "endpoint_options \<Rightarrow> 'w \<Rightarrow> (unit, string) result \<times> 'w"
  ep_online :: "duration \<Rightarrow> 'w \<Rightarrow> bool \<times> 'w"
  ep_shutdown :: "'w \<Rightarrow> 'w"
  ep_id_from_z32 :: "string \<Rightarrow> (endpoint_id, string) result"
  ep_connect :: "duration \<Rightarrow> endpoint_id \<Rightarrow> url list \<Rightarrow> string \<Rightarrow> 'w \<Rightarrow> ('c, string) result option \<times> 'w"
  ep_remote_id :: "'c \<Rightarrow> endpoint_id"
  ep_open_bi :: "duration \<Rightarrow> 'c \<Rightarrow> 'w \<Rightarrow> ('s \<times> 'r, string) result option \<times> 'w"
  ep_accept_bi :: "'c \<Rightarrow> 'w \<Rightarrow> ('s \<times> 'r, string) result \<times> 'w"
  ep_is_0rtt :: "'r \<Rightarrow> bool"
  ep_close :: "'c \<Rightarrow> nat \<Rightarrow> string \<Rightarrow> 'w \<Rightarrow> 'w"

record ('s, 'r, 'c) v1_client =
  cl_credential :: v1_device_credential
  cl_config :: v1_client_config
  cl_pending :: "('s, 'r, 'c) pending_queue"
  cl_replay :: replay_cache
  cl_active_records :: "(string, v1_device_record) hash_map"
  cl_instance_nonce :: string

section \<open>Operations on client and world\<close>

type_synonym ('s, 'r, 'c, 'w, 'a) client_op = "(('s, 'r, 'c) v1_client \<times> 'w, 'a) op"

definition on_env :: "('w, 'a) op \<Rightarrow> ('s, 'r, 'c, 'w, 'a) client_op" where
  "on_env m = (\<lambda>(c, w). let (result, w') = m w in (result, (c, w')))"

definition on_client :: "(('s, 'r, 'c) v1_client \<Rightarrow> 'a cresult \<times> ('s, 'r, 'c) v1_client) \<Rightarrow>
   ('s, 'r, 'c, 'w, 'a) client_op" where
  "on_client m = (\<lambda>(c, w). let (result, c') = m c in (result, (c', w)))"

definition get_client :: "('s, 'r, 'c, 'w, ('s, 'r, 'c) v1_client) client_op" where
  "get_client = (\<lambda>(c, w). (Ok c, (c, w)))"

lemma on_env_Ok: "on_env m cw = (Ok x, cw') \<longleftrightarrow>
    (\<exists>w'. m (snd cw) = (Ok x, w') \<and> cw' = (fst cw, w'))"
  by (auto simp: on_env_def split: prod.splits)

lemma on_client_Ok: "on_client m cw = (Ok x, cw') \<longleftrightarrow>
    (\<exists>c'. m (fst cw) = (Ok x, c') \<and> cw' = (c', snd cw))"
  by (auto simp: on_client_def split: prod.splits)

lemma get_client_Ok: "get_client cw = (Ok x, cw') \<longleftrightarrow> x = fst cw \<and> cw' = cw"
  by (auto simp: get_client_def split: prod.splits)

text \<open>A call of iroh whose error becomes a message, with and without a time limit.\<close>

definition iroh_op :: "('w \<Rightarrow> ('a, string) result \<times> 'w) \<Rightarrow> ('w, 'a) op" where
  "iroh_op m w = (let (result, w') = m w in (map_err Iroh result, w'))"

definition iroh_timed :: "string \<Rightarrow> ('w \<Rightarrow> ('a, string) result option \<times> 'w) \<Rightarrow> ('w, 'a) op" where
  "iroh_timed message m w =
     (let (answer, w') = m w
      in (case answer of None \<Rightarrow> Err (Timeout message) | Some result \<Rightarrow> map_err Iroh result, w'))"

lemma iroh_op_Ok: "iroh_op m w = (Ok x, w') \<longleftrightarrow> m w = (Ok x, w')"
  by (auto simp: iroh_op_def map_err_Ok_iff split: prod.splits)

lemma iroh_timed_Ok: "iroh_timed msg m w = (Ok x, w') \<longleftrightarrow> m w = (Some (Ok x), w')"
  by (auto simp: iroh_timed_def map_err_Ok_iff split: prod.splits option.splits)

lemmas client_Ok = session_Ok on_env_Ok on_client_Ok get_client_Ok iroh_op_Ok iroh_timed_Ok

section \<open>Binding\<close>

fun bind_addresses :: "('s, 'r, 'c, 'w) endpoint_api \<Rightarrow> socket_addr list \<Rightarrow> unit cresult" where
  "bind_addresses N [] = Ok ()"
| "bind_addresses N (a # as) = and_then (map_err Iroh (ep_bind_addr N a)) (\<lambda>_. bind_addresses N as)"

definition client_bind ::
  "env \<Rightarrow> bool \<Rightarrow> 'w runtime \<Rightarrow> ('s, 'r, 'c, 'w) endpoint_api \<Rightarrow> keypair \<Rightarrow> v1_device_credential \<Rightarrow>
   v1_client_config \<Rightarrow> ('w, ('s, 'r, 'c) v1_client) op" where
  "client_bind E wasm T N random credential config =
     op_bind (op_lift (config_validate E wasm config)) (\<lambda>_.
     op_bind (now_seconds T) (\<lambda>now.
     op_bind (op_protocol (credential_verify E credential now)) (\<lambda>_.
     op_bind (op_protocol (iroh_secret_key_bytes E credential)) (\<lambda>key_bytes.
     op_bind (op_guard (ep_public_z32 N key_bytes \<noteq> cr_iroh_endpoint_id credential) UnexpectedPeer) (\<lambda>_.
     let bind_to = (if \<not> wasm \<and> cfg_path_policy config = DirectWithRelayFallback
                    then cfg_udp_bind_addresses config else []);
         options = \<lparr>eo_secret_key = key_bytes, eo_alpns = [V1_IROH_ALPN_TEXT],
           eo_relays = cfg_trusted_relays config,
           eo_ca_certificates = (if wasm then [] else cfg_relay_ca_certificates config),
           eo_bind_addresses = bind_to, eo_max_tls_tickets = 0,
           eo_max_concurrent_bidi_streams = 1, eo_max_concurrent_uni_streams = 0,
           eo_stream_receive_window = PER_CONNECTION_RECEIVE_WINDOW,
           eo_receive_window = PER_CONNECTION_RECEIVE_WINDOW\<rparr>
     in op_bind (op_lift (bind_addresses N bind_to)) (\<lambda>_.
     op_bind (iroh_op (ep_bind N options)) (\<lambda>_.
     op_bind (\<lambda>w. let (online, w') = ep_online N (cfg_endpoint_online_timeout config) w
              in if online then (Ok (), w')
                 else (Err (Timeout ''registering v1 endpoint with iroh relay''), ep_shutdown N w')) (\<lambda>_.
     op_return \<lparr>cl_credential = credential, cl_config = config,
       cl_pending = pq_new (cfg_incoming_queue_capacity config) (cfg_max_pending_per_identity config),
       cl_replay = replay_new (cfg_replay_cache_capacity config)
         (cfg_replay_cache_per_identity_capacity config),
       cl_active_records = [], cl_instance_nonce = v1_random_challenge E random\<rparr>))))))))"

section \<open>Local records\<close>

definition retain_current :: "u64 \<Rightarrow> (string, v1_device_record) hash_map \<Rightarrow> (string, v1_device_record) hash_map" where
  "retain_current now active = hm_retain (\<lambda>_ r. lc_expires_at (l_claims (r_locator r)) > now) active"

text \<open>\<open>min_by_key\<close> keeps the first of equal minima, \<open>max_by\<close> the last of equal maxima.\<close>

fun oldest_record :: "(string, v1_device_record) hash_map \<Rightarrow> string option" where
  "oldest_record [] = None"
| "oldest_record (x # xs) = Some (fst (foldl (\<lambda>best y.
     if lc_expires_at (l_claims (r_locator (snd y))) < lc_expires_at (l_claims (r_locator (snd best)))
     then y else best) x xs))"

definition record_rank :: "string \<times> v1_device_record \<Rightarrow> u64 \<times> string" where
  "record_rank x = (lc_sequence (l_claims (r_locator (snd x))), fst x)"

fun latest_record :: "(string, v1_device_record) hash_map \<Rightarrow> v1_device_record option" where
  "latest_record [] = None"
| "latest_record (x # xs) = Some (snd (foldl (\<lambda>best y.
     if record_rank y < record_rank best then best else y) x xs))"

definition register_record ::
  "u64 \<Rightarrow> string \<Rightarrow> v1_device_record \<Rightarrow> (string, v1_device_record) hash_map \<Rightarrow>
   (string, v1_device_record) hash_map" where
  "register_record now digest r active0 =
     (let active = retain_current now active0;
          kept = (if length active \<ge> MAX_ACTIVE_RECORDS \<and> \<not> hm_contains active digest
                  then (case oldest_record active of
                          None \<Rightarrow> active | Some oldest \<Rightarrow> AList.delete oldest active)
                  else active)
      in AList.update digest r kept)"

definition current_record ::
  "env \<Rightarrow> 'w runtime \<Rightarrow> u64 \<Rightarrow> duration \<Rightarrow> ('s, 'r, 'c, 'w, v1_device_record) client_op" where
  "current_record E T sequence lifetime =
     (let lifetime_seconds = as_secs lifetime
      in op_bind (op_guard (lifetime_seconds = 0 \<or> lifetime_seconds > unat V1_MAX_LOCATOR_LIFETIME_SECONDS)
           (Iroh ''v1 locator lifetime is outside protocol bounds'')) (\<lambda>_.
         op_bind (on_env (now_seconds T)) (\<lambda>now.
         op_bind (op_lift (ok_or (checked_add now (of_nat lifetime_seconds))
           (Iroh ''v1 locator expiry overflow''))) (\<lambda>expires_at.
         op_bind get_client (\<lambda>self.
         let relay_urls = map ir_url (cfg_trusted_relays (cl_config self));
             allow = cfg_allow_insecure_loopback_relay (cl_config self)
         in op_bind (op_protocol
              (if allow
               then locator_sign_for_local_development E (cl_credential self) relay_urls
                      (cl_instance_nonce self) sequence now expires_at
               else locator_sign E (cl_credential self) relay_urls
                      (cl_instance_nonce self) sequence now expires_at)) (\<lambda>loc.
         op_bind (op_protocol (record_new E (cl_credential self) loc now allow)) (\<lambda>r.
         op_bind (op_protocol (record_digest E r)) (\<lambda>digest.
         op_bind (on_client (\<lambda>c. (Ok (), c\<lparr>cl_active_records :=
           register_record now digest r (cl_active_records c)\<rparr>))) (\<lambda>_.
         op_return r)))))))))"

definition next_record ::
  "env \<Rightarrow> 'w runtime \<Rightarrow> (string \<Rightarrow> string \<Rightarrow> ('w, u64) op) \<Rightarrow> duration \<Rightarrow>
   ('s, 'r, 'c, 'w, v1_device_record) client_op" where
  "next_record E T next_locator_sequence lifetime =
     op_bind get_client (\<lambda>self.
     op_bind (on_env (next_locator_sequence (cr_identity (cl_credential self))
       (cr_control_signing_key (cl_credential self)))) (\<lambda>sequence.
     current_record E T sequence lifetime))"

section \<open>Dialing\<close>

text \<open>
  The session part of a handshake runs with the client's state set aside and gives back the
  stream halves.
\<close>

definition in_session ::
  "(('s, 'r, 'w) session, 'a) op \<Rightarrow> 's \<Rightarrow> 'r \<Rightarrow> ('s, 'r, 'c, 'w, 's \<times> 'r) client_op" where
  "in_session m tx rx = (\<lambda>(c, w).
     let (result, ss) = m \<lparr>ss_send = tx, ss_recv = rx, ss_world = w\<rparr>
     in (and_then result (\<lambda>_. Ok (ss_send ss, ss_recv ss)), (c, ss_world ss)))"

lemma in_session_Ok: "in_session m tx rx cw = (Ok x, cw') \<longleftrightarrow>
    (\<exists>u ss. m \<lparr>ss_send = tx, ss_recv = rx, ss_world = snd cw\<rparr> = (Ok u, ss) \<and>
       x = (ss_send ss, ss_recv ss) \<and> cw' = (fst cw, ss_world ss))"
  by (auto simp: in_session_def and_then_Ok_iff split: prod.splits)

definition finish_outbound_handshake ::
  "env \<Rightarrow> ('s, 'r, 'c) quic \<Rightarrow> 'w runtime \<Rightarrow> ('s, 'r, 'w) session runtime \<Rightarrow>
   ('s, 'r, 'c, 'w) endpoint_api \<Rightarrow> 'w v1_device_resolver \<Rightarrow> keypair \<Rightarrow> 'c \<Rightarrow> endpoint_id \<Rightarrow>
   resolved_v1_device \<Rightarrow> string \<Rightarrow> ('s, 'r, 'c, 'w, ('s, 'r, 'c) peer) client_op" where
  "finish_outbound_handshake E Q T S N R random conn expected_id target application =
     op_bind (op_guard (ep_remote_id N conn \<noteq> expected_id) UnexpectedPeer) (\<lambda>_.
     op_bind get_client (\<lambda>self.
     op_bind (on_env (iroh_timed ''opening v1 authenticated QUIC stream''
       (ep_open_bi N (cfg_peer_handshake_timeout (cl_config self)) conn))) (\<lambda>(tx, rx).
     op_bind (on_env (now_seconds T)) (\<lambda>now.
     op_bind (on_client (\<lambda>c.
       let active = retain_current now (cl_active_records c)
       in (ok_or (latest_record active)
             (State ''a current local v1 record must be registered before dialing''),
           c\<lparr>cl_active_records := active\<rparr>))) (\<lambda>sender_record.
     let allow = cfg_allow_insecure_loopback_relay (cl_config self);
         expiry = min (min (min (min (saturating_add now (min V1_MAX_HANDSHAKE_LIFETIME_SECONDS 30))
           (lc_expires_at (l_claims (r_locator sender_record))))
           (lc_expires_at (l_claims (r_locator (rd_record target)))))
           (cc_expires_at (c_claims (r_certificate sender_record))))
           (cc_expires_at (c_claims (r_certificate (rd_record target))))
     in op_bind (op_guard (expiry \<le> now) (Timeout ''creating v1 Hello'')) (\<lambda>_.
     op_bind (op_protocol
       (if allow
        then hello_sign_for_local_development E (cl_credential self) sender_record (rd_record target)
               application (v1_random_challenge E random) (now, expiry)
        else hello_sign E (cl_credential self) sender_record (rd_record target)
               application (v1_random_challenge E random) (now, expiry))) (\<lambda>hello.
     op_bind (in_session (op_timeout S (cfg_peer_handshake_timeout (cl_config self))
       ''exchanging v1 Hello and currentness proofs''
       (outbound_proof_exchange E Q S R (cl_credential self) allow hello sender_record target
          application)) tx rx) (\<lambda>(tx', rx').
     op_bind (op_lift (nonce_uuid E (hc_session_nonce (h_claims hello)))) (\<lambda>sid.
     op_return (peer_new conn tx' rx' sid
       (cc_identity (c_claims (r_certificate (rd_record target))))
       (cc_device_id (c_claims (r_certificate (rd_record target))))
       (cfg_max_message_bytes (cl_config self))))))))))))"

definition close_on_error ::
  "('s, 'r, 'c, 'w) endpoint_api \<Rightarrow> 'c \<Rightarrow> string \<Rightarrow> ('s, 'r, 'c, 'w, 'a) client_op \<Rightarrow>
   ('s, 'r, 'c, 'w, 'a) client_op" where
  "close_on_error N conn reason m cw =
     (case m cw of
        (Ok x, cw') \<Rightarrow> (Ok x, cw')
      | (Err e, (c, w)) \<Rightarrow> (Err e, (c, ep_close N conn 1 reason w)))"

definition dial_device ::
  "env \<Rightarrow> ('s, 'r, 'c) quic \<Rightarrow> 'w runtime \<Rightarrow> ('s, 'r, 'w) session runtime \<Rightarrow>
   ('s, 'r, 'c, 'w) endpoint_api \<Rightarrow> 'w v1_device_resolver \<Rightarrow> keypair \<Rightarrow> resolved_v1_device \<Rightarrow>
   string \<Rightarrow> ('s, 'r, 'c, 'w, ('s, 'r, 'c) peer) client_op" where
  "dial_device E Q T S N R random target application =
     op_bind get_client (\<lambda>self.
     op_bind (on_env (now_seconds T)) (\<lambda>now.
     op_bind (op_protocol (record_verify E (rd_record target)
       (cc_identity (c_claims (r_certificate (rd_record target)))) now
       (cfg_allow_insecure_loopback_relay (cl_config self)) None)) (\<lambda>_.
     op_bind (op_protocol (record_path E (rd_record target))) (\<lambda>path.
     op_bind (op_guard (path \<noteq> rd_path target) UnexpectedPeer) (\<lambda>_.
     op_bind (op_lift (trusted_destination_relays E (r_locator (rd_record target)) (cl_config self))) (\<lambda>relay_urls.
     op_bind (op_guard (relay_urls = []) InvalidRelayUrl) (\<lambda>_.
     op_bind (op_lift (map_err Iroh (ep_id_from_z32 N
       (cc_iroh_endpoint_id (c_claims (r_certificate (rd_record target))))))) (\<lambda>expected_id.
     op_bind (on_env (iroh_timed ''connecting v1 iroh QUIC peer''
       (ep_connect N (cfg_peer_handshake_timeout (cl_config self)) expected_id relay_urls
          V1_IROH_ALPN_TEXT))) (\<lambda>conn.
     close_on_error N conn ''invalid v1 handshake''
       (finish_outbound_handshake E Q T S N R random conn expected_id target application))))))))))"

text \<open>
  Every attempt draws its own random challenge: attempt \<open>i\<close> uses \<open>random i\<close>.
\<close>

fun dial_candidates ::
  "env \<Rightarrow> ('s, 'r, 'c) quic \<Rightarrow> 'w runtime \<Rightarrow> ('s, 'r, 'w) session runtime \<Rightarrow>
   ('s, 'r, 'c, 'w) endpoint_api \<Rightarrow> 'w v1_device_resolver \<Rightarrow> (nat \<Rightarrow> keypair) \<Rightarrow> string \<Rightarrow> nat \<Rightarrow>
   resolved_v1_device list \<Rightarrow> ('s, 'r, 'c, 'w, ('s, 'r, 'c) peer) client_op" where
  "dial_candidates E Q T S N R random application failures [] =
     op_fail (Iroh (''all '' @ show_nat failures @ '' bounded v1 device attempts failed''))"
| "dial_candidates E Q T S N R random application failures (candidate # candidates) =
     (\<lambda>cw. case dial_device E Q T S N R (random failures) candidate application cw of
        (Ok peer, cw') \<Rightarrow> (Ok peer, cw')
      | (Err e, cw') \<Rightarrow>
          dial_candidates E Q T S N R random application (failures + 1) candidates cw')"

definition dial_candidates_of ::
  "string option \<Rightarrow> resolved_v1_device list \<Rightarrow> resolved_v1_device list" where
  "dial_candidates_of target_device_id devices =
     take MAX_ACTIVE_RECORDS (filter (\<lambda>d. case target_device_id of
        None \<Rightarrow> True | Some wanted \<Rightarrow> cc_device_id (c_claims (r_certificate (rd_record d))) = wanted)
        (sort_key device_order devices))"

definition dial_inner ::
  "env \<Rightarrow> ('s, 'r, 'c) quic \<Rightarrow> 'w runtime \<Rightarrow> ('s, 'r, 'w) session runtime \<Rightarrow>
   ('s, 'r, 'c, 'w) endpoint_api \<Rightarrow> 'w v1_device_resolver \<Rightarrow> (nat \<Rightarrow> keypair) \<Rightarrow> string \<Rightarrow>
   string option \<Rightarrow> string \<Rightarrow> ('s, 'r, 'c, 'w, ('s, 'r, 'c) peer) client_op" where
  "dial_inner E Q T S N R random target_identity target_device_id application =
     op_bind (on_env (rv_resolve_devices R target_identity)) (\<lambda>devices.
     let candidates = dial_candidates_of target_device_id devices
     in op_bind (op_guard (candidates = [])
          (Discovery ''requested v1 device is not currently published'')) (\<lambda>_.
     dial_candidates E Q T S N R random application 0 candidates))"

definition client_dial ::
  "env \<Rightarrow> ('s, 'r, 'c) quic \<Rightarrow> 'w runtime \<Rightarrow> ('s, 'r, 'w) session runtime \<Rightarrow>
   (('s, 'r, 'c) v1_client \<times> 'w) runtime \<Rightarrow>
   ('s, 'r, 'c, 'w) endpoint_api \<Rightarrow> 'w v1_device_resolver \<Rightarrow> (nat \<Rightarrow> keypair) \<Rightarrow> string \<Rightarrow>
   string option \<Rightarrow> string \<Rightarrow> ('s, 'r, 'c, 'w, ('s, 'r, 'c) peer) client_op" where
  "client_dial E Q T S C N R random target_identity target_device_id application =
     op_bind (op_lift (client_validate_application application)) (\<lambda>_.
     op_bind get_client (\<lambda>self.
     op_timeout C (cfg_negotiation_timeout (cl_config self)) ''resolving and connecting to v1 peer''
       (dial_inner E Q T S N R random target_identity target_device_id application)))"

section \<open>Inbound Hellos\<close>

definition timeout_at ::
  "'w runtime \<Rightarrow> instant \<Rightarrow> string \<Rightarrow> ('w, 'a) op \<Rightarrow> ('w, 'a) op" where
  "timeout_at T deadline message m =
     op_bind (instant_now T) (\<lambda>now.
     op_timeout T (case checked_duration_since deadline now of None \<Rightarrow> 0 | Some d \<Rightarrow> d) message m)"

definition receive_initial_hello ::
  "env \<Rightarrow> ('s, 'r, 'c) quic \<Rightarrow> 'w runtime \<Rightarrow> ('s, 'r, 'c, 'w) endpoint_api \<Rightarrow> 'c \<Rightarrow> instant \<Rightarrow>
   ('w, 's \<times> 'r \<times> v1_signed_hello) op" where
  "receive_initial_hello E Q T N conn deadline =
     timeout_at T deadline ''receiving initial v1 Hello''
       (op_bind (iroh_op (ep_accept_bi N conn)) (\<lambda>(tx, rx).
        op_bind (op_guard (ep_is_0rtt N rx) UnexpectedPeer) (\<lambda>_.
        let (hello, rx') = read_json E Q (de_hello E) V1_MAX_HELLO_BYTES rx
        in op_bind (op_lift hello) (\<lambda>h. op_return (tx, rx', h)))))"

definition replay_key :: "v1_signed_hello \<Rightarrow> string" where
  "replay_key hello =
     hc_from_control_signing_key (h_claims hello) @ '':'' @ hc_session_nonce (h_claims hello)"

definition reserve_replay :: "v1_signed_hello \<Rightarrow> u64 \<Rightarrow> (replay_cache, string) op" where
  "reserve_replay hello now c =
     (let (result, c') = replay_insert (replay_key hello) (hc_from_identity (h_claims hello))
            (hc_expires_at (h_claims hello)) now c
      in (and_then result (\<lambda>_. Ok (replay_key hello)), c'))"

definition pending_deadline :: "u64 \<Rightarrow> duration \<Rightarrow> u64 \<Rightarrow> instant \<Rightarrow> instant cresult" where
  "pending_deadline expires_at limit now instant =
     (let lifetime = min limit (from_secs (unat (saturating_sub expires_at now)))
      in if lifetime = 0 then Err (Timeout ''queueing inbound v1 consent'')
         else Ok (instant + lifetime))"

text \<open>Entries the queue dropped close their connections.\<close>

definition drop_incoming ::
  "('s, 'r, 'c, 'w) endpoint_api \<Rightarrow> ('s, 'r, 'c) incoming_v1 list \<Rightarrow> 'w \<Rightarrow> 'w" where
  "drop_incoming N dropped w = fold (\<lambda>inc w. case in_pending inc of
      None \<Rightarrow> w | Some pd \<Rightarrow> ep_close N (pd_connection pd) 1 ''application dropped v1 Hello'' w) dropped w"

text \<open>
  The admission of an authenticated Hello: reserve its key, queue it, and give the key back when
  the queue refuses it.
\<close>

definition enqueue_or_release ::
  "('s, 'r, 'c, 'w) endpoint_api \<Rightarrow> string \<Rightarrow> ('s, 'r, 'c) incoming_v1 \<Rightarrow> instant \<Rightarrow>
   ('s, 'r, 'c, 'w, unit) client_op" where
  "enqueue_or_release N key inc instant =
     (\<lambda>(c, w). let (result, dropped, q) = pq_insert key inc instant (cl_pending c);
                  w' = drop_incoming N dropped w
              in (case result of
                    Ok _ \<Rightarrow> (Ok (), (c\<lparr>cl_pending := q\<rparr>, w'))
                  | Err e \<Rightarrow> (Err e, (c\<lparr>cl_pending := q, cl_replay := replay_remove key (cl_replay c)\<rparr>, w'))))"

definition admit ::
  "('s, 'r, 'c, 'w) endpoint_api \<Rightarrow> 'w runtime \<Rightarrow> string cresult \<Rightarrow> string cresult \<Rightarrow> v1_signed_hello \<Rightarrow>
   (string \<Rightarrow> string \<Rightarrow> ('s, 'r, 'c) incoming_v1) \<Rightarrow> ('s, 'r, 'c, 'w, unit) client_op" where
  "admit N T sender_path target_path hello incoming =
     op_bind (on_env (now_seconds T)) (\<lambda>now.
     op_bind (on_client (\<lambda>c. let (result, cache) = reserve_replay hello now (cl_replay c)
       in (result, c\<lparr>cl_replay := cache\<rparr>))) (\<lambda>key.
     op_bind (op_lift sender_path) (\<lambda>sp.
     op_bind (op_lift target_path) (\<lambda>tp.
     op_bind (on_env (instant_now T)) (\<lambda>instant.
     enqueue_or_release N key (incoming sp tp) instant)))))"

definition authenticate_operation ::
  "env \<Rightarrow> 'w runtime \<Rightarrow> ('s, 'r, 'c, 'w) endpoint_api \<Rightarrow> 'c \<Rightarrow> 's \<Rightarrow> 'r \<Rightarrow> v1_signed_hello \<Rightarrow>
   ('s, 'r, 'c, 'w, unit) client_op" where
  "authenticate_operation E T N conn tx rx hello =
     op_bind get_client (\<lambda>self.
     let config = cl_config self;
         allow = cfg_allow_insecure_loopback_relay config;
         sender_record = hc_from_device_record (h_claims hello)
     in op_bind (op_guard (hc_application (h_claims hello) \<notin> set (cfg_accepted_applications config))
          UnexpectedPeer) (\<lambda>_.
     op_bind (on_env (now_seconds T)) (\<lambda>now.
     op_bind (on_client (\<lambda>c.
       let active = retain_current now (cl_active_records c)
       in (ok_or (map_of active (hc_target_device_record_digest (h_claims hello))) UnexpectedPeer,
           c\<lparr>cl_active_records := active\<rparr>))) (\<lambda>target.
     op_bind (on_env (now_seconds T)) (\<lambda>now.
     op_bind (op_protocol (hello_verify E hello sender_record target
       (hc_application (h_claims hello)) now allow)) (\<lambda>_.
     op_bind (op_guard (r_certificate target \<noteq> cr_certificate (cl_credential self)
         \<or> r_authorization target \<noteq> cr_authorization (cl_credential self)
         \<or> cc_identity (c_claims (r_certificate target)) \<noteq> cr_identity (cl_credential self))
       UnexpectedPeer) (\<lambda>_.
     op_bind (op_lift (map_err Iroh (ep_id_from_z32 N
       (cc_iroh_endpoint_id (c_claims (r_certificate sender_record)))))) (\<lambda>certified_remote.
     op_bind (op_guard (certified_remote \<noteq> ep_remote_id N conn) UnexpectedPeer) (\<lambda>_.
     op_bind (on_env (now_seconds T)) (\<lambda>now.
     op_bind (on_env (instant_now T)) (\<lambda>instant.
     op_bind (op_lift (pending_deadline (hc_expires_at (h_claims hello))
       (cfg_peer_handshake_timeout config) now instant)) (\<lambda>deadline.
     admit N T (map_err Protocol (record_path E sender_record)) (map_err Protocol (record_path E target))
       hello (\<lambda>sp tp. \<lparr>in_pending = Some
         \<lparr>pd_connection = conn, pd_send = tx, pd_recv = rx, pd_local = cl_credential self,
          pd_sender = \<lparr>rd_path = sp, rd_record = sender_record\<rparr>,
          pd_target = \<lparr>rd_path = tp, rd_record = target\<rparr>,
          pd_hello = hello, pd_max_message_bytes = cfg_max_message_bytes config,
          pd_allow_insecure_loopback_relay = allow, pd_deadline = deadline,
          pd_expiry_cancel = True\<rparr>\<rparr>)))))))))))))"

definition authenticate_incoming_v1 ::
  "env \<Rightarrow> ('s, 'r, 'c) quic \<Rightarrow> 'w runtime \<Rightarrow> (('s, 'r, 'c) v1_client \<times> 'w) runtime \<Rightarrow>
   ('s, 'r, 'c, 'w) endpoint_api \<Rightarrow> 'c \<Rightarrow> instant \<Rightarrow> ('s, 'r, 'c, 'w, unit) client_op" where
  "authenticate_incoming_v1 E Q T C N conn pre_hello_deadline =
     op_bind (on_env (receive_initial_hello E Q T N conn pre_hello_deadline)) (\<lambda>(tx, rx, hello).
     op_bind get_client (\<lambda>self.
     op_timeout C (cfg_peer_handshake_timeout (cl_config self))
       ''authenticating signed inbound v1 Hello'' (authenticate_operation E T N conn tx rx hello)))"

text \<open>
  \<open>incoming\<close> is the QUIC connection attempt, awaited under the deadline before the Hello.
\<close>

definition handle_incoming_v1 ::
  "env \<Rightarrow> ('s, 'r, 'c) quic \<Rightarrow> 'w runtime \<Rightarrow> (('s, 'r, 'c) v1_client \<times> 'w) runtime \<Rightarrow>
   ('s, 'r, 'c, 'w) endpoint_api \<Rightarrow> ('w \<Rightarrow> ('c, string) result \<times> 'w) \<Rightarrow> instant \<Rightarrow>
   ('s, 'r, 'c, 'w, unit) client_op" where
  "handle_incoming_v1 E Q T C N incoming pre_hello_deadline =
     op_bind (on_env (timeout_at T pre_hello_deadline ''pre-authenticating inbound v1 QUIC''
       (iroh_op incoming))) (\<lambda>conn.
     close_on_error N conn ''invalid v1 handshake''
       (authenticate_incoming_v1 E Q T C N conn pre_hello_deadline))"

text \<open>The expiry task of a queued Hello, when its deadline passes before it was cancelled.\<close>

definition pending_expiry ::
  "('s, 'r, 'c, 'w) endpoint_api \<Rightarrow> string \<Rightarrow> 'c \<Rightarrow> ('s, 'r, 'c, 'w, unit) client_op" where
  "pending_expiry N key conn =
     (\<lambda>(c, w). let (dropped, q) = pq_expire key (cl_pending c)
       in (Ok (), (c\<lparr>cl_pending := q\<rparr>,
           ep_close N conn 1 ''v1 consent timeout'' (drop_incoming N dropped w))))"

text \<open>One round of \<open>next_incoming\<close>; \<open>None\<close> when the caller waits.\<close>

definition next_incoming ::
  "('s, 'r, 'c, 'w) endpoint_api \<Rightarrow> 'w runtime \<Rightarrow>
   ('s, 'r, 'c, 'w, ('s, 'r, 'c) incoming_v1 cresult option) client_op" where
  "next_incoming N T =
     op_bind (on_env (instant_now T)) (\<lambda>instant.
     \<lambda>(c, w). let (answer, dropped, q) = pq_next instant (cl_pending c)
              in (Ok answer, (c\<lparr>cl_pending := q\<rparr>, drop_incoming N dropped w)))"

definition client_close :: "('s, 'r, 'c, 'w) endpoint_api \<Rightarrow> ('s, 'r, 'c, 'w, unit) client_op" where
  "client_close N =
     (\<lambda>(c, w). let (dropped, q) = pq_close (cl_pending c)
       in (Ok (), (c\<lparr>cl_pending := q\<rparr>, ep_shutdown N (drop_incoming N dropped w))))"

end
