(* ===== verification/Client_Safety.thy ===== *)
theory Client_Safety
  imports Client
begin

text \<open>
  What the operations of the client establish: the local record table stays bounded and truthful,
  a dialed peer is a proven device of the requested identity reached over a trusted relay, and a
  queued Hello is authentic and admitted once.
\<close>

section \<open>Local records\<close>

text \<open>Every entry is filed under its digest, and there are at most eight.\<close>

definition active_ok :: "env \<Rightarrow> (string, v1_device_record) hash_map \<Rightarrow> bool" where
  "active_ok E active =
     (distinct (map fst active) \<and> length active \<le> MAX_ACTIVE_RECORDS \<and>
      (\<forall>(k, r) \<in> set active. record_digest E r = Ok k))"

lemma foldl_pick_mem: "foldl (\<lambda>best y. if P y best then y else best) x xs \<in> set (x # xs)"
  by (induction xs arbitrary: x) fastforce+

lemma oldest_record_mem: "oldest_record m = Some k \<Longrightarrow> k \<in> fst ` set m"
proof (cases m)
  case (Cons x xs)
  assume "oldest_record m = Some k"
  then show ?thesis
    using foldl_pick_mem [of "\<lambda>y best. lc_expires_at (l_claims (r_locator (snd y)))
      < lc_expires_at (l_claims (r_locator (snd best)))" x xs] Cons by (auto simp: image_iff)
qed simp

lemma foldl_pick_max:
  fixes f :: "'a \<Rightarrow> 'b::linorder"
  shows "y \<in> set (x # xs) \<Longrightarrow> f y \<le> f (foldl (\<lambda>best y. if f y < f best then best else y) x xs)"
proof (induction xs arbitrary: x y)
  case (Cons z xs)
  let ?x = "if f z < f x then x else z"
  have x: "f x \<le> f ?x" "f z \<le> f ?x" by auto
  have IH: "f y \<le> f (foldl (\<lambda>best y. if f y < f best then best else y) ?x xs)"
    if "y \<in> set (?x # xs)" for y using Cons.IH [OF that] .
  from Cons.prems consider "y = x" | "y = z" | "y \<in> set xs" by auto
  then show ?case
    using x IH [of ?x] IH [of y] by cases (auto intro: order_trans)
qed simp

lemma latest_record_max:
  assumes "latest_record m = Some r"
  shows "\<exists>k. (k, r) \<in> set m \<and> (\<forall>(k', r') \<in> set m. (lc_sequence (l_claims (r_locator r')), k')
    \<le> (lc_sequence (l_claims (r_locator r)), k))"
proof (cases m)
  case Nil
  then show ?thesis using assms by simp
next
  case (Cons x xs)
  define b where "b = foldl (\<lambda>best y. if record_rank y < record_rank best then best else y) x xs"
  have r: "r = snd b" using assms Cons by (simp add: b_def)
  have swap: "b = foldl (\<lambda>best y. if \<not> record_rank y < record_rank best then y else best) x xs"
    unfolding b_def by (intro foldl_cong) auto
  have "b \<in> set m" unfolding swap Cons by (rule foldl_pick_mem)
  moreover have "record_rank y \<le> record_rank b" if "y \<in> set m" for y
    using foldl_pick_max [of y x xs record_rank] that Cons by (simp add: b_def)
  ultimately have "(fst b, r) \<in> set m \<and> (\<forall>y \<in> set m. record_rank y \<le> (lc_sequence (l_claims (r_locator r)), fst b))"
    by (simp add: r record_rank_def)
  then show ?thesis unfolding record_rank_def by (intro exI [of _ "fst b"]) auto
qed

lemma retain_current_ok: "active_ok E active \<Longrightarrow> active_ok E (retain_current now active)"
  using length_hm_retain_le [of _ active]
  by (auto simp: active_ok_def retain_current_def distinct_hm_retain set_hm_retain intro: order_trans)

lemma register_record_ok:
  assumes "active_ok E active" and "record_digest E r = Ok digest"
  shows "active_ok E (register_record now digest r active)"
    and "map_of (register_record now digest r active) digest = Some r"
    and "(k, r') \<in> set (register_record now digest r active) \<Longrightarrow>
      r' = r \<or> ((k, r') \<in> set active \<and> now < lc_expires_at (l_claims (r_locator r')))"
proof -
  let ?live = "retain_current now active"
  define kept where "kept = (if length ?live \<ge> MAX_ACTIVE_RECORDS \<and> \<not> hm_contains ?live digest
    then (case oldest_record ?live of None \<Rightarrow> ?live | Some oldest \<Rightarrow> AList.delete oldest ?live)
    else ?live)"
  have reg: "register_record now digest r active = AList.update digest r kept"
    by (simp add: register_record_def kept_def Let_def)
  note live = retain_current_ok [OF assms(1), of now]
  have sub: "set kept \<subseteq> set ?live" by (auto simp: kept_def set_hm_delete split: option.splits)
  have dist: "distinct (map fst kept)"
    using live by (auto simp: kept_def active_ok_def distinct_delete split: option.splits)
  have room: "length kept < MAX_ACTIVE_RECORDS" if "digest \<notin> fst ` set kept"
  proof (cases "length ?live \<ge> MAX_ACTIVE_RECORDS \<and> \<not> hm_contains ?live digest")
    case True
    then obtain oldest where o': "oldest_record ?live = Some oldest"
      by (cases ?live) (auto simp: MAX_ACTIVE_RECORDS_def)
    then have "hm_contains ?live oldest" by (simp add: hm_contains_def oldest_record_mem)
    from length_hm_delete_lt [OF this] show ?thesis
      using True o' live by (simp add: kept_def active_ok_def)
  next
    case False
    then have "kept = ?live" by (auto simp: kept_def)
    then show ?thesis using False that by (auto simp: hm_contains_def)
  qed
  have len: "length (AList.update digest r kept) \<le> MAX_ACTIVE_RECORDS"
  proof (cases "digest \<in> fst ` set kept")
    case True
    have "length (AList.update digest r kept) = length kept"
      using True by (induction kept) auto
    moreover have "length kept \<le> length ?live"
      by (auto simp: kept_def length_delete_le split: option.splits)
    ultimately show ?thesis using live by (simp add: active_ok_def)
  next
    case False
    then show ?thesis using room by (simp add: update_new)
  qed
  have mem: "(k, r') = (digest, r) \<or> (k, r') \<in> set kept"
    if "(k, r') \<in> set (AList.update digest r kept)" for k r'
    using that by (induction kept) (auto split: if_splits)
  show "active_ok E (register_record now digest r active)"
    unfolding reg active_ok_def
    using len dist mem sub live assms(2) by (fastforce simp: distinct_update active_ok_def)
  show "map_of (register_record now digest r active) digest = Some r"
    by (simp add: reg update_conv')
  show "(k, r') \<in> set (register_record now digest r active) \<Longrightarrow>
      r' = r \<or> ((k, r') \<in> set active \<and> now < lc_expires_at (l_claims (r_locator r')))"
    using mem [of k r'] sub unfolding reg by (auto simp: retain_current_def set_hm_retain)
qed

text \<open>
  A record handed out for publication is filed, verifies for the local identity at its issue time
  and advertises exactly the configured relays.
\<close>

lemma current_record_Ok:
  assumes "current_record E T sequence lifetime (c, w) = (Ok r, (c', w'))"
  shows "\<exists>now digest. record_digest E r = Ok digest \<and>
      cl_active_records c' = register_record now digest r (cl_active_records c) \<and>
      c' = c\<lparr>cl_active_records := cl_active_records c'\<rparr> \<and>
      record_verify E r (cr_identity (cl_credential c)) now
        (cfg_allow_insecure_loopback_relay (cl_config c)) None = Ok ()"
proof -
  obtain self :: "('a, 'b, 'c) v1_client" and now loc digest cw1 cw2 cw3 cw4 cw5 u1 where
    clock: "on_env (now_seconds T) cw1 = (Ok now, cw2)"
    and "cw1 = (c, w)"
    and self: "get_client cw2 = (Ok self, cw3)"
    and r: "op_protocol (record_new E (cl_credential self) loc now
      (cfg_allow_insecure_loopback_relay (cl_config self))) cw3 = (Ok r, cw4)"
    and digest: "op_protocol (record_digest E r) cw4 = (Ok digest, cw5)"
    and reg: "on_client (\<lambda>c. (Ok (), c\<lparr>cl_active_records :=
           register_record now digest r (cl_active_records c)\<rparr>)) cw5 = (Ok u1, (c', w'))"
    using assms unfolding current_record_def Let_def op_Ok by auto
  have self': "self = c" "cw3 = cw2" "fst cw2 = c"
    using clock self \<open>cw1 = (c, w)\<close> by (auto simp: client_Ok)
  moreover have "cw4 = cw3" "cw5 = cw4" "record_digest E r = Ok digest"
    using r digest by (auto simp: op_Ok)
  moreover have "record_verify E r (cr_identity (cl_credential c)) now
        (cfg_allow_insecure_loopback_relay (cl_config c)) None = Ok ()"
    using r self' by (auto simp: op_Ok record_new_def Let_def and_then_Ok_iff)
  ultimately show ?thesis using reg by (auto simp: on_client_Ok)
qed

section \<open>Dialing\<close>

text \<open>
  The evidence behind a dialed peer: its endpoint is the certified one, it proved the role of
  responder for a Hello signed by this client with one of its current records, under a challenge
  of its own Ack.
\<close>

definition dialed ::
  "env \<Rightarrow> ('s, 'r, 'c, 'w) endpoint_api \<Rightarrow> 'w v1_device_resolver \<Rightarrow> ('s, 'r, 'c) v1_client \<Rightarrow> string \<Rightarrow>
   resolved_v1_device \<Rightarrow> ('s, 'r, 'c) peer \<Rightarrow> bool" where
  "dialed E N R self application target p =
     (\<exists>hello sender_record ack now.
        ep_id_from_z32 N (cc_iroh_endpoint_id (c_claims (r_certificate (rd_record target))))
          = Ok (ep_remote_id N (connection p)) \<and>
        ack_verify E ack (rd_record target) sender_record hello application now
          (cfg_allow_insecure_loopback_relay (cl_config self)) = Ok () \<and>
        peer_proved E R (cfg_allow_insecure_loopback_relay (cl_config self)) Responder
          (ac_responder_nonce (a_claims ack)) hello
          (cc_identity (c_claims (r_certificate (rd_record target)))) target sender_record \<and>
        nonce_uuid E (hc_session_nonce (h_claims hello)) = Ok (session_id p) \<and>
        remote_identity p = cc_identity (c_claims (r_certificate (rd_record target))) \<and>
        remote_device_id p = cc_device_id (c_claims (r_certificate (rd_record target))) \<and>
        max_message_bytes p = cfg_max_message_bytes (cl_config self))"

lemma finish_outbound_handshake_Ok:
  assumes "finish_outbound_handshake E Q T S N R random conn expected_id target application (c, w)
      = (Ok p, cw')"
    and "ep_id_from_z32 N (cc_iroh_endpoint_id (c_claims (r_certificate (rd_record target))))
      = Ok expected_id"
  shows "dialed E N R c application target p" and "connection p = conn"
proof -
  let ?allow = "cfg_allow_insecure_loopback_relay (cl_config c)"
  obtain tx rx sender_record hello u ss sid w1 where
    guard: "ep_remote_id N conn = expected_id"
    and ex: "outbound_proof_exchange E Q S R (cl_credential c) ?allow hello sender_record target
      application \<lparr>ss_send = tx, ss_recv = rx, ss_world = w1\<rparr> = (Ok u, ss)"
    and sid: "nonce_uuid E (hc_session_nonce (h_claims hello)) = Ok sid"
    and p: "p = peer_new conn (ss_send ss) (ss_recv ss) sid
       (cc_identity (c_claims (r_certificate (rd_record target))))
       (cc_device_id (c_claims (r_certificate (rd_record target))))
       (cfg_max_message_bytes (cl_config c))"
    using assms(1) unfolding finish_outbound_handshake_def Let_def
    by (auto simp: client_Ok in_session_Ok split: prod.splits)
  from outbound_proof_exchange_Ok [OF ex] obtain ack now where
    "ack_verify E ack (rd_record target) sender_record hello application now ?allow = Ok ()"
    "peer_proved E R ?allow Responder (ac_responder_nonce (a_claims ack)) hello
       (cc_identity (c_claims (r_certificate (rd_record target)))) target sender_record"
    by blast
  then show "dialed E N R c application target p"
    unfolding dialed_def using guard sid assms(2) by (auto simp: p peer_new_def)
  show "connection p = conn" by (simp add: p peer_new_def)
qed

lemma close_on_error_Ok: "close_on_error N conn reason m cw = (Ok x, cw') \<longleftrightarrow> m cw = (Ok x, cw')"
  by (auto simp: close_on_error_def split: prod.splits result.splits)

lemma dial_device_Ok:
  assumes "dial_device E Q T S N R random target application (c, w) = (Ok p, cw')"
  shows "dialed E N R c application target p"
    and "resolved_ok E (cfg_allow_insecure_loopback_relay (cl_config c))
      (cc_identity (c_claims (r_certificate (rd_record target)))) target"
    and "\<exists>us w1 w2. trusted_destination_relays E (r_locator (rd_record target)) (cl_config c) = Ok us \<and>
      us \<noteq> [] \<and> ep_connect N (cfg_peer_handshake_timeout (cl_config c)) (ep_remote_id N (connection p)) us
        V1_IROH_ALPN_TEXT w1 = (Some (Ok (connection p)), w2)"
proof -
  obtain now us expected_id conn w1 w2 where
    v: "record_verify E (rd_record target) (cc_identity (c_claims (r_certificate (rd_record target)))) now
       (cfg_allow_insecure_loopback_relay (cl_config c)) None = Ok ()"
    and path: "record_path E (rd_record target) = Ok (rd_path target)"
    and us: "trusted_destination_relays E (r_locator (rd_record target)) (cl_config c) = Ok us" "us \<noteq> []"
    and id: "ep_id_from_z32 N (cc_iroh_endpoint_id (c_claims (r_certificate (rd_record target))))
      = Ok expected_id"
    and conn: "ep_connect N (cfg_peer_handshake_timeout (cl_config c)) expected_id us V1_IROH_ALPN_TEXT w1
      = (Some (Ok conn), w2)"
    and fin: "finish_outbound_handshake E Q T S N R random conn expected_id target application (c, w2)
      = (Ok p, cw')"
    using assms unfolding dial_device_def
    by (auto simp: client_Ok close_on_error_Ok map_err_Ok_iff)
  show d: "dialed E N R c application target p"
    by (rule finish_outbound_handshake_Ok(1) [OF fin id])
  show "resolved_ok E (cfg_allow_insecure_loopback_relay (cl_config c))
      (cc_identity (c_claims (r_certificate (rd_record target)))) target"
    using v path by (auto simp: resolved_ok_def)
  have "connection p = conn" by (rule finish_outbound_handshake_Ok(2) [OF fin id])
  moreover have "ep_remote_id N conn = expected_id"
    using d id \<open>connection p = conn\<close> by (auto simp: dialed_def)
  ultimately show "\<exists>us w1 w2. trusted_destination_relays E (r_locator (rd_record target)) (cl_config c) = Ok us \<and>
      us \<noteq> [] \<and> ep_connect N (cfg_peer_handshake_timeout (cl_config c)) (ep_remote_id N (connection p)) us
        V1_IROH_ALPN_TEXT w1 = (Some (Ok (connection p)), w2)"
    using us conn by auto
qed

text \<open>Operations that leave the configuration and the credential of the client alone.\<close>

definition keeps_identity :: "('s, 'r, 'c, 'w, 'a) client_op \<Rightarrow> bool" where
  "keeps_identity m = (\<forall>c w r c' w'. m (c, w) = (r, (c', w')) \<longrightarrow>
     cl_config c' = cl_config c \<and> cl_credential c' = cl_credential c)"

named_theorems keeps \<open>operations that keep the configuration and the credential\<close>

lemma keeps_bind [keeps]:
  assumes "keeps_identity m" and "\<And>x. keeps_identity (f x)"
  shows "keeps_identity (op_bind m f)"
  unfolding keeps_identity_def
proof (intro allI impI)
  fix c w r c' w'
  assume b: "op_bind m f (c, w) = (r, (c', w'))"
  obtain x c1 w1 where m: "m (c, w) = (x, (c1, w1))" by (metis prod.exhaust)
  have 1: "cl_config c1 = cl_config c \<and> cl_credential c1 = cl_credential c"
    using assms(1) m unfolding keeps_identity_def by blast
  show "cl_config c' = cl_config c \<and> cl_credential c' = cl_credential c"
  proof (cases x)
    case (Ok y)
    then have "f y (c1, w1) = (r, (c', w'))" using b m by (simp add: op_bind_def)
    then show ?thesis using 1 assms(2) [of y] unfolding keeps_identity_def by metis
  next
    case (Err e)
    then show ?thesis using b m 1 by (simp add: op_bind_def)
  qed
qed

lemma keeps_basic [keeps]:
  "keeps_identity (op_return x)" "keeps_identity (op_fail e)" "keeps_identity (op_guard b e)"
  "keeps_identity (op_lift r)" "keeps_identity (op_protocol p)" "keeps_identity (on_env m)"
  "keeps_identity get_client" "keeps_identity (in_session s tx rx)"
  by (auto simp: keeps_identity_def op_return_def op_fail_def op_guard_def op_lift_def op_protocol_def
      on_env_def get_client_def in_session_def split: prod.splits)

lemma keeps_on_client [keeps]:
  "(\<And>c. cl_config (snd (m c)) = cl_config c \<and> cl_credential (snd (m c)) = cl_credential c) \<Longrightarrow>
   keeps_identity (on_client m)"
  unfolding keeps_identity_def on_client_def by (auto split: prod.splits) (metis snd_conv)+

lemma keeps_close_on_error [keeps]:
  "keeps_identity m \<Longrightarrow> keeps_identity (close_on_error N conn reason m)"
  by (fastforce simp: keeps_identity_def close_on_error_def split: prod.splits result.splits)

lemma keeps_case_prod [keeps]:
  "(\<And>a b. keeps_identity (f a b)) \<Longrightarrow> keeps_identity (case x of (a, b) \<Rightarrow> f a b)"
  by (cases x) simp

lemma keeps_dial_device: "keeps_identity (dial_device E Q T S N R random target application)"
  unfolding dial_device_def finish_outbound_handshake_def Let_def
  by (intro keeps) simp

text \<open>Candidates are tried in order; the first that completes is returned.\<close>

lemma dial_candidates_Ok:
  assumes "dial_candidates E Q T S N R random application n ds (c, w) = (Ok p, cw')"
  shows "\<exists>d \<in> set ds. \<exists>i c1 w1. dial_device E Q T S N R (random i) d application (c1, w1) = (Ok p, cw') \<and>
    cl_config c1 = cl_config c \<and> cl_credential c1 = cl_credential c"
  using assms
proof (induction ds arbitrary: n c w)
  case Nil
  then show ?case by (simp add: op_fail_def)
next
  case (Cons d ds)
  obtain r c1 w1 where d: "dial_device E Q T S N R (random n) d application (c, w) = (r, (c1, w1))"
    by (metis prod.exhaust)
  show ?case
  proof (cases r)
    case (Ok p')
    then show ?thesis using Cons.prems d by auto
  next
    case (Err e)
    then have rest: "dial_candidates E Q T S N R random application (n + 1) ds (c1, w1) = (Ok p, cw')"
      using Cons.prems d by simp
    have "cl_config c1 = cl_config c \<and> cl_credential c1 = cl_credential c"
      using d keeps_dial_device by (fastforce simp: keeps_identity_def)
    then show ?thesis using Cons.IH [OF rest] by auto
  qed
qed

lemma dialed_config:
  "cl_config c1 = cl_config c \<Longrightarrow> dialed E N R c1 application d p = dialed E N R c application d p"
  by (simp add: dialed_def)

context device_resolver
begin

text \<open>A dialed peer is a proven device of the identity the caller asked for.\<close>

lemma dial_inner_Ok:
  assumes "dial_inner E Q T S N R random target_identity target_device_id application (c, w) = (Ok p, cw')"
  shows "\<exists>d. resolved_ok E allow target_identity d \<and> dialed E N R c application d p \<and>
      remote_identity p = target_identity \<and>
      (\<forall>wanted. target_device_id = Some wanted \<longrightarrow> remote_device_id p = wanted) \<and>
      (\<exists>us w1 w2. trusted_destination_relays E (r_locator (rd_record d)) (cl_config c) = Ok us \<and> us \<noteq> [] \<and>
        ep_connect N (cfg_peer_handshake_timeout (cl_config c)) (ep_remote_id N (connection p)) us
          V1_IROH_ALPN_TEXT w1 = (Some (Ok (connection p)), w2))"
proof -
  obtain ds w1 where res: "rv_resolve_devices R target_identity w = (Ok ds, w1)"
    and attempt: "dial_candidates E Q T S N R random application 0
      (dial_candidates_of target_device_id ds) (c, w1) = (Ok p, cw')"
    using assms unfolding dial_inner_def Let_def by (auto simp: client_Ok)
  obtain d i c1 w2 where d: "d \<in> set (dial_candidates_of target_device_id ds)"
    and dev: "dial_device E Q T S N R (random i) d application (c1, w2) = (Ok p, cw')"
    and c1: "cl_config c1 = cl_config c"
    using dial_candidates_Ok [OF attempt] by blast
  have mem: "d \<in> set ds" and dev_id: "\<forall>wanted. target_device_id = Some wanted \<longrightarrow>
      cc_device_id (c_claims (r_certificate (rd_record d))) = wanted"
    using d by (auto simp: dial_candidates_of_def dest!: in_set_takeD split: option.splits)
  have "resolved_ok E allow target_identity d"
    using resolve_ok [OF res] mem by (simp add: list_all_iff)
  moreover have "dialed E N R c application d p"
    using dial_device_Ok(1) [OF dev] unfolding dialed_config [OF c1] .
  moreover have "remote_identity p = target_identity"
    using \<open>dialed E N R c application d p\<close> resolved_identity [OF res mem] by (auto simp: dialed_def)
  moreover have "\<forall>wanted. target_device_id = Some wanted \<longrightarrow> remote_device_id p = wanted"
    using \<open>dialed E N R c application d p\<close> dev_id by (auto simp: dialed_def)
  moreover note dial_device_Ok(3) [OF dev, unfolded c1]
  ultimately show ?thesis by blast
qed

end

end
