(* ===== verification/Client_Machine.thy ===== *)
theory Client_Machine
  imports Client_Safety
begin

text \<open>
  The client as a state machine: its tasks run the operations of theory Client in any order, with
  the world changing in between. The invariant bounds the tables and says that whatever waits for
  consent was authenticated; it holds in every reachable state, and along any run a Hello is
  admitted at most once before it expires.
\<close>

section \<open>Invariants through operations\<close>

text \<open>An operation that keeps \<open>P\<close> from a given state, whatever it returns.\<close>

definition stays :: "('w \<Rightarrow> bool) \<Rightarrow> ('w, 'a) op \<Rightarrow> 'w \<Rightarrow> bool" where
  "stays P m w = (P w \<longrightarrow> P (snd (m w)))"

lemma stays_bind:
  assumes "stays P m w" and "\<And>x w'. m w = (Ok x, w') \<Longrightarrow> P w' \<Longrightarrow> stays P (f x) w'"
  shows "stays P (op_bind m f) w"
  using assms unfolding stays_def op_bind_def
  by (auto split: prod.splits result.splits)

lemma stays_basic:
  "stays P (op_return x) w" "stays P (op_fail e) w" "stays P (op_guard b e) w" "stays P (op_lift r) w"
  "stays P (op_protocol p) w"
  by (simp_all add: stays_def op_return_def op_fail_def op_guard_def op_lift_def op_protocol_def)

lemma staysD: "stays P m w \<Longrightarrow> P w \<Longrightarrow> m w = (r, w') \<Longrightarrow> P w'"
  by (metis snd_conv stays_def)

text \<open>A property of the client's state alone.\<close>

abbreviation of_client :: "(('s, 'r, 'c) v1_client \<Rightarrow> bool) \<Rightarrow> ('s, 'r, 'c) v1_client \<times> 'w \<Rightarrow> bool" where
  "of_client I \<equiv> \<lambda>cw. I (fst cw)"

lemma stays_client_basic:
  "stays (of_client I) (on_env m) cw" "stays (of_client I) get_client cw"
  "stays (of_client I) (in_session s tx rx) cw"
  by (cases cw; simp add: stays_def on_env_def get_client_def in_session_def split: prod.splits)+

lemma stays_on_client:
  "(I (fst cw) \<Longrightarrow> I (snd (m (fst cw)))) \<Longrightarrow> stays (of_client I) (on_client m) cw"
  by (cases cw) (auto simp: stays_def on_client_def split: prod.splits)

lemma stays_close_on_error:
  "stays (of_client I) m cw \<Longrightarrow> stays (of_client I) (close_on_error N conn reason m) cw"
  by (cases cw) (auto simp: stays_def close_on_error_def split: prod.splits result.splits)

lemmas stays_intros = stays_bind stays_basic stays_client_basic stays_on_client stays_close_on_error

section \<open>The invariant\<close>

text \<open>
  An entry of the consent queue: the Hello verified for this device at some time, for an accepted
  application, over a connection from the certified endpoint of its sender; its key is the replay
  key of the Hello.
\<close>

definition authentic ::
  "env \<Rightarrow> ('s, 'r, 'c, 'w) endpoint_api \<Rightarrow> v1_device_credential \<Rightarrow> v1_client_config \<Rightarrow> string \<Rightarrow>
   ('s, 'r, 'c) incoming_v1 \<Rightarrow> bool" where
  "authentic E N credential config key inc =
     (\<exists>pd now. in_pending inc = Some pd \<and> key = replay_key (pd_hello pd) \<and>
        rd_record (pd_sender pd) = hc_from_device_record (h_claims (pd_hello pd)) \<and>
        hello_verify E (pd_hello pd) (rd_record (pd_sender pd)) (rd_record (pd_target pd))
          (hc_application (h_claims (pd_hello pd))) now
          (cfg_allow_insecure_loopback_relay config) = Ok () \<and>
        hc_application (h_claims (pd_hello pd)) \<in> set (cfg_accepted_applications config) \<and>
        r_certificate (rd_record (pd_target pd)) = cr_certificate credential \<and>
        r_authorization (rd_record (pd_target pd)) = cr_authorization credential \<and>
        ep_id_from_z32 N (cc_iroh_endpoint_id (c_claims (r_certificate (rd_record (pd_sender pd)))))
          = Ok (ep_remote_id N (pd_connection pd)) \<and>
        pd_local pd = credential \<and>
        pd_allow_insecure_loopback_relay pd = cfg_allow_insecure_loopback_relay config \<and>
        pd_max_message_bytes pd = cfg_max_message_bytes config)"

definition client_inv :: "env \<Rightarrow> ('s, 'r, 'c, 'w) endpoint_api \<Rightarrow> ('s, 'r, 'c) v1_client \<Rightarrow> bool" where
  "client_inv E N c =
     (replay_inv (cl_replay c) \<and> pq_inv (cl_pending c) \<and> active_ok E (cl_active_records c) \<and>
      (\<forall>(k, inc) \<in> set (pq_entries (cl_pending c)).
         authentic E N (cl_credential c) (cl_config c) k inc) \<and>
      rc_capacity (cl_replay c) = cfg_replay_cache_capacity (cl_config c) \<and>
      rc_per_identity_capacity (cl_replay c) = cfg_replay_cache_per_identity_capacity (cl_config c) \<and>
      pq_capacity (cl_pending c) = cfg_incoming_queue_capacity (cl_config c) \<and>
      pq_per_identity_capacity (cl_pending c) = cfg_max_pending_per_identity (cl_config c))"

lemma new_tables:
  "pq_entries (pq_new a b) = []" "pq_capacity (pq_new a b) = a" "pq_per_identity_capacity (pq_new a b) = b"
  "rc_capacity (replay_new a b) = a" "rc_per_identity_capacity (replay_new a b) = b"
  by (simp_all add: pq_new_def replay_new_def)

lemma client_bind_inv:
  assumes "client_bind E wasm T N random credential config w = (Ok c, w')"
  shows "client_inv E N c \<and> cl_config c = config \<and> cl_credential c = credential \<and>
    config_validate E wasm config = Ok ()"
proof -
  have v: "config_validate E wasm config = Ok ()"
    and c: "c = \<lparr>cl_credential = credential, cl_config = config,
       cl_pending = pq_new (cfg_incoming_queue_capacity config) (cfg_max_pending_per_identity config),
       cl_replay = replay_new (cfg_replay_cache_capacity config)
         (cfg_replay_cache_per_identity_capacity config),
       cl_active_records = [], cl_instance_nonce = v1_random_challenge E random\<rparr>"
    using assms unfolding client_bind_def Let_def by (auto simp: op_Ok)
  show ?thesis
    by (simp add: v c client_inv_def replay_new_inv pq_new_inv active_ok_def new_tables)
qed

lemma client_inv_retain:
  "client_inv E N c \<Longrightarrow> client_inv E N (c\<lparr>cl_active_records := retain_current now (cl_active_records c)\<rparr>)"
  by (simp add: client_inv_def retain_current_ok)

lemma replay_insert_limits:
  "replay_insert k i e now c = (r, c') \<Longrightarrow>
   rc_capacity c' = rc_capacity c \<and> rc_per_identity_capacity c' = rc_per_identity_capacity c"
  by (auto simp: replay_insert_def Let_def split: if_splits)

lemma reserve_replay_inv:
  assumes "client_inv E N c"
  shows "client_inv E N (c\<lparr>cl_replay := snd (reserve_replay hello now (cl_replay c))\<rparr>)"
proof -
  obtain r cache where ri: "replay_insert (replay_key hello) (hc_from_identity (h_claims hello))
      (hc_expires_at (h_claims hello)) now (cl_replay c) = (r, cache)" by fastforce
  have inv: "replay_inv (cl_replay c)" using assms by (simp add: client_inv_def)
  have "snd (reserve_replay hello now (cl_replay c)) = cache" using ri by (simp add: reserve_replay_def)
  then show ?thesis
    using assms replay_insert_inv [OF inv ri] replay_insert_limits [OF ri] by (simp add: client_inv_def)
qed

lemma client_inv_remove_replay:
  "client_inv E N c \<Longrightarrow> client_inv E N (c\<lparr>cl_replay := replay_remove k (cl_replay c)\<rparr>)"
  using replay_remove_inv [of "cl_replay c" k] by (auto simp: client_inv_def replay_remove_def)

lemma client_inv_queue:
  assumes "client_inv E N c" and "pq_inv q" and "same_limits (cl_pending c) q"
    and "\<And>k inc. (k, inc) \<in> set (pq_view q) \<Longrightarrow> (k, inc) \<in> set (pq_view (cl_pending c)) \<or>
      authentic E N (cl_credential c) (cl_config c) k inc"
  shows "client_inv E N (c\<lparr>cl_pending := q\<rparr>)"
  using assms pq_view_set [OF assms(2)] pq_view_set [of "cl_pending c"]
  by (fastforce simp: client_inv_def same_limits_def)

section \<open>Admission keeps it\<close>

lemma stays_admit:
  assumes "\<And>s t. sp = Ok s \<Longrightarrow> tp = Ok t \<Longrightarrow>
    authentic E N (cl_credential (fst cw)) (cl_config (fst cw)) (replay_key hello) (incoming s t)"
  shows "stays (of_client (client_inv E N)) (admit N T sp tp hello incoming) cw"
  unfolding admit_def
proof (intro stays_intros)
  fix now cw1
  assume inv: "of_client (client_inv E N) cw1" "on_env (now_seconds T) cw = (Ok now, cw1)"
  show "client_inv E N (fst cw1) \<Longrightarrow> client_inv E N (snd (let (result, cache) =
      reserve_replay hello now (cl_replay (fst cw1)) in (result, fst cw1\<lparr>cl_replay := cache\<rparr>)))"
    using reserve_replay_inv [of E N "fst cw1" hello now] by (auto split: prod.splits)
next
  fix now cw1 key cw2 s cw3 t cw4 instant cw5
  assume 1: "on_env (now_seconds T) cw = (Ok now, cw1)"
    and 2: "on_client (\<lambda>c. let (result, cache) = reserve_replay hello now (cl_replay c)
       in (result, c\<lparr>cl_replay := cache\<rparr>)) cw1 = (Ok key, cw2)"
    and 3: "op_lift sp cw2 = (Ok s, cw3)" "op_lift tp cw3 = (Ok t, cw4)"
      "on_env (instant_now T) cw4 = (Ok instant, cw5)"
  have key: "key = replay_key hello"
    using 2 by (auto simp: client_Ok reserve_replay_def and_then_Ok_iff split: prod.splits)
  have same: "cl_credential (fst cw5) = cl_credential (fst cw)" "cl_config (fst cw5) = cl_config (fst cw)"
    using 1 2 3 by (auto simp: client_Ok split: prod.splits)
  have auth: "authentic E N (cl_credential (fst cw5)) (cl_config (fst cw5)) key (incoming s t)"
    using assms [of s t] 3 by (simp add: same key op_Ok)
  obtain c w where cw5: "cw5 = (c, w)" by (cases cw5)
  obtain r dropped q where ins: "pq_insert key (incoming s t) instant (cl_pending c) = (r, dropped, q)"
    by (metis prod.exhaust)
  show "stays (of_client (client_inv E N)) (enqueue_or_release N key (incoming s t) instant) cw5"
    unfolding stays_def
  proof
    assume "of_client (client_inv E N) cw5"
    then have inv: "client_inv E N c" by (simp add: cw5)
    then have pq: "pq_inv (cl_pending c)" by (simp add: client_inv_def)
    note q = pq_insert_ok [OF pq ins]
    have view: "(k, inc) \<in> set (pq_view (cl_pending c)) \<or> (k, inc) = (key, incoming s t)"
      if "(k, inc) \<in> set (pq_view q)" for k inc
      using that q fifo_insert_set by blast
    have "client_inv E N (c\<lparr>cl_pending := q\<rparr>)"
      using client_inv_queue [OF inv, of q] q view auth by (auto simp: cw5)
    with client_inv_remove_replay [OF this, of key]
    show "of_client (client_inv E N) (snd ((enqueue_or_release N key (incoming s t) instant) cw5))"
      by (cases r) (simp_all add: cw5 ins enqueue_or_release_def)
  qed
qed

lemma stays_authenticate:
  "stays (of_client (client_inv E N)) (authenticate_operation E T N conn tx rx hello) cw"
  unfolding authenticate_operation_def Let_def
proof (intro stays_bind stays_basic stays_client_basic stays_on_client, goal_cases)
  case (1 self cw1 u1 cw2 now cw3)
  then show ?case by (simp add: client_inv_retain)
next
  case (2 self cw1 u1 cw2 now1 cw3 target cw4 now2 cw5 u2 cw6 u3 cw7 remote cw8 u4 cw9 now3 cw10
      instant cw11 deadline cw12)
  have same: "self = fst cw" "cl_credential (fst cw12) = cl_credential (fst cw)"
    "cl_config (fst cw12) = cl_config (fst cw)"
    using 2 by (auto simp: client_Ok)
  show ?case
  proof (rule stays_admit)
    fix s t
    show "authentic E N (cl_credential (fst cw12)) (cl_config (fst cw12)) (replay_key hello)
      \<lparr>in_pending = Some
         \<lparr>pd_connection = conn, pd_send = tx, pd_recv = rx, pd_local = cl_credential self,
          pd_sender = \<lparr>rd_path = s, rd_record = hc_from_device_record (h_claims hello)\<rparr>,
          pd_target = \<lparr>rd_path = t, rd_record = target\<rparr>,
          pd_hello = hello, pd_max_message_bytes = cfg_max_message_bytes (cl_config self),
          pd_allow_insecure_loopback_relay = cfg_allow_insecure_loopback_relay (cl_config self),
          pd_deadline = deadline, pd_expiry_cancel = True\<rparr>\<rparr>"
      using 2 same by (auto simp: authentic_def client_Ok map_err_Ok_iff)
  qed
qed

section \<open>Steps\<close>

text \<open>
  A step of the client. An authentication abandoned by its timeout stops between two of its
  accesses to the client: at most the record table was cleaned and the replay key reserved. The
  world may change at any time.
\<close>

inductive client_step ::
  "env \<Rightarrow> ('s, 'r, 'c) quic \<Rightarrow> 'w runtime \<Rightarrow> ('s, 'r, 'w) session runtime \<Rightarrow>
   ('s, 'r, 'c, 'w) endpoint_api \<Rightarrow> 'w v1_device_resolver \<Rightarrow>
   ('s, 'r, 'c) v1_client \<times> 'w \<Rightarrow> ('s, 'r, 'c) v1_client \<times> 'w \<Rightarrow> bool" for E Q T S N R where
  authenticate:
    "authenticate_operation E T N conn tx rx hello cw = (r, cw') \<Longrightarrow> client_step E Q T S N R cw cw'"
| abandoned:
    "client_step E Q T S N R (c, w)
       (c\<lparr>cl_active_records := retain_current now (cl_active_records c)\<rparr>, w')"
| abandoned_reserved:
    "now = fst (rt_now_seconds T w1) \<Longrightarrow> client_step E Q T S N R (c, w)
       (c\<lparr>cl_replay := snd (reserve_replay hello now (cl_replay c))\<rparr>, w')"
| expiry: "pending_expiry N key conn cw = (r, cw') \<Longrightarrow> client_step E Q T S N R cw cw'"
| incoming: "next_incoming N T cw = (a, cw') \<Longrightarrow> client_step E Q T S N R cw cw'"
| close: "client_close N cw = (r, cw') \<Longrightarrow> client_step E Q T S N R cw cw'"
| register: "current_record E T sequence lifetime cw = (rec, cw') \<Longrightarrow> client_step E Q T S N R cw cw'"
| dial: "dial_device E Q T S N R random target application cw = (p, cw') \<Longrightarrow>
    client_step E Q T S N R cw cw'"
| environment: "client_step E Q T S N R (c, w) (c, w')"

inductive_cases client_stepE: "client_step E Q T S N R cw cw'"

lemma stays_register:
  "stays (of_client (client_inv E N)) (current_record E T sequence lifetime) cw"
  unfolding current_record_def Let_def
proof (intro stays_intros, goal_cases)
  case (1 u cw1 now cw2 expires_at cw3 self cw4 loc cw5 r cw6 digest cw7)
  then show ?case
    using register_record_ok(1) [of E "cl_active_records (fst cw7)" r digest now]
    by (auto simp: client_inv_def op_Ok)
qed

lemma stays_dial:
  "stays (of_client (client_inv E N)) (dial_device E Q T S N R random target application) cw"
  unfolding dial_device_def finish_outbound_handshake_def Let_def case_prod_unfold
  by (intro stays_intros) (simp add: client_inv_retain)

lemma queue_subset_inv:
  assumes "client_inv E N c" and "pq_inv q" and "same_limits (cl_pending c) q"
    and "set (pq_view q) \<subseteq> set (pq_view (cl_pending c))"
  shows "client_inv E N (c\<lparr>cl_pending := q\<rparr>)"
  using client_inv_queue [OF assms(1-3)] assms(4) by blast

lemma expiry_inv:
  assumes "client_inv E N c" and "pending_expiry N key conn (c, w) = (r, (c', w'))"
  shows "client_inv E N c'"
proof -
  obtain dropped q where q: "pq_expire key (cl_pending c) = (dropped, q)" by fastforce
  have inv: "pq_inv (cl_pending c)" using assms(1) by (simp add: client_inv_def)
  have "c' = c\<lparr>cl_pending := q\<rparr>" using assms(2) q by (auto simp: pending_expiry_def)
  then show ?thesis
    using queue_subset_inv [OF assms(1), of q] pq_expire_ok [OF inv q] by auto
qed

lemma incoming_inv:
  assumes "client_inv E N c" and "next_incoming N T (c, w) = (a, (c', w'))"
  shows "client_inv E N c'"
proof -
  obtain instant w1 where i: "on_env (instant_now T) (c, w) = (Ok instant, (c, w1))"
    by (cases "rt_instant T w") (auto simp: on_env_def instant_now_def)
  obtain answer dropped q where q: "pq_next instant (cl_pending c) = (answer, dropped, q)"
    by (metis prod.exhaust)
  have inv: "pq_inv (cl_pending c)" using assms(1) by (simp add: client_inv_def)
  have "c' = c\<lparr>cl_pending := q\<rparr>" using assms(2) i q by (auto simp: next_incoming_def op_bind_def)
  then show ?thesis
    using queue_subset_inv [OF assms(1), of q] pq_next_ok [OF inv q] fifo_next_set by blast
qed

lemma close_inv:
  assumes "client_inv E N c" and "client_close N (c, w) = (r, (c', w'))"
  shows "client_inv E N c'"
proof -
  have "c' = c\<lparr>cl_pending := snd (pq_close (cl_pending c))\<rparr>"
    using assms(2) by (auto simp: client_close_def split: prod.splits)
  moreover have "pq_inv (snd (pq_close (cl_pending c)))"
    using pq_close_ok assms(1) by (metis client_inv_def prod.collapse)
  ultimately show ?thesis
    using assms(1) by (auto simp: client_inv_def pq_close_def)
qed

lemma client_step_inv:
  assumes "client_step E Q T S N R cw cw'" and "client_inv E N (fst cw)"
  shows "client_inv E N (fst cw')"
proof -
  from assms(1) show ?thesis
  proof cases
    case (authenticate conn tx rx hello r)
    then show ?thesis using stays_authenticate [of E N T conn tx rx hello cw] assms(2) by (simp add: stays_def)
  next
    case (register sequence lifetime rec)
    then show ?thesis using stays_register [of E N T sequence lifetime cw] assms(2) by (simp add: stays_def)
  next
    case (dial random target application p)
    then show ?thesis using stays_dial [of E N Q T S R random target application cw] assms(2) by (simp add: stays_def)
  next
    case (expiry key conn r)
    then show ?thesis using expiry_inv [of E N "fst cw"] assms(2) by (metis prod.collapse)
  next
    case (incoming a)
    then show ?thesis using incoming_inv [of E N "fst cw"] assms(2) by (metis prod.collapse)
  next
    case (close r)
    then show ?thesis using close_inv [of E N "fst cw"] assms(2) by (metis prod.collapse)
  qed (use assms(2) in \<open>simp_all add: client_inv_retain reserve_replay_inv\<close>)
qed

lemma client_steps_inv:
  "(client_step E Q T S N R)\<^sup>*\<^sup>* cw cw' \<Longrightarrow> client_inv E N (fst cw) \<Longrightarrow> client_inv E N (fst cw')"
  by (induction rule: rtranclp_induct) (auto intro: client_step_inv)

section \<open>A Hello is admitted once\<close>

text \<open>While the clock shows a time before \<open>e\<close>.\<close>

definition clock_before :: "'w runtime \<Rightarrow> u64 \<Rightarrow> bool" where
  "clock_before T e = (\<forall>w. fst (rt_now_seconds T w) < e)"

lemma clock_before_reading: "clock_before T e \<Longrightarrow> on_env (now_seconds T) cw = (Ok now, cw') \<Longrightarrow> now < e"
  by (auto simp: clock_before_def on_env_Ok now_seconds_def split: prod.splits) (metis fst_conv)

definition reserved :: "string \<Rightarrow> u64 \<Rightarrow> ('s, 'r, 'c) v1_client \<Rightarrow> bool" where
  "reserved k e c = (replay_inv (cl_replay c) \<and> replay_held (cl_replay c) k = Some e)"

lemma reserve_replay_cases:
  assumes "reserve_replay hello now c = (r, c')"
  obtains r' where "replay_insert (replay_key hello) (hc_from_identity (h_claims hello))
      (hc_expires_at (h_claims hello)) now c = (r', c')" "r = Ok key \<Longrightarrow> r' = Ok () \<and> key = replay_key hello"
  using assms by (auto simp: reserve_replay_def and_then_Ok_iff split: prod.splits)

lemma reserve_replay_reserved:
  assumes "reserved k e c" and "now < e"
  shows "reserved k e (c\<lparr>cl_replay := snd (reserve_replay hello now (cl_replay c))\<rparr>)"
proof -
  obtain r cache where "reserve_replay hello now (cl_replay c) = (r, cache)" by fastforce
  then show ?thesis
    using assms replay_insert_keeps replay_insert_inv
    by (auto simp: reserved_def elim!: reserve_replay_cases)
qed

lemma reserve_replay_other:
  assumes "reserved k e c" and "now < e" and "reserve_replay hello now (cl_replay c) = (Ok key, cache)"
  shows "key \<noteq> k" and "key = replay_key hello"
proof -
  obtain r' where r': "replay_insert (replay_key hello) (hc_from_identity (h_claims hello))
      (hc_expires_at (h_claims hello)) now (cl_replay c) = (r', cache)" "r' = Ok ()" "key = replay_key hello"
    using assms(3) by (auto elim!: reserve_replay_cases [where key = key])
  then show "key = replay_key hello" by simp
  show "key \<noteq> k"
    using replay_insert_fresh [of "cl_replay c" "replay_key hello"] assms r'
    by (fastforce simp: reserved_def)
qed

lemma stays_admit_reserved:
  assumes "clock_before T e"
  shows "stays (of_client (reserved k e)) (admit N T sp tp hello incoming) cw"
  unfolding admit_def
proof (intro stays_intros)
  fix now cw1
  assume "on_env (now_seconds T) cw = (Ok now, cw1)"
  then have "now < e" using clock_before_reading [OF assms] by blast
  then show "reserved k e (fst cw1) \<Longrightarrow> reserved k e (snd (let (result, cache) =
      reserve_replay hello now (cl_replay (fst cw1)) in (result, fst cw1\<lparr>cl_replay := cache\<rparr>)))"
    using reserve_replay_reserved [of k e "fst cw1" now hello] by (auto split: prod.splits)
next
  fix now cw1 key cw2 s cw3 t cw4 instant cw5
  assume 1: "on_env (now_seconds T) cw = (Ok now, cw1)" "reserved k e (fst cw1)"
    and 2: "on_client (\<lambda>c. let (result, cache) = reserve_replay hello now (cl_replay c)
       in (result, c\<lparr>cl_replay := cache\<rparr>)) cw1 = (Ok key, cw2)"
  have "now < e" using clock_before_reading [OF assms 1(1)] .
  moreover obtain cache where "reserve_replay hello now (cl_replay (fst cw1)) = (Ok key, cache)"
    using 2 by (auto simp: on_client_Ok split: prod.splits)
  ultimately have "key \<noteq> k" using reserve_replay_other(1) 1(2) by blast
  then show "stays (of_client (reserved k e)) (enqueue_or_release N key (incoming s t) instant) cw5"
    using replay.release_other [of "cl_replay (fst cw5)" k key] replay_remove_inv [of "cl_replay (fst cw5)" key]
    by (cases cw5) (auto simp: stays_def reserved_def enqueue_or_release_def Let_def split: prod.splits result.splits)
qed

lemma reserved_active [simp]: "reserved k e (c\<lparr>cl_active_records := a\<rparr>) = reserved k e c"
  "reserved k e (c\<lparr>cl_pending := q\<rparr>) = reserved k e c"
  by (simp_all add: reserved_def)

lemma stays_authenticate_reserved:
  "clock_before T e \<Longrightarrow>
   stays (of_client (reserved k e)) (authenticate_operation E T N conn tx rx hello) cw"
  unfolding authenticate_operation_def Let_def
  by (intro stays_bind stays_basic stays_client_basic stays_on_client stays_admit_reserved) simp_all

lemma stays_other_reserved:
  "stays (of_client (reserved k e)) (current_record E T sequence lifetime) cw"
  "stays (of_client (reserved k e)) (dial_device E Q T S N R random target application) cw"
  unfolding current_record_def dial_device_def finish_outbound_handshake_def Let_def case_prod_unfold
  by (intro stays_intros; simp)+

lemma client_step_reserved:
  assumes "client_step E Q T S N R cw cw'" and "clock_before T e" and "reserved k e (fst cw)"
  shows "reserved k e (fst cw')"
  using assms(1)
proof cases
  case (authenticate conn tx rx hello r)
  then show ?thesis
    using stays_authenticate_reserved [OF assms(2), of k E N conn tx rx hello cw] assms(3)
    by (simp add: stays_def)
next
  case (register sequence lifetime rec)
  then show ?thesis
    using stays_other_reserved(1) [of k e E T sequence lifetime cw] assms(3) by (simp add: stays_def)
next
  case (dial random target application p)
  then show ?thesis
    using stays_other_reserved(2) [of k e E Q T S N R random target application cw] assms(3)
    by (simp add: stays_def)
next
  case (abandoned_reserved now w1 c w hello w')
  then have "now < e" using assms(2) by (simp add: clock_before_def)
  then show ?thesis using reserve_replay_reserved [of k e c now hello] assms(3) abandoned_reserved by simp
next
  case (expiry key conn r)
  then show ?thesis using assms(3) by (cases cw) (auto simp: pending_expiry_def split: prod.splits)
next
  case (incoming a)
  then show ?thesis
    using assms(3) by (cases cw) (auto simp: next_incoming_def op_bind_def on_env_def instant_now_def
        split: prod.splits)
next
  case (close r)
  then show ?thesis using assms(3) by (cases cw) (auto simp: client_close_def split: prod.splits)
qed (use assms(3) in simp_all)

lemma client_steps_reserved:
  "(client_step E Q T S N R)\<^sup>*\<^sup>* cw cw' \<Longrightarrow> clock_before T e \<Longrightarrow> reserved k e (fst cw) \<Longrightarrow>
   reserved k e (fst cw')"
  by (induction rule: rtranclp_induct) (auto intro: client_step_reserved)

text \<open>A successful admission queues the Hello and reserves its key until it expires.\<close>

lemma enqueue_or_release_Ok:
  assumes "enqueue_or_release N key inc instant (c, w) = (Ok u, cw')"
  shows "\<exists>dropped q. pq_insert key inc instant (cl_pending c) = (Ok (), dropped, q) \<and>
    fst cw' = c\<lparr>cl_pending := q\<rparr>"
proof -
  obtain r dropped q where q: "pq_insert key inc instant (cl_pending c) = (r, dropped, q)"
    by (metis prod.exhaust)
  then show ?thesis using assms by (cases r) (auto simp: enqueue_or_release_def)
qed

lemma admit_Ok:
  assumes "admit N T sp tp hello incoming (c, w) = (Ok u, cw')" and "client_inv E N c"
  shows "reserved (replay_key hello) (hc_expires_at (h_claims hello)) (fst cw')"
    and "\<exists>s t. sp = Ok s \<and> tp = Ok t \<and>
      (replay_key hello, incoming s t) \<in> set (pq_entries (cl_pending (fst cw')))"
    and "clock_before T e \<Longrightarrow> \<not> reserved (replay_key hello) e c"
proof -
  obtain now w1 cache s t instant w2 dropped q where
    now: "now_seconds T w = (Ok now, w1)"
    and res: "reserve_replay hello now (cl_replay c) = (Ok (replay_key hello), cache)"
    and paths: "sp = Ok s" "tp = Ok t"
    and ins: "pq_insert (replay_key hello) (incoming s t) instant (cl_pending c) = (Ok (), dropped, q)"
    and c': "fst cw' = c\<lparr>cl_replay := cache, cl_pending := q\<rparr>"
    using assms(1) unfolding admit_def
    by (auto simp: client_Ok reserve_replay_def and_then_Ok_iff split: prod.splits
        dest!: enqueue_or_release_Ok)
  have inv: "replay_inv (cl_replay c)" "pq_inv (cl_pending c)" using assms(2) by (simp_all add: client_inv_def)
  have ri: "replay_insert (replay_key hello) (hc_from_identity (h_claims hello))
      (hc_expires_at (h_claims hello)) now (cl_replay c) = (Ok (), cache)"
    using res by (auto simp: reserve_replay_def and_then_Ok_iff split: prod.splits)
  show "reserved (replay_key hello) (hc_expires_at (h_claims hello)) (fst cw')"
    using replay_insert_held [OF ri] replay_insert_inv [OF inv(1) ri] by (simp add: c' reserved_def)
  note q = pq_insert_ok [OF inv(2) ins]
  then have "(replay_key hello, incoming s t) \<in> set (pq_view q)" using fifo_insert_Ok_mem by blast
  then show "\<exists>s t. sp = Ok s \<and> tp = Ok t \<and>
      (replay_key hello, incoming s t) \<in> set (pq_entries (cl_pending (fst cw')))"
    using paths q pq_view_set by (auto simp: c')
  show "\<not> reserved (replay_key hello) e c" if "clock_before T e"
  proof
    assume "reserved (replay_key hello) e c"
    then have "e \<le> now" using replay_insert_fresh [OF inv(1) ri] by (auto simp: reserved_def)
    moreover have "now < e"
      using that now by (auto simp: clock_before_def now_seconds_def split: prod.splits) (metis fst_conv)
    ultimately show False by simp
  qed
qed

lemma authenticate_admits:
  assumes "authenticate_operation E T N conn tx rx hello (c, w) = (Ok u, cw')"
  obtains c1 w1 sp tp incoming where "admit N T sp tp hello incoming (c1, w1) = (Ok u, cw')"
    "\<exists>a. c1 = c\<lparr>cl_active_records := retain_current a (cl_active_records c)\<rparr>"
    "\<And>s t. \<exists>pd. in_pending (incoming s t) = Some pd \<and> pd_hello pd = hello \<and> pd_connection pd = conn"
  using assms unfolding authenticate_operation_def Let_def
  by (auto simp: client_Ok) fastforce

lemma authenticate_Ok:
  assumes "authenticate_operation E T N conn tx rx hello (c, w) = (Ok u, cw')" and "client_inv E N c"
  shows "reserved (replay_key hello) (hc_expires_at (h_claims hello)) (fst cw')"
    and "\<exists>inc pd. (replay_key hello, inc) \<in> set (pq_entries (cl_pending (fst cw'))) \<and>
      in_pending inc = Some pd \<and> pd_hello pd = hello \<and> pd_connection pd = conn"
    and "clock_before T e \<Longrightarrow> \<not> reserved (replay_key hello) e c"
proof -
  obtain c1 w1 sp tp incoming a where ad: "admit N T sp tp hello incoming (c1, w1) = (Ok u, cw')"
    and c1: "c1 = c\<lparr>cl_active_records := retain_current a (cl_active_records c)\<rparr>"
    and inc: "\<And>s t. \<exists>pd. in_pending (incoming s t) = Some pd \<and> pd_hello pd = hello \<and> pd_connection pd = conn"
    using authenticate_admits [OF assms(1)] by metis
  have "client_inv E N c1" unfolding c1 by (rule client_inv_retain [OF assms(2)])
  note admitted = admit_Ok [OF ad this]
  show "reserved (replay_key hello) (hc_expires_at (h_claims hello)) (fst cw')" by (rule admitted(1))
  show "\<exists>inc pd. (replay_key hello, inc) \<in> set (pq_entries (cl_pending (fst cw'))) \<and>
      in_pending inc = Some pd \<and> pd_hello pd = hello \<and> pd_connection pd = conn"
    using admitted(2) inc by metis
  show "clock_before T e \<Longrightarrow> \<not> reserved (replay_key hello) e c" using admitted(3) by (simp add: c1)
qed

section \<open>Reachable states\<close>

text \<open>The configuration and the credential never change.\<close>

definition configured :: "v1_client_config \<Rightarrow> v1_device_credential \<Rightarrow> ('s, 'r, 'c) v1_client \<Rightarrow> bool" where
  "configured config credential c = (cl_config c = config \<and> cl_credential c = credential)"

lemma configured_update [simp]:
  "configured g k (c\<lparr>cl_active_records := a\<rparr>) = configured g k c"
  "configured g k (c\<lparr>cl_pending := q\<rparr>) = configured g k c"
  "configured g k (c\<lparr>cl_replay := r\<rparr>) = configured g k c"
  by (simp_all add: configured_def)

lemma stays_admit_configured: "stays (of_client (configured g k)) (admit N T sp tp hello incoming) cw"
  unfolding admit_def
  by (intro stays_intros)
    (auto simp: stays_def enqueue_or_release_def Let_def split: prod.splits result.splits)

lemma stays_authenticate_configured:
  "stays (of_client (configured g k)) (authenticate_operation E T N conn tx rx hello) cw"
  unfolding authenticate_operation_def Let_def
  by (intro stays_bind stays_basic stays_client_basic stays_on_client stays_admit_configured) simp_all

lemma stays_other_configured:
  "stays (of_client (configured g k)) (current_record E T sequence lifetime) cw"
  "stays (of_client (configured g k)) (dial_device E Q T S N R random target application) cw"
  unfolding current_record_def dial_device_def finish_outbound_handshake_def Let_def case_prod_unfold
  by (intro stays_intros; simp)+

lemma client_step_configured:
  assumes "client_step E Q T S N R cw cw'" and "configured g k (fst cw)"
  shows "configured g k (fst cw')"
  using assms(1)
proof cases
  case (authenticate conn tx rx hello r)
  then show ?thesis
    using stays_authenticate_configured [of g k E T N conn tx rx hello cw] assms(2) by (simp add: stays_def)
next
  case (register sequence lifetime rec)
  then show ?thesis
    using stays_other_configured(1) [of g k E T sequence lifetime cw] assms(2) by (simp add: stays_def)
next
  case (dial random target application p)
  then show ?thesis
    using stays_other_configured(2) [of g k E Q T S N R random target application cw] assms(2)
    by (simp add: stays_def)
next
  case (expiry key conn r)
  then show ?thesis using assms(2) by (cases cw) (auto simp: pending_expiry_def split: prod.splits)
next
  case (incoming a)
  then show ?thesis
    using assms(2) by (cases cw) (auto simp: next_incoming_def op_bind_def on_env_def instant_now_def
        split: prod.splits)
next
  case (close r)
  then show ?thesis using assms(2) by (cases cw) (auto simp: client_close_def split: prod.splits)
qed (use assms(2) in simp_all)

lemma client_steps_configured:
  "(client_step E Q T S N R)\<^sup>*\<^sup>* cw cw' \<Longrightarrow> configured g k (fst cw) \<Longrightarrow> configured g k (fst cw')"
  by (induction rule: rtranclp_induct) (auto intro: client_step_configured)

text \<open>What a bound client can become.\<close>

definition client_reachable ::
  "env \<Rightarrow> bool \<Rightarrow> ('s, 'r, 'c) quic \<Rightarrow> 'w runtime \<Rightarrow> ('s, 'r, 'w) session runtime \<Rightarrow>
   ('s, 'r, 'c, 'w) endpoint_api \<Rightarrow> 'w v1_device_resolver \<Rightarrow> ('s, 'r, 'c) v1_client \<times> 'w \<Rightarrow> bool" where
  "client_reachable E wasm Q T S N R cw =
     (\<exists>random credential config w0 c0 w1.
        client_bind E wasm T N random credential config w0 = (Ok c0, w1) \<and>
        (client_step E Q T S N R)\<^sup>*\<^sup>* (c0, w1) cw)"

lemma client_reachable_inv:
  assumes "client_reachable E wasm Q T S N R cw"
  shows "client_inv E N (fst cw)" and "config_validate E wasm (cl_config (fst cw)) = Ok ()"
proof -
  obtain random credential config w0 c0 w1 where
    b: "client_bind E wasm T N random credential config w0 = (Ok c0, w1)"
    and s: "(client_step E Q T S N R)\<^sup>*\<^sup>* (c0, w1) cw"
    using assms unfolding client_reachable_def by blast
  note inv = client_bind_inv [OF b]
  show "client_inv E N (fst cw)" using client_steps_inv [OF s] inv by simp
  have "configured config credential (fst cw)"
    using client_steps_configured [OF s, of config credential] inv by (simp add: configured_def)
  then show "config_validate E wasm (cl_config (fst cw)) = Ok ()" using inv by (simp add: configured_def)
qed

text \<open>Whatever \<open>next_incoming\<close> hands to the application was authenticated.\<close>

lemma next_incoming_authentic:
  assumes "client_inv E N c" and "next_incoming N T (c, w) = (Ok (Some (Ok inc)), cw')"
  shows "\<exists>key. authentic E N (cl_credential c) (cl_config c) key inc"
proof -
  obtain instant w1 where i: "instant_now T w = (Ok instant, w1)" by (cases "rt_instant T w") (simp add: instant_now_def)
  obtain dropped q where q: "pq_next instant (cl_pending c) = (Some (Ok inc), dropped, q)"
    using assms(2) i by (auto simp: next_incoming_def op_bind_def on_env_def split: prod.splits)
  have inv: "pq_inv (cl_pending c)" using assms(1) by (simp add: client_inv_def)
  have "fifo_next instant (pq_closed (cl_pending c)) (pq_view (cl_pending c)) = (Some (Ok inc), pq_view q)"
    using pq_next_ok [OF inv q] by blast
  then obtain key where "(key, inc) \<in> set (live_entries instant (pq_view (cl_pending c)))"
    unfolding fifo_next_def by (cases "live_entries instant (pq_view (cl_pending c))") (auto split: if_splits)
  then have "(key, inc) \<in> set (pq_entries (cl_pending c))"
    using set_live_entries pq_view_set [OF inv] by blast
  then show ?thesis using assms(1) by (auto simp: client_inv_def)
qed

end
