(* ===== verification/Static_Resolver.thy ===== *)
theory Static_Resolver
  imports Discovery
begin

text \<open>
  The in-memory resolver (\<open>StaticV1Resolver\<close> of \<open>crates/client/src/v1_discovery.rs\<close>):
  several local views share one set of records and proofs, each view counts its requests. The
  store is the part of the world named here; the rest of the world is its extension.
\<close>

record static_world =
  sw_records :: "(string, v1_device_record) hash_map"
  sw_proofs :: "(string, v1_signed_currentness_proof) hash_map"
  sw_request_count :: "nat \<Rightarrow> u64"

text \<open>\<open>sv_counter\<close> names the counter of a view.\<close>

record static_v1_resolver =
  sv_local_identity :: string
  sv_counter :: nat
  sv_allow_insecure_loopback_relay :: bool

definition static_new :: "env \<Rightarrow> string \<Rightarrow> nat \<Rightarrow> bool \<Rightarrow> static_v1_resolver cresult" where
  "static_new E local_identity counter allow =
     and_then (canonical_identity E local_identity) (\<lambda>identity.
     Ok \<lparr>sv_local_identity = identity, sv_counter = counter,
         sv_allow_insecure_loopback_relay = allow\<rparr>)"

definition static_for_local_identity ::
  "env \<Rightarrow> static_v1_resolver \<Rightarrow> string \<Rightarrow> nat \<Rightarrow> static_v1_resolver cresult" where
  "static_for_local_identity E self local_identity counter =
     and_then (canonical_identity E local_identity) (\<lambda>identity.
     Ok \<lparr>sv_local_identity = identity, sv_counter = counter,
         sv_allow_insecure_loopback_relay = sv_allow_insecure_loopback_relay self\<rparr>)"

definition static_insert_record ::
  "env \<Rightarrow> 'x static_world_scheme runtime \<Rightarrow> static_v1_resolver \<Rightarrow> v1_device_record \<Rightarrow>
   ('x static_world_scheme, string) op" where
  "static_insert_record E T self r =
     (let identity = cc_identity (c_claims (r_certificate r))
      in op_bind (now_seconds T) (\<lambda>now.
         op_bind (op_protocol (record_verify E r identity now
           (sv_allow_insecure_loopback_relay self) None)) (\<lambda>_.
         op_bind (op_protocol (record_path E r)) (\<lambda>path.
         \<lambda>w. (Ok path, w\<lparr>sw_records := AList.update (storage_key identity path) r (sw_records w)\<rparr>)))))"

definition note_request :: "static_v1_resolver \<Rightarrow> ('x static_world_scheme, unit) op" where
  "note_request self w =
     (Ok (), w\<lparr>sw_request_count := (sw_request_count w)(sv_counter self :=
        sw_request_count w (sv_counter self) + 1)\<rparr>)"

definition static_request_count :: "static_v1_resolver \<Rightarrow> 'x static_world_scheme \<Rightarrow> u64" where
  "static_request_count self w = sw_request_count w (sv_counter self)"

fun static_collect ::
  "env \<Rightarrow> 'x static_world_scheme runtime \<Rightarrow> static_v1_resolver \<Rightarrow> string \<Rightarrow>
   resolved_v1_device list \<Rightarrow> v1_device_record list \<Rightarrow>
   ('x static_world_scheme, resolved_v1_device list) op" where
  "static_collect E T self identity devices [] = op_return devices"
| "static_collect E T self identity devices (r # rs) =
     (if cc_identity (c_claims (r_certificate r)) \<noteq> identity
      then static_collect E T self identity devices rs
      else if length devices \<ge> V1_MAX_DEVICES
      then op_fail (Discovery ''injected v1 device listing exceeds limit'')
      else op_bind (now_seconds T) (\<lambda>now.
           op_bind (op_protocol (record_verify E r identity now
             (sv_allow_insecure_loopback_relay self) None)) (\<lambda>_.
           op_bind (op_protocol (record_path E r)) (\<lambda>path.
           static_collect E T self identity (devices @ [\<lparr>rd_path = path, rd_record = r\<rparr>]) rs))))"

definition static_resolve_devices ::
  "env \<Rightarrow> 'x static_world_scheme runtime \<Rightarrow> static_v1_resolver \<Rightarrow> string \<Rightarrow>
   ('x static_world_scheme, resolved_v1_device list) op" where
  "static_resolve_devices E T self identity =
     op_bind (note_request self) (\<lambda>_.
     op_bind (op_lift (canonical_identity E identity)) (\<lambda>identity'.
     op_bind (\<lambda>w. static_collect E T self identity' [] (map snd (sw_records w)) w) (\<lambda>devices.
     op_return (sort_key rd_path devices))))"

definition static_fetch_device_record ::
  "env \<Rightarrow> 'x static_world_scheme runtime \<Rightarrow> static_v1_resolver \<Rightarrow> string \<Rightarrow> string \<Rightarrow>
   ('x static_world_scheme, resolved_v1_device) op" where
  "static_fetch_device_record E T self identity path =
     op_bind (note_request self) (\<lambda>_.
     op_bind (op_lift (canonical_identity E identity)) (\<lambda>identity'.
     op_bind (op_lift (validate_device_path E path)) (\<lambda>_.
     op_bind (\<lambda>w. (ok_or (map_of (sw_records w) (storage_key identity' path))
       (Discovery ''v1 device record not found''), w)) (\<lambda>r.
     op_bind (now_seconds T) (\<lambda>now.
     op_bind (op_protocol (record_verify E r identity' now
       (sv_allow_insecure_loopback_relay self) None)) (\<lambda>_.
     op_bind (op_protocol (record_path E r)) (\<lambda>actual.
     op_bind (op_guard (actual \<noteq> path) UnexpectedPeer) (\<lambda>_.
     op_return \<lparr>rd_path = path, rd_record = r\<rparr>))))))))"

definition static_fetch_currentness_proof ::
  "env \<Rightarrow> static_v1_resolver \<Rightarrow> string \<Rightarrow> string \<Rightarrow>
   ('x static_world_scheme, v1_signed_currentness_proof) op" where
  "static_fetch_currentness_proof E self identity path =
     op_bind (note_request self) (\<lambda>_.
     op_bind (op_lift (canonical_identity E identity)) (\<lambda>identity'.
     op_bind (op_lift (validate_currentness_path E path)) (\<lambda>_.
     \<lambda>w. (ok_or (map_of (sw_proofs w) (storage_key identity' path))
       (Discovery ''v1 currentness proof not found''), w))))"

definition static_publish_currentness_proof ::
  "env \<Rightarrow> static_v1_resolver \<Rightarrow> v1_signed_currentness_proof \<Rightarrow> ('x static_world_scheme, unit) op" where
  "static_publish_currentness_proof E self proof =
     op_bind (op_lift (ok_or (json_to_vec E (ser_currentness_proof proof))
       (Discovery ''JSON serialization failed''))) (\<lambda>encoded.
     op_bind (op_guard (length encoded > V1_MAX_CURRENTNESS_PROOF_BYTES)
       (Discovery ''v1 currentness proof exceeds publication limit'')) (\<lambda>_.
     op_bind (op_protocol (currentness_path E proof)) (\<lambda>path.
     \<lambda>w. (Ok (), w\<lparr>sw_proofs :=
       AList.update (storage_key (sv_local_identity self) path) proof (sw_proofs w)\<rparr>))))"

definition static_delete_currentness_proof ::
  "env \<Rightarrow> static_v1_resolver \<Rightarrow> v1_signed_currentness_proof \<Rightarrow> ('x static_world_scheme, unit) op" where
  "static_delete_currentness_proof E self proof =
     op_bind (op_protocol (currentness_path E proof)) (\<lambda>path.
     \<lambda>w. (Ok (), w\<lparr>sw_proofs := AList.delete (storage_key (sv_local_identity self) path) (sw_proofs w)\<rparr>))"

definition static_resolver ::
  "env \<Rightarrow> 'x static_world_scheme runtime \<Rightarrow>
   (authenticated_sequence_observation list \<Rightarrow> ('x static_world_scheme, unit) op) \<Rightarrow>
   static_v1_resolver \<Rightarrow> 'x static_world_scheme v1_device_resolver" where
  "static_resolver E T record_batch self =
     \<lparr>rv_resolve_devices = static_resolve_devices E T self,
      rv_fetch_device_record = static_fetch_device_record E T self,
      rv_fetch_currentness_proof = static_fetch_currentness_proof E self,
      rv_publish_currentness_proof = static_publish_currentness_proof E self,
      rv_delete_currentness_proof = static_delete_currentness_proof E self,
      rv_commit_remote_record =
        commit_record E T record_batch (sv_allow_insecure_loopback_relay self)\<rparr>"

section \<open>The contract\<close>

lemma static_collect_Ok:
  assumes "static_collect E T self identity devices rs w = (Ok ds, w')"
    and "length devices \<le> V1_MAX_DEVICES"
    and "list_all (resolved_ok E (sv_allow_insecure_loopback_relay self) identity) devices"
  shows "length ds \<le> V1_MAX_DEVICES \<and>
    list_all (resolved_ok E (sv_allow_insecure_loopback_relay self) identity) ds"
  using assms
proof (induction rs arbitrary: devices w)
  case Nil
  then show ?case by (simp add: op_Ok)
next
  case (Cons r rs)
  show ?case
  proof (cases "cc_identity (c_claims (r_certificate r)) = identity")
    case True
    with Cons.prems(1) obtain now w1 path where len: "length devices < V1_MAX_DEVICES"
      and v: "record_verify E r identity now (sv_allow_insecure_loopback_relay self) None = Ok ()"
      and path: "record_path E r = Ok path"
      and rest: "static_collect E T self identity (devices @ [\<lparr>rd_path = path, rd_record = r\<rparr>]) rs w1
        = (Ok ds, w')"
      by (auto simp: op_Ok split: if_splits)
    from v path have "resolved_ok E (sv_allow_insecure_loopback_relay self) identity
        \<lparr>rd_path = path, rd_record = r\<rparr>" by (auto simp: resolved_ok_def)
    then show ?thesis using Cons.IH [OF rest] len Cons.prems(3) by simp
  next
    case False
    then show ?thesis using Cons by simp
  qed
qed

interpretation static: device_resolver E "sv_allow_insecure_loopback_relay self"
    "static_resolver E T batch self" for E T batch self
proof
  fix identity w ds w'
  assume "rv_resolve_devices (static_resolver E T batch self) identity w = (Ok ds, w')"
  then obtain devices v rs where c: "static_collect E T self identity [] rs v = (Ok devices, w')"
    and ds: "ds = sort_key rd_path devices"
    unfolding static_resolver_def static_resolve_devices_def op_Ok
    by (auto simp: op_Ok canonical_identity_Ok_iff)
  from static_collect_Ok [OF c]
  show "length ds \<le> V1_MAX_DEVICES \<and>
      list_all (resolved_ok E (sv_allow_insecure_loopback_relay self) identity) ds"
    by (simp add: ds list_all_iff)
next
  fix identity path w d w'
  assume "rv_fetch_device_record (static_resolver E T batch self) identity path w = (Ok d, w')"
  then show "rd_path d = path \<and> resolved_ok E (sv_allow_insecure_loopback_relay self) identity d"
    by (auto simp: static_resolver_def static_fetch_device_record_def op_Ok canonical_identity_Ok_iff
        resolved_ok_def)
next
  fix d w u w'
  assume "rv_commit_remote_record (static_resolver E T batch self) d w = (Ok u, w')"
  then show "resolved_ok E (sv_allow_insecure_loopback_relay self)
      (cc_identity (c_claims (r_certificate (rd_record d)))) d"
    by (auto simp: static_resolver_def dest: commit_record_Ok(1))
qed

section \<open>Publication is visible\<close>

text \<open>
  Identities of 52 letters and digits never contain a colon, so the storage key determines the
  identity and the path.
\<close>

lemma storage_key_inject:
  assumes "z32_text_law E" and "canonical_identity E a = Ok a" and "canonical_identity E b = Ok b"
  shows "storage_key a p = storage_key b q \<longleftrightarrow> a = b \<and> p = q"
proof -
  have "length a = 52" "length b = 52"
    using assms by (auto simp: canonical_identity_Ok_iff z32_text_law_def)
  then show ?thesis by (auto simp: storage_key_def)
qed

lemma static_publish_Ok:
  assumes "static_publish_currentness_proof E self proof w = (Ok u, w')"
  shows "\<exists>path. currentness_path E proof = Ok path \<and>
    w' = w\<lparr>sw_proofs := AList.update (storage_key (sv_local_identity self) path) proof (sw_proofs w)\<rparr>"
  using assms unfolding static_publish_currentness_proof_def op_Ok by auto

lemma static_publish_fetch:
  assumes "static_publish_currentness_proof E self proof w = (Ok u, w')"
    and "currentness_path E proof = Ok path" and "validate_currentness_path E path = Ok ()"
    and "canonical_identity E (sv_local_identity self) = Ok (sv_local_identity self)"
  shows "fst (static_fetch_currentness_proof E other (sv_local_identity self) path w') = Ok proof"
proof -
  from static_publish_Ok [OF assms(1)] assms(2)
  have w': "w' = w\<lparr>sw_proofs := AList.update (storage_key (sv_local_identity self) path) proof (sw_proofs w)\<rparr>"
    by simp
  show ?thesis
    unfolding static_fetch_currentness_proof_def w'
    by (simp add: op_bind_def op_lift_def note_request_def assms(3,4) update_conv')
qed

lemma static_delete_fetch:
  assumes "static_delete_currentness_proof E self proof w = (Ok u, w')"
    and "currentness_path E proof = Ok path"
  shows "\<exists>e. fst (static_fetch_currentness_proof E other (sv_local_identity self) path w') = Err e"
proof -
  from assms
  have w': "w' = w\<lparr>sw_proofs := AList.delete (storage_key (sv_local_identity self) path) (sw_proofs w)\<rparr>"
    unfolding static_delete_currentness_proof_def op_Ok by auto
  show ?thesis
    unfolding static_fetch_currentness_proof_def w'
    by (auto simp: op_bind_def op_lift_def note_request_def delete_conv' map_of_delete ok_iff
        split: result.splits)
qed

end
