(* ===== verification/Client_Demo.thy ===== *)
theory Client_Demo
  imports Demo Client_Machine Static_Resolver
begin

text \<open>
  A complete run of the client in the environment of theory Demo\_Env: Alice dials Bob's device
  through a homeserver that publishes his record and proof, Bob authenticates Alice's Hello and
  accepts it. The streams are byte lists, the clock stands at 40 and nothing times out.
\<close>

section \<open>Transport and time\<close>

lemma demo_parse_enc: "json_from_slice demo_env (enc j) = Some j"
  by (simp add: demo_env_def parse_enc)

definition demo_quic :: "(bytes, bytes, endpoint_id) quic" where
  "demo_quic = \<lparr>q_write_all = (\<lambda>s b. (Ok (), s @ b)), q_flush = (\<lambda>d s. (Some (Ok ()), s)),
     q_finish = (\<lambda>s. (Ok (), s)), q_stopped = (\<lambda>d s. Some (Ok None)),
     q_read_exact = (\<lambda>r n. if n \<le> length r then (Ok (take n r), drop n r) else (Err ''end of stream'', r)),
     q_read_one = (\<lambda>d r. (Some (Ok None), r)), q_close = (\<lambda>c n reason. c), q_paths = (\<lambda>c. [])\<rparr>"

lemma demo_send_law: "send_stream_law demo_quic (\<lambda>s. s)"
  by (simp add: send_stream_law_def demo_quic_def)

lemma demo_recv_law: "recv_stream_law demo_quic (\<lambda>r. r)"
  by (simp add: recv_stream_law_def demo_quic_def)

definition still :: "u64 \<Rightarrow> 'w runtime" where
  "still t = \<lparr>rt_now_seconds = (\<lambda>w. (t, w)), rt_instant = (\<lambda>w. (0, w)), rt_elapse = (\<lambda>d w. None)\<rparr>"

lemma still_simps [simp]:
  "now_seconds (still t) w = (Ok t, w)" "instant_now (still t) w = (Ok 0, w)"
  "op_timeout (still t) d message m w = m w"
  by (simp_all add: still_def now_seconds_def instant_now_def op_timeout_def)

lemma demo_write_frame:
  "length b < 2 ^ 32 \<Longrightarrow> write_frame demo_quic msg b s = (Ok (), s @ frame b)"
  by (simp add: write_frame_def write_all_def demo_quic_def op_bind_def op_lift_def u32_try_from_def frame_def)

lemma demo_write_json:
  "json_to_vec E (ser_value v) = Some b \<Longrightarrow> length b \<le> maximum \<Longrightarrow> maximum < 2 ^ 32 \<Longrightarrow>
   write_json E demo_quic ser_value v maximum s = (Ok (), s @ frame b)"
  by (simp add: write_json_def v1_write_bytes_def op_bind_def op_lift_def op_guard_def demo_write_frame)

lemma demo_read_json:
  assumes "length b \<le> maximum" "maximum < 2 ^ 32" "Option.bind (json_from_slice E b) de_value = Some v"
  shows "read_json E demo_quic de_value maximum (frame b @ rest) = (Ok v, rest)"
  using read_json_frame [OF demo_recv_law, of "frame b @ rest" b rest maximum E de_value v] assms
  by auto

section \<open>The homeserver\<close>

definition demo_path :: "party \<Rightarrow> string" where
  "demo_path p = the_ok (record_path demo_env (demo_record p))"

lemma demo_record_path:
  assumes "party_ok p"
  shows "record_path demo_env (demo_record p) = Ok (demo_path p)"
proof -
  obtain path where "record_path demo_env (demo_record p) = Ok path"
    using record_path_Ok [OF demo_record_at [OF assms, of 40]] by auto
  then show ?thesis by (simp add: demo_path_def)
qed

definition demo_proof_path :: "v1_currentness_role \<Rightarrow> string" where
  "demo_proof_path role = the_ok (currentness_path demo_env (demo_proof role))"

lemma demo_currentness_path:
  "v1_currentness_path demo_env role (demo_nonce 23) hello_digest_text
     (record_digest_text (demo_role_party role)) (grant_digest_text (demo_role_party role))
     (locator_digest_text (demo_role_party role)) = Ok (demo_proof_path role)"
  "currentness_path demo_env (demo_proof role) = Ok (demo_proof_path role)"
proof -
  have "\<exists>s. canonical_digest demo_env d v = Ok s" for d v
    by (simp add: canonical_digest_Ok_iff canonical_for_signing_Ok_iff)
  then obtain path where path: "v1_currentness_path demo_env role (demo_nonce 23) hello_digest_text
     (record_digest_text (demo_role_party role)) (grant_digest_text (demo_role_party role))
     (locator_digest_text (demo_role_party role)) = Ok path"
    using demo_hello_digest_facts demo_digest_facts demo_party_digest_facts
    by (fastforce simp: v1_currentness_path_def and_then_Ok_iff)
  then have "currentness_path demo_env (demo_proof role) = Ok path"
    by (simp add: currentness_path_def demo_proof_sign(2) demo_proof_claims_def)
  with path show "v1_currentness_path demo_env role (demo_nonce 23) hello_digest_text
     (record_digest_text (demo_role_party role)) (grant_digest_text (demo_role_party role))
     (locator_digest_text (demo_role_party role)) = Ok (demo_proof_path role)"
    "currentness_path demo_env (demo_proof role) = Ok (demo_proof_path role)"
    by (simp_all add: demo_proof_path_def)
qed

lemma demo_peer_path:
  "peer_currentness_path demo_env role (demo_nonce 23) demo_hello (demo_record (demo_role_party role))
     = Ok (demo_proof_path role)"
  using demo_hello_digest demo_record_digest [of "demo_role_party role"]
    demo_party_digests [of "demo_role_party role"] demo_currentness_path(1) [of role]
  by (simp add: peer_currentness_path_def demo_record_def)

lemma demo_identity: "canonical_identity demo_env (party_id p) = Ok (party_id p)"
proof -
  have "demo_parse_key (party_id p) = Some (PublicKey (secret_of (root_key p)))"
    by (simp add: party_id_def demo_parse_z32 del: demo_z32.simps)
  then show ?thesis
    by (simp add: canonical_identity_Ok_iff) (simp add: demo_env_def party_id_def del: demo_z32.simps)
qed

definition demo_body :: "string \<Rightarrow> bytes" where
  "demo_body address =
     (if address = ''pubky://'' @ party_id bob @ demo_path bob
      then enc (ser_record demo_env (demo_record bob))
      else if address = ''pubky://'' @ party_id bob @ demo_proof_path Responder
      then enc (ser_currentness_proof (demo_proof Responder))
      else enc (ser_currentness_proof (demo_proof Initiator)))"

definition demo_pubky :: "'w pubky_api" where
  "demo_pubky = \<lparr>
     pa_get = (\<lambda>d address w. (Some (Ok \<lparr>resp_content_length = None, resp_chunks = [Ok (demo_body address)]\<rparr>), w)),
     pa_list = (\<lambda>address shallow limit w. (Ok [\<lparr>le_owner = PublicKey (secret_of (root_key bob)), le_path = demo_path bob\<rparr>], w)),
     pa_session_public_key = PublicKey (secret_of (root_key alice)),
     pa_put = (\<lambda>path b w. (Ok (), w)), pa_delete = (\<lambda>path w. (Ok (), w)),
     pa_record_batch = (\<lambda>obs w. (Ok (), w))\<rparr>"

definition demo_resolver :: "'w v1_device_resolver" where
  "demo_resolver = pubky_resolver demo_env (still 40) demo_pubky discovery_config_default"

lemma demo_prefixes:
  "\<exists>d. demo_path bob = V1_DEVICE_RECORD_PATH_PREFIX @ d"
  "\<exists>d. demo_proof_path role = V1_CURRENTNESS_PATH_PREFIX @ d"
proof -
  show "\<exists>d. demo_path bob = V1_DEVICE_RECORD_PATH_PREFIX @ d"
    using demo_record_path [OF alice_bob_ok(2)]
    unfolding record_path_def v1_device_record_path_def and_then_Ok_iff by (metis result.inject(1))
  show "\<exists>d. demo_proof_path role = V1_CURRENTNESS_PATH_PREFIX @ d"
    using demo_currentness_path(1) [of role]
    unfolding v1_currentness_path_def and_then_Ok_iff by (metis result.inject(1))
qed

lemma party_id_distinct: "party_id alice \<noteq> party_id bob"
  by (simp add: party_id_def alice_def bob_def del: demo_z32.simps)

lemma demo_bodies:
  "demo_body (''pubky://'' @ party_id bob @ demo_path bob) = enc (ser_record demo_env (demo_record bob))"
  "demo_body (''pubky://'' @ party_id bob @ demo_proof_path Responder)
     = enc (ser_currentness_proof (demo_proof Responder))"
  "demo_body (''pubky://'' @ party_id alice @ demo_proof_path Initiator)
     = enc (ser_currentness_proof (demo_proof Initiator))"
proof -
  show "demo_body (''pubky://'' @ party_id bob @ demo_path bob) = enc (ser_record demo_env (demo_record bob))"
    by (simp add: demo_body_def)
  have "demo_path bob \<noteq> demo_proof_path Responder"
    using demo_prefixes(1) demo_prefixes(2) [of Responder]
    by (auto simp: V1_DEVICE_RECORD_PATH_PREFIX_def V1_CURRENTNESS_PATH_PREFIX_def)
  then show "demo_body (''pubky://'' @ party_id bob @ demo_proof_path Responder)
     = enc (ser_currentness_proof (demo_proof Responder))"
    by (auto simp: demo_body_def)
  show "demo_body (''pubky://'' @ party_id alice @ demo_proof_path Initiator)
     = enc (ser_currentness_proof (demo_proof Initiator))"
    using party_id_distinct by (simp add: demo_body_def append_eq_append_conv)
qed

lemma demo_limits:
  "discovery_config_validate discovery_config_default = Ok ()"
  "dc_total_record_max_bytes discovery_config_default = 262144"
  "dc_record_max_bytes discovery_config_default = 32768"
  "dc_currentness_max_bytes discovery_config_default = 4096"
  "dc_allow_insecure_loopback_relay discovery_config_default = False"
  by (simp_all add: discovery_config_validate_def discovery_config_default_def from_secs_def
      V1_MAX_DEVICE_RECORD_BYTES_def ABSOLUTE_MAX_TOTAL_BYTES_def V1_MAX_CURRENTNESS_PROOF_BYTES_def)

lemma demo_fetch_bounded:
  "length (demo_body address) \<le> maximum \<Longrightarrow>
   fetch_bounded demo_pubky config address maximum w = (Ok (demo_body address), w)"
  by (simp add: fetch_bounded_def demo_pubky_def)

lemma demo_proof_length: "length (enc (ser_currentness_proof (demo_proof role))) \<le> 2000"
proof -
  have "length (p_signature (demo_proof role)) = 128"
    using currentness_sign_Ok [OF demo_proof_sign(1) [of role]] by (metis demo_encode_signature_length)
  then show ?thesis
    using demo_proof_size [of "p_signature (demo_proof role)" role "demo_role_party role"]
    by (metis (full_types) demo_proof_sign(2) v1_signed_currentness_proof.surjective unit.exhaust)
qed

text \<open>The two fetches of the run.\<close>

lemma demo_fetch_proof:
  "rv_fetch_currentness_proof demo_resolver (party_id (demo_role_party role)) (demo_proof_path role) w
     = (Ok (demo_proof role), w)"
proof -
  note path = currentness_path_addressed [OF demo_b64_law demo_b64_alphabet_law demo_sha256_law
      demo_currentness_path(1) [of role] demo_identity [of "demo_role_party role"]]
  have body: "demo_body (''pubky://'' @ party_id (demo_role_party role) @ demo_proof_path role)
      = enc (ser_currentness_proof (demo_proof role))"
    using demo_bodies(2,3) by (cases role) (simp_all add: demo_role_party_def)
  have "fetch_bounded demo_pubky discovery_config_default
      (''pubky://'' @ party_id (demo_role_party role) @ demo_proof_path role)
      (dc_currentness_max_bytes discovery_config_default) w
      = (Ok (enc (ser_currentness_proof (demo_proof role))), w)"
    unfolding body [symmetric]
    by (rule demo_fetch_bounded, unfold body)
      (use demo_proof_length [of role] in \<open>simp add: demo_limits\<close>)
  moreover have "Option.bind (json_from_slice demo_env (enc (ser_currentness_proof (demo_proof role))))
      de_currentness_proof = Some (demo_proof role)"
    by (simp add: demo_parse_enc de_ser_currentness_proof)
  ultimately show ?thesis
    by (simp add: demo_resolver_def pubky_resolver_def pubky_fetch_currentness_proof_def op_bind_def
        op_lift_def demo_limits demo_identity path)
qed

lemma demo_addressed_prefix:
  "addressed demo_env (party_id p) V1_DEVICE_RECORD_PATH_PREFIX
     = Ok (''pubky://'' @ party_id p @ V1_DEVICE_RECORD_PATH_PREFIX)"
proof -
  have "\<not> str_contains ''..'' V1_DEVICE_RECORD_PATH_PREFIX"
    using two_dots [of V1_DEVICE_RECORD_PATH_PREFIX] by (auto simp: V1_DEVICE_RECORD_PATH_PREFIX_def)
  then show ?thesis
    by (auto simp: addressed_Ok_iff demo_identity starts_with_iff V1_DEVICE_RECORD_PATH_PREFIX_def)
qed

definition bob_device :: resolved_v1_device where
  "bob_device = \<lparr>rd_path = demo_path bob, rd_record = demo_record bob\<rparr>"

lemma bob_record: "rd_record bob_device = demo_record bob" "rd_path bob_device = demo_path bob"
  by (simp_all add: bob_device_def)

lemma demo_fetch_record:
  "fetch_record_inner demo_env (still 40) demo_pubky discovery_config_default (party_id bob) (demo_path bob) w
     = (Ok bob_device, w)"
proof -
  note path = record_path_addressed [OF demo_b64_law demo_b64_alphabet_law demo_sha256_law
      demo_record_path [OF alice_bob_ok(2)] demo_identity [of bob]]
  have len: "length (enc (ser_record demo_env (demo_record bob))) \<le> 7000"
    by (rule demo_record_size [OF alice_bob_ok(2)])
  have "fetch_bounded demo_pubky discovery_config_default (''pubky://'' @ party_id bob @ demo_path bob)
      (dc_record_max_bytes discovery_config_default) w = (Ok (enc (ser_record demo_env (demo_record bob))), w)"
    unfolding demo_bodies(1) [symmetric]
    by (rule demo_fetch_bounded, unfold demo_bodies(1))
      (use len in \<open>simp add: demo_limits\<close>)
  moreover have "record_decode_and_verify demo_env (enc (ser_record demo_env (demo_record bob)))
      (party_id bob) 40 False None = Ok (demo_record bob)"
    using len demo_record_at [OF alice_bob_ok(2), of 40] de_ser_record [OF demo_url_serde_law]
    by (simp add: record_decode_and_verify_def V1_MAX_DEVICE_RECORD_BYTES_def demo_parse_enc)
  ultimately show ?thesis
    by (simp add: fetch_record_inner_def op_bind_def op_lift_def op_protocol_def op_guard_def
        op_return_def path demo_record_path bob_device_def demo_limits)
qed

lemma demo_resolve: "rv_resolve_devices demo_resolver (party_id bob) w = (Ok [bob_device], w)"
proof -
  have list: "discovery_op (pa_list demo_pubky a True LIST_DETECTION_LIMIT) w
      = (Ok [\<lparr>le_owner = PublicKey (secret_of (root_key bob)), le_path = demo_path bob\<rparr>], w)" for a
    by (simp add: discovery_op_def demo_pubky_def)
  have paths: "listing_paths demo_env (party_id bob) []
      [\<lparr>le_owner = PublicKey (secret_of (root_key bob)), le_path = demo_path bob\<rparr>] = Ok [demo_path bob]"
    using record_path_addressed(1) [OF demo_b64_law demo_b64_alphabet_law demo_sha256_law
      demo_record_path [OF alice_bob_ok(2)] demo_identity [of bob]]
    by (simp add: party_id_def del: demo_z32.simps)
  have "fetch_listed demo_env (still 40) demo_pubky discovery_config_default (party_id bob) 0 []
      [demo_path bob] w = (Ok [bob_device], w)"
    using demo_record_size [OF alice_bob_ok(2)]
    by (simp add: op_bind_def op_lift_def op_guard_def op_return_def demo_fetch_record bob_device_def
        demo_limits)
  then show ?thesis
    by (simp add: demo_resolver_def pubky_resolver_def pubky_resolve_devices_def demo_limits op_bind_def op_lift_def
        resolve_inner_def demo_identity demo_addressed_prefix list paths op_guard_def V1_MAX_DEVICES_def
        op_return_def del: demo_z32.simps listing_paths.simps fetch_listed.simps)
qed

lemma demo_parse_canonical:
  "parse_canonical demo_env (party_id p) message = Ok (PublicKey (secret_of (root_key p)))"
proof -
  have "demo_parse_key (party_id p) = Some (PublicKey (secret_of (root_key p)))"
    by (simp add: party_id_def demo_parse_z32 del: demo_z32.simps)
  then show ?thesis
    by (simp add: parse_canonical_def) (simp add: demo_env_def party_id_def del: demo_z32.simps)
qed

lemma demo_record_observation:
  assumes "party_ok p"
  shows "\<exists>ob. record_observation demo_env (demo_record p) = Ok ob"
proof -
  let ?scope = "''v1:locator:'' @ cc_control_signing_key (c_claims (r_certificate (demo_record p)))"
  obtain b where b: "b64_decode demo_env (record_digest_text p) = Some b"
      "b64_encode demo_env b = record_digest_text p" "length b = 32"
    using demo_digest_facts(2) [of p] by (auto simp: validate_digest_Ok_iff)
  have "list_all scope_byte (demo_z32 k)" for k
    using demo_z32_text [of k] by (auto simp: list_all_iff scope_byte_def)
  moreover have "list_all scope_byte ''v1:locator:''"
    by (simp add: scope_byte_def is_ascii_alphanumeric_def is_ascii_digit_def Let_def)
  ultimately have "list_all scope_byte ?scope" "length ?scope = 63" "?scope \<noteq> []"
    using demo_record_fields(3) [OF assms] by (simp_all del: demo_z32.simps)
  then have "\<exists>key. state_key demo_env (party_id p) ?scope = Ok key"
    by (simp add: state_key_def demo_parse_canonical)
  moreover have "\<not> starts_with PUBLISHER_SCOPE_PREFIX ?scope"
    by (simp add: starts_with_iff PUBLISHER_SCOPE_PREFIX_def)
  moreover have "lc_sequence (l_claims (r_locator (demo_record p))) = 1"
    using demo_locator_facts(3) [OF assms] by (simp add: demo_record_def)
  ultimately show ?thesis
    using b demo_record_fields(1) [OF assms]
    by (auto simp: record_observation_def demo_record_digest observation_new_def)
qed

lemma demo_commit:
  assumes "party_ok p"
  shows "rv_commit_remote_record demo_resolver \<lparr>rd_path = demo_path p, rd_record = demo_record p\<rparr> w
    = (Ok (), w)"
proof -
  obtain ob where "record_observation demo_env (demo_record p) = Ok ob" using demo_record_observation [OF assms] by blast
  then show ?thesis
    using assms demo_record_at [OF assms, of 40]
    by (simp add: demo_resolver_def pubky_resolver_def commit_record_def op_bind_def op_protocol_def op_lift_def
        op_guard_def demo_record_path demo_record_fields(1) demo_limits del: demo_z32.simps)
      (simp add: demo_pubky_def)
qed

lemma demo_publish:
  "rv_publish_currentness_proof demo_resolver (demo_proof role) w = (Ok (), w)"
  "rv_delete_currentness_proof demo_resolver (demo_proof role) w = (Ok (), w)"
  using demo_proof_length [of role] demo_currentness_path(2) [of role]
  by (simp_all add: demo_resolver_def pubky_resolver_def publish_v1_currentness_proof_def
      delete_v1_currentness_proof_def op_bind_def op_lift_def op_guard_def op_protocol_def discovery_op_def
      V1_MAX_CURRENTNESS_PROOF_BYTES_def) (simp_all add: demo_pubky_def)

section \<open>The exchange\<close>

lemma length_demo_proof_path: "length (demo_proof_path role) = 101"
proof -
  obtain d v digest where "canonical_digest demo_env d v = Ok digest"
    "demo_proof_path role = V1_CURRENTNESS_PATH_PREFIX @ digest @ ''.json''"
    using demo_currentness_path(1) [of role]
    unfolding v1_currentness_path_def and_then_Ok_iff by (metis result.inject(1))
  then show ?thesis using demo_digest_length by (simp add: V1_CURRENTNESS_PATH_PREFIX_def)
qed

definition demo_ready :: proof_ready where
  "demo_ready = \<lparr>pr_version = V1_PROTOCOL_VERSION, pr_challenge = demo_nonce 23,
     pr_initiator_proof_path = demo_proof_path Initiator,
     pr_responder_proof_path = demo_proof_path Responder\<rparr>"

definition demo_confirmed :: proof_confirmed where
  "demo_confirmed = \<lparr>pf_version = V1_PROTOCOL_VERSION, pf_challenge = demo_nonce 23,
     pf_initiator_proof_path = demo_proof_path Initiator,
     pf_responder_proof_path = demo_proof_path Responder\<rparr>"

lemma demo_control_lengths:
  "length (enc (ser_proof_ready demo_ready)) \<le> 4096"
  "length (enc (ser_proof_confirmed demo_confirmed)) \<le> 4096"
  by (simp_all add: ser_proof_ready_def ser_proof_confirmed_def ser_struct_def proof_control_fields_def
      demo_ready_def demo_confirmed_def length_demo_proof_path V1_PROTOCOL_VERSION_def)

lemma demo_ack_length: "length (enc (ser_ack demo_ack)) \<le> 8192"
proof -
  have "ensure_serialized_bound demo_env (ser_ack demo_ack) V1_MAX_ACK_BYTES ''v1 Ack size'' = Ok ()"
    using demo_ack_sign(1) unfolding ack_sign_def ack_sign_with_policy_def
    by (auto simp: and_then_Ok_iff Let_def split: if_splits)
  then show ?thesis by (simp add: ensure_serialized_bound_Ok_iff V1_MAX_ACK_BYTES_def)
qed

lemma demo_hello_length: "length (enc (ser_hello demo_env demo_hello)) \<le> 12000"
  using demo_hello_size [of "h_signature demo_hello"] demo_hello_sign(2,3)
  by (metis (full_types) v1_signed_hello.surjective unit.exhaust)

lemma demo_ack_verifies:
  "ack_verify demo_env demo_ack (demo_record bob) (demo_record alice) demo_hello ''chat'' 40 False = Ok ()"
  using ack_sign_verifies_at_issue [OF demo_b64_law demo_signature_codec_law demo_signing_law
      demo_z32_law demo_ack_sign(1) [unfolded ack_sign_def]]
  by (simp add: demo_hello_sign(2) demo_hello_claims_def)

lemma demo_proof_verifies:
  "currentness_verify demo_env (demo_proof role) (demo_record (demo_role_party role))
     (demo_record (demo_other_party role)) demo_hello role (demo_nonce 23) 40 False = Ok ()"
  by (rule currentness_sign_verifies_at_issue [OF demo_b64_law demo_signature_codec_law
        demo_signing_law demo_z32_law demo_proof_sign(1)])

lemmas demo_parties = demo_role_party_def demo_other_party_def v1_currentness_role.case

definition demo_script :: bytes where
  "demo_script = frame (enc (ser_ack demo_ack)) @ frame (enc (ser_proof_confirmed demo_confirmed))"

lemma demo_outbound:
  "\<exists>sent. outbound_proof_exchange demo_env demo_quic (still 40) demo_resolver (demo_credential alice) False
     demo_hello (demo_record alice) bob_device ''chat''
     \<lparr>ss_send = [], ss_recv = demo_script, ss_world = w\<rparr>
   = (Ok (), \<lparr>ss_send = sent, ss_recv = [], ss_world = w\<rparr>)"
proof -
  have ack: "read_json demo_env demo_quic de_ack V1_MAX_ACK_BYTES demo_script
      = (Ok demo_ack, frame (enc (ser_proof_confirmed demo_confirmed)))"
    unfolding demo_script_def
    by (rule demo_read_json)
      (use demo_ack_length in \<open>simp_all add: V1_MAX_ACK_BYTES_def demo_parse_enc de_ser_ack\<close>)
  have confirmed: "read_json demo_env demo_quic de_proof_confirmed MAX_PROOF_CONTROL_BYTES
      (frame (enc (ser_proof_confirmed demo_confirmed))) = (Ok demo_confirmed, [])"
    using demo_read_json [of "enc (ser_proof_confirmed demo_confirmed)" MAX_PROOF_CONTROL_BYTES demo_env
        de_proof_confirmed demo_confirmed "[]"] demo_control_lengths(2)
    by (simp add: MAX_PROOF_CONTROL_BYTES_def demo_parse_enc de_ser_proof_confirmed)
  have hello: "write_json demo_env demo_quic (ser_hello demo_env) demo_hello V1_MAX_HELLO_BYTES s
      = (Ok (), s @ frame (enc (ser_hello demo_env demo_hello)))" for s
    by (rule demo_write_json) (use demo_hello_length in \<open>simp_all add: V1_MAX_HELLO_BYTES_def\<close>)
  have ready: "write_json demo_env demo_quic ser_proof_ready demo_ready MAX_PROOF_CONTROL_BYTES s
      = (Ok (), s @ frame (enc (ser_proof_ready demo_ready)))" for s
    by (rule demo_write_json) (use demo_control_lengths(1) in \<open>simp_all add: MAX_PROOF_CONTROL_BYTES_def\<close>)
  note sign = demo_proof_sign(1) [of Initiator, unfolded demo_parties]
    and verify = demo_proof_verifies [of Responder, unfolded demo_parties]
    and path = demo_peer_path [of Responder, unfolded demo_parties]
    and fetch = demo_fetch_proof [of Responder, unfolded demo_parties]
    and commit = demo_commit [OF alice_bob_ok(2)]
  have claims: "ac_responder_nonce (a_claims demo_ack) = demo_nonce 23" "ac_issued_at (a_claims demo_ack) = 40"
    "ac_expires_at (a_claims demo_ack) = 70"
    by (simp_all add: demo_ack_sign(2) demo_ack_claims_def)
  have op: "outbound_operation demo_env demo_quic (still 40) demo_resolver False demo_hello (demo_record alice)
      bob_device (demo_proof Initiator) (demo_nonce 23)
      \<lparr>ss_send = s, ss_recv = frame (enc (ser_proof_confirmed demo_confirmed)), ss_world = w\<rparr>
      = (Ok (), \<lparr>ss_send = s @ frame (enc (ser_proof_ready demo_ready)), ss_recv = [], ss_world = w\<rparr>)" for s
    using ready [of s, unfolded demo_ready_def] confirmed
    by (simp add: demo_currentness_path(2) path fetch verify commit outbound_operation_def op_bind_def op_protocol_def op_lift_def on_world_def on_tx_def
        on_rx_def op_guard_def bob_device_def demo_record_fields(1) demo_ready_def demo_confirmed_def
        del: demo_z32.simps)
  show ?thesis
    by (simp add: demo_ack_verifies sign op outbound_proof_exchange_def op_bind_def op_protocol_def op_lift_def on_world_def
        on_tx_def on_rx_def op_capture_def op_ignore_def hello ack claims bob_record demo_publish Let_def
        del: demo_z32.simps)
qed

section \<open>The endpoints\<close>

definition demo_config :: v1_client_config where
  "demo_config = (config_relay_only False AcknowledgePreConsentRelayMetadataExposure [''chat''])
     \<lparr>cfg_trusted_relays := map relay_config_new demo_relays\<rparr>"

lemma demo_config_fields:
  "cfg_allow_insecure_loopback_relay demo_config = False" "cfg_accepted_applications demo_config = [''chat'']"
  "map ir_url (cfg_trusted_relays demo_config) = demo_relays"
  "cfg_incoming_queue_capacity demo_config = 16" "cfg_max_pending_per_identity demo_config = 2"
  "cfg_replay_cache_capacity demo_config = 1024" "cfg_replay_cache_per_identity_capacity demo_config = 32"
  "cfg_peer_handshake_timeout demo_config = from_secs 20" "cfg_path_policy demo_config = RelayOnly"
  "cfg_relay_ca_certificates demo_config = []"
  by (simp_all add: demo_config_def config_relay_only_def relay_config_new_def demo_relays_def)

lemma demo_config_valid: "config_validate demo_env False demo_config = Ok ()"
proof -
  have "validate_trusted_relays_loop demo_env False False [] (cfg_trusted_relays demo_config) = Ok ()"
    by (simp add: demo_config_def relay_config_new_def demo_relays_def validate_trusted_relay_url_def
        validate_trusted_relay_url_for_environment_def origin_text_def auth_token_ok_def demo_env_def)
  moreover have "validate_applications_loop [] [''chat''] = Ok ()"
    using demo_application unfolding validate_applications_loop_Ok_iff by simp
  moreover have "validate_bounds demo_config = Ok ()" "validate_udp demo_config = Ok ()"
    by (simp_all add: validate_bounds_Ok_iff validate_udp_Ok_iff demo_config_def config_relay_only_def
        from_secs_def DEFAULT_NATIVE_MESSAGE_BYTES_def)
  moreover have "cfg_disclosure demo_config = AcknowledgePreConsentRelayMetadataExposure"
    "length (cfg_trusted_relays demo_config) = 1"
    by (simp_all add: demo_config_def config_relay_only_def demo_relays_def)
  ultimately show ?thesis
    by (auto simp: config_validate_def demo_config_fields client_limits)
qed

text \<open>A connection is the endpoint at its other end.\<close>

definition demo_endpoint :: "(bytes, bytes, endpoint_id, 'w) endpoint_api" where
  "demo_endpoint = \<lparr>
     ep_public_z32 = (\<lambda>b. demo_z32 (PublicKey (bytes_word b))), ep_bind_addr = (\<lambda>a. Ok ()),
     ep_bind = (\<lambda>options w. (Ok (), w)), ep_online = (\<lambda>d w. (True, w)), ep_shutdown = (\<lambda>w. w),
     ep_id_from_z32 = (\<lambda>s. case demo_parse_key s of Some k \<Rightarrow> Ok (EndpointId (key_of k)) | None \<Rightarrow> Err ''key''),
     ep_connect = (\<lambda>d i relays alpn w. (Some (Ok i), w)), ep_remote_id = (\<lambda>c. c),
     ep_open_bi = (\<lambda>d c w. (Some (Ok ([], demo_script)), w)),
     ep_accept_bi = (\<lambda>c w. (Ok ([], frame (enc (ser_hello demo_env demo_hello))
       @ frame (enc (ser_proof_ready demo_ready))), w)),
     ep_is_0rtt = (\<lambda>r. False), ep_close = (\<lambda>c code reason w. w)\<rparr>"

text \<open>The world is a clock that stops at 69.\<close>

definition demo_clock :: "u64 runtime" where
  "demo_clock = \<lparr>rt_now_seconds = (\<lambda>w. (min w 69, w)), rt_instant = (\<lambda>w. (0, w)), rt_elapse = (\<lambda>d w. None)\<rparr>"

lemma demo_clock_simps [simp]:
  "now_seconds demo_clock w = (Ok (min w 69), w)" "instant_now demo_clock w = (Ok 0, w)"
  "op_timeout demo_clock d message m w = m w"
  by (simp_all add: demo_clock_def now_seconds_def instant_now_def op_timeout_def)

lemma demo_clock_before: "clock_before demo_clock 70"
proof -
  have "min w 69 < (70 :: u64)" for w :: u64 by (rule min.strict_coboundedI2) simp
  then show ?thesis by (simp add: clock_before_def demo_clock_def)
qed

text \<open>A client as \<open>bind\<close> leaves it, and with its record registered.\<close>

definition bound_client :: "party \<Rightarrow> (bytes, bytes, endpoint_id) v1_client" where
  "bound_client p = \<lparr>cl_credential = demo_credential p, cl_config = demo_config, cl_pending = pq_new 16 2,
     cl_replay = replay_new 1024 32, cl_active_records = [], cl_instance_nonce = demo_nonce 20\<rparr>"

definition demo_client :: "party \<Rightarrow> (bytes, bytes, endpoint_id) v1_client" where
  "demo_client p = (bound_client p)\<lparr>cl_active_records := [(record_digest_text p, demo_record p)]\<rparr>"

lemma demo_bind:
  assumes "party_ok p"
  shows "client_bind demo_env False demo_clock demo_endpoint (Keypair 20) (demo_credential p) demo_config 30
    = (Ok (bound_client p), 30)"
proof -
  note cred = demo_issue [OF assms]
  have v: "credential_verify demo_env (demo_credential p) 30 = Ok ()"
    by (rule credential_verify_later [OF cred(2)]) (simp_all add: cred(5))
  obtain b where b: "iroh_secret_key_bytes demo_env (demo_credential p) = Ok b"
    "demo_z32 (PublicKey (bytes_word b)) = cr_iroh_endpoint_id (demo_credential p)"
  proof -
    obtain b where b: "iroh_secret_key_bytes demo_env (demo_credential p) = Ok b"
      using v by (auto simp: credential_verify_Ok_iff)
    then obtain kp where "decode_secret demo_env (cr_iroh_secret (demo_credential p))
        (cr_iroh_endpoint_id (demo_credential p)) ''v1 iroh secret'' = Ok kp" "b = kp_secret demo_env kp"
      unfolding iroh_secret_key_bytes_def and_then_Ok_iff by auto
    moreover have "bytes_word (kp_secret demo_env kp) = secret_of kp" for kp
      by (simp add: demo_env_def bytes_word_bytes)
    ultimately have "demo_z32 (PublicKey (bytes_word b)) = cr_iroh_endpoint_id (demo_credential p)"
      by (auto simp: decode_secret_Ok_iff simp del: demo_z32.simps)
    with b show ?thesis by (rule that)
  qed
  then show ?thesis
    by (simp add: client_bind_def op_bind_def op_lift_def op_protocol_def op_guard_def op_return_def
        demo_config_valid v demo_config_fields iroh_op_def Let_def)
      (simp add: demo_endpoint_def bound_client_def demo_nonce_def op_bind_def op_return_def)
qed

lemma demo_register:
  assumes "party_ok p"
  shows "current_record demo_env demo_clock 1 (from_secs 70) (bound_client p, 30)
    = (Ok (demo_record p), (demo_client p, 30))"
proof -
  have sign: "locator_sign demo_env (demo_credential p) demo_relays (demo_nonce 20) 1 30 100 = Ok (demo_locator p)"
    using demo_locator_sign(1) [OF assms] by (simp add: locator_sign_def)
  have cfg: "cl_config (bound_client p) = demo_config" "cl_credential (bound_client p) = demo_credential p"
    "cl_instance_nonce (bound_client p) = demo_nonce 20" "cl_active_records (bound_client p) = []"
    by (simp_all add: bound_client_def)
  have reg: "register_record 30 d r [] = [(d, r)]" for d r
    by (simp add: register_record_def retain_current_def hm_retain_def MAX_ACTIVE_RECORDS_def)
  show ?thesis
    using sign demo_record_verifies(2) [OF assms] demo_record_digest [of p]
    by (simp add: current_record_def op_bind_def op_guard_def on_env_def op_lift_def get_client_def
        op_protocol_def on_client_def op_return_def V1_MAX_LOCATOR_LIFETIME_SECONDS_def checked_add_def
        cfg demo_config_fields demo_client_def reg)
qed

lemma demo_latest:
  assumes "party_ok p"
  shows "retain_current 40 (cl_active_records (demo_client p)) = cl_active_records (demo_client p)"
  using demo_record_fields(7) [OF assms]
  by (simp add: demo_client_def retain_current_def hm_retain_def)

section \<open>Alice dials\<close>

lemma demo_uuid: "\<exists>u. nonce_uuid demo_env (demo_nonce n) = Ok u"
proof -
  have "b64_decode demo_env (demo_nonce n) = Some (kp_secret demo_env (Keypair n))"
    using demo_b64_law by (simp add: demo_nonce_def v1_random_challenge_def b64_law_def)
  moreover have "length (kp_secret demo_env (Keypair n)) = 32"
    using demo_keypair_law by (simp add: keypair_law_def)
  ultimately show ?thesis by (simp add: nonce_uuid_Ok_iff)
qed

lemma demo_endpoint_ids:
  "ep_id_from_z32 demo_endpoint (demo_z32 k) = Ok (EndpointId (key_of k))"
  "ep_remote_id demo_endpoint c = c"
  by (simp_all add: demo_endpoint_def demo_parse_z32 del: demo_z32.simps)

lemma demo_handshake_expiry:
  "saturating_add 40 (min V1_MAX_HANDSHAKE_LIFETIME_SECONDS 30) = (70 :: u64)"
  "saturating_add 40 V1_MAX_CURRENTNESS_LIFETIME_SECONDS = (70 :: u64)"
  "min 70 100 = (70 :: u64)" "min 70 110 = (70 :: u64)" "min 40 69 = (40 :: u64)" "min 70 70 = (70 :: u64)"
  by (simp_all add: V1_MAX_HANDSHAKE_LIFETIME_SECONDS_def V1_MAX_CURRENTNESS_LIFETIME_SECONDS_def
      saturating_add_def min_def)

lemma demo_client_fields:
  "cl_config (demo_client p) = demo_config" "cl_credential (demo_client p) = demo_credential p"
  "cl_active_records (demo_client p) = [(record_digest_text p, demo_record p)]"
  "cl_pending (demo_client p) = pq_new 16 2" "cl_replay (demo_client p) = replay_new 1024 32"
  by (simp_all add: demo_client_def bound_client_def)

lemma demo_handshake:
  "\<exists>peer. finish_outbound_handshake demo_env demo_quic demo_clock (still 40) demo_endpoint demo_resolver
     (Keypair 21) (EndpointId 8) (EndpointId 8) bob_device ''chat'' (demo_client alice, 40)
   = (Ok peer, (demo_client alice, 40))"
proof -
  obtain sent where out: "outbound_proof_exchange demo_env demo_quic (still 40) demo_resolver
     (demo_credential alice) False demo_hello (demo_record alice) bob_device ''chat''
     \<lparr>ss_send = [], ss_recv = demo_script, ss_world = 40 :: u64\<rparr>
   = (Ok (), \<lparr>ss_send = sent, ss_recv = [], ss_world = 40\<rparr>)" by (rule exE [OF demo_outbound])
  have hello: "hello_sign demo_env (demo_credential alice) (demo_record alice) (demo_record bob) ''chat''
     (v1_random_challenge demo_env (Keypair 21)) (40, 70) = Ok demo_hello"
    using demo_hello_sign(1) by (simp add: demo_nonce_def)
  have nonce: "hc_session_nonce (h_claims demo_hello) = demo_nonce 21"
    by (simp add: demo_hello_sign(2) demo_hello_claims_def)
  obtain u where uuid: "nonce_uuid demo_env (demo_nonce 21) = Ok u" using demo_uuid by blast
  let ?cw = "(demo_client alice, 40 :: u64)"
  have s1: "op_guard (ep_remote_id demo_endpoint (EndpointId 8) \<noteq> EndpointId 8) UnexpectedPeer ?cw = (Ok (), ?cw)"
    by (simp add: op_guard_def demo_endpoint_ids)
  have s2: "get_client ?cw = (Ok (demo_client alice), ?cw)" by (simp add: get_client_def)
  have s3: "on_env (iroh_timed m (ep_open_bi demo_endpoint d c)) ?cw = (Ok ([], demo_script), ?cw)" for m d c
    by (simp add: on_env_def iroh_timed_def demo_endpoint_def)
  have s4: "on_env (now_seconds demo_clock) ?cw = (Ok 40, ?cw)"
    by (simp add: on_env_def demo_handshake_expiry)
  have s5: "on_client (\<lambda>c. (ok_or (latest_record (retain_current 40 (cl_active_records c))) e,
      c\<lparr>cl_active_records := retain_current 40 (cl_active_records c)\<rparr>)) ?cw = (Ok (demo_record alice), ?cw)" for e
    using demo_latest [OF alice_bob_ok(1)] by (simp add: on_client_def demo_client_fields)
  have times: "lc_expires_at (l_claims (r_locator (demo_record p))) = 100"
    "cc_expires_at (c_claims (r_certificate (demo_record p))) = 110" if "party_ok p" for p
    using demo_record_fields [OF that] by simp_all
  have s6: "op_guard ((70 :: u64) \<le> 40) e ?cw = (Ok (), ?cw)" for e by (simp add: op_guard_def)
  have s7: "op_protocol (hello_sign demo_env (demo_credential alice) (demo_record alice) (demo_record bob)
      ''chat'' (v1_random_challenge demo_env (Keypair 21)) (40, 70)) ?cw = (Ok demo_hello, ?cw)"
    using hello by (simp add: op_protocol_def op_lift_def)
  have s8: "in_session (op_timeout (still 40) d m (outbound_proof_exchange demo_env demo_quic (still 40)
      demo_resolver (demo_credential alice) False demo_hello (demo_record alice) bob_device ''chat''))
      [] demo_script ?cw = (Ok (sent, []), ?cw)" for d m
    using out by (simp add: in_session_def)
  have s9: "op_lift (nonce_uuid demo_env (demo_nonce 21)) ?cw = (Ok u, ?cw)" by (simp add: op_lift_def uuid)
  note steps = s1 s2 s3 s4 s5 s6 s7 s8 s9
  show ?thesis
    unfolding finish_outbound_handshake_def Let_def
    by (simp only: op_bind_def steps prod.case result.case demo_client_fields demo_config_fields if_False
        times [OF alice_bob_ok(1)] times [OF alice_bob_ok(2)] demo_handshake_expiry bob_record nonce op_return_def)
      simp
qed

lemma demo_relay_choice:
  "trusted_destination_relays demo_env (r_locator (demo_record bob)) demo_config = Ok demo_relays"
proof -
  have "lc_relay_urls (l_claims (r_locator (demo_record bob))) = demo_relays"
    using demo_locator_facts(4) [OF alice_bob_ok(2)] by (simp add: demo_record_def)
  moreover have "cfg_trusted_relays demo_config = map relay_config_new demo_relays"
    by (simp add: demo_config_def)
  ultimately show ?thesis
    by (simp add: trusted_destination_relays_def demo_relays_def origin_text_def demo_env_def relay_config_new_def)
qed

lemma demo_dial:
  "\<exists>peer. client_dial demo_env demo_quic demo_clock (still 40) (still 40) demo_endpoint demo_resolver
     (\<lambda>i. Keypair 21) (party_id bob) (Some ''phone'') ''chat'' (demo_client alice, 40)
   = (Ok peer, (demo_client alice, 40))"
proof -
  let ?cw = "(demo_client alice, 40 :: u64)"
  obtain peer where hs: "finish_outbound_handshake demo_env demo_quic demo_clock (still 40) demo_endpoint
     demo_resolver (Keypair 21) (EndpointId 8) (EndpointId 8) bob_device ''chat'' ?cw = (Ok peer, ?cw)"
    by (rule exE [OF demo_handshake])
  have id: "ep_id_from_z32 demo_endpoint (cc_iroh_endpoint_id (c_claims (r_certificate (demo_record bob))))
      = Ok (EndpointId 8)"
    using demo_record_fields(4) [OF alice_bob_ok(2)] demo_endpoint_ids(1) [of "PublicKey 8"]
    by (simp del: demo_z32.simps)
  have conn: "iroh_timed m (ep_connect demo_endpoint d i us alpn) w = (Ok i, w)" for m d i us alpn w
    by (simp add: iroh_timed_def demo_endpoint_def)
  have dev: "dial_device demo_env demo_quic demo_clock (still 40) demo_endpoint demo_resolver (Keypair 21)
      bob_device ''chat'' ?cw = (Ok peer, ?cw)"
    using demo_record_at [OF alice_bob_ok(2), of 40]
    by (simp add: dial_device_def op_bind_def get_client_def on_env_def demo_handshake_expiry bob_record
        demo_record_fields(1) demo_client_fields demo_config_fields op_protocol_def op_lift_def
        demo_record_path op_guard_def demo_relay_choice id conn close_on_error_def hs
        del: demo_z32.simps) (simp add: demo_relays_def)
  have cand: "dial_candidates_of (Some ''phone'') [bob_device] = [bob_device]"
    by (simp add: dial_candidates_of_def bob_record demo_record_fields(2) MAX_ACTIVE_RECORDS_def)
  have app: "client_validate_application ''chat'' = Ok ()"
    using demo_application by (simp add: client_validate_application_Ok_iff)
  show ?thesis
    by (simp add: client_dial_def op_bind_def op_lift_def app get_client_def dial_inner_def on_env_def
        demo_resolve cand op_guard_def dev)
qed

section \<open>Bob accepts\<close>

definition demo_pending :: "(bytes, bytes, endpoint_id) pending_v1" where
  "demo_pending = \<lparr>pd_connection = EndpointId 4, pd_send = [], pd_recv = frame (enc (ser_proof_ready demo_ready)),
     pd_local = demo_credential bob, pd_sender = \<lparr>rd_path = demo_path alice, rd_record = demo_record alice\<rparr>,
     pd_target = bob_device, pd_hello = demo_hello,
     pd_max_message_bytes = cfg_max_message_bytes demo_config,
     pd_allow_insecure_loopback_relay = False, pd_deadline = from_secs 20, pd_expiry_cancel = True\<rparr>"

definition demo_incoming :: "(bytes, bytes, endpoint_id) incoming_v1" where
  "demo_incoming = \<lparr>in_pending = Some demo_pending\<rparr>"

definition admitted_client :: "(bytes, bytes, endpoint_id) v1_client" where
  "admitted_client = (demo_client bob)\<lparr>
     cl_replay := (replay_new 1024 32)\<lparr>rc_entries :=
       [(replay_key demo_hello, \<lparr>re_identity = party_id alice, re_expires_at = 70\<rparr>)]\<rparr>,
     cl_pending := (pq_new 16 2)\<lparr>pq_per_identity := [(party_id alice, 1)],
       pq_order := [replay_key demo_hello], pq_entries := [(replay_key demo_hello, demo_incoming)]\<rparr>\<rparr>"

lemma demo_hello_fields:
  "hc_from_identity (h_claims demo_hello) = party_id alice" "hc_expires_at (h_claims demo_hello) = 70"
  "hc_application (h_claims demo_hello) = ''chat''"
  "hc_from_device_record (h_claims demo_hello) = demo_record alice"
  "hc_target_device_record_digest (h_claims demo_hello) = record_digest_text bob"
  "hc_session_nonce (h_claims demo_hello) = demo_nonce 21"
  by (simp_all add: demo_hello_sign(2) demo_hello_claims_def)

lemma demo_reserve:
  "reserve_replay demo_hello 40 (replay_new 1024 32) = (Ok (replay_key demo_hello), cl_replay admitted_client)"
  by (simp add: reserve_replay_def replay_insert_def replay_new_def hm_retain_def hm_contains_def
      identity_entries_def Let_def admitted_client_def demo_hello_fields)

lemma demo_enqueue:
  "pq_insert (replay_key demo_hello) demo_incoming 0 (pq_new 16 2) = (Ok (), [], cl_pending admitted_client)"
  by (simp add: pq_insert_def pq_new_def pq_prune_expired_def Let_def hm_contains_def admitted_client_def
      incoming_identity_def demo_incoming_def demo_pending_def demo_hello_fields)

lemma demo_admit:
  "admit demo_endpoint demo_clock (Ok (demo_path alice)) (Ok (demo_path bob)) demo_hello
     (\<lambda>sp tp. \<lparr>in_pending = Some (demo_pending\<lparr>pd_sender := \<lparr>rd_path = sp, rd_record = demo_record alice\<rparr>,
        pd_target := \<lparr>rd_path = tp, rd_record = demo_record bob\<rparr>\<rparr>)\<rparr>) (demo_client bob, 40)
   = (Ok (), (admitted_client, 40))"
proof -
  have drop: "drop_incoming demo_endpoint [] w = w" for w :: u64 by (simp add: drop_incoming_def)
  have inc: "\<lparr>in_pending = Some (demo_pending\<lparr>pd_sender := \<lparr>rd_path = demo_path alice, rd_record = demo_record alice\<rparr>,
       pd_target := \<lparr>rd_path = demo_path bob, rd_record = demo_record bob\<rparr>\<rparr>)\<rparr> = demo_incoming"
    by (simp add: demo_incoming_def demo_pending_def bob_device_def)
  have c: "(demo_client bob)\<lparr>cl_replay := cl_replay admitted_client, cl_pending := cl_pending admitted_client\<rparr>
      = admitted_client"
    by (simp add: admitted_client_def)
  show ?thesis
    by (simp add: admit_def op_bind_def on_env_def on_client_def op_lift_def demo_handshake_expiry
        demo_client_fields demo_reserve inc enqueue_or_release_def demo_enqueue drop c)
qed

lemma demo_authenticate:
  "authenticate_operation demo_env demo_clock demo_endpoint (EndpointId 4) []
     (frame (enc (ser_proof_ready demo_ready))) demo_hello (demo_client bob, 40)
   = (Ok (), (admitted_client, 40))"
proof -
  let ?cw = "(demo_client bob, 40 :: u64)"
  note bob = demo_record_fields [OF alice_bob_ok(2)] and cred = demo_issue [OF alice_bob_ok(2)]
  have s1: "get_client ?cw = (Ok (demo_client bob), ?cw)" by (simp add: get_client_def)
  have s2: "op_guard (''chat'' \<notin> set [''chat'']) e ?cw = (Ok (), ?cw)" for e by (simp add: op_guard_def)
  have s3: "on_env (now_seconds demo_clock) ?cw = (Ok 40, ?cw)"
    by (simp add: on_env_def demo_handshake_expiry)
  have s4: "on_client (\<lambda>c. (ok_or (map_of (retain_current 40 (cl_active_records c)) (record_digest_text bob)) e,
      c\<lparr>cl_active_records := retain_current 40 (cl_active_records c)\<rparr>)) ?cw = (Ok (demo_record bob), ?cw)" for e
    using demo_latest [OF alice_bob_ok(2)] by (simp add: on_client_def demo_client_fields)
  have s5: "op_protocol (hello_verify demo_env demo_hello (demo_record alice) (demo_record bob) ''chat'' 40 False)
      ?cw = (Ok (), ?cw)"
    using demo_hello_verifies [of 40] by (simp add: op_protocol_def op_lift_def)
  have s6: "op_guard (r_certificate (demo_record bob) \<noteq> cr_certificate (demo_credential bob)
      \<or> r_authorization (demo_record bob) \<noteq> cr_authorization (demo_credential bob)
      \<or> cc_identity (c_claims (r_certificate (demo_record bob))) \<noteq> cr_identity (demo_credential bob)) e ?cw
      = (Ok (), ?cw)" for e
    using bob(1,8,9) cred(4) by (simp add: op_guard_def)
  have s7: "op_lift (map_err Iroh (ep_id_from_z32 demo_endpoint
      (cc_iroh_endpoint_id (c_claims (r_certificate (demo_record alice)))))) ?cw = (Ok (EndpointId 4), ?cw)"
    using demo_record_fields(4) [OF alice_bob_ok(1)]
    by (simp add: op_lift_def demo_endpoint_ids(1) del: demo_z32.simps)
  have s8: "op_guard (EndpointId 4 \<noteq> ep_remote_id demo_endpoint (EndpointId 4)) e ?cw = (Ok (), ?cw)" for e
    by (simp add: op_guard_def demo_endpoint_ids)
  have s9: "on_env (instant_now demo_clock) ?cw = (Ok 0, ?cw)" by (simp add: on_env_def)
  have s10: "op_lift (pending_deadline 70 (from_secs 20) 40 0) ?cw = (Ok (from_secs 20), ?cw)"
    by (simp add: op_lift_def pending_deadline_def saturating_sub_def from_secs_def)
  have paths: "map_err Protocol (record_path demo_env (demo_record p)) = Ok (demo_path p)" if "party_ok p" for p
    by (simp add: demo_record_path that)
  have pending: "\<lparr>pd_connection = EndpointId 4, pd_send = [], pd_recv = frame (enc (ser_proof_ready demo_ready)),
      pd_local = demo_credential bob, pd_sender = sd, pd_target = td, pd_hello = demo_hello,
      pd_max_message_bytes = cfg_max_message_bytes demo_config,
      pd_allow_insecure_loopback_relay = False, pd_deadline = from_secs 20, pd_expiry_cancel = True\<rparr>
      = demo_pending\<lparr>pd_sender := sd, pd_target := td\<rparr>" for sd td
    by (simp add: demo_pending_def)
  note steps = s1 s2 s3 s4 s5 s6 s7 s8 s9 s10
  show ?thesis
    unfolding authenticate_operation_def Let_def
    by (simp only: op_bind_def steps prod.case result.case demo_client_fields demo_config_fields
        demo_hello_fields paths [OF alice_bob_ok(1)] paths [OF alice_bob_ok(2)] pending demo_admit)
qed

lemma demo_accept_operation:
  "\<exists>sent. accept_operation demo_env demo_quic (still 40) demo_resolver (demo_pending\<lparr>pd_expiry_cancel := False\<rparr>)
     demo_ack (demo_nonce 23) \<lparr>ss_send = [], ss_recv = frame (enc (ser_proof_ready demo_ready)), ss_world = w\<rparr>
   = (Ok (), \<lparr>ss_send = sent, ss_recv = [], ss_world = w\<rparr>)"
proof -
  have ack: "write_json demo_env demo_quic ser_ack demo_ack V1_MAX_ACK_BYTES s
      = (Ok (), s @ frame (enc (ser_ack demo_ack)))" for s
    by (rule demo_write_json) (use demo_ack_length in \<open>simp_all add: V1_MAX_ACK_BYTES_def\<close>)
  have confirmed: "write_json demo_env demo_quic ser_proof_confirmed demo_confirmed MAX_PROOF_CONTROL_BYTES s
      = (Ok (), s @ frame (enc (ser_proof_confirmed demo_confirmed)))" for s
    by (rule demo_write_json) (use demo_control_lengths(2) in \<open>simp_all add: MAX_PROOF_CONTROL_BYTES_def\<close>)
  have ready: "read_json demo_env demo_quic de_proof_ready MAX_PROOF_CONTROL_BYTES
      (frame (enc (ser_proof_ready demo_ready))) = (Ok demo_ready, [])"
    using demo_read_json [of "enc (ser_proof_ready demo_ready)" MAX_PROOF_CONTROL_BYTES demo_env
        de_proof_ready demo_ready "[]"] demo_control_lengths(1)
    by (simp add: MAX_PROOF_CONTROL_BYTES_def demo_parse_enc de_ser_proof_ready)
  have fields: "pr_version demo_ready = V1_PROTOCOL_VERSION" "pr_challenge demo_ready = demo_nonce 23"
    "pr_initiator_proof_path demo_ready = demo_proof_path Initiator"
    "pr_responder_proof_path demo_ready = demo_proof_path Responder"
    by (simp_all add: demo_ready_def)
  have pd: "pd_hello (demo_pending\<lparr>pd_expiry_cancel := False\<rparr>) = demo_hello"
    "pd_sender (demo_pending\<lparr>pd_expiry_cancel := False\<rparr>) = \<lparr>rd_path = demo_path alice, rd_record = demo_record alice\<rparr>"
    "pd_target (demo_pending\<lparr>pd_expiry_cancel := False\<rparr>) = bob_device"
    "pd_allow_insecure_loopback_relay (demo_pending\<lparr>pd_expiry_cancel := False\<rparr>) = False"
    by (simp_all add: demo_pending_def)
  have control: "validate_proof_control demo_env V1_PROTOCOL_VERSION (demo_nonce 23) (demo_nonce 23)
      (demo_proof_path Initiator) (demo_proof_path Responder) demo_hello (demo_record alice) (demo_record bob) = Ok ()"
    using demo_peer_path [of Initiator] demo_peer_path [of Responder]
    by (simp add: validate_proof_control_Ok_iff demo_role_party_def)
  note fetch = demo_fetch_proof [of Initiator, unfolded demo_parties]
    and verify = demo_proof_verifies [of Initiator, unfolded demo_parties]
  show ?thesis
    by (simp add: accept_operation_def op_bind_def on_tx_def on_rx_def on_world_def op_lift_def op_protocol_def
        ack ready fields pd control fetch verify demo_hello_fields(1) bob_record demo_commit
        demo_confirmed_def [symmetric] confirmed)
qed

lemma demo_accept:
  "\<exists>peer. incoming_accept demo_env demo_quic (still 40) demo_resolver (Keypair 23) demo_incoming w
     = (Ok peer, None, w)"
proof -
  let ?pd = "demo_pending\<lparr>pd_expiry_cancel := False\<rparr>"
  obtain sent where op: "accept_operation demo_env demo_quic (still 40) demo_resolver ?pd
     demo_ack (demo_nonce 23) \<lparr>ss_send = [], ss_recv = frame (enc (ser_proof_ready demo_ready)), ss_world = w\<rparr>
   = (Ok (), \<lparr>ss_send = sent, ss_recv = [], ss_world = w\<rparr>)"
    by (rule exE [OF demo_accept_operation])
  obtain u where uuid: "nonce_uuid demo_env (demo_nonce 21) = Ok u" using demo_uuid by blast
  have pd: "pd_hello ?pd = demo_hello" "pd_sender ?pd = \<lparr>rd_path = demo_path alice, rd_record = demo_record alice\<rparr>"
    "pd_target ?pd = bob_device" "pd_allow_insecure_loopback_relay ?pd = False" "pd_deadline ?pd = from_secs 20"
    "pd_local ?pd = demo_credential bob"
    by (simp_all add: demo_pending_def)
  note sign = demo_proof_sign(1) [of Responder, unfolded demo_parties]
  have "accept_pending_session demo_env demo_quic (still 40) demo_resolver (Keypair 23) ?pd
      \<lparr>ss_send = [], ss_recv = frame (enc (ser_proof_ready demo_ready)), ss_world = w\<rparr>
      = (Ok u, \<lparr>ss_send = sent, ss_recv = [], ss_world = w\<rparr>)"
    by (simp add: accept_pending_session_def op_bind_def op_lift_def op_guard_def op_protocol_def
        checked_duration_since_def Let_def demo_nonce_def [symmetric] pd bob_record demo_hello_fields
        demo_handshake_expiry demo_ack_sign(1) sign on_world_def demo_publish op_capture_def op op_ignore_def uuid)
  then show ?thesis
    by (simp add: incoming_accept_def accept_pending_def demo_incoming_def) (simp add: demo_pending_def)
qed

section \<open>Reachability\<close>

lemma demo_reachable:
  assumes "party_ok p"
  shows "client_reachable demo_env False demo_quic demo_clock (still 40) demo_endpoint demo_resolver
    (demo_client p, 40)"
proof -
  let ?step = "client_step demo_env demo_quic demo_clock (still 40) demo_endpoint demo_resolver"
  have 1: "?step (bound_client p, 30) (demo_client p, 30)"
    by (rule client_step.register [OF demo_register [OF assms]])
  have 2: "?step (demo_client p, 30) (demo_client p, 40)" by (rule client_step.environment)
  have "?step\<^sup>*\<^sup>* (bound_client p, 30) (demo_client p, 40)"
    by (rule rtranclp.rtrancl_into_rtrancl [OF r_into_rtranclp [of ?step, OF 1] 2])
  with demo_bind [OF assms] show ?thesis unfolding client_reachable_def by blast
qed

lemma demo_admitted_reachable:
  "client_reachable demo_env False demo_quic demo_clock (still 40) demo_endpoint demo_resolver (admitted_client, 40)"
proof -
  let ?step = "client_step demo_env demo_quic demo_clock (still 40) demo_endpoint demo_resolver"
  have "?step (demo_client bob, 40) (admitted_client, 40)"
    by (rule client_step.authenticate [OF demo_authenticate])
  then show ?thesis
    using demo_reachable [OF alice_bob_ok(2)] unfolding client_reachable_def
    by (meson rtranclp.rtrancl_into_rtrancl)
qed

lemma demo_next_incoming:
  "\<exists>cw. next_incoming demo_endpoint demo_clock (admitted_client, 40) = (Ok (Some (Ok demo_incoming)), cw)"
proof -
  have live: "incoming_live 0 demo_incoming"
    by (simp add: incoming_live_def demo_incoming_def demo_pending_def from_secs_def)
  have inv: "pq_inv (cl_pending admitted_client)"
    using client_reachable_inv(1) [OF demo_admitted_reachable] by (simp add: client_inv_def)
  obtain r d q where q: "pq_next 0 (cl_pending admitted_client) = (r, d, q)" by (metis prod.exhaust)
  have "pq_view (cl_pending admitted_client) = [(replay_key demo_hello, demo_incoming)]"
    by (simp add: pq_view_def admitted_client_def)
  then have "r = Some (Ok demo_incoming)"
    using pq_next_ok [OF inv q] live by (simp add: fifo_next_def live_entries_def)
  then show ?thesis
    using q by (auto simp: next_incoming_def op_bind_def on_env_def Let_def)
qed

end
