(* ===== verification/Record_Commit.thy ===== *)
theory Record_Commit
  imports Discovery Sequence_Refinement
begin

text \<open>
  Committing remote records into a sequence store: the composition of \<open>commit_remote_record\<close>
  (\<open>crates/client/src/v1_discovery.rs\<close>) with the stores of \<open>crates/client/src/sequence.rs\<close>.
  The argument is made once for every store that meets the contract of theory Sequence\_Store.
\<close>

text \<open>
  The world of a program with a sequence store: the store, and everything beside it, which the clock
  may read and change at will and which chooses what happens to the store's I/O calls.
  \<open>SequenceStore::record_batch\<close>, as the resolver calls it, works on the store.
\<close>

definition beside_store :: "'w runtime \<Rightarrow> ('s \<times> 'w) runtime" where
  "beside_store T =
     \<lparr>rt_now_seconds = (\<lambda>(s, w). let (t, w') = rt_now_seconds T w in (t, (s, w'))),
      rt_instant = (\<lambda>(s, w). let (t, w') = rt_instant T w in (t, (s, w'))),
      rt_elapse = (\<lambda>d (s, w). map_option (Pair s) (rt_elapse T d w))\<rparr>"

definition store_batch ::
  "('x \<Rightarrow> 's \<Rightarrow> store_op \<Rightarrow> store_out cresult \<times> 's) \<Rightarrow> ('w \<Rightarrow> 'x) \<Rightarrow>
   authenticated_sequence_observation list \<Rightarrow> ('s \<times> 'w, unit) op" where
  "store_batch step choices obs = (\<lambda>(s, w).
     let (result, s') = step (choices w) s (RecordBatch obs) in (and_then result (\<lambda>_. Ok ()), (s', w)))"

lemma store_batch_Ok:
  "store_batch step choices obs (s, w) = (Ok u, (s', w')) \<longleftrightarrow>
   w' = w \<and> (\<exists>out. step (choices w) s (RecordBatch obs) = (Ok out, s'))"
  by (auto simp: store_batch_def and_then_Ok_iff split: prod.splits)

text \<open>The observation of a record names its identity and control key, its sequence and its digest.\<close>

lemma record_observation_Ok:
  assumes "record_observation E r = Ok ob"
  shows "o_identity ob = cc_identity (c_claims (r_certificate r))"
    and "o_scope ob = ''v1:locator:'' @ cc_control_signing_key (c_claims (r_certificate r))"
    and "o_counter ob = lc_sequence (l_claims (r_locator r))"
    and "record_digest E r = Ok (b64_encode E (o_digest ob))"
    and "observation_ok E ob"
proof -
  obtain encoded b where "record_digest E r = Ok encoded" "b64_encode E b = encoded" "length b = 32"
    "observation_new E (cc_identity (c_claims (r_certificate r)))
       (''v1:locator:'' @ cc_control_signing_key (c_claims (r_certificate r)))
       (lc_sequence (l_claims (r_locator r))) b = Ok ob"
    using assms by (auto simp: record_observation_def and_then_Ok_iff map_err_Ok_iff split: if_splits)
  then show "o_identity ob = cc_identity (c_claims (r_certificate r))"
    "o_scope ob = ''v1:locator:'' @ cc_control_signing_key (c_claims (r_certificate r))"
    "o_counter ob = lc_sequence (l_claims (r_locator r))"
    "record_digest E r = Ok (b64_encode E (o_digest ob))" "observation_ok E ob"
    by (auto simp: observation_new_def observation_ok_iff and_then_Ok_iff split: if_splits)
qed

lemma commit_record_steps:
  assumes "commit_record E (beside_store T) (store_batch step choices) allow d (s, w) = (Ok u, (s', w'))"
  obtains ob x out where "record_observation E (rd_record d) = Ok ob"
    "step x s (RecordBatch [ob]) = (Ok out, s')"
proof -
  obtain now s1 w1 ob where clock: "now_seconds (beside_store T) (s, w) = (Ok now, (s1, w1))"
    and ob: "record_observation E (rd_record d) = Ok ob"
    and batch: "store_batch step choices [ob] (s1, w1) = (Ok u, (s', w'))"
    using assms unfolding commit_record_def op_Ok by auto
  have "s1 = s" using clock by (auto simp: now_seconds_def beside_store_def split: prod.splits)
  then show ?thesis using batch ob that by (auto simp: store_batch_Ok)
qed

context sequence_store
begin

text \<open>
  After a committed record of a device, no older record of the device is committed, and no other
  record with the same sequence, whatever the store did in between.
\<close>

lemma commit_no_rollback:
  assumes inv: "inv s"
    and first: "commit_record E (beside_store T) (store_batch step choices) allow d (s, w) = (Ok u, (s1, w1))"
    and between: "list_all (\<lambda>(x, op). op_ok E op) ops" "run_store step s1 ops = (tr, s2)"
    and second: "commit_record E (beside_store T') (store_batch step choices') allow' d' (s2, w2) = (Ok u', (s3, w3))"
    and device: "cc_identity (c_claims (r_certificate (rd_record d'))) = cc_identity (c_claims (r_certificate (rd_record d)))"
      "cc_control_signing_key (c_claims (r_certificate (rd_record d')))
         = cc_control_signing_key (c_claims (r_certificate (rd_record d)))"
  shows "lc_sequence (l_claims (r_locator (rd_record d))) < lc_sequence (l_claims (r_locator (rd_record d'))) \<or>
    lc_sequence (l_claims (r_locator (rd_record d))) = lc_sequence (l_claims (r_locator (rd_record d'))) \<and>
    record_digest E (rd_record d) = record_digest E (rd_record d')"
proof -
  obtain ob x out where ob: "record_observation E (rd_record d) = Ok ob" and st: "step x s (RecordBatch [ob]) = (Ok out, s1)"
    by (rule commit_record_steps [OF first])
  obtain ob' x' out' where ob': "record_observation E (rd_record d') = Ok ob'"
    and st': "step x' s2 (RecordBatch [ob']) = (Ok out', s3)"
    by (rule commit_record_steps [OF second])
  note o1 = record_observation_Ok [OF ob] and o2 = record_observation_Ok [OF ob']
  have ok: "op_ok E (RecordBatch [ob])" "op_ok E (RecordBatch [ob'])" using o1(5) o2(5) by simp_all
  have trace: "run_store step s1 (ops @ [(x', RecordBatch [ob'])]) = (tr @ [(RecordBatch [ob'], Ok out')], s3)"
    using between(2) st'
  proof (induction ops arbitrary: s1 tr)
    case (Cons a ops)
    then show ?case by (cases a) (auto split: prod.splits)
  qed simp
  have "answers_follow (RecordBatch [ob], Ok out) (RecordBatch [ob'], Ok out')"
    by (rule step_answers_follow [OF inv ok(1) st, of "ops @ [(x', RecordBatch [ob'])]"])
      (use between(1) ok(2) trace in \<open>simp_all add: list_all_iff\<close>)
  then show ?thesis using o1 o2 device by (auto simp: observation_follows_def)
qed

end

end
