(* ===== verification/Client_Properties.thy ===== *)
theory Client_Properties
  imports Client_Demo Record_Commit
begin

text \<open>
  What the client guarantees: whom it talks to after dialing and after accepting, what its tables
  hold in every reachable state, that a Hello is admitted once, and how its queue, streams,
  configuration and discovery behave.
\<close>

section \<open>Dialing\<close>

text \<open>
  C2: when \<open>dial\<close> returns a peer, the peer is the requested identity and, when one was named,
  the requested device. A record of this device was verified for the identity and lies at the path
  derived from its keys. The connection was made over locally configured relays only, each with the
  origin of a relay in that record, and leads to the endpoint the record certifies. The device
  acknowledged a Hello of this client and proved, under the challenge of its Ack, that its record
  is current: the proof was fetched from the storage of that identity, verified, and the record was
  committed to the local sequence store.
\<close>

theorem dial_returns_proven_peer:
  assumes "client_dial E Q T S C N (pubky_resolver E T' A dc) random target_identity target_device_id application
      (c, w) = (Ok p, cw')"
  shows "remote_identity p = target_identity \<and>
    (\<forall>wanted. target_device_id = Some wanted \<longrightarrow> remote_device_id p = wanted) \<and>
    (\<exists>d hello sender_record ack path proof us now0 now1 now2 w1 w2 w3 w4 w5 w6.
       record_verify E (rd_record d) target_identity now0 (dc_allow_insecure_loopback_relay dc) None = Ok () \<and>
       record_path E (rd_record d) = Ok (rd_path d) \<and>
       remote_device_id p = cc_device_id (c_claims (r_certificate (rd_record d))) \<and>
       us \<noteq> [] \<and> set us = {ir_url relay | relay. relay \<in> set (cfg_trusted_relays (cl_config c)) \<and>
         (\<exists>u \<in> set (lc_relay_urls (l_claims (r_locator (rd_record d)))). \<exists>x. origin_text E u = Ok x \<and>
            origin_text E (ir_url relay) = Ok x)} \<and>
       ep_connect N (cfg_peer_handshake_timeout (cl_config c)) (ep_remote_id N (connection p)) us
         V1_IROH_ALPN_TEXT w1 = (Some (Ok (connection p)), w2) \<and>
       ep_id_from_z32 N (cc_iroh_endpoint_id (c_claims (r_certificate (rd_record d))))
         = Ok (ep_remote_id N (connection p)) \<and>
       ack_verify E ack (rd_record d) sender_record hello application now1
         (cfg_allow_insecure_loopback_relay (cl_config c)) = Ok () \<and>
       nonce_uuid E (hc_session_nonce (h_claims hello)) = Ok (session_id p) \<and>
       peer_currentness_path E Responder (ac_responder_nonce (a_claims ack)) hello (rd_record d) = Ok path \<and>
       pubky_fetch_currentness_proof E T' A dc target_identity path w3 = (Ok proof, w4) \<and>
       currentness_verify E proof (rd_record d) sender_record hello Responder
         (ac_responder_nonce (a_claims ack)) now2 (cfg_allow_insecure_loopback_relay (cl_config c)) = Ok () \<and>
       commit_record E T' (pa_record_batch A) (dc_allow_insecure_loopback_relay dc) d w5 = (Ok (), w6))"
proof -
  let ?R = "pubky_resolver E T' A dc"
  have inner: "dial_inner E Q T S N ?R random target_identity target_device_id application (c, w) = (Ok p, cw')"
    using assms unfolding client_dial_def by (auto simp: client_Ok)
  obtain d us w1 w2 where r: "resolved_ok E (dc_allow_insecure_loopback_relay dc) target_identity d"
    and dl: "dialed E N ?R c application d p" and id: "remote_identity p = target_identity"
    and dev: "\<forall>wanted. target_device_id = Some wanted \<longrightarrow> remote_device_id p = wanted"
    and us: "trusted_destination_relays E (r_locator (rd_record d)) (cl_config c) = Ok us" "us \<noteq> []"
    and conn: "ep_connect N (cfg_peer_handshake_timeout (cl_config c)) (ep_remote_id N (connection p)) us
          V1_IROH_ALPN_TEXT w1 = (Some (Ok (connection p)), w2)"
    using pubky.dial_inner_Ok [OF inner] by auto
  obtain hello sender_record ack now where h:
      "ep_id_from_z32 N (cc_iroh_endpoint_id (c_claims (r_certificate (rd_record d))))
          = Ok (ep_remote_id N (connection p))"
      "ack_verify E ack (rd_record d) sender_record hello application now
          (cfg_allow_insecure_loopback_relay (cl_config c)) = Ok ()"
      "peer_proved E ?R (cfg_allow_insecure_loopback_relay (cl_config c)) Responder
          (ac_responder_nonce (a_claims ack)) hello
          (cc_identity (c_claims (r_certificate (rd_record d)))) d sender_record"
      "nonce_uuid E (hc_session_nonce (h_claims hello)) = Ok (session_id p)"
      "remote_identity p = cc_identity (c_claims (r_certificate (rd_record d)))"
      "remote_device_id p = cc_device_id (c_claims (r_certificate (rd_record d)))"
    using dl unfolding dialed_def by blast
  have fields: "rv_fetch_currentness_proof ?R = pubky_fetch_currentness_proof E T' A dc"
    "rv_commit_remote_record ?R = commit_record E T' (pa_record_batch A) (dc_allow_insecure_loopback_relay dc)"
    by (simp_all add: pubky_resolver_def)
  from h(3) obtain path proof' now2 w3 w4 w5 w6 where
    "peer_currentness_path E Responder (ac_responder_nonce (a_claims ack)) hello (rd_record d) = Ok path"
    "pubky_fetch_currentness_proof E T' A dc target_identity path w3 = (Ok proof', w4)"
    "currentness_verify E proof' (rd_record d) sender_record hello Responder
         (ac_responder_nonce (a_claims ack)) now2 (cfg_allow_insecure_loopback_relay (cl_config c)) = Ok ()"
    "commit_record E T' (pa_record_batch A) (dc_allow_insecure_loopback_relay dc) d w5 = (Ok (), w6)"
    unfolding peer_proved_def fields using id h(5) by auto
  with r id dev us(2) trusted_destination_relays_Ok(3) [OF us(1)] conn h(1,2,4,6) show ?thesis
    unfolding resolved_ok_def by blast
qed

theorem dial_returns_proven_peer_witness:
  "\<exists>p cw. client_dial demo_env demo_quic demo_clock (still 40) (still 40) demo_endpoint demo_resolver
     (\<lambda>i. Keypair 21) (party_id bob) (Some ''phone'') ''chat'' (demo_client alice, 40) = (Ok p, cw) \<and>
   remote_identity p = party_id bob \<and> remote_device_id p = ''phone''"
proof -
  obtain p where p: "client_dial demo_env demo_quic demo_clock (still 40) (still 40) demo_endpoint demo_resolver
     (\<lambda>i. Keypair 21) (party_id bob) (Some ''phone'') ''chat'' (demo_client alice, 40)
     = (Ok p, (demo_client alice, 40))"
    by (rule exE [OF demo_dial])
  note q = dial_returns_proven_peer [OF p [unfolded demo_resolver_def]]
  have "remote_identity p = party_id bob" by (rule conjunct1 [OF q])
  moreover have "remote_device_id p = ''phone''" using conjunct1 [OF conjunct2 [OF q]] by simp
  ultimately show ?thesis using p by blast
qed

section \<open>Accepting\<close>

text \<open>
  C3: in every reachable state of a client, what \<open>next_incoming\<close> hands to the application is a
  Hello that was verified for this device and an accepted application, over a connection from the
  endpoint its sender's record certifies. When the application accepts it and gets a peer, the
  peer is that sender on that connection; it proved under a challenge drawn for this acceptance
  that its record is current, the proof was fetched from the storage of its identity, and its
  record was committed.
\<close>

theorem accept_returns_proven_peer:
  assumes "client_reachable E wasm Q T S N R (c, w)"
    and "next_incoming N T (c, w) = (Ok (Some (Ok inc)), cw')"
    and "incoming_accept E Q S' R random inc w0 = (Ok p, closed, w0')"
  shows "\<exists>pd path proof now1 now2 w1 w2 w3 w4. in_pending inc = Some pd \<and>
    hello_verify E (pd_hello pd) (rd_record (pd_sender pd)) (rd_record (pd_target pd))
      (hc_application (h_claims (pd_hello pd))) now1 (cfg_allow_insecure_loopback_relay (cl_config c)) = Ok () \<and>
    hc_application (h_claims (pd_hello pd)) \<in> set (cfg_accepted_applications (cl_config c)) \<and>
    r_certificate (rd_record (pd_target pd)) = cr_certificate (cl_credential c) \<and>
    ep_id_from_z32 N (cc_iroh_endpoint_id (c_claims (r_certificate (rd_record (pd_sender pd)))))
      = Ok (ep_remote_id N (connection p)) \<and>
    connection p = pd_connection pd \<and>
    remote_identity p = cc_identity (c_claims (r_certificate (rd_record (pd_sender pd)))) \<and>
    remote_device_id p = cc_device_id (c_claims (r_certificate (rd_record (pd_sender pd)))) \<and>
    max_message_bytes p = cfg_max_message_bytes (cl_config c) \<and>
    nonce_uuid E (hc_session_nonce (h_claims (pd_hello pd))) = Ok (session_id p) \<and>
    peer_currentness_path E Initiator (v1_random_challenge E random) (pd_hello pd) (rd_record (pd_sender pd))
      = Ok path \<and>
    rv_fetch_currentness_proof R (hc_from_identity (h_claims (pd_hello pd))) path w1 = (Ok proof, w2) \<and>
    currentness_verify E proof (rd_record (pd_sender pd)) (rd_record (pd_target pd)) (pd_hello pd) Initiator
      (v1_random_challenge E random) now2 (cfg_allow_insecure_loopback_relay (cl_config c)) = Ok () \<and>
    rv_commit_remote_record R (pd_sender pd) w3 = (Ok (), w4)"
proof -
  have inv: "client_inv E N c" using client_reachable_inv(1) [OF assms(1)] by simp
  obtain key where "authentic E N (cl_credential c) (cl_config c) key inc"
    by (rule exE [OF next_incoming_authentic [OF inv assms(2)]])
  then obtain pd now where pd: "in_pending inc = Some pd"
    and v: "hello_verify E (pd_hello pd) (rd_record (pd_sender pd)) (rd_record (pd_target pd))
          (hc_application (h_claims (pd_hello pd))) now
          (cfg_allow_insecure_loopback_relay (cl_config c)) = Ok ()"
      "hc_application (h_claims (pd_hello pd)) \<in> set (cfg_accepted_applications (cl_config c))"
      "r_certificate (rd_record (pd_target pd)) = cr_certificate (cl_credential c)"
      "ep_id_from_z32 N (cc_iroh_endpoint_id (c_claims (r_certificate (rd_record (pd_sender pd)))))
          = Ok (ep_remote_id N (pd_connection pd))"
    and cfg: "pd_allow_insecure_loopback_relay pd = cfg_allow_insecure_loopback_relay (cl_config c)"
      "pd_max_message_bytes pd = cfg_max_message_bytes (cl_config c)"
    unfolding authentic_def by blast
  have "accept_pending E Q S' R random pd w0 = (Ok p, w0')"
    using assms(3) pd by (auto simp: incoming_accept_def split: prod.splits)
  note p = accept_pending_Ok [OF this]
  from p(1) obtain path proof' now2 w1 w2 w3 w4 where
    "peer_currentness_path E Initiator (v1_random_challenge E random) (pd_hello pd) (rd_record (pd_sender pd)) = Ok path"
    "rv_fetch_currentness_proof R (hc_from_identity (h_claims (pd_hello pd))) path w1 = (Ok proof', w2)"
    "currentness_verify E proof' (rd_record (pd_sender pd)) (rd_record (pd_target pd)) (pd_hello pd) Initiator
      (v1_random_challenge E random) now2 (cfg_allow_insecure_loopback_relay (cl_config c)) = Ok ()"
    "rv_commit_remote_record R (pd_sender pd) w3 = (Ok (), w4)"
    unfolding peer_proved_def cfg by blast
  with v p(3-7) pd cfg show ?thesis by (intro exI [of _ pd]) auto
qed

theorem accept_returns_proven_peer_witness:
  "\<exists>p inc closed cw w. next_incoming demo_endpoint demo_clock (admitted_client, 40) = (Ok (Some (Ok inc)), cw) \<and>
     incoming_accept demo_env demo_quic (still 40) demo_resolver (Keypair 23) inc (40 :: u64) = (Ok p, closed, w) \<and>
     remote_identity p = party_id alice \<and> connection p = EndpointId 4"
proof -
  obtain cw where n: "next_incoming demo_endpoint demo_clock (admitted_client, 40)
      = (Ok (Some (Ok demo_incoming)), cw)" by (rule exE [OF demo_next_incoming])
  obtain p where a: "incoming_accept demo_env demo_quic (still 40) demo_resolver (Keypair 23) demo_incoming
      (40 :: u64) = (Ok p, None, 40)" by (rule exE [OF demo_accept])
  have "in_pending demo_incoming = Some demo_pending" by (simp add: demo_incoming_def)
  then have "remote_identity p = cc_identity (c_claims (r_certificate (rd_record (pd_sender demo_pending))))"
    "connection p = pd_connection demo_pending"
    using accept_returns_proven_peer [OF demo_admitted_reachable n a] by auto
  then have "remote_identity p = party_id alice" "connection p = EndpointId 4"
    by (simp_all add: demo_pending_def demo_record_fields(1))
  with n a show ?thesis by blast
qed

section \<open>Admission\<close>



section \<open>Tables\<close>

text \<open>
  C11: in every reachable state the tables of a client are within the limits of its configuration,
  and these within the fixed limits: at most 64 Hellos wait for consent and at most 4096 are
  remembered, both also bounded per identity; at most eight records are registered, each under its
  own digest; the keys of every table are distinct, and the counters of the queue are exactly the
  numbers of entries they stand for.
\<close>

theorem client_tables_bounded:
  assumes "client_reachable E wasm Q T S N R (c, w)"
  shows "length (pq_entries (cl_pending c)) \<le> cfg_incoming_queue_capacity (cl_config c) \<and>
    cfg_incoming_queue_capacity (cl_config c) \<le> 64 \<and>
    (\<forall>i. identity_pending i (pq_entries (cl_pending c)) \<le> cfg_max_pending_per_identity (cl_config c)) \<and>
    (\<forall>i. (case map_of (pq_per_identity (cl_pending c)) i of None \<Rightarrow> 0 | Some n \<Rightarrow> n)
       = identity_pending i (pq_entries (cl_pending c))) \<and>
    set (pq_order (cl_pending c)) = fst ` set (pq_entries (cl_pending c)) \<and>
    distinct (map fst (pq_entries (cl_pending c))) \<and>
    length (rc_entries (cl_replay c)) \<le> cfg_replay_cache_capacity (cl_config c) \<and>
    cfg_replay_cache_capacity (cl_config c) \<le> 4096 \<and>
    (\<forall>i. identity_entries i (rc_entries (cl_replay c))
       \<le> cfg_replay_cache_per_identity_capacity (cl_config c)) \<and>
    distinct (map fst (rc_entries (cl_replay c))) \<and>
    length (cl_active_records c) \<le> 8 \<and> distinct (map fst (cl_active_records c)) \<and>
    (\<forall>(digest, r) \<in> set (cl_active_records c). record_digest E r = Ok digest) \<and>
    (\<forall>(key, inc) \<in> set (pq_entries (cl_pending c)). authentic E N (cl_credential c) (cl_config c) key inc)"
proof -
  have inv: "client_inv E N c" and cfg: "config_validate E wasm (cl_config c) = Ok ()"
    using client_reachable_inv [OF assms] by simp_all
  have "validate_bounds (cl_config c) = Ok ()"
    using cfg unfolding config_validate_def by (simp add: and_then_Ok_iff if_Err_Ok_iff)
  then have "cfg_incoming_queue_capacity (cl_config c) \<le> 64" "cfg_replay_cache_capacity (cl_config c) \<le> 4096"
    by (simp_all add: validate_bounds_Ok_iff)
  moreover have "replay_inv (cl_replay c)" "pq_inv (cl_pending c)" "active_ok E (cl_active_records c)"
    and caps: "rc_capacity (cl_replay c) = cfg_replay_cache_capacity (cl_config c)"
      "rc_per_identity_capacity (cl_replay c) = cfg_replay_cache_per_identity_capacity (cl_config c)"
      "pq_capacity (cl_pending c) = cfg_incoming_queue_capacity (cl_config c)"
      "pq_per_identity_capacity (cl_pending c) = cfg_max_pending_per_identity (cl_config c)"
    using inv by (simp_all add: client_inv_def)
  moreover have "\<forall>(key, inc) \<in> set (pq_entries (cl_pending c)). authentic E N (cl_credential c) (cl_config c) key inc"
    using inv by (simp add: client_inv_def)
  ultimately show ?thesis
    unfolding pq_inv_def counts_ok_def replay_inv_def active_ok_def caps MAX_ACTIVE_RECORDS_def by simp
qed

theorem client_tables_bounded_witness:
  "length (pq_entries (cl_pending admitted_client)) = 1 \<and>
   length (rc_entries (cl_replay admitted_client)) \<le> cfg_replay_cache_capacity demo_config \<and>
   cfg_replay_cache_capacity demo_config \<le> 4096 \<and>
   (\<exists>key inc. pq_entries (cl_pending admitted_client) = [(key, inc)] \<and>
      authentic demo_env (demo_endpoint :: (bytes, bytes, endpoint_id, u64) endpoint_api)
        (cl_credential admitted_client) demo_config key inc)"
  using client_tables_bounded [OF demo_admitted_reachable]
  by (simp add: admitted_client_def demo_client_fields)

section \<open>Committed records\<close>

lemma length_enc_byte: "length (enc (ser_uint (b :: byte))) \<le> 3"
proof -
  have "unat b < 256" using unat_lt_2p [of b] by simp
  then have "length (enc_nat (unat b)) \<le> 2"
    by (subst enc_nat.simps, cases "unat b < 128") (simp_all add: enc_nat.simps [of "unat b div 128"])
  then show ?thesis by (simp add: ser_uint_def)
qed

lemma length_enc_bytes: "length (enc (ser_vec ser_uint (bs :: bytes))) \<le> 4 * length bs + 2"
proof -
  have "length (concat (map ((#) 1) (map enc (map ser_uint bs)))) \<le> 4 * length bs"
  proof (induction bs)
    case (Cons b bs)
    then show ?case using length_enc_byte [of b] by simp
  qed simp
  then show ?thesis by (simp add: ser_vec_def)
qed

text \<open>A directory for the file store, and the commit of the same record twice.\<close>

definition commit_dir :: store_dir where
  "commit_dir = \<lparr>entries = (\<lambda>n. None), umask = 0x12\<rparr>"

lemma commit_dir_inv: "file_inv demo_env commit_dir" "file_values demo_env commit_dir = []" "file_ready no_faults commit_dir"
  using demo_z32_text_law demo_json_text_law
  by (simp_all add: file_inv_def file_values_def file_ready_def commit_dir_def read_state_def no_faults_def is_ok_iff)

lemma demo_memory_batch:
  "\<exists>ob vs. record_observation demo_env (demo_record alice) = Ok ob \<and>
     (\<forall>s \<in> {[], vs}. memory_step demo_env () s (RecordBatch [ob]) = (Ok Done, vs))"
proof -
  obtain ob where ob: "record_observation demo_env (demo_record alice) = Ok ob"
    using demo_record_observation [OF alice_bob_ok(1)] by blast
  note o = record_observation_Ok [OF ob]
  have fields: "o_identity ob = party_id alice" "o_scope ob = ''v1:locator:'' @ demo_z32 (PublicKey 3)"
    "o_counter ob = 1" "length (o_digest ob) = 32"
    using o(1-3,5) demo_record_fields(1,3) [OF alice_bob_ok(1)] demo_locator_facts(3) [OF alice_bob_ok(1)]
    by (simp_all add: observation_ok_iff demo_record_def del: demo_z32.simps)
  let ?k = "party_id alice @ '':'' @ o_scope ob"
  let ?v = "Authenticated 1 (o_digest ob)"
  have key: "state_key demo_env (o_identity ob) (o_scope ob) = Ok ?k"
    and scope: "\<not> starts_with PUBLISHER_SCOPE_PREFIX (o_scope ob)"
    using o(5) fields(1) by (auto simp: observation_ok_iff state_key_Ok_iff)
  have prep: "prepare_batch demo_env [ob] = Ok [(?k, (1, o_digest ob))]"
    using key scope by (simp add: prepare_batch_def fields(3))
  have "length (enc (ser_state [(?k, ?v)])) \<le> 1000"
    using length_enc_bytes [of "o_digest ob"] fields(4)
    by (simp add: ser_state_def ser_stored_def fields(2) del: demo_z32.simps)
  then have bounds: "validate_state_bounds demo_env [(?k, ?v)] = Ok ()"
    by (simp add: validate_state_bounds_def MAX_STATE_ENTRIES_def MAX_STATE_BYTES_def)
  have step: "memory_step demo_env () s (RecordBatch [ob]) = (Ok Done, [(?k, ?v)])"
    if "s = [] \<or> s = [(?k, ?v)]" for s
    using that bounds
    by (auto simp: memory_step_def store_update_def update_memory_def prep record_authenticated_value_def
        MAX_STATE_ENTRIES_def)
  show ?thesis
    by (intro exI [of _ ob] exI [of _ "[(?k, ?v)]"]) (use ob step in auto)
qed

lemma demo_commit_file:
  "\<exists>s1 s2. commit_record demo_env (beside_store (still 40)) (store_batch (file_step demo_env) (\<lambda>w. no_faults)) False
       \<lparr>rd_path = demo_path alice, rd_record = demo_record alice\<rparr> (commit_dir, w) = (Ok (), (s1, w)) \<and>
     commit_record demo_env (beside_store (still 40)) (store_batch (file_step demo_env) (\<lambda>w. no_faults)) False
       \<lparr>rd_path = demo_path alice, rd_record = demo_record alice\<rparr> (s1, w) = (Ok (), (s2, w))"
proof -
  obtain ob vs where ob: "record_observation demo_env (demo_record alice) = Ok ob"
    and mem: "memory_step demo_env () [] (RecordBatch [ob]) = (Ok Done, vs)"
      "memory_step demo_env () vs (RecordBatch [ob]) = (Ok Done, vs)"
    using demo_memory_batch by blast
  have ok: "op_ok demo_env (RecordBatch [ob])" using record_observation_Ok(5) [OF ob] by simp
  have io: "no_faults = no_faults\<lparr>io_uuid := io_uuid no_faults\<rparr>" by simp
  obtain r1 s1 where 1: "file_step demo_env no_faults commit_dir (RecordBatch [ob]) = (r1, s1)" by fastforce
  obtain r2 s2 where 2: "file_step demo_env no_faults s1 (RecordBatch [ob]) = (r2, s2)" by fastforce
  have r1: "r1 = Ok Done" "file_values demo_env s1 = vs"
    using file_step_memory [OF commit_dir_inv(1) ok commit_dir_inv(3) io 1] mem(1) commit_dir_inv(2) by simp_all
  have "r2 = Ok Done"
    using file_step_memory [OF file_store.step_inv [OF commit_dir_inv(1) ok 1] ok
        file_step_ready [OF commit_dir_inv(1,3) io 1] io 2] mem(2) r1(2) by simp
  then show ?thesis
    using ob 1 2 r1(1) demo_record_at [OF alice_bob_ok(1), of 40]
    by (auto simp: commit_record_def op_bind_def op_protocol_def op_lift_def op_guard_def demo_record_path
        demo_record_fields(1) store_batch_def now_seconds_def beside_store_def still_def simp del: demo_z32.simps)
qed

text \<open>
  C15: committing records of peers into the file store never rolls back. When a record of a device
  was committed, a record of the same identity and control key that is committed later has a greater
  sequence, or the same sequence and the same digest, whatever operations the store ran in between,
  whatever the clock answers and changes, and whatever I/O calls fail in any operation, the commits
  included, as long as the state file is readable at the start.
\<close>

theorem committed_records_no_rollback:
  assumes "z32_text_law E" "json_text_law E" "and (umask s) 0x180 = 0" "is_ok (read_state E no_faults s)"
    and "commit_record E (beside_store T) (store_batch (file_step E) choices) allow d (s, w) = (Ok (), (s1, w1))"
    and "list_all (\<lambda>(io, op). op_ok E op) ops" "run_store (file_step E) s1 ops = (tr, s2)"
    and "commit_record E (beside_store T') (store_batch (file_step E) choices') allow' d' (s2, w2) = (Ok (), (s3, w3))"
    and "cc_identity (c_claims (r_certificate (rd_record d'))) = cc_identity (c_claims (r_certificate (rd_record d)))"
    and "cc_control_signing_key (c_claims (r_certificate (rd_record d')))
      = cc_control_signing_key (c_claims (r_certificate (rd_record d)))"
  shows "lc_sequence (l_claims (r_locator (rd_record d))) < lc_sequence (l_claims (r_locator (rd_record d'))) \<or>
    lc_sequence (l_claims (r_locator (rd_record d))) = lc_sequence (l_claims (r_locator (rd_record d'))) \<and>
    record_digest E (rd_record d) = record_digest E (rd_record d')"
proof -
  have "file_inv E s" using assms(1-4) by (simp add: file_inv_def)
  from file_store.commit_no_rollback [OF this assms(5-10)] show ?thesis .
qed

theorem committed_records_no_rollback_witness:
  "\<exists>s1. commit_record demo_env (beside_store (still 40)) (store_batch (file_step demo_env) (\<lambda>w. no_faults)) False
      \<lparr>rd_path = demo_path alice, rd_record = demo_record alice\<rparr> (commit_dir, ()) = (Ok (), (s1, ())) \<and>
    \<not> lc_sequence (l_claims (r_locator (demo_record alice))) < lc_sequence (l_claims (r_locator (demo_record alice))) \<and>
    record_digest demo_env (demo_record alice) = record_digest demo_env (demo_record alice)"
proof -
  let ?d = "\<lparr>rd_path = demo_path alice, rd_record = demo_record alice\<rparr>"
  let ?commit = "commit_record demo_env (beside_store (still 40)) (store_batch (file_step demo_env) (\<lambda>w. no_faults)) False ?d"
  obtain s1 s2 where commits: "?commit (commit_dir, ()) = (Ok (), (s1, ()))" "?commit (s1, ()) = (Ok (), (s2, ()))"
    using demo_commit_file [of "()"] by (elim exE conjE)
  have run: "run_store (file_step demo_env) s1 [] = ([], s1)" by simp
  have readable: "and (umask commit_dir) 0x180 = 0" "is_ok (read_state demo_env no_faults commit_dir)"
    using commit_dir_inv(1) unfolding file_inv_def by blast+
  from committed_records_no_rollback [OF demo_z32_text_law demo_json_text_law readable commits(1) _ run commits(2)
      refl refl] commits(1)
  show ?thesis by simp
qed

section \<open>The consent queue\<close>

text \<open>
  C19: the queue refines a bounded first-in first-out list: its state abstracts to the waiting
  entries in their order of arrival, and insertion and removal give the answer, and lead to the
  list, of the specification. Entries whose deadline passed are gone first; an entry is refused
  when the queue is closed or full, when its key is already waiting, or when its identity has
  reached its share. Expiry takes the entry of its key out of the list, closing empties the list.
\<close>

theorem pending_queue_refines_fifo:
  assumes "pq_inv q"
  shows "(case pq_insert key inc now q of (r, dropped, q') \<Rightarrow>
      pq_inv q' \<and> fifo_insert (pq_capacity q) (pq_per_identity_capacity q) key inc now (pq_closed q) (pq_view q)
        = (r, pq_view q')) \<and>
    (case pq_next now q of (r, dropped, q') \<Rightarrow>
      pq_inv q' \<and> fifo_next now (pq_closed q) (pq_view q) = (r, pq_view q')) \<and>
    (case pq_expire key q of (dropped, q') \<Rightarrow>
      pq_inv q' \<and> pq_view q' = filter (\<lambda>(k, _). k \<noteq> key) (pq_view q)) \<and>
    (case pq_close q of (dropped, q') \<Rightarrow> pq_inv q' \<and> pq_closed q' \<and> pq_view q' = [])"
proof -
  obtain r d q1 where 1: "pq_insert key inc now q = (r, d, q1)" by (metis prod.exhaust)
  obtain a d' q2 where 2: "pq_next now q = (a, d', q2)" by (metis prod.exhaust)
  obtain d3 q3 where 3: "pq_expire key q = (d3, q3)" by fastforce
  obtain d4 q4 where 4: "pq_close q = (d4, q4)" by fastforce
  show ?thesis
    using pq_insert_ok [OF assms 1] pq_next_ok [OF assms 2] pq_expire_ok [OF assms 3] pq_close_ok [OF assms 4]
    by (simp add: 1 2 3 4)
qed

theorem pending_queue_refines_fifo_witness:
  "fifo_next 0 False (pq_view (cl_pending admitted_client)) = (Some (Ok demo_incoming), []) \<and>
   (case pq_next 0 (cl_pending admitted_client) of (r, dropped, q') \<Rightarrow> r = Some (Ok demo_incoming))"
proof -
  have inv: "pq_inv (cl_pending admitted_client)"
    using client_reachable_inv(1) [OF demo_admitted_reachable] by (simp add: client_inv_def)
  have live: "incoming_live 0 demo_incoming"
    by (simp add: incoming_live_def demo_incoming_def demo_pending_def from_secs_def)
  have "pq_view (cl_pending admitted_client) = [(replay_key demo_hello, demo_incoming)]"
    "pq_closed (cl_pending admitted_client) = False"
    by (simp_all add: pq_view_def admitted_client_def pq_new_def)
  then show ?thesis
    using pending_queue_refines_fifo [OF inv, of _ _ 0] live
    by (auto simp: fifo_next_def live_entries_def)
qed

text \<open>
  C35: nothing is lost. In any sequence of calls on a new queue, every offered entry is handed to
  the application, dropped (which closes its connection), or still waiting, exactly once.
\<close>

theorem pending_queue_accounts:
  "case pending.calls cs (pq_new capacity per_identity :: ('s, 'r, 'c) pending_queue) of (handed, dropped, q) \<Rightarrow>
     mset (pending.offered cs) = mset handed + mset dropped + waiting q"
proof -
  obtain h d q where c: "pending.calls cs (pq_new capacity per_identity :: ('s, 'r, 'c) pending_queue) = (h, d, q)"
    by (metis prod.exhaust)
  have "waiting (pq_new capacity per_identity :: ('s, 'r, 'c) pending_queue) = {#}"
    by (simp add: waiting_def pq_new_def)
  then show ?thesis using pending.calls_account [OF pq_new_inv c] by (simp add: c)
qed

fun next_answers ::
  "instant list \<Rightarrow> ('s, 'r, 'c) pending_queue \<Rightarrow> ('s, 'r, 'c) incoming_v1 cresult option list" where
  "next_answers [] q = []"
| "next_answers (now # ts) q = (case pq_next now q of (answer, dropped, q') \<Rightarrow> answer # next_answers ts q')"

text \<open>
  C39: every waiting entry is handed out, in the order of arrival: as long as no deadline passes,
  \<open>n\<close> calls of \<open>next\<close> answer with the \<open>n\<close> oldest entries, none of them waits.
\<close>

theorem queue_drains_in_order:
  assumes "pq_inv q" "length ts \<le> length (pq_order q)"
    and "\<forall>now \<in> set ts. \<forall>(key, inc) \<in> set (pq_view q). incoming_live now inc"
  shows "next_answers ts q = map (\<lambda>(key, inc). Some (Ok inc)) (take (length ts) (pq_view q))"
  using assms
proof (induction ts arbitrary: q)
  case (Cons now ts)
  obtain a d q' where n: "pq_next now q = (a, d, q')" by (metis prod.exhaust)
  have live: "live_entries now (pq_view q) = pq_view q"
    using Cons.prems(3) by (auto simp: live_entries_def intro!: filter_True)
  obtain x xs where v: "pq_view q = x # xs" using Cons.prems(2) by (cases "pq_view q") (auto simp: pq_view_def)
  have "fifo_next now (pq_closed q) (pq_view q) = (a, pq_view q')" and inv: "pq_inv q'"
    using pq_next_ok [OF Cons.prems(1) n] by auto
  then have a: "a = Some (Ok (snd x))" and rest: "pq_view q' = xs"
    unfolding fifo_next_def live by (auto simp: v split: prod.splits)
  have "length (pq_order q') = length xs" using rest by (metis length_map pq_view_fst)
  moreover have "length (pq_order q) = Suc (length xs)" using v by (metis length_Cons length_map pq_view_fst)
  ultimately have "next_answers ts q' = map (\<lambda>(key, inc). Some (Ok inc)) (take (length ts) (pq_view q'))"
    using Cons.prems by (intro Cons.IH [OF inv]) (auto simp: v rest)
  then show ?case by (simp add: n a v rest split: prod.splits)
qed simp

theorem queue_drains_in_order_witness:
  "next_answers [5] (cl_pending admitted_client) = [Some (Ok demo_incoming)]"
proof -
  have inv: "pq_inv (cl_pending admitted_client)"
    using client_reachable_inv(1) [OF demo_admitted_reachable] by (simp add: client_inv_def)
  have v: "pq_view (cl_pending admitted_client) = [(replay_key demo_hello, demo_incoming)]"
    "length (pq_order (cl_pending admitted_client)) = 1"
    by (simp_all add: pq_view_def admitted_client_def)
  have "incoming_live 5 demo_incoming"
    by (simp add: incoming_live_def demo_incoming_def demo_pending_def from_secs_def)
  then show ?thesis
    using queue_drains_in_order [OF inv, of "[5]"] by (simp add: v del: next_answers.simps)
qed

section \<open>Peers\<close>

text \<open>
  C26: messages arrive as they were sent. When a peer has sent a list of messages, and the other
  side's stream delivers the bytes that were written for them, then as many calls of \<open>recv\<close>
  return the same messages in the same order, and consume exactly these bytes, provided the
  receiver's limit is not below the sender's.
\<close>

theorem peer_messages_delivered:
  assumes "send_stream_law Q sent" "recv_stream_law Q' avail"
    and "send p = Some s" "send_all Q ms p = (Ok u, p')" "send p' = Some s'"
    and "sent s' = sent s @ written" "avail (recv r) = written @ rest"
    and "max_message_bytes p \<le> max_message_bytes r"
  shows "\<exists>r'. recv_all Q' (length ms) r = (Ok ms, r\<lparr>recv := r'\<rparr>) \<and> avail r' = rest"
proof -
  obtain t where t: "p' = p\<lparr>send := Some t\<rparr>" "sent t = sent s @ concat (map frame ms)"
    "list_all (\<lambda>m. length m \<le> max_message_bytes p \<and> length m < 2 ^ 32) ms"
    using send_all_Ok [OF assms(1,4,3)] by blast
  have "t = s'" using t(1) assms(5) by simp
  then have "written = concat (map frame ms)" using t(2) assms(6) by simp
  moreover have "list_all (\<lambda>m. length m \<le> max_message_bytes r \<and> length m < 2 ^ 32) ms"
    using t(3) assms(8) by (auto simp: list_all_iff)
  ultimately show ?thesis using recv_all_frames [OF assms(2), of r ms rest] assms(7) by simp
qed

theorem peer_messages_delivered_witness:
  "\<exists>r'. recv_all demo_quic 2 (peer_new (EndpointId 1) [] (frame [1, 2] @ frame []) [] [] [] 16)
     = (Ok [[1, 2], []], (peer_new (EndpointId 1) [] (frame [1, 2] @ frame []) [] [] [] 16)\<lparr>recv := r'\<rparr>)"
proof -
  let ?p = "peer_new (EndpointId 1) [] [] [] [] [] 16"
  let ?r = "peer_new (EndpointId 1) [] (frame [1, 2] @ frame []) [] [] [] 16 :: (bytes, bytes, endpoint_id) peer"
  have s: "send_all demo_quic [[1, 2], []] ?p = (Ok (), ?p\<lparr>send := Some (frame [1, 2] @ frame [])\<rparr>)"
    by (simp add: peer_send_def on_send_def write_bytes_def demo_write_frame op_bind_def op_return_def peer_new_def)
  have "max_message_bytes ?p \<le> max_message_bytes ?r" by (simp add: peer_new_def)
  from peer_messages_delivered [OF demo_send_law demo_recv_law _ s _ _ _ this, of "[]" _ "frame [1, 2] @ frame []" "[]"]
  show ?thesis by (simp add: peer_new_def numeral_2_eq_2)
qed

text \<open>
  The methods \<open>finish\<close> and \<open>close\<close> end the sending side for good: whatever is called on the peer
  afterwards, sending, flushing and finishing answer \<open>ChannelClosed\<close> and do nothing, and the
  session, the identity and the device of the peer stay the same.
\<close>

theorem peer_finished_stays_closed:
  assumes "p' = snd (peer_finish Q timeout p) \<or> p' = snd (peer_close Q p)" and "(peer_step Q)\<^sup>*\<^sup>* p' p''"
  shows "peer_flush Q t p'' = (Err ChannelClosed, p'') \<and> peer_finish Q t p'' = (Err ChannelClosed, p'') \<and>
    (length data \<le> max_message_bytes p \<longrightarrow> peer_send Q data p'' = (Err ChannelClosed, p'')) \<and>
    session_id p'' = session_id p \<and> remote_identity p'' = remote_identity p \<and>
    remote_device_id p'' = remote_device_id p"
proof -
  have "send p' = None"
    using assms(1) by (auto simp: peer_finish_def peer_close_def split: option.splits prod.splits)
  then have none: "send p'' = None" by (rule peer_steps_closed [OF assms(2)])
  have "peer_step Q p p'" using assms(1) by (auto intro: peer_step.intros)
  then have "(peer_step Q)\<^sup>*\<^sup>* p p''" using assms(2) by (rule converse_rtranclp_into_rtranclp)
  note names = peer_steps_names [OF this]
  show ?thesis
    using none names send_closed [OF none] by (simp add: peer_flush_def peer_finish_def on_send_def)
qed

theorem peer_finished_stays_closed_witness:
  "peer_send demo_quic [7] (snd (peer_recv demo_quic
     (snd (peer_finish demo_quic 1 (peer_new (EndpointId 1) [] [] [] [] [] 16)))))
   = (Err ChannelClosed, snd (peer_recv demo_quic
     (snd (peer_finish demo_quic 1 (peer_new (EndpointId 1) [] [] [] [] [] 16)))))"
proof -
  let ?p = "peer_new (EndpointId 1) [] [] [] [] [] 16 :: (bytes, bytes, endpoint_id) peer"
  let ?f = "snd (peer_finish demo_quic 1 ?p)"
  have steps: "(peer_step demo_quic)\<^sup>*\<^sup>* ?f (snd (peer_recv demo_quic ?f))"
    by (rule r_into_rtranclp, rule step_recv)
  have "length [7 :: byte] \<le> max_message_bytes ?p" by (simp add: peer_new_def)
  then show ?thesis using peer_finished_stays_closed [OF disjI1 [OF refl] steps] by blast
qed

section \<open>Configuration\<close>

text \<open>
  C33: the native check accepts exactly the configurations with a matching privacy acknowledgement,
  one to four secure relays with distinct origins and bounded tokens, at most sixteen bounded CA
  certificates, UDP addresses according to the path policy, positive bounded timeouts, a message
  limit that fits the 32-bit length of a frame, queue and replay limits in their ranges, and one to
  sixteen distinct valid applications.
\<close>

theorem config_validate_exact:
  "config_validate E False c = Ok () \<longleftrightarrow>
     (cfg_path_policy c = DirectWithRelayFallback \<longleftrightarrow> cfg_disclosure c = AcknowledgePreConsentNetworkExposure) \<and>
     1 \<le> length (cfg_trusted_relays c) \<and> length (cfg_trusted_relays c) \<le> 4 \<and>
     fresh_origins E [] (cfg_trusted_relays c) \<and>
     (\<forall>relay \<in> set (cfg_trusted_relays c).
        validate_trusted_relay_url E False (ir_url relay) (cfg_allow_insecure_loopback_relay c) = Ok () \<and>
        (\<forall>token. ir_auth_token relay = Some token \<longrightarrow> 1 \<le> length token \<and> length token \<le> 4096)) \<and>
     length (cfg_relay_ca_certificates c) \<le> 16 \<and>
     (\<forall>certificate \<in> set (cfg_relay_ca_certificates c). 1 \<le> length certificate \<and> length certificate \<le> 65536) \<and>
     (case cfg_path_policy c of
        RelayOnly \<Rightarrow> cfg_udp_bind_addresses c = []
      | DirectWithRelayFallback \<Rightarrow> 1 \<le> length (cfg_udp_bind_addresses c) \<and>
          length (cfg_udp_bind_addresses c) \<le> 2 \<and> distinct (map socket_is_ipv4 (cfg_udp_bind_addresses c))) \<and>
     0 < cfg_endpoint_online_timeout c \<and> cfg_endpoint_online_timeout c \<le> from_secs 300 \<and>
     0 < cfg_pre_hello_timeout c \<and> cfg_pre_hello_timeout c \<le> from_secs 10 \<and>
     0 < cfg_negotiation_timeout c \<and> cfg_negotiation_timeout c \<le> from_secs 300 \<and>
     0 < cfg_peer_handshake_timeout c \<and> cfg_peer_handshake_timeout c \<le> from_secs 300 \<and>
     0 < cfg_max_message_bytes c \<and> cfg_max_message_bytes c < 2 ^ 32 \<and>
     1 \<le> cfg_max_unauthenticated_handshakes c \<and> cfg_max_unauthenticated_handshakes c \<le> 64 \<and>
     1 \<le> cfg_max_pending_per_identity c \<and>
     cfg_max_pending_per_identity c \<le> cfg_incoming_queue_capacity c \<and>
     cfg_incoming_queue_capacity c \<le> 64 \<and>
     1 \<le> cfg_replay_cache_per_identity_capacity c \<and>
     cfg_replay_cache_per_identity_capacity c \<le> cfg_replay_cache_capacity c \<and>
     cfg_replay_cache_capacity c \<le> 4096 \<and>
     1 \<le> length (cfg_accepted_applications c) \<and> length (cfg_accepted_applications c) \<le> 16 \<and>
     distinct (cfg_accepted_applications c) \<and>
     (\<forall>application \<in> set (cfg_accepted_applications c). validate_application application = Ok ())"
proof -
  have policy: "(cfg_path_policy c, cfg_disclosure c) \<in>
      {(DirectWithRelayFallback, AcknowledgePreConsentNetworkExposure),
       (RelayOnly, AcknowledgePreConsentRelayMetadataExposure)} \<longleftrightarrow>
      (cfg_path_policy c = DirectWithRelayFallback \<longleftrightarrow> cfg_disclosure c = AcknowledgePreConsentNetworkExposure)"
    by (cases "cfg_path_policy c"; cases "cfg_disclosure c") simp_all
  have token: "auth_token_ok t \<longleftrightarrow> (\<forall>token. t = Some token \<longrightarrow> 1 \<le> length token \<and> length token \<le> 4096)" for t
    by (cases t) (auto simp: auth_token_ok_def MAX_AUTH_TOKEN_BYTES_def Suc_le_eq)
  have ca: "(certificate = [] \<or> length certificate > MAX_CA_CERTIFICATE_BYTES) \<longleftrightarrow>
      \<not> (1 \<le> length certificate \<and> length certificate \<le> 65536)" for certificate :: bytes
    by (auto simp: MAX_CA_CERTIFICATE_BYTES_def Suc_le_eq)
  have cas: "list_ex (\<lambda>certificate. certificate = [] \<or> length certificate > MAX_CA_CERTIFICATE_BYTES) cs \<longleftrightarrow>
      \<not> (\<forall>certificate \<in> set cs. 1 \<le> length certificate \<and> length certificate \<le> 65536)" for cs :: "bytes list"
    unfolding ca list_ex_iff by simp
  have udp: "validate_udp c = Ok () \<longleftrightarrow> (case cfg_path_policy c of
        RelayOnly \<Rightarrow> cfg_udp_bind_addresses c = []
      | DirectWithRelayFallback \<Rightarrow> 1 \<le> length (cfg_udp_bind_addresses c) \<and>
          length (cfg_udp_bind_addresses c) \<le> 2 \<and> distinct (map socket_is_ipv4 (cfg_udp_bind_addresses c)))"
    unfolding validate_udp_Ok_iff by (cases "cfg_path_policy c") (auto simp: Suc_le_eq)
  have ex_unit: "(\<exists>x. r = Ok x \<and> P) \<longleftrightarrow> r = Ok () \<and> P" for r :: "unit cresult" and P by auto
  have empty: "xs = [] \<longleftrightarrow> \<not> 1 \<le> length xs" for xs :: "'a list" by (cases xs) simp_all
  have no_seen: "A \<inter> set [] = {}" for A :: "'a set" by simp
  show ?thesis
    unfolding config_validate_def and_then_Ok_iff if_Err_Ok_iff ex_unit
    unfolding cas policy token udp validate_trusted_relays_loop_Ok_iff validate_bounds_Ok_iff
      validate_applications_loop_Ok_iff MAX_TRUSTED_RELAYS_def MAX_CA_CERTIFICATES_def MAX_APPLICATIONS_def
    unfolding empty if_False simp_thms no_seen de_Morgan_disj not_not not_less conj_assoc ball_conj_distrib
    by (rule iffI; elim conjE; intro conjI; assumption)
qed

theorem config_validate_exact_witness:
  "fresh_origins demo_env [] (cfg_trusted_relays demo_config) \<and>
   1 \<le> cfg_replay_cache_per_identity_capacity demo_config"
  using config_validate_exact [of demo_env demo_config, THEN iffD1, OF demo_config_valid] by simp

text \<open>
  C38: the check of configured relays and the check of published relays agree: the relays of an
  accepted native configuration pass the protocol's check of a locator, under the same development
  flag, exactly when every URL is within the protocol's limit of 2048 bytes.
\<close>

theorem configured_relays_publishable:
  assumes "config_validate E False c = Ok ()"
  shows "validate_relays E (map ir_url (cfg_trusted_relays c)) (cfg_allow_insecure_loopback_relay c) = Ok () \<longleftrightarrow>
    list_all (\<lambda>relay. length (url_as_str (ir_url relay)) \<le> 2048) (cfg_trusted_relays c)"
proof -
  have "validate_trusted_relays_loop E False (cfg_allow_insecure_loopback_relay c) [] (cfg_trusted_relays c) = Ok ()"
    and len: "cfg_trusted_relays c \<noteq> []" "length (cfg_trusted_relays c) \<le> 4"
    using assms unfolding config_validate_def and_then_Ok_iff if_Err_Ok_iff MAX_TRUSTED_RELAYS_def by auto
  then have urls: "\<forall>relay \<in> set (cfg_trusted_relays c).
      validate_trusted_relay_url E False (ir_url relay) (cfg_allow_insecure_loopback_relay c) = Ok ()"
    and dist: "distinct (map ir_url (cfg_trusted_relays c))"
    unfolding validate_trusted_relays_loop_Ok_iff using configured_relays_distinct by blast+
  have "validate_relay_url E (ir_url relay) (cfg_allow_insecure_loopback_relay c) = Ok () \<longleftrightarrow>
      length (url_as_str (ir_url relay)) \<le> 2048" if "relay \<in> set (cfg_trusted_relays c)" for relay
    unfolding native_relay_check [symmetric] using urls that by (simp add: MAX_RELAY_URL_BYTES_def)
  then show ?thesis using len dist by (simp add: validate_relays_Ok_iff list_all_iff)
qed

theorem configured_relays_publishable_witness:
  "validate_relays demo_env (map ir_url (cfg_trusted_relays demo_config)) False = Ok ()"
  using configured_relays_publishable [OF demo_config_valid]
  by (simp add: demo_config_fields) (simp add: demo_config_def demo_relays_def relay_config_new_def)

section \<open>Discovery\<close>

text \<open>
  C32: what resolving an identity returns is bounded and authentic: at most eight devices, at
  different paths and in the order of device identifier and control key, each with a record that
  verified for the identity and lies at the path derived from its keys, and together within the
  configured total, which is at most eight times the limit of a record.
\<close>

theorem resolve_bounded:
  assumes "pubky_resolve_devices E T A config identity w = (Ok ds, w')"
  shows "length ds \<le> 8 \<and> distinct (map rd_path ds) \<and> sorted (map device_order ds) \<and>
    list_all (\<lambda>d. record_path E (rd_record d) = Ok (rd_path d) \<and>
      (\<exists>now. record_verify E (rd_record d) identity now (dc_allow_insecure_loopback_relay config) None = Ok ())) ds \<and>
    sum_list (map (\<lambda>d. case json_to_vec E (ser_record E (rd_record d)) of None \<Rightarrow> 0 | Some b \<Rightarrow> length b) ds)
      \<le> dc_total_record_max_bytes config \<and>
    dc_total_record_max_bytes config \<le> 8 * V1_MAX_DEVICE_RECORD_BYTES"
proof -
  have v: "discovery_config_validate config = Ok ()" and "\<exists>v. resolve_inner E T A config identity v = (Ok ds, w')"
    using assms by (auto simp: pubky_resolve_devices_def op_Ok)
  then obtain v where r: "resolve_inner E T A config identity v = (Ok ds, w')" by blast
  have "dc_total_record_max_bytes config \<le> 8 * V1_MAX_DEVICE_RECORD_BYTES"
    using v by (simp add: discovery_config_validate_def ABSOLUTE_MAX_TOTAL_BYTES_def split: if_splits)
  then show ?thesis
    using resolve_inner_Ok [OF r] by (simp add: V1_MAX_DEVICES_def encoded_bytes_def resolved_ok_def [abs_def] conj_commute)
qed

theorem resolve_bounded_witness:
  "pubky_resolve_devices demo_env (still 40) demo_pubky discovery_config_default (party_id bob) ()
     = (Ok [bob_device], ()) \<and> length [bob_device] \<le> 8"
proof -
  have r: "pubky_resolve_devices demo_env (still 40) demo_pubky discovery_config_default (party_id bob) ()
     = (Ok [bob_device], ())"
    using demo_resolve [of "()"] by (simp add: demo_resolver_def pubky_resolver_def)
  then show ?thesis using resolve_bounded [OF r] by blast
qed

text \<open>
  What the protocol publishes can be fetched: the path of a device record and the path of a
  currentness proof pass the resolver's checks of a path, and under a canonical identity they have
  the expected address.
\<close>

theorem published_paths_fetchable:
  assumes "b64_law E" "b64_alphabet_law E" "sha256_law E" "canonical_identity E identity = Ok identity"
    and "record_path E r = Ok path" "currentness_path E proof = Ok proof_path"
  shows "validate_device_path E path = Ok () \<and> addressed E identity path = Ok (''pubky://'' @ identity @ path) \<and>
    validate_currentness_path E proof_path = Ok () \<and>
    addressed E identity proof_path = Ok (''pubky://'' @ identity @ proof_path)"
  using record_path_addressed [OF assms(1-3,5,4)]
    currentness_path_addressed [OF assms(1-3) assms(6) [unfolded currentness_path_def] assms(4)]
  by simp

theorem published_paths_fetchable_witness:
  "addressed demo_env (party_id bob) (demo_path bob) = Ok (''pubky://'' @ party_id bob @ demo_path bob) \<and>
   validate_currentness_path demo_env (demo_proof_path Responder) = Ok ()"
  using published_paths_fetchable [OF demo_b64_law demo_b64_alphabet_law demo_sha256_law demo_identity
      demo_record_path [OF alice_bob_ok(2)] demo_currentness_path(2)] by blast

end
