(* ===== verification/Accept_Loop.thy ===== *)
theory Accept_Loop
  imports Client_Machine
begin

text \<open>
  The accept task that \<open>bind\<close> spawns (\<open>crates/client/src/v1_peer.rs\<close>): the loop over inbound
  connections, the semaphore of unauthenticated handshakes, the task of every handshake up to the
  consent queue, and \<open>AbortTask\<close>. The state holds, beside the client, who owns a permit of the
  semaphore; a permit is free when nobody owns it.
\<close>

section \<open>Handshake tasks\<close>

text \<open>
  A connection attempt is awaited, then its first stream and Hello, then the Hello is
  authenticated. \<open>attempt\<close> is iroh's \<open>Incoming\<close>.
\<close>

type_synonym ('c, 'w) attempt = "'w \<Rightarrow> ('c, string) result \<times> 'w"

datatype ('s, 'r, 'c, 'w) handshake_stage =
  Connecting "('c, 'w) attempt"
| ReceivingHello 'c
| Authenticating 'c 's 'r v1_signed_hello

record ('s, 'r, 'c, 'w) handshake_task =
  ht_stage :: "('s, 'r, 'c, 'w) handshake_stage"
  ht_deadline :: instant

text \<open>
  \<open>handle_incoming_v1\<close> from one await to the next: the following stage, or \<open>None\<close> at its end.
\<close>

fun handshake_round ::
  "env \<Rightarrow> ('s, 'r, 'c) quic \<Rightarrow> 'w runtime \<Rightarrow> (('s, 'r, 'c) v1_client \<times> 'w) runtime \<Rightarrow>
   ('s, 'r, 'c, 'w) endpoint_api \<Rightarrow> instant \<Rightarrow> ('s, 'r, 'c, 'w) handshake_stage \<Rightarrow>
   ('s, 'r, 'c, 'w, ('s, 'r, 'c, 'w) handshake_stage option) client_op" where
  "handshake_round E Q T C N deadline (Connecting incoming) =
     op_bind (on_env (timeout_at T deadline ''pre-authenticating inbound v1 QUIC'' (iroh_op incoming)))
       (\<lambda>conn. op_return (Some (ReceivingHello conn)))"
| "handshake_round E Q T C N deadline (ReceivingHello conn) =
     close_on_error N conn ''invalid v1 handshake''
       (op_bind (on_env (receive_initial_hello E Q T N conn deadline)) (\<lambda>(tx, rx, hello).
        op_return (Some (Authenticating conn tx rx hello))))"
| "handshake_round E Q T C N deadline (Authenticating conn tx rx hello) =
     close_on_error N conn ''invalid v1 handshake''
       (op_bind get_client (\<lambda>self.
        op_bind (op_timeout C (cfg_peer_handshake_timeout (cl_config self))
          ''authenticating signed inbound v1 Hello'' (authenticate_operation E T N conn tx rx hello)) (\<lambda>_.
        op_return None)))"

section \<open>The accept task\<close>

text \<open>
  The accept task is suspended at \<open>accept().await\<close>, or an executor polls it; while it is polled, an
  abort through its \<open>JoinHandle\<close> only marks it, and takes effect when the poll ends at the next await
  that is not ready.
\<close>

datatype accept_phase = Suspended | Polled | AbortRequested | Ended

record ('s, 'r, 'c, 'w) accept_state =
  as_phase :: accept_phase
  as_tasks :: "('s, 'r, 'c, 'w) handshake_task list"
  as_given :: "('s, 'r, 'c) incoming_v1 list"
  as_client :: "('s, 'r, 'c) v1_client"

text \<open>
  What \<open>bind\<close> returns: the client, its accept task spawned, and no handshake. \<open>as_given\<close> are
  the Hellos that \<open>next_incoming\<close> handed out and the application has not yet decided.
\<close>

definition accept_start :: "('s, 'r, 'c) v1_client \<Rightarrow> ('s, 'r, 'c, 'w) accept_state" where
  "accept_start c = \<lparr>as_phase = Suspended, as_tasks = [], as_given = [], as_client = c\<rparr>"

text \<open>A permit is owned by a handshake task, by a queued Hello, or by one handed out.\<close>

definition permits_held :: "('s, 'r, 'c, 'w) accept_state \<Rightarrow> nat" where
  "permits_held s = length (as_tasks s) + length (pq_entries (cl_pending (as_client s))) + length (as_given s)"

definition try_acquire_owned :: "('s, 'r, 'c, 'w) accept_state \<Rightarrow> bool" where
  "try_acquire_owned s = (permits_held s < cfg_max_unauthenticated_handshakes (cl_config (as_client s)))"

text \<open>
  One iteration of the loop on the answer of \<open>accept\<close>: the loop ends on \<open>None\<close>, an attempt is
  dropped when no permit is free, and is handed to a task of its own otherwise.
\<close>

definition accept_round ::
  "'w runtime \<Rightarrow> (('c, 'w) attempt \<Rightarrow> 'w \<Rightarrow> 'w) \<Rightarrow> ('c, 'w) attempt option \<Rightarrow>
   ('s, 'r, 'c, 'w) accept_state \<Rightarrow> 'w \<Rightarrow> ('s, 'r, 'c, 'w) accept_state \<times> 'w" where
  "accept_round T drop_attempt answer s w =
     (case answer of
        None \<Rightarrow> (s\<lparr>as_phase := Ended\<rparr>, w)
      | Some incoming \<Rightarrow>
          if \<not> try_acquire_owned s then (s, drop_attempt incoming w)
          else let (now, w') = rt_instant T w;
                   deadline = now + cfg_pre_hello_timeout (cl_config (as_client s))
               in (s\<lparr>as_tasks := as_tasks s @ [\<lparr>ht_stage = Connecting incoming, ht_deadline = deadline\<rparr>]\<rparr>, w'))"

text \<open>
  A poll of the task begins when it was suspended, and ends at an await that is not ready.
  \<open>AbortTask\<close> ends a suspended task; one that is being polled goes on to that await.
\<close>

fun poll_task :: "accept_phase \<Rightarrow> accept_phase" where
  "poll_task Suspended = Polled"
| "poll_task phase = phase"

fun suspend_task :: "accept_phase \<Rightarrow> accept_phase" where
  "suspend_task Polled = Suspended"
| "suspend_task AbortRequested = Ended"
| "suspend_task phase = phase"

fun abort_task :: "accept_phase \<Rightarrow> accept_phase" where
  "abort_task Suspended = Ended"
| "abort_task Polled = AbortRequested"
| "abort_task phase = phase"

definition drop_nth :: "nat \<Rightarrow> 'a list \<Rightarrow> 'a list" where
  "drop_nth i xs = take i xs @ drop (Suc i) xs"

lemma length_drop_nth: "i < length xs \<Longrightarrow> length (drop_nth i xs) = length xs - 1"
  by (simp add: drop_nth_def)

text \<open>A task goes on with its next stage, or ends. An admitted Hello took its permit along.\<close>

definition settle ::
  "nat \<Rightarrow> ('s, 'r, 'c, 'w) handshake_stage option cresult \<Rightarrow> ('s, 'r, 'c, 'w) accept_state \<Rightarrow>
   ('s, 'r, 'c, 'w) accept_state" where
  "settle i result s =
     (case result of
        Ok (Some stage) \<Rightarrow> s\<lparr>as_tasks := (as_tasks s)[i := (as_tasks s ! i)\<lparr>ht_stage := stage\<rparr>]\<rparr>
      | _ \<Rightarrow> s\<lparr>as_tasks := drop_nth i (as_tasks s)\<rparr>)"

section \<open>Steps\<close>

text \<open>
  One step of the program around an endpoint: the accept task is polled, takes an answer of iroh, is
  suspended, or is aborted when the last handle of the client is dropped (\<open>AbortTask\<close>), which other
  threads may do in the middle of a poll; a handshake task runs one round;
  its authentication is abandoned by the timeout, between two of its accesses to the client; the
  application takes, accepts, rejects or drops a queued Hello; other tasks run an operation of the
  client; the world changes.
\<close>

definition uninterrupted :: "'w runtime \<Rightarrow> bool" where
  "uninterrupted C = (\<forall>d w. rt_elapse C d w = None)"

inductive accept_step ::
  "env \<Rightarrow> ('s, 'r, 'c) quic \<Rightarrow> 'w runtime \<Rightarrow> ('s, 'r, 'w) session runtime \<Rightarrow>
   ('s, 'r, 'c, 'w) endpoint_api \<Rightarrow> 'w v1_device_resolver \<Rightarrow> (('c, 'w) attempt \<Rightarrow> 'w \<Rightarrow> 'w) \<Rightarrow>
   ('s, 'r, 'c, 'w) accept_state \<times> 'w \<Rightarrow> ('s, 'r, 'c, 'w) accept_state \<times> 'w \<Rightarrow> bool"
  for E Q T S N R drop_attempt where
  polled: "accept_step E Q T S N R drop_attempt (s, w) (s\<lparr>as_phase := poll_task (as_phase s)\<rparr>, w)"
| accept: "as_phase s = Polled \<or> as_phase s = AbortRequested \<Longrightarrow> accept_round T drop_attempt answer s w = (s', w') \<Longrightarrow>
    accept_step E Q T S N R drop_attempt (s, w) (s', w')"
| suspended: "accept_step E Q T S N R drop_attempt (s, w) (s\<lparr>as_phase := suspend_task (as_phase s)\<rparr>, w)"
| abort: "accept_step E Q T S N R drop_attempt (s, w) (s\<lparr>as_phase := abort_task (as_phase s)\<rparr>, w)"
| handshake: "i < length (as_tasks s) \<Longrightarrow> uninterrupted C \<Longrightarrow>
    handshake_round E Q T C N (ht_deadline (as_tasks s ! i)) (ht_stage (as_tasks s ! i)) (as_client s, w)
      = (result, (c', w')) \<Longrightarrow>
    accept_step E Q T S N R drop_attempt (s, w) (settle i result (s\<lparr>as_client := c'\<rparr>), w')"
| abandoned: "i < length (as_tasks s) \<Longrightarrow> ht_stage (as_tasks s ! i) = Authenticating conn tx rx hello \<Longrightarrow>
    c1 = (as_client s)\<lparr>cl_active_records := retain_current now (cl_active_records (as_client s))\<rparr> \<Longrightarrow>
    now' = fst (rt_now_seconds T w1) \<Longrightarrow>
    c' \<in> {as_client s, c1, c1\<lparr>cl_replay := snd (reserve_replay hello now' (cl_replay c1))\<rparr>} \<Longrightarrow>
    result = Err (Timeout ''authenticating signed inbound v1 Hello'') \<Longrightarrow>
    accept_step E Q T S N R drop_attempt (s, w)
      (settle i result (s\<lparr>as_client := c'\<rparr>), ep_close N conn 1 ''invalid v1 handshake'' w')"
| taken: "next_incoming N T (as_client s, w) = (Ok answer, (c', w')) \<Longrightarrow>
    accept_step E Q T S N R drop_attempt (s, w)
      (s\<lparr>as_client := c', as_given := as_given s @ (case answer of Some (Ok inc) \<Rightarrow> [inc] | _ \<Rightarrow> [])\<rparr>, w')"
| accepted: "i < length (as_given s) \<Longrightarrow>
    incoming_accept E Q S R random (as_given s ! i) w = (peer, closed, w') \<Longrightarrow>
    accept_step E Q T S N R drop_attempt (s, w) (s\<lparr>as_given := drop_nth i (as_given s)\<rparr>, w')"
| declined: "i < length (as_given s) \<Longrightarrow>
    closed = incoming_reject Q (as_given s ! i) \<or> closed = incoming_drop Q (as_given s ! i) \<Longrightarrow>
    accept_step E Q T S N R drop_attempt (s, w) (s\<lparr>as_given := drop_nth i (as_given s)\<rparr>, w')"
| expiry: "pending_expiry N key conn (as_client s, w) = (u, (c', w')) \<Longrightarrow>
    accept_step E Q T S N R drop_attempt (s, w) (s\<lparr>as_client := c'\<rparr>, w')"
| close: "client_close N (as_client s, w) = (u, (c', w')) \<Longrightarrow>
    accept_step E Q T S N R drop_attempt (s, w) (s\<lparr>as_client := c'\<rparr>, w')"
| register: "current_record E T sequence lifetime (as_client s, w) = (rec, (c', w')) \<Longrightarrow>
    accept_step E Q T S N R drop_attempt (s, w) (s\<lparr>as_client := c'\<rparr>, w')"
| dial: "dial_device E Q T S N R random target application (as_client s, w) = (p, (c', w')) \<Longrightarrow>
    accept_step E Q T S N R drop_attempt (s, w) (s\<lparr>as_client := c'\<rparr>, w')"
| environment: "accept_step E Q T S N R drop_attempt (s, w) (s, w')"

inductive_cases accept_stepE: "accept_step E Q T S N R drop_attempt (s, w) (s', w')"

section \<open>Every step is a run of the client machine\<close>

lemma settle_simps [simp]:
  "as_client (settle i result s) = as_client s" "as_given (settle i result s) = as_given s"
  "as_phase (settle i result s) = as_phase s"
  by (simp_all add: settle_def split: result.splits option.splits)

lemma accept_round_client: "accept_round T drop_attempt answer s w = (s', w') \<Longrightarrow> as_client s' = as_client s"
  by (auto simp: accept_round_def Let_def split: option.splits if_splits prod.splits)

lemma close_on_error_client:
  "close_on_error N conn reason m cw = (result, cw') \<Longrightarrow>
   \<exists>w'. m cw = (result, (fst cw', w'))"
  by (cases cw') (auto simp: close_on_error_def split: prod.splits result.splits)

text \<open>A round before the authentication leaves the client alone, the authentication is one operation of it.\<close>

lemma early_round_client:
  assumes "handshake_round E Q T C N deadline stage (c, w) = (result, (c', w'))"
    and "\<And>conn tx rx hello. stage \<noteq> Authenticating conn tx rx hello"
  shows "c' = c"
  using assms
  by (cases stage) (auto simp: on_env_def op_bind_def op_return_def close_on_error_def
      split: prod.splits result.splits)

lemma authentication_round:
  assumes "handshake_round E Q T C N deadline (Authenticating conn tx rx hello) (c, w) = (result, (c', w'))"
    and "uninterrupted C"
  obtains r w1 where "authenticate_operation E T N conn tx rx hello (c, w) = (r, (c', w1))"
    "result = (case r of Ok _ \<Rightarrow> Ok None | Err e \<Rightarrow> Err e)"
proof -
  obtain w1 where m: "op_bind get_client (\<lambda>self.
        op_bind (op_timeout C (cfg_peer_handshake_timeout (cl_config self))
          ''authenticating signed inbound v1 Hello'' (authenticate_operation E T N conn tx rx hello)) (\<lambda>_.
        op_return None)) (c, w) = (result, (c', w1))"
    using close_on_error_client [OF assms(1) [unfolded handshake_round.simps]] by auto
  obtain r cw' where r: "authenticate_operation E T N conn tx rx hello (c, w) = (r, cw')" by (metis prod.exhaust)
  have "cw' = (c', w1) \<and> result = (case r of Ok _ \<Rightarrow> Ok None | Err e \<Rightarrow> Err e)"
    using m r assms(2)
    by (cases r) (simp_all add: op_bind_def get_client_def op_return_def op_timeout_def uninterrupted_def)
  then show ?thesis using that r by blast
qed

lemma handshake_round_step:
  assumes "handshake_round E Q T C N deadline stage (c, w) = (result, (c', w'))" and "uninterrupted C"
  shows "(client_step E Q T S N R)\<^sup>*\<^sup>* (c, w) (c', w')"
proof (cases stage)
  case (Authenticating conn tx rx hello)
  obtain r w1 where "authenticate_operation E T N conn tx rx hello (c, w) = (r, (c', w1))"
    using authentication_round assms Authenticating by metis
  then have "client_step E Q T S N R (c, w) (c', w1)" by (rule client_step.authenticate)
  moreover have "client_step E Q T S N R (c', w1) (c', w')" by (rule client_step.environment)
  ultimately show ?thesis by (meson r_into_rtranclp rtranclp.rtrancl_into_rtrancl)
next
  case (Connecting incoming)
  then have "c' = c" using early_round_client [OF assms(1)] by simp
  then show ?thesis by (simp add: r_into_rtranclp client_step.environment)
next
  case (ReceivingHello conn)
  then have "c' = c" using early_round_client [OF assms(1)] by simp
  then show ?thesis by (simp add: r_into_rtranclp client_step.environment)
qed

lemma abandoned_steps:
  assumes "c1 = c\<lparr>cl_active_records := retain_current now (cl_active_records c)\<rparr>"
    and "now' = fst (rt_now_seconds T w1)"
    and "c' \<in> {c, c1, c1\<lparr>cl_replay := snd (reserve_replay hello now' (cl_replay c1))\<rparr>}"
  shows "(client_step E Q T S N R)\<^sup>*\<^sup>* (c, w) (c', w')"
proof -
  have 1: "client_step E Q T S N R (c, w) (c1, w')" unfolding assms(1) by (rule client_step.abandoned)
  have 2: "client_step E Q T S N R (c1, w') (c1\<lparr>cl_replay := snd (reserve_replay hello now' (cl_replay c1))\<rparr>, w')"
    by (rule client_step.abandoned_reserved [OF assms(2)])
  have 0: "client_step E Q T S N R (c, w) (c, w')" by (rule client_step.environment)
  from assms(3) consider "c' = c" | "c' = c1"
    | "c' = c1\<lparr>cl_replay := snd (reserve_replay hello now' (cl_replay c1))\<rparr>" by blast
  then show ?thesis
  proof cases
    case 3
    then show ?thesis using 1 2 by (meson r_into_rtranclp rtranclp.rtrancl_into_rtrancl)
  qed (use 0 1 in \<open>simp_all add: r_into_rtranclp\<close>)
qed

lemma accept_step_client:
  assumes "accept_step E Q T S N R drop_attempt (s, w) (s', w')"
  shows "(client_step E Q T S N R)\<^sup>*\<^sup>* (as_client s, w) (as_client s', w')"
  using assms
proof (cases rule: accept_step.cases)
  case (accept answer)
  then show ?thesis
    using accept_round_client [of T drop_attempt answer s w s' w']
    by (simp add: r_into_rtranclp client_step.environment)
next
  case (handshake i C result c')
  then show ?thesis using handshake_round_step by auto
next
  case (abandoned i conn tx rx hello c1 now now' w1 c' result w'')
  then show ?thesis using abandoned_steps [OF abandoned(5-7)] by simp
qed (auto intro: r_into_rtranclp client_step.intros)

lemma accept_steps_client:
  "(accept_step E Q T S N R drop_attempt)\<^sup>*\<^sup>* (s, w) sw \<Longrightarrow>
   (client_step E Q T S N R)\<^sup>*\<^sup>* (as_client s, w) (as_client (fst sw), snd sw)"
proof (induction rule: rtranclp_induct)
  case (step sw1 sw2)
  then show ?case
    using accept_step_client [of E Q T S N R drop_attempt "fst sw1" "snd sw1" "fst sw2" "snd sw2"]
    by simp
qed simp

end
