(* ===== verification/Accept_Safety.thy ===== *)
theory Accept_Safety
  imports Accept_Loop
begin

text \<open>
  Invariants of the accept task: the permits in use never exceed the limit, because the queue grows
  only when a handshake task hands its Hello over; and from every
  reachable state all permits can become free again.
\<close>

section \<open>The queue grows by an admitted Hello only\<close>

abbreviation queued :: "('s, 'r, 'c) v1_client \<Rightarrow> nat" where
  "queued c \<equiv> length (pq_entries (cl_pending c))"

text \<open>An operation that keeps \<open>J\<close>, and reaches \<open>A\<close> when it succeeds.\<close>

definition ends_in :: "('w \<Rightarrow> bool) \<Rightarrow> ('w \<Rightarrow> bool) \<Rightarrow> ('w, 'a) op \<Rightarrow> 'w \<Rightarrow> bool" where
  "ends_in J A m w = (J w \<longrightarrow> (case m w of (Ok x, w') \<Rightarrow> A w' | (Err e, w') \<Rightarrow> J w'))"

lemma ends_in_bind:
  assumes "stays J m w" and "\<And>x w'. m w = (Ok x, w') \<Longrightarrow> J w' \<Longrightarrow> ends_in J A (f x) w'"
  shows "ends_in J A (op_bind m f) w"
  using assms unfolding ends_in_def stays_def op_bind_def
  by (auto split: prod.splits result.splits)

lemma ends_inD: "ends_in J A m w \<Longrightarrow> J w \<Longrightarrow> m w = (r, w') \<Longrightarrow> (case r of Ok _ \<Rightarrow> A w' | Err _ \<Rightarrow> J w')"
  by (auto simp: ends_in_def split: result.splits)

text \<open>The queue as the authentication found it, and its growth.\<close>

definition queue_kept :: "nat \<Rightarrow> ('s, 'r, 'c) v1_client \<Rightarrow> bool" where
  "queue_kept n c = (pq_inv (cl_pending c) \<and> queued c \<le> n)"

lemma queue_kept_simps [simp]:
  "queue_kept n (c\<lparr>cl_active_records := a\<rparr>) = queue_kept n c"
  "queue_kept n (c\<lparr>cl_replay := r\<rparr>) = queue_kept n c"
  by (simp_all add: queue_kept_def)

lemma queue_view_shorter:
  assumes "pq_inv q" "pq_inv q'" "length (pq_view q') \<le> length (pq_view q) + k"
  shows "length (pq_entries q') \<le> length (pq_entries q) + k"
  using assms pq_view_length by metis

lemma live_entries_length: "length (live_entries now xs) \<le> length xs"
  by (simp add: live_entries_def)

lemma pq_insert_length:
  assumes "pq_inv q" and "pq_insert key inc now q = (r, dropped, q')"
  shows "pq_inv q' \<and> length (pq_entries q') \<le> length (pq_entries q) + (case r of Ok _ \<Rightarrow> 1 | Err _ \<Rightarrow> 0)"
proof -
  note ok = pq_insert_ok [OF assms]
  let ?f = "fifo_insert (pq_capacity q) (pq_per_identity_capacity q) key inc now (pq_closed q) (pq_view q)"
  have "r = fst ?f" "pq_view q' = snd ?f" using ok by simp_all
  then have "length (pq_view q') \<le> length (pq_view q) + (case r of Ok _ \<Rightarrow> 1 | Err _ \<Rightarrow> 0)"
    using live_entries_length [of now "pq_view q"]
    by (auto simp: fifo_insert_def Let_def split: if_splits)
  then show ?thesis using queue_view_shorter [OF assms(1)] ok by blast
qed

lemma pq_next_length:
  assumes "pq_inv q" and "pq_next now q = (r, dropped, q')"
  shows "pq_inv q' \<and>
    length (pq_entries q') + (case r of Some (Ok _) \<Rightarrow> 1 | _ \<Rightarrow> 0) \<le> length (pq_entries q)"
proof -
  note ok = pq_next_ok [OF assms]
  have "fifo_next now (pq_closed q) (pq_view q) = (r, pq_view q')" using ok by simp
  then have "length (pq_view q') + (case r of Some (Ok _) \<Rightarrow> 1 | _ \<Rightarrow> 0) \<le> length (pq_view q)"
    using live_entries_length [of now "pq_view q"]
    by (auto simp: fifo_next_def split: list.splits if_splits)
  then show ?thesis using ok pq_view_length [OF assms(1)] pq_view_length [of q'] by simp
qed

lemma pq_expire_length:
  assumes "pq_inv q" and "pq_expire key q = (dropped, q')"
  shows "pq_inv q' \<and> length (pq_entries q') \<le> length (pq_entries q)"
proof -
  note ok = pq_expire_ok [OF assms]
  then have "length (pq_view q') \<le> length (pq_view q)" by simp
  then show ?thesis using queue_view_shorter [OF assms(1), of q' 0] ok by simp
qed

lemma enqueue_ends_in:
  "ends_in (of_client (queue_kept n)) (of_client (queue_kept (Suc n))) (enqueue_or_release N key inc instant) cw"
proof -
  obtain c w where cw: "cw = (c, w)" by fastforce
  obtain r dropped q where "pq_insert key inc instant (cl_pending c) = (r, dropped, q)"
    by (metis prod.exhaust)
  then show ?thesis
    using pq_insert_length [of "cl_pending c" key inc instant r dropped q]
    by (cases r) (auto simp: ends_in_def cw enqueue_or_release_def queue_kept_def)
qed

lemma authenticate_ends_in:
  "ends_in (of_client (queue_kept n)) (of_client (queue_kept (Suc n)))
     (authenticate_operation E T N conn tx rx hello) cw"
  unfolding authenticate_operation_def admit_def Let_def
  by (intro ends_in_bind stays_intros enqueue_ends_in) (auto split: prod.splits)

lemma stays_other_queue:
  "stays (of_client (queue_kept n)) (current_record E T sequence lifetime) cw"
  "stays (of_client (queue_kept n)) (dial_device E Q T S N R random target application) cw"
  unfolding current_record_def dial_device_def finish_outbound_handshake_def Let_def case_prod_unfold
  by (intro stays_intros; simp)+

lemma expiry_queue:
  assumes "pending_expiry N key conn (c, w) = (u, (c', w'))" and "queue_kept n c"
  shows "queue_kept n c'"
proof -
  obtain dropped q where q: "pq_expire key (cl_pending c) = (dropped, q)" by fastforce
  then have "c' = c\<lparr>cl_pending := q\<rparr>" using assms(1) by (auto simp: pending_expiry_def)
  then show ?thesis using pq_expire_length [OF _ q] assms(2) by (auto simp: queue_kept_def)
qed

lemma close_queue:
  assumes "client_close N (c, w) = (u, (c', w'))" and "queue_kept n c"
  shows "queue_kept n c'"
proof -
  obtain dropped q where q: "pq_close (cl_pending c) = (dropped, q)" by fastforce
  then have c': "c' = c\<lparr>cl_pending := q\<rparr>" using assms(1) by (auto simp: client_close_def)
  have "pq_inv q" "pq_view q = []" using pq_close_ok [OF _ q] assms(2) by (simp_all add: queue_kept_def)
  then show ?thesis using pq_view_length [of q] by (simp add: c' queue_kept_def)
qed

lemma next_incoming_queue:
  assumes "next_incoming N T (c, w) = (Ok answer, (c', w'))" and "queue_kept n c"
  shows "pq_inv (cl_pending c') \<and> queued c' + (case answer of Some (Ok _) \<Rightarrow> 1 | _ \<Rightarrow> 0) \<le> n"
proof -
  obtain instant w1 dropped q where q: "pq_next instant (cl_pending c) = (answer, dropped, q)"
    and c': "c' = c\<lparr>cl_pending := q\<rparr>"
    using assms(1) by (auto simp: next_incoming_def op_bind_def on_env_def instant_now_def split: prod.splits)
  show ?thesis using pq_next_length [OF _ q] assms(2) by (auto simp: c' queue_kept_def)
qed

section \<open>The bound on unauthenticated handshakes\<close>

text \<open>The holders of permits, and that no operation but the accept task adds one.\<close>

lemma permits_queue:
  "permits_held (s\<lparr>as_client := c'\<rparr>) \<le> permits_held s \<longleftrightarrow> queued c' \<le> queued (as_client s)"
  by (simp add: permits_held_def)

lemma settle_length:
  "i < length (as_tasks s) \<Longrightarrow> length (as_tasks (settle i result s)) =
     length (as_tasks s) - (case result of Ok (Some _) \<Rightarrow> 0 | _ \<Rightarrow> 1)"
  by (simp add: settle_def length_drop_nth split: result.splits option.splits)

lemma handshake_permits:
  assumes "handshake_round E Q T C N deadline stage (as_client s, w) = (result, (c', w'))"
    and "uninterrupted C" and "i < length (as_tasks s)" and "pq_inv (cl_pending (as_client s))"
  shows "permits_held (settle i result (s\<lparr>as_client := c'\<rparr>)) \<le> permits_held s"
proof (cases "\<exists>conn tx rx hello. stage = Authenticating conn tx rx hello")
  case False
  then have "c' = as_client s" using early_round_client [OF assms(1)] by blast
  then show ?thesis
    using assms(3) by (simp add: permits_held_def settle_length)
next
  case True
  then obtain conn tx rx hello where "stage = Authenticating conn tx rx hello" by blast
  then obtain r w1 where a: "authenticate_operation E T N conn tx rx hello (as_client s, w) = (r, (c', w1))"
    and r: "result = (case r of Ok _ \<Rightarrow> Ok None | Err e \<Rightarrow> Err e)"
    using authentication_round assms(1,2) by metis
  have "case r of Ok _ \<Rightarrow> queued c' \<le> Suc (queued (as_client s)) | Err _ \<Rightarrow> queued c' \<le> queued (as_client s)"
    using ends_inD [OF authenticate_ends_in [of "queued (as_client s)"] _ a] assms(4)
    by (auto simp: queue_kept_def split: result.splits)
  then show ?thesis
    using assms(3) r by (cases r) (auto simp: permits_held_def settle_length)
qed

lemma accept_round_permits:
  assumes "accept_round T drop_attempt answer s w = (s', w')"
    and "permits_held s \<le> cfg_max_unauthenticated_handshakes (cl_config (as_client s))"
  shows "permits_held s' \<le> cfg_max_unauthenticated_handshakes (cl_config (as_client s'))"
  using assms
  by (auto simp: accept_round_def try_acquire_owned_def permits_held_def Let_def
      split: option.splits if_splits prod.splits)

lemma accept_step_permits:
  assumes "accept_step E Q T S N R drop_attempt (s, w) (s', w')"
    and "pq_inv (cl_pending (as_client s))"
    and "\<forall>answer. accept_round T drop_attempt answer s w \<noteq> (s', w')"
  shows "permits_held s' \<le> permits_held s"
proof -
  let ?n = "queued (as_client s)"
  have keep: "queue_kept ?n (as_client s)" using assms(2) by (simp add: queue_kept_def)
  have client: "permits_held (s\<lparr>as_client := c'\<rparr>) \<le> permits_held s" if "queue_kept ?n c'" for c'
    using that by (simp add: permits_queue queue_kept_def)
  from assms(1) show ?thesis
  proof (cases rule: accept_step.cases)
    case (handshake i C result c')
    then show ?thesis using handshake_permits [OF handshake(4,3,2) assms(2)] by simp
  next
    case (abandoned i conn tx rx hello c1 now now' w1 c' result w'')
    then show ?thesis by (auto simp: permits_held_def settle_length)
  next
    case (taken answer c')
    then show ?thesis
      using next_incoming_queue [OF taken(2) keep]
      by (auto simp: permits_held_def split: option.splits result.splits)
  next
    case (expiry key conn u c')
    then show ?thesis using client [OF expiry_queue [OF _ keep]] by simp
  next
    case (close u c')
    then show ?thesis using client [OF close_queue [OF _ keep]] by simp
  next
    case (register sequence lifetime rec c')
    then show ?thesis
      using client staysD [OF stays_other_queue(1) [of ?n E T sequence lifetime "(as_client s, w)"]] keep
      by auto
  next
    case (dial random target application p c')
    then show ?thesis
      using client staysD [OF stays_other_queue(2) [of ?n E Q T S N R random target application "(as_client s, w)"]] keep
      by auto
  qed (use assms(3) in \<open>auto simp: permits_held_def length_drop_nth\<close>)
qed

section \<open>Reachable states\<close>

definition accept_reachable ::
  "env \<Rightarrow> bool \<Rightarrow> ('s, 'r, 'c) quic \<Rightarrow> 'w runtime \<Rightarrow> ('s, 'r, 'w) session runtime \<Rightarrow>
   ('s, 'r, 'c, 'w) endpoint_api \<Rightarrow> 'w v1_device_resolver \<Rightarrow> (('c, 'w) attempt \<Rightarrow> 'w \<Rightarrow> 'w) \<Rightarrow>
   ('s, 'r, 'c, 'w) accept_state \<times> 'w \<Rightarrow> bool" where
  "accept_reachable E wasm Q T S N R drop_attempt sw =
     (\<exists>random credential config w0 c0 w1.
        client_bind E wasm T N random credential config w0 = (Ok c0, w1) \<and>
        (accept_step E Q T S N R drop_attempt)\<^sup>*\<^sup>* (accept_start c0, w1) sw)"

lemma accept_start_simps [simp]:
  "as_client (accept_start c) = c" "as_tasks (accept_start c) = []" "as_given (accept_start c) = []"
  "as_phase (accept_start c) = Suspended"
  by (simp_all add: accept_start_def)

lemma accept_reachable_client:
  assumes "accept_reachable E wasm Q T S N R drop_attempt (s, w)"
  shows "client_reachable E wasm Q T S N R (as_client s, w)"
  using assms accept_steps_client unfolding accept_reachable_def client_reachable_def by fastforce

lemma accept_reachable_steps:
  assumes "accept_reachable E wasm Q T S N R drop_attempt sw"
    and "(accept_step E Q T S N R drop_attempt)\<^sup>*\<^sup>* sw sw'"
  shows "accept_reachable E wasm Q T S N R drop_attempt sw'"
  using assms unfolding accept_reachable_def by (meson rtranclp_trans)

lemma accept_step_bound:
  assumes "accept_step E Q T S N R drop_attempt (s, w) (s', w')"
    and "client_inv E N (as_client s)" and "configured g k (as_client s)"
    and "permits_held s \<le> cfg_max_unauthenticated_handshakes g"
  shows "permits_held s' \<le> cfg_max_unauthenticated_handshakes g"
proof -
  have cfg: "cl_config (as_client s) = g" using assms(3) by (simp add: configured_def)
  have "configured g k (as_client s')"
    using client_steps_configured [OF accept_step_client [OF assms(1)], of g k] assms(3) by simp
  then have cfg': "cl_config (as_client s') = g" by (simp add: configured_def)
  have inv: "pq_inv (cl_pending (as_client s))" using assms(2) by (simp add: client_inv_def)
  show ?thesis
    using accept_step_permits [OF assms(1) inv] accept_round_permits [of T drop_attempt _ s w s' w']
      assms(4) cfg cfg' by fastforce
qed

lemma accept_steps_bound:
  "(accept_step E Q T S N R drop_attempt)\<^sup>*\<^sup>* sw sw' \<Longrightarrow> client_inv E N (as_client (fst sw)) \<Longrightarrow>
   configured g k (as_client (fst sw)) \<Longrightarrow>
   permits_held (fst sw) \<le> cfg_max_unauthenticated_handshakes g \<Longrightarrow>
   client_inv E N (as_client (fst sw')) \<and> configured g k (as_client (fst sw')) \<and>
   permits_held (fst sw') \<le> cfg_max_unauthenticated_handshakes g"
proof (induction rule: rtranclp_induct)
  case (step sw1 sw2)
  obtain s w s' w' where p: "sw1 = (s, w)" "sw2 = (s', w')" by fastforce
  note st = step.hyps(2) [unfolded p]
  note IH = step.IH [OF step.prems, unfolded p fst_conv]
  show ?case
    using client_steps_inv [OF accept_step_client [OF st]]
      client_steps_configured [OF accept_step_client [OF st], of g k] accept_step_bound [OF st, of g k] IH
    by (simp add: p)
qed simp

lemma accept_reachable_bound:
  assumes "accept_reachable E wasm Q T S N R drop_attempt (s, w)"
  shows "permits_held s \<le> cfg_max_unauthenticated_handshakes (cl_config (as_client s))"
    and "config_validate E wasm (cl_config (as_client s)) = Ok ()"
proof -
  show "config_validate E wasm (cl_config (as_client s)) = Ok ()"
    using client_reachable_inv(2) [OF accept_reachable_client [OF assms]] by simp
  obtain random credential config w0 c0 w1 where
    b: "client_bind E wasm T N random credential config w0 = (Ok c0, w1)"
    and st: "(accept_step E Q T S N R drop_attempt)\<^sup>*\<^sup>* (accept_start c0, w1) (s, w)"
    using assms unfolding accept_reachable_def by blast
  note inv = client_bind_inv [OF b]
  have "permits_held (accept_start c0 :: ('a, 'b, 'c, 'd) accept_state) = 0"
    if "queued c0 = 0" using that by (simp add: permits_held_def)
  moreover have "queued c0 = 0" using b unfolding client_bind_def Let_def by (auto simp: op_Ok new_tables)
  ultimately show "permits_held s \<le> cfg_max_unauthenticated_handshakes (cl_config (as_client s))"
    using accept_steps_bound [OF st, of config credential] inv by (simp add: configured_def)
qed

section \<open>No permit is lost\<close>

text \<open>
  From every state in which the invariant holds, the handshake tasks can run to their ends, the
  application can decide what it took, and the queued Hellos can expire: then every permit is free.
\<close>

fun stage_rank :: "('s, 'r, 'c, 'w) handshake_stage \<Rightarrow> nat" where
  "stage_rank (Connecting incoming) = 3"
| "stage_rank (ReceivingHello conn) = 2"
| "stage_rank (Authenticating conn tx rx hello) = 1"

lemma stage_rank_pos: "0 < stage_rank stage"
  by (cases stage) simp_all

lemma handshake_round_rank:
  assumes "handshake_round E Q T C N deadline stage cw = (Ok (Some stage'), cw')"
  shows "stage_rank stage' < stage_rank stage"
  using assms
  by (cases stage) (auto simp: op_bind_def op_return_def close_on_error_def split: prod.splits result.splits)

definition rounds_left :: "('s, 'r, 'c, 'w) accept_state \<Rightarrow> nat" where
  "rounds_left s = sum_list (map (stage_rank \<circ> ht_stage) (as_tasks s))"

lemma settle_rounds_left:
  assumes "as_tasks s = t # ts"
    and "\<And>stage. result = Ok (Some stage) \<Longrightarrow> stage_rank stage < stage_rank (ht_stage t)"
  shows "rounds_left (settle 0 result s) < rounds_left s"
  using assms stage_rank_pos [of "ht_stage t"]
  by (auto simp: settle_def rounds_left_def drop_nth_def split: result.splits option.splits)

definition no_timeout :: "'w runtime" where
  "no_timeout = \<lparr>rt_now_seconds = \<lambda>w. (0, w), rt_instant = \<lambda>w. (0, w), rt_elapse = \<lambda>d w. None\<rparr>"

lemma uninterrupted_no_timeout: "uninterrupted no_timeout"
  by (simp add: uninterrupted_def no_timeout_def)

lemma tasks_end:
  "\<exists>s' w'. (accept_step E Q T S N R drop_attempt)\<^sup>*\<^sup>* (s, w) (s', w') \<and> as_tasks s' = []"
proof (induction "rounds_left s" arbitrary: s w rule: less_induct)
  case less
  let ?step = "accept_step E Q T S N R drop_attempt"
  show ?case
  proof (cases "as_tasks s")
    case (Cons t ts)
    obtain result c1 w1 where round: "handshake_round E Q T no_timeout N (ht_deadline t) (ht_stage t) (as_client s, w)
        = (result, (c1, w1))" by (metis prod.exhaust)
    let ?s1 = "settle 0 result (s\<lparr>as_client := c1\<rparr>)"
    have "?step (s, w) (?s1, w1)"
      by (rule accept_step.handshake [OF _ uninterrupted_no_timeout]) (use Cons round in simp_all)
    moreover have "rounds_left ?s1 < rounds_left (s\<lparr>as_client := c1\<rparr>)"
      by (rule settle_rounds_left) (use Cons round handshake_round_rank in auto)
    then have "rounds_left ?s1 < rounds_left s" by (simp add: rounds_left_def)
    ultimately show ?thesis using less by (meson converse_rtranclp_into_rtranclp)
  qed blast
qed

lemma taken_decided:
  "\<exists>s'. (accept_step E Q T S N R drop_attempt)\<^sup>*\<^sup>* (s, w) (s', w) \<and> as_tasks s' = as_tasks s \<and> as_given s' = []"
proof (induction "length (as_given s)" arbitrary: s rule: less_induct)
  case less
  let ?s1 = "s\<lparr>as_given := drop_nth 0 (as_given s)\<rparr>"
  show ?case
  proof (cases "as_given s = []")
    case False
    then have "accept_step E Q T S N R drop_attempt (s, w) (?s1, w)"
      by (intro accept_step.declined [OF _ disjI1 [OF refl]]) simp
    moreover have "length (as_given ?s1) < length (as_given s)" using False by (simp add: length_drop_nth)
    ultimately show ?thesis
      using less [of ?s1] by (metis converse_rtranclp_into_rtranclp accept_state.ext_inject
          accept_state.surjective accept_state.update_convs(3))
  qed blast
qed

lemma expiry_frees:
  assumes "client_inv E N c" and "cl_pending c = q" and "(k, inc) \<in> set (pq_entries q)"
    and "pending_expiry N k conn (c, w) = (u, (c', w'))"
  shows "queued c' < queued c"
proof -
  have inv: "pq_inv q" using assms(1,2) by (simp add: client_inv_def)
  obtain dropped q' where q': "pq_expire k q = (dropped, q')" by fastforce
  note ok = pq_expire_ok [OF inv q']
  have c': "cl_pending c' = q'" using assms(2,4) q' by (auto simp: pending_expiry_def)
  have "k \<in> fst ` set (pq_view q)" using assms(3) pq_view_set [OF inv] by force
  then have "length (filter (\<lambda>(k', _). k' \<noteq> k) (pq_view q)) < length (pq_view q)"
    by (auto intro!: length_filter_less)
  then show ?thesis using ok c' assms(2) pq_view_length [OF inv] pq_view_length [of q'] by simp
qed

lemma queue_expires:
  assumes "client_inv E N (as_client s)"
  shows "\<exists>s' w'. (accept_step E Q T S N R drop_attempt)\<^sup>*\<^sup>* (s, w) (s', w') \<and> as_tasks s' = as_tasks s \<and>
    as_given s' = as_given s \<and> queued (as_client s') = 0"
  using assms
proof (induction "queued (as_client s)" arbitrary: s w rule: less_induct)
  case less
  let ?step = "accept_step E Q T S N R drop_attempt"
  show ?case
  proof (cases "pq_entries (cl_pending (as_client s))")
    case (Cons x xs)
    obtain k inc where "x = (k, inc)" by fastforce
    then have x: "(k, inc) \<in> set (pq_entries (cl_pending (as_client s)))" using Cons by simp
    then have "authentic E N (cl_credential (as_client s)) (cl_config (as_client s)) k inc"
      using less.prems by (auto simp: client_inv_def)
    then obtain pd where "in_pending inc = Some pd" by (auto simp: authentic_def)
    obtain u c1 w1 where e: "pending_expiry N k (pd_connection pd) (as_client s, w) = (u, (c1, w1))"
      by (metis prod.exhaust)
    let ?s1 = "s\<lparr>as_client := c1\<rparr>"
    have st: "?step (s, w) (?s1, w1)" by (rule accept_step.expiry [OF e])
    have "queued (as_client ?s1) < queued (as_client s)"
      using expiry_frees [OF less.prems refl x e] by simp
    moreover have "client_inv E N (as_client ?s1)" using expiry_inv [OF less.prems e] by simp
    ultimately obtain s' w' where "?step\<^sup>*\<^sup>* (?s1, w1) (s', w')" "as_tasks s' = as_tasks ?s1"
      "as_given s' = as_given ?s1" "queued (as_client s') = 0" using less.hyps by blast
    then show ?thesis using converse_rtranclp_into_rtranclp [of ?step, OF st] by fastforce
  qed (auto intro: exI [of _ s])
qed

lemma permits_return:
  assumes "client_inv E N (as_client s)"
  shows "\<exists>s' w'. (accept_step E Q T S N R drop_attempt)\<^sup>*\<^sup>* (s, w) (s', w') \<and> permits_held s' = 0"
proof -
  let ?step = "accept_step E Q T S N R drop_attempt"
  obtain s1 w1 where 1: "?step\<^sup>*\<^sup>* (s, w) (s1, w1)" "as_tasks s1 = []" using tasks_end [of E Q T S N R drop_attempt s w] by blast
  obtain s2 where 2: "?step\<^sup>*\<^sup>* (s1, w1) (s2, w1)" "as_tasks s2 = []" "as_given s2 = []"
    using taken_decided [of E Q T S N R drop_attempt s1 w1] 1(2) by auto
  have run: "?step\<^sup>*\<^sup>* (s, w) (s2, w1)" using 1(1) 2(1) by (rule rtranclp_trans)
  have "client_inv E N (as_client s2)"
    using client_steps_inv [OF accept_steps_client [OF run]] assms by simp
  from queue_expires [OF this] obtain s3 w3 where
    3: "?step\<^sup>*\<^sup>* (s2, w1) (s3, w3)" "as_tasks s3 = []" "as_given s3 = []" "queued (as_client s3) = 0"
    using 2 by metis
  from run 3(1) have "?step\<^sup>*\<^sup>* (s, w) (s3, w3)" by (rule rtranclp_trans)
  with 3 show ?thesis by (auto simp: permits_held_def)
qed

end
