(* ===== verification/Accept_Properties.thy ===== *)
theory Accept_Properties
  imports Accept_Safety Client_Demo
begin

text \<open>
  What the accept task guarantees: it refines the machine of the client, bounds what an
  unauthenticated caller can occupy, and loses no permit. The concrete run takes a connection from its acceptance to the consent queue.
\<close>

section \<open>A complete inbound handshake\<close>

definition demo_attempt :: "(endpoint_id, u64) attempt" where
  "demo_attempt w = (Ok (EndpointId 4), w)"

definition demo_drop :: "(endpoint_id, u64) attempt \<Rightarrow> u64 \<Rightarrow> u64" where
  "demo_drop incoming w = w"

abbreviation demo_accept_step where
  "demo_accept_step \<equiv> accept_step demo_env demo_quic demo_clock (still 40) demo_endpoint demo_resolver demo_drop"

text \<open>Bob's endpoint before a connection, with the handshake in each stage, and after it.\<close>

definition demo_handshake_at ::
  "(bytes, bytes, endpoint_id, u64) handshake_stage list \<Rightarrow> (bytes, bytes, endpoint_id) v1_client \<Rightarrow>
   (bytes, bytes, endpoint_id, u64) accept_state" where
  "demo_handshake_at stages c = (accept_start c)\<lparr>as_phase := Polled, as_tasks :=
     map (\<lambda>stage. \<lparr>ht_stage = stage, ht_deadline = cfg_pre_hello_timeout demo_config\<rparr>) stages\<rparr>"

abbreviation demo_bytes :: bytes where
  "demo_bytes \<equiv> frame (enc (ser_proof_ready demo_ready))"

lemma demo_acceptance:
  "accept_round demo_clock demo_drop (Some demo_attempt) (demo_handshake_at [] (demo_client bob)) 40
   = (demo_handshake_at [Connecting demo_attempt] (demo_client bob), 40)"
  by (simp add: accept_round_def try_acquire_owned_def permits_held_def demo_handshake_at_def
      accept_start_def demo_client_fields demo_clock_def)
    (simp add: demo_config_def config_relay_only_def new_tables)

lemma demo_connecting:
  "handshake_round demo_env demo_quic demo_clock (still 40) demo_endpoint deadline (Connecting demo_attempt) (c, w)
   = (Ok (Some (ReceivingHello (EndpointId 4))), (c, w))"
  by (simp add: timeout_at_def op_bind_def on_env_def iroh_op_def demo_attempt_def op_return_def)

lemma demo_receiving:
  "handshake_round demo_env demo_quic demo_clock (still 40) demo_endpoint deadline (ReceivingHello (EndpointId 4)) (c, w)
   = (Ok (Some (Authenticating (EndpointId 4) [] demo_bytes demo_hello)), (c, w))"
proof -
  have "read_json demo_env demo_quic (de_hello demo_env) V1_MAX_HELLO_BYTES
      (frame (enc (ser_hello demo_env demo_hello)) @ demo_bytes) = (Ok demo_hello, demo_bytes)"
    by (rule demo_read_json) (use demo_hello_length in \<open>simp_all add: V1_MAX_HELLO_BYTES_def demo_parse_enc serde_simps demo_url_serde_law\<close>)
  then show ?thesis
    by (simp add: close_on_error_def receive_initial_hello_def timeout_at_def op_bind_def on_env_def
        iroh_op_def op_guard_def op_lift_def op_return_def demo_endpoint_def)
qed

lemma demo_authenticating:
  "handshake_round demo_env demo_quic demo_clock (still 40) demo_endpoint deadline
     (Authenticating (EndpointId 4) [] demo_bytes demo_hello) (demo_client bob, 40)
   = (Ok None, (admitted_client, 40))"
  by (simp add: close_on_error_def op_bind_def get_client_def demo_authenticate op_return_def)

lemma demo_round_step:
  assumes "handshake_round demo_env demo_quic demo_clock (still 40) demo_endpoint (cfg_pre_hello_timeout demo_config)
      stage (c, w) = (Ok next, (c', w))"
  shows "demo_accept_step (demo_handshake_at [stage] c, w)
    (demo_handshake_at (case next of None \<Rightarrow> [] | Some stage' \<Rightarrow> [stage']) c', w)"
proof -
  have "uninterrupted (still 40)" by (simp add: uninterrupted_def still_def)
  from accept_step.handshake [where i = 0, OF _ this, of "demo_handshake_at [stage] c"] assms
  have "demo_accept_step (demo_handshake_at [stage] c, w)
      (settle 0 (Ok next) ((demo_handshake_at [stage] c)\<lparr>as_client := c'\<rparr>), w)"
    by (simp add: demo_handshake_at_def)
  moreover have "settle 0 (Ok next) ((demo_handshake_at [stage] c)\<lparr>as_client := c'\<rparr>)
      = demo_handshake_at (case next of None \<Rightarrow> [] | Some stage' \<Rightarrow> [stage']) c'"
    by (simp add: settle_def demo_handshake_at_def accept_start_def drop_nth_def split: option.splits)
  ultimately show ?thesis by simp
qed

text \<open>From \<open>bind\<close> to the first queued Hello.\<close>

lemma demo_inbound_run:
  "demo_accept_step\<^sup>*\<^sup>* (demo_handshake_at [] (demo_client bob), 40) (demo_handshake_at [] admitted_client, 40)"
proof -
  have "demo_accept_step (demo_handshake_at [] (demo_client bob), 40)
      (demo_handshake_at [Connecting demo_attempt] (demo_client bob), 40)"
    by (rule accept_step.accept [OF _ demo_acceptance]) (simp add: demo_handshake_at_def)
  note run = r_into_rtranclp [of demo_accept_step, OF this]
  note run = rtranclp.rtrancl_into_rtrancl [OF run demo_round_step [OF demo_connecting, simplified]]
  note run = rtranclp.rtrancl_into_rtrancl [OF run demo_round_step [OF demo_receiving, simplified]]
  show ?thesis
    using rtranclp.rtrancl_into_rtrancl [OF run demo_round_step [OF demo_authenticating, simplified]] .
qed

lemma demo_accept_reachable:
  "accept_reachable demo_env False demo_quic demo_clock (still 40) demo_endpoint demo_resolver demo_drop
     (demo_handshake_at [] admitted_client, 40)"
proof -
  have 1: "demo_accept_step (accept_start (bound_client bob), 30) (accept_start (demo_client bob), 30)"
    using accept_step.register [of demo_env demo_clock 1 "from_secs 70"
        "accept_start (bound_client bob) :: (bytes, bytes, endpoint_id, u64) accept_state" 30]
      demo_register [OF alice_bob_ok(2)] by (simp add: accept_start_def)
  have 2: "demo_accept_step (accept_start (demo_client bob), 30) (accept_start (demo_client bob), 40)"
    by (rule accept_step.environment)
  have 3: "demo_accept_step (accept_start (demo_client bob), 40) (demo_handshake_at [] (demo_client bob), 40)"
    using accept_step.polled [of demo_env demo_quic demo_clock "still 40" demo_endpoint demo_resolver demo_drop
        "accept_start (demo_client bob)" 40] by (simp add: demo_handshake_at_def accept_start_def)
  have "demo_accept_step\<^sup>*\<^sup>* (accept_start (bound_client bob), 30) (demo_handshake_at [] admitted_client, 40)"
    using converse_rtranclp_into_rtranclp [of demo_accept_step, OF 1
        converse_rtranclp_into_rtranclp [of demo_accept_step, OF 2
        converse_rtranclp_into_rtranclp [of demo_accept_step, OF 3]]] demo_inbound_run by simp
  then show ?thesis
    using demo_bind [OF alice_bob_ok(2)] unfolding accept_reachable_def by blast
qed

section \<open>Properties\<close>

text \<open>
  C12: what unauthenticated callers can occupy is bounded. In every reachable state of a bound
  endpoint, whatever connections arrive and however the tasks interleave, the handshakes in
  progress, the Hellos queued for consent and those the application took and has not decided are
  together at most \<open>max_unauthenticated_handshakes\<close>, and this is at most 64. At the limit a further
  connection is dropped without any change of the endpoint.
\<close>

theorem unauthenticated_handshakes_bounded:
  assumes "accept_reachable E wasm Q T S N R drop_attempt (s, w)"
  shows "length (as_tasks s) + length (pq_entries (cl_pending (as_client s))) + length (as_given s)
      \<le> cfg_max_unauthenticated_handshakes (cl_config (as_client s)) \<and>
    cfg_max_unauthenticated_handshakes (cl_config (as_client s)) \<le> 64 \<and>
    (permits_held s = cfg_max_unauthenticated_handshakes (cl_config (as_client s)) \<longrightarrow>
      accept_round T drop_attempt (Some incoming) s w = (s, drop_attempt incoming w))"
proof -
  note b = accept_reachable_bound [OF assms]
  have "validate_bounds (cl_config (as_client s)) = Ok ()"
    using b(2) by (auto simp: config_validate_def and_then_Ok_iff split: if_splits)
  then show ?thesis
    using b(1) by (simp add: permits_held_def accept_round_def try_acquire_owned_def validate_bounds_Ok_iff)
qed

theorem unauthenticated_handshakes_bounded_witness:
  "length (pq_entries (cl_pending (as_client (demo_handshake_at [] admitted_client)))) = 1 \<and>
   1 \<le> cfg_max_unauthenticated_handshakes demo_config"
proof -
  have "length (pq_entries (cl_pending (as_client (demo_handshake_at [] admitted_client)))) = 1"
    by (simp add: demo_handshake_at_def admitted_client_def)
  moreover have "cl_config (as_client (demo_handshake_at [] admitted_client)) = demo_config"
    by (simp add: demo_handshake_at_def admitted_client_def demo_client_fields)
  ultimately show ?thesis
    using conjunct1 [OF unauthenticated_handshakes_bounded [OF demo_accept_reachable]] by auto
qed



text \<open>
  C25: no permit is lost. From every reachable state, also from one in which every permit is taken,
  a run leads to a state in which all are free and the next connection is accepted: the handshake
  tasks finish, the application decides what it took, and the queued Hellos expire.
\<close>

theorem permits_become_free:
  assumes "accept_reachable E wasm Q T S N R drop_attempt (s, w)"
  shows "\<exists>s' w'. (accept_step E Q T S N R drop_attempt)\<^sup>*\<^sup>* (s, w) (s', w') \<and>
    permits_held s' = 0 \<and> try_acquire_owned s'"
proof -
  have "client_inv E N (as_client s)"
    using client_reachable_inv(1) [OF accept_reachable_client [OF assms]] by simp
  from permits_return [OF this] obtain s' w' where
    run: "(accept_step E Q T S N R drop_attempt)\<^sup>*\<^sup>* (s, w) (s', w')" and free: "permits_held s' = 0" by blast
  have "validate_bounds (cl_config (as_client s')) = Ok ()"
    using accept_reachable_bound(2) [OF accept_reachable_steps [OF assms run]]
    by (auto simp: config_validate_def and_then_Ok_iff split: if_splits)
  then have "try_acquire_owned s'" by (simp add: try_acquire_owned_def free validate_bounds_Ok_iff)
  with run free show ?thesis by blast
qed

theorem permits_become_free_witness:
  "permits_held (demo_handshake_at [] admitted_client) = 1 \<and>
   (\<exists>s' w'. demo_accept_step\<^sup>*\<^sup>* (demo_handshake_at [] admitted_client, 40) (s', w') \<and> permits_held s' = 0)"
proof
  show "permits_held (demo_handshake_at [] admitted_client) = 1"
    by (simp add: permits_held_def demo_handshake_at_def accept_start_def admitted_client_def)
  show "\<exists>s' w'. demo_accept_step\<^sup>*\<^sup>* (demo_handshake_at [] admitted_client, 40) (s', w') \<and> permits_held s' = 0"
    using permits_become_free [OF demo_accept_reachable] by blast
qed

end
