(* ===== verification/Pending_Notify.thy ===== *)
theory Pending_Notify
  imports Pending_Queue
begin

text \<open>
  Waiting for a Hello (\<open>PendingQueue\<close> of \<open>crates/client/src/v1_peer.rs\<close> with its \<open>Notify\<close>): the
  calls of \<open>next\<close> as tasks that create a notification future, look at the queue under its lock, and
  poll the future; the operations that change the queue under the lock and notify after it. The
  \<open>Notify\<close> of tokio is the record \<open>notify_api\<close>.
\<close>

section \<open>Notify\<close>

text \<open>A \<open>Notified\<close> future is named by a number.\<close>

record 'n notify_api =
  nt_notified :: "'n \<Rightarrow> nat \<times> 'n"
  nt_poll :: "nat \<Rightarrow> 'n \<Rightarrow> bool \<times> 'n"
  nt_drop :: "nat \<Rightarrow> 'n \<Rightarrow> 'n"
  nt_notify_one :: "'n \<Rightarrow> 'n"
  nt_notify_waiters :: "'n \<Rightarrow> 'n"

text \<open>
  What tokio documents of it, in terms of four observations: whether a permit is stored, the
  futures created and not yet polled, those polled and waiting in their order, and those notified.
\<close>

record notify_view =
  nv_permit :: bool
  nv_created :: "nat list"
  nv_waiting :: "nat list"
  nv_notified :: "nat list"

definition nv_futures :: "notify_view \<Rightarrow> nat set" where
  "nv_futures v = set (nv_created v) \<union> set (nv_waiting v) \<union> set (nv_notified v)"

text \<open>\<open>notify_one\<close> wakes the first waiting future; without one it stores a permit, and at most one.\<close>

definition view_notify_one :: "notify_view \<Rightarrow> notify_view" where
  "view_notify_one v =
     (case nv_waiting v of
        [] \<Rightarrow> v\<lparr>nv_permit := True\<rparr>
      | f # fs \<Rightarrow> v\<lparr>nv_waiting := fs, nv_notified := nv_notified v @ [f]\<rparr>)"

text \<open>\<open>notify_waiters\<close> notifies every future that exists, polled or not, and stores no permit.\<close>

definition view_notify_waiters :: "notify_view \<Rightarrow> notify_view" where
  "view_notify_waiters v =
     v\<lparr>nv_created := [], nv_waiting := [], nv_notified := nv_notified v @ nv_waiting v @ nv_created v\<rparr>"

definition view_ready :: "notify_view \<Rightarrow> nat \<Rightarrow> bool" where
  "view_ready v f = (f \<in> set (nv_notified v) \<or> nv_permit v \<and> f \<in> set (nv_created v))"

definition view_without :: "nat \<Rightarrow> notify_view \<Rightarrow> notify_view" where
  "view_without f v =
     v\<lparr>nv_created := removeAll f (nv_created v), nv_waiting := removeAll f (nv_waiting v),
       nv_notified := removeAll f (nv_notified v)\<rparr>"

text \<open>
  A future that completes takes the permit along when it was not notified itself; whether a
  notified one leaves it is not documented. One that does not complete waits from then on. A dropped
  future leaves its place; what happens to a notification it had received is left open.
\<close>

definition poll_outcome :: "notify_view \<Rightarrow> nat \<Rightarrow> bool \<Rightarrow> notify_view \<Rightarrow> bool" where
  "poll_outcome v f done v' =
     (done = view_ready v f \<and>
      (if \<not> done
       then v' = (if f \<in> set (nv_created v)
                  then (view_without f v)\<lparr>nv_waiting := nv_waiting (view_without f v) @ [f]\<rparr> else v)
       else if f \<in> set (nv_notified v)
       then v' \<in> {view_without f v, (view_without f v)\<lparr>nv_permit := False\<rparr>}
       else v' = (view_without f v)\<lparr>nv_permit := False\<rparr>))"

definition notify_law :: "'n notify_api \<Rightarrow> ('n \<Rightarrow> notify_view) \<Rightarrow> bool" where
  "notify_law A view =
     (\<forall>n f. fst (nt_notified A n) \<notin> nv_futures (view n) \<and>
        view (snd (nt_notified A n)) = (view n)\<lparr>nv_created := nv_created (view n) @ [fst (nt_notified A n)]\<rparr> \<and>
        view (nt_notify_one A n) = view_notify_one (view n) \<and>
        view (nt_notify_waiters A n) = view_notify_waiters (view n) \<and>
        poll_outcome (view n) f (fst (nt_poll A f n)) (view (snd (nt_poll A f n))) \<and>
        nv_futures (view (nt_drop A f n)) = nv_futures (view n) - {f} \<and>
        (f \<notin> set (nv_notified (view n)) \<longrightarrow> view (nt_drop A f n) = view_without f (view n)))"

section \<open>Tasks around the queue\<close>

text \<open>
  A call of \<open>next\<close>: outside, at the head of its loop, with its future created, with the queue seen
  empty and open, or asleep on the future.
\<close>

datatype next_phase = Idle | Looping | Created nat | Checked nat | Sleeping nat

text \<open>A notification that an operation still has to send after it released the lock.\<close>

datatype due_notification = NotifyOne | NotifyWaiters

record ('s, 'r, 'c, 'n) notify_state =
  ns_queue :: "('s, 'r, 'c) pending_queue"
  ns_notify :: 'n
  ns_due :: "due_notification list"
  ns_callers :: "next_phase list"

definition set_phase :: "nat \<Rightarrow> next_phase \<Rightarrow> ('s, 'r, 'c, 'n) notify_state \<Rightarrow> ('s, 'r, 'c, 'n) notify_state" where
  "set_phase i phase s = s\<lparr>ns_callers := (ns_callers s)[i := phase]\<rparr>"

text \<open>The three parts of the loop of \<open>next\<close>, by the caller with number \<open>i\<close> and future \<open>f\<close>.\<close>

definition next_create :: "'n notify_api \<Rightarrow> nat \<Rightarrow> ('s, 'r, 'c, 'n) notify_state \<Rightarrow> ('s, 'r, 'c, 'n) notify_state" where
  "next_create A i s =
     (let (f, n) = nt_notified A (ns_notify s) in set_phase i (Created f) (s\<lparr>ns_notify := n\<rparr>))"

definition next_check ::
  "'n notify_api \<Rightarrow> instant \<Rightarrow> nat \<Rightarrow> nat \<Rightarrow> ('s, 'r, 'c, 'n) notify_state \<Rightarrow>
   ('s, 'r, 'c) incoming_v1 cresult option \<times> ('s, 'r, 'c, 'n) notify_state" where
  "next_check A now i f s =
     (let (answer, dropped, q) = pq_next now (ns_queue s)
      in case answer of
           Some result \<Rightarrow> (Some result,
             set_phase i Idle (s\<lparr>ns_queue := q, ns_notify := nt_drop A f (ns_notify s)\<rparr>))
         | None \<Rightarrow> (None, set_phase i (Checked f) (s\<lparr>ns_queue := q\<rparr>)))"

definition next_poll ::
  "'n notify_api \<Rightarrow> nat \<Rightarrow> nat \<Rightarrow> ('s, 'r, 'c, 'n) notify_state \<Rightarrow> ('s, 'r, 'c, 'n) notify_state" where
  "next_poll A i f s =
     (let (done, n) = nt_poll A f (ns_notify s)
      in set_phase i (if done then Looping else Sleeping f) (s\<lparr>ns_notify := n\<rparr>))"

text \<open>The parts of \<open>insert\<close>, \<open>expire\<close> and \<open>close\<close> under the lock, and the call after it.\<close>

definition insert_locked ::
  "string \<Rightarrow> ('s, 'r, 'c) incoming_v1 \<Rightarrow> instant \<Rightarrow> ('s, 'r, 'c, 'n) notify_state \<Rightarrow>
   unit cresult \<times> ('s, 'r, 'c, 'n) notify_state" where
  "insert_locked key inc now s =
     (let (result, dropped, q) = pq_insert key inc now (ns_queue s)
      in (result, s\<lparr>ns_queue := q,
            ns_due := (case result of Ok _ \<Rightarrow> ns_due s @ [NotifyOne] | Err _ \<Rightarrow> ns_due s)\<rparr>))"

definition expire_locked :: "string \<Rightarrow> ('s, 'r, 'c, 'n) notify_state \<Rightarrow> ('s, 'r, 'c, 'n) notify_state" where
  "expire_locked key s =
     s\<lparr>ns_queue := snd (pq_expire key (ns_queue s)), ns_due := ns_due s @ [NotifyWaiters]\<rparr>"

definition close_locked :: "('s, 'r, 'c, 'n) notify_state \<Rightarrow> ('s, 'r, 'c, 'n) notify_state" where
  "close_locked s =
     s\<lparr>ns_queue := snd (pq_close (ns_queue s)), ns_due := ns_due s @ [NotifyWaiters]\<rparr>"

fun notify_with :: "'n notify_api \<Rightarrow> due_notification \<Rightarrow> 'n \<Rightarrow> 'n" where
  "notify_with A NotifyOne n = nt_notify_one A n"
| "notify_with A NotifyWaiters n = nt_notify_waiters A n"

definition send_notification ::
  "'n notify_api \<Rightarrow> nat \<Rightarrow> ('s, 'r, 'c, 'n) notify_state \<Rightarrow> ('s, 'r, 'c, 'n) notify_state" where
  "send_notification A j s =
     s\<lparr>ns_notify := notify_with A (ns_due s ! j) (ns_notify s),
       ns_due := take j (ns_due s) @ drop (Suc j) (ns_due s)\<rparr>"

section \<open>Steps\<close>

text \<open>
  Any number of callers; between any two parts other tasks run. A call can be dropped by its
  caller at any await.
\<close>

fun phase_future :: "next_phase \<Rightarrow> nat option" where
  "phase_future (Created f) = Some f"
| "phase_future (Checked f) = Some f"
| "phase_future (Sleeping f) = Some f"
| "phase_future _ = None"

definition next_cancel :: "'n notify_api \<Rightarrow> nat \<Rightarrow> ('s, 'r, 'c, 'n) notify_state \<Rightarrow> ('s, 'r, 'c, 'n) notify_state" where
  "next_cancel A i s =
     set_phase i Idle (case phase_future (ns_callers s ! i) of
        None \<Rightarrow> s | Some f \<Rightarrow> s\<lparr>ns_notify := nt_drop A f (ns_notify s)\<rparr>)"

inductive notify_step ::
  "'n notify_api \<Rightarrow> ('s, 'r, 'c, 'n) notify_state \<Rightarrow> ('s, 'r, 'c, 'n) notify_state \<Rightarrow> bool" for A where
  call: "i < length (ns_callers s) \<Longrightarrow> ns_callers s ! i = Idle \<Longrightarrow> notify_step A s (set_phase i Looping s)"
| create: "i < length (ns_callers s) \<Longrightarrow> ns_callers s ! i = Looping \<Longrightarrow> notify_step A s (next_create A i s)"
| check: "i < length (ns_callers s) \<Longrightarrow> ns_callers s ! i = Created f \<Longrightarrow>
    next_check A now i f s = (answer, s') \<Longrightarrow> notify_step A s s'"
| poll: "i < length (ns_callers s) \<Longrightarrow> ns_callers s ! i = Checked f \<or> ns_callers s ! i = Sleeping f \<Longrightarrow>
    notify_step A s (next_poll A i f s)"
| cancel: "i < length (ns_callers s) \<Longrightarrow> notify_step A s (next_cancel A i s)"
| insert: "insert_locked key inc now s = (result, s') \<Longrightarrow> notify_step A s s'"
| expire: "notify_step A s (expire_locked key s)"
| close: "notify_step A s (close_locked s)"
| send: "j < length (ns_due s) \<Longrightarrow> notify_step A s (send_notification A j s)"

inductive_cases notify_stepE: "notify_step A s s'"

definition notify_init :: "nat \<Rightarrow> nat \<Rightarrow> 'n \<Rightarrow> nat \<Rightarrow> ('s, 'r, 'c, 'n) notify_state" where
  "notify_init capacity per_identity n callers =
     \<lparr>ns_queue = pq_new capacity per_identity, ns_notify = n, ns_due = [], ns_callers = replicate callers Idle\<rparr>"

section \<open>The laws as facts\<close>

lemma futures_simps [simp]:
  "nv_futures (v\<lparr>nv_permit := b\<rparr>) = nv_futures v"
  "nv_futures (view_without f v) = nv_futures v - {f}"
  "nv_futures (v\<lparr>nv_created := nv_created v @ [f]\<rparr>) = insert f (nv_futures v)"
  "nv_futures (v\<lparr>nv_waiting := nv_waiting v @ [f]\<rparr>) = insert f (nv_futures v)"
  by (auto simp: nv_futures_def view_without_def)

lemma notified_futures:
  "nv_futures (view_notify_one v) = nv_futures v" "nv_futures (view_notify_waiters v) = nv_futures v"
  by (auto simp: nv_futures_def view_notify_one_def view_notify_waiters_def split: list.splits)

lemma created_in_futures: "f \<in> set (nv_created v) \<Longrightarrow> f \<in> nv_futures v"
  by (simp add: nv_futures_def)

lemma poll_outcome_futures:
  "poll_outcome v f done v' \<Longrightarrow> nv_futures v' = (if done then nv_futures v - {f} else nv_futures v)"
  using created_in_futures [of f v] by (auto simp: poll_outcome_def split: if_splits)

lemma notified_law:
  "notify_law A view \<Longrightarrow> nt_notified A n = (f, n') \<Longrightarrow>
    f \<notin> nv_futures (view n) \<and> view n' = (view n)\<lparr>nv_created := nv_created (view n) @ [f]\<rparr>"
  unfolding notify_law_def by (metis fst_conv snd_conv)

lemma notify_with_law:
  "notify_law A view \<Longrightarrow> view (notify_with A d n) =
    (case d of NotifyOne \<Rightarrow> view_notify_one (view n) | NotifyWaiters \<Rightarrow> view_notify_waiters (view n))"
  unfolding notify_law_def by (cases d) simp_all

lemma drop_law: "notify_law A view \<Longrightarrow> nv_futures (view (nt_drop A f n)) = nv_futures (view n) - {f}"
  unfolding notify_law_def by blast

lemma drop_created_law:
  "notify_law A view \<Longrightarrow> f \<notin> set (nv_notified (view n)) \<Longrightarrow> view (nt_drop A f n) = view_without f (view n)"
  unfolding notify_law_def by blast

lemma poll_law: "notify_law A view \<Longrightarrow> nt_poll A f n = (done, n') \<Longrightarrow> poll_outcome (view n) f done (view n')"
  unfolding notify_law_def by (metis fst_conv snd_conv)

text \<open>Any notification reaches a future that is alone.\<close>

lemma sole_future_notified:
  assumes "nv_futures v = {f}"
  shows "view_ready (view_notify_one v) f" and "view_ready (view_notify_waiters v) f"
proof -
  have "f \<in> set (nv_created v) \<or> f \<in> set (nv_waiting v) \<or> f \<in> set (nv_notified v)" "set (nv_waiting v) \<subseteq> {f}"
    using assms by (auto simp: nv_futures_def)
  then show "view_ready (view_notify_one v) f" "view_ready (view_notify_waiters v) f"
    by (auto simp: view_ready_def view_notify_one_def view_notify_waiters_def split: list.splits)
qed

section \<open>One caller\<close>

definition actionable :: "('s, 'r, 'c) pending_queue \<Rightarrow> bool" where
  "actionable q = (pq_entries q \<noteq> [] \<or> pq_closed q)"

text \<open>
  The future of the only caller is the only one, and while it waits for one, a queue that has
  something to answer has a notification under way or delivered.
\<close>

definition sole_caller :: "('n \<Rightarrow> notify_view) \<Rightarrow> ('s, 'r, 'c, 'n) notify_state \<Rightarrow> bool" where
  "sole_caller view s =
     (pq_inv (ns_queue s) \<and>
      (\<exists>phase. ns_callers s = [phase] \<and>
         nv_futures (view (ns_notify s)) = set_option (phase_future phase) \<and>
         (\<forall>f. phase \<in> {Checked f, Sleeping f} \<longrightarrow> actionable (ns_queue s) \<longrightarrow>
            ns_due s \<noteq> [] \<or> view_ready (view (ns_notify s)) f)))"

lemma pq_next_waits:
  assumes "pq_inv q" and "pq_next now q = (None, dropped, q')"
  shows "\<not> actionable q'"
proof -
  note ok = pq_next_ok [OF assms]
  then have "pq_view q' = []" "\<not> pq_closed q'"
    by (auto simp: fifo_next_def same_limits_def split: list.splits if_splits)
  then show ?thesis using ok pq_view_length [of q'] by (simp add: actionable_def)
qed

lemma pq_insert_refused:
  assumes "pq_inv q" and "pq_insert key inc now q = (Err e, dropped, q')" and "actionable q'"
  shows "actionable q"
proof -
  note ok = pq_insert_ok [OF assms(1,2)]
  have "pq_view q' = live_entries now (pq_view q)"
    using ok by (auto simp: fifo_insert_def Let_def split: if_splits)
  moreover have "pq_closed q' = pq_closed q" using ok by (simp add: same_limits_def)
  ultimately show ?thesis
    using assms(3) ok pq_view_length [of q'] pq_view_length [OF assms(1)]
    by (auto simp: actionable_def live_entries_def)
qed

lemma sole_caller_init: "nv_futures (view n) = {} \<Longrightarrow> sole_caller view (notify_init a b n 1)"
  by (simp add: sole_caller_def notify_init_def pq_new_inv)

text \<open>The invariant over the parts of a caller, and over the operations of other tasks.\<close>

lemma sole_caller_phase:
  "sole_caller view s \<Longrightarrow> i < length (ns_callers s) \<Longrightarrow> i = 0 \<and> ns_callers s = [ns_callers s ! 0]"
  by (auto simp: sole_caller_def)

lemma sole_create:
  assumes "notify_law A view" and "sole_caller view s" and "ns_callers s = [Looping]"
  shows "sole_caller view (next_create A 0 s)"
proof -
  obtain f n where f: "nt_notified A (ns_notify s) = (f, n)" by fastforce
  show ?thesis
    using notified_law [OF assms(1) f] assms(2,3) f
    by (simp add: sole_caller_def next_create_def set_phase_def)
qed

lemma sole_check:
  assumes "notify_law A view" and "sole_caller view s" and "ns_callers s = [Created f]"
    and "next_check A now 0 f s = (answer, s')"
  shows "sole_caller view s'"
proof -
  obtain r dropped q where q: "pq_next now (ns_queue s) = (r, dropped, q)" by (metis prod.exhaust)
  have inv: "pq_inv (ns_queue s)" using assms(2) by (simp add: sole_caller_def)
  note ok = pq_next_ok [OF inv q]
  show ?thesis
  proof (cases r)
    case None
    then have "\<not> actionable q" using pq_next_waits inv q by blast
    then show ?thesis using assms None q ok by (auto simp: sole_caller_def next_check_def set_phase_def)
  next
    case (Some result)
    then show ?thesis
      using assms q ok drop_law [OF assms(1)]
      by (auto simp: sole_caller_def next_check_def set_phase_def)
  qed
qed

lemma sole_poll:
  assumes "notify_law A view" and "sole_caller view s"
    and "ns_callers s = [Checked f] \<or> ns_callers s = [Sleeping f]"
  shows "sole_caller view (next_poll A 0 f s)"
proof -
  obtain d n where d: "nt_poll A f (ns_notify s) = (d, n)" by fastforce
  note out = poll_law [OF assms(1) d]
  have "nv_futures (view n) = (if d then {} else {f})"
    using poll_outcome_futures [OF out] assms(2,3) by (auto simp: sole_caller_def)
  moreover have "\<not> d \<Longrightarrow> actionable (ns_queue s) \<Longrightarrow> ns_due s \<noteq> []"
    using out assms(2,3) by (auto simp: sole_caller_def poll_outcome_def)
  ultimately show ?thesis
    using assms(2,3) d by (auto simp: sole_caller_def next_poll_def set_phase_def)
qed

lemma sole_cancel:
  assumes "notify_law A view" and "sole_caller view s"
  shows "sole_caller view (next_cancel A 0 s)"
  using assms(2) drop_law [OF assms(1)]
  by (auto simp: sole_caller_def next_cancel_def set_phase_def split: option.splits)

lemma sole_insert:
  assumes "sole_caller view s" and "insert_locked key inc now s = (result, s')"
  shows "sole_caller view s'"
proof -
  obtain r dropped q where q: "pq_insert key inc now (ns_queue s) = (r, dropped, q)" by (metis prod.exhaust)
  have inv: "pq_inv (ns_queue s)" using assms(1) by (simp add: sole_caller_def)
  have "pq_inv q" using pq_insert_ok [OF inv q] by simp
  then show ?thesis
    using assms q pq_insert_refused [OF inv]
    by (cases r) (fastforce simp: sole_caller_def insert_locked_def)+
qed

lemma sole_expire_close:
  assumes "sole_caller view s"
  shows "sole_caller view (expire_locked key s)" and "sole_caller view (close_locked s)"
proof -
  have inv: "pq_inv (ns_queue s)" using assms by (simp add: sole_caller_def)
  have "pq_inv (snd (pq_expire key (ns_queue s)))" "pq_inv (snd (pq_close (ns_queue s)))"
    using pq_expire_ok [OF inv] pq_close_ok [OF inv] by (metis prod.collapse)+
  then show "sole_caller view (expire_locked key s)" "sole_caller view (close_locked s)"
    using assms by (auto simp: sole_caller_def expire_locked_def close_locked_def)
qed

lemma sole_send:
  assumes "notify_law A view" and "sole_caller view s"
  shows "sole_caller view (send_notification A j s)"
proof -
  let ?v = "view (notify_with A (ns_due s ! j) (ns_notify s))"
  have fut: "nv_futures ?v = nv_futures (view (ns_notify s))"
    unfolding notify_with_law [OF assms(1)] by (simp add: notified_futures split: due_notification.splits)
  have "view_ready ?v f" if "nv_futures (view (ns_notify s)) = {f}" for f
    unfolding notify_with_law [OF assms(1)]
    using sole_future_notified [OF that] by (simp split: due_notification.splits)
  then show ?thesis using assms(2) fut by (auto simp: sole_caller_def send_notification_def)
qed

lemma sole_step:
  assumes "notify_law A view" and "notify_step A s s'" and "sole_caller view s"
  shows "sole_caller view s'"
  using assms(2)
proof (cases rule: notify_step.cases)
  case (call i)
  then show ?thesis using assms(3) by (auto simp: sole_caller_def set_phase_def)
next
  case (create i)
  then show ?thesis using sole_create [OF assms(1,3)] sole_caller_phase [OF assms(3)] by metis
next
  case (check i f now answer)
  then show ?thesis using sole_check [OF assms(1,3)] sole_caller_phase [OF assms(3)] by metis
next
  case (poll i f)
  then show ?thesis using sole_poll [OF assms(1,3)] sole_caller_phase [OF assms(3)] by metis
next
  case (cancel i)
  then show ?thesis using sole_cancel [OF assms(1,3)] sole_caller_phase [OF assms(3)] by metis
next
  case (insert key inc now result)
  then show ?thesis using sole_insert [OF assms(3)] by blast
qed (use sole_expire_close [OF assms(3)] sole_send [OF assms(1,3)] in simp_all)

lemma sole_steps:
  "(notify_step A)\<^sup>*\<^sup>* s s' \<Longrightarrow> notify_law A view \<Longrightarrow> sole_caller view s \<Longrightarrow> sole_caller view s'"
  by (induction rule: rtranclp_induct) (auto intro: sole_step)

section \<open>Waking up\<close>

text \<open>The sleeping caller is polled and goes once around its loop.\<close>

definition wake_up ::
  "'n notify_api \<Rightarrow> instant \<Rightarrow> nat \<Rightarrow> nat \<Rightarrow> ('s, 'r, 'c, 'n) notify_state \<Rightarrow>
   ('s, 'r, 'c) incoming_v1 cresult option \<times> ('s, 'r, 'c, 'n) notify_state" where
  "wake_up A now i f s =
     (let s1 = next_poll A i f s
      in if ns_callers s1 ! i \<noteq> Looping then (None, s1)
         else let s2 = next_create A i s1
              in (case ns_callers s2 ! i of Created g \<Rightarrow> next_check A now i g s2 | _ \<Rightarrow> (None, s2)))"

lemma sole_caller_wakes:
  assumes "notify_law A view" and "sole_caller view s" and "ns_callers s = [Sleeping f]"
    and "ns_due s = []" and "actionable (ns_queue s)"
  shows "fst (nt_poll A f (ns_notify s))"
    and "fst (wake_up A now 0 f s) = fst (fifo_next now (pq_closed (ns_queue s)) (pq_view (ns_queue s)))"
proof -
  obtain d n where d: "nt_poll A f (ns_notify s) = (d, n)" by fastforce
  have "view_ready (view (ns_notify s)) f" using assms(2-5) by (auto simp: sole_caller_def)
  then have yes: "d" using poll_law [OF assms(1) d] by (simp add: poll_outcome_def)
  then show "fst (nt_poll A f (ns_notify s))" using d by simp
  obtain g n' where g: "nt_notified A n = (g, n')" by fastforce
  obtain r dropped q where q: "pq_next now (ns_queue s) = (r, dropped, q)" by (metis prod.exhaust)
  have "fst (wake_up A now 0 f s) = r"
    using d yes g q assms(3)
    by (auto simp: wake_up_def next_poll_def next_create_def next_check_def set_phase_def Let_def split: option.splits)
  moreover have "fst (fifo_next now (pq_closed (ns_queue s)) (pq_view (ns_queue s))) = r"
    using pq_next_ok [OF _ q] assms(2) by (simp add: sole_caller_def)
  ultimately show "fst (wake_up A now 0 f s) = fst (fifo_next now (pq_closed (ns_queue s)) (pq_view (ns_queue s)))"
    by simp
qed

section \<open>Two callers\<close>

text \<open>
  Both callers saw the empty queue and have not polled their futures when two Hellos are queued:
  the two notifications leave one permit, the first caller takes it and one Hello, and the second
  sleeps although a Hello waits.
\<close>

abbreviation nstate where
  "nstate q n due callers \<equiv> \<lparr>ns_queue = q, ns_notify = n, ns_due = due, ns_callers = callers\<rparr>"

lemma nstate_steps:
  assumes "i < length cs"
  shows "cs ! i = Idle \<Longrightarrow> notify_step A (nstate q n d cs) (nstate q n d (cs[i := Looping]))"
    and "cs ! i = Looping \<Longrightarrow> nt_notified A n = (f, n') \<Longrightarrow>
      notify_step A (nstate q n d cs) (nstate q n' d (cs[i := Created f]))"
    and "cs ! i = Created f \<Longrightarrow> pq_next now q = (None, dropped, q') \<Longrightarrow>
      notify_step A (nstate q n d cs) (nstate q' n d (cs[i := Checked f]))"
    and "cs ! i = Created f \<Longrightarrow> pq_next now q = (Some r, dropped, q') \<Longrightarrow>
      notify_step A (nstate q n d cs) (nstate q' (nt_drop A f n) d (cs[i := Idle]))"
    and "cs ! i = Checked f \<Longrightarrow> nt_poll A f n = (b, n') \<Longrightarrow>
      notify_step A (nstate q n d cs) (nstate q n' d (cs[i := if b then Looping else Sleeping f]))"
  using notify_step.call [of i "nstate q n d cs" A] notify_step.create [of i "nstate q n d cs" A]
    notify_step.check [of i "nstate q n d cs" f A now] notify_step.poll [of i "nstate q n d cs" f A] assms
  by (simp_all add: set_phase_def next_create_def next_check_def next_poll_def)

lemma nstate_insert:
  "pq_insert key inc now q = (Ok u, dropped, q') \<Longrightarrow>
   notify_step A (nstate q n d cs) (nstate q' n (d @ [NotifyOne]) cs)"
  by (rule notify_step.insert [where key = key and inc = inc and now = now]) (simp add: insert_locked_def)

lemma nstate_send: "notify_step A (nstate q n (x # d) cs) (nstate q (notify_with A x n) d cs)"
  using notify_step.send [of 0 "nstate q n (x # d) cs" A] by (simp add: send_notification_def)

lemma pq_next_of_view:
  assumes "pq_inv q" and "pq_view q = xs" and "\<not> pq_closed q" and "live_entries now xs = xs"
  obtains dropped q' where "pq_next now q = (case xs of [] \<Rightarrow> None | (k, inc) # _ \<Rightarrow> Some (Ok inc), dropped, q')"
    "pq_inv q'" "pq_view q' = tl xs" "\<not> pq_closed q'" "same_limits q q'"
proof -
  obtain r dropped q' where q: "pq_next now q = (r, dropped, q')" by (metis prod.exhaust)
  note ok = pq_next_ok [OF assms(1) q]
  have "r = (case xs of [] \<Rightarrow> None | (k, inc) # _ \<Rightarrow> Some (Ok inc))" "pq_view q' = tl xs"
    using ok assms by (auto simp: fifo_next_def split: list.splits)
  then show ?thesis using that q ok assms(3) by (simp add: same_limits_def)
qed

lemma pq_insert_of_view:
  assumes "pq_inv q" and "pq_view q = xs" and "\<not> pq_closed q" and "live_entries now xs = xs"
    and "key \<notin> fst ` set xs" and "length xs < pq_capacity q" and "length xs < pq_per_identity_capacity q"
  obtains dropped q' where "pq_insert key inc now q = (Ok (), dropped, q')"
    "pq_inv q'" "pq_view q' = xs @ [(key, inc)]" "\<not> pq_closed q'" "same_limits q q'"
proof -
  obtain r dropped q' where q: "pq_insert key inc now q = (r, dropped, q')" by (metis prod.exhaust)
  note ok = pq_insert_ok [OF assms(1) q]
  have "identity_pending (incoming_identity inc) xs \<le> length xs" by (simp add: identity_pending_def)
  then have "r = Ok ()" "pq_view q' = xs @ [(key, inc)]"
    using ok assms by (auto simp: fifo_insert_def Let_def)
  then show ?thesis using that q ok assms(3) by (simp add: same_limits_def)
qed

text \<open>What the law says along this run, beginning with a \<open>Notify\<close> without futures and permit.\<close>

lemma two_futures_one_permit:
  assumes "notify_law A view" and "view n0 = \<lparr>nv_permit = False, nv_created = [], nv_waiting = [], nv_notified = []\<rparr>"
  obtains f g n1 n2 n3 h n4 n5 where "nt_notified A n0 = (f, n1)" "nt_notified A n1 = (g, n2)"
    "nt_poll A f (nt_notify_one A (nt_notify_one A n2)) = (True, n3)" "nt_notified A n3 = (h, n4)"
    "nt_poll A g (nt_drop A h n4) = (False, n5)" "\<not> fst (nt_poll A g n5)"
proof -
  note law = notified_law [OF assms(1)] and one = notify_with_law [OF assms(1), of NotifyOne]
    and poll = poll_law [OF assms(1)]
  obtain f n1 where f: "nt_notified A n0 = (f, n1)" by fastforce
  obtain g n2 where g: "nt_notified A n1 = (g, n2)" by fastforce
  let ?n = "nt_notify_one A (nt_notify_one A n2)"
  obtain b n3 where b: "nt_poll A f ?n = (b, n3)" by fastforce
  obtain h n4 where h: "nt_notified A n3 = (h, n4)" by fastforce
  obtain c n5 where c: "nt_poll A g (nt_drop A h n4) = (c, n5)" by fastforce
  have v1: "view n1 = \<lparr>nv_permit = False, nv_created = [f], nv_waiting = [], nv_notified = []\<rparr>"
    using law [OF f] assms(2) by simp
  then have fg: "f \<noteq> g" and "view n2 = \<lparr>nv_permit = False, nv_created = [f, g], nv_waiting = [], nv_notified = []\<rparr>"
    using law [OF g] by (simp_all add: nv_futures_def)
  then have "view ?n = \<lparr>nv_permit = True, nv_created = [f, g], nv_waiting = [], nv_notified = []\<rparr>"
    using one by (simp add: view_notify_one_def)
  then have b': "b" and v3: "view n3 = \<lparr>nv_permit = False, nv_created = [g], nv_waiting = [], nv_notified = []\<rparr>"
    using poll [OF b] fg by (auto simp: poll_outcome_def view_ready_def view_without_def)
  have hg: "h \<noteq> g" and v4: "view n4 = \<lparr>nv_permit = False, nv_created = [g, h], nv_waiting = [], nv_notified = []\<rparr>"
    using law [OF h] v3 by (auto simp: nv_futures_def)
  have "view (nt_drop A h n4) = \<lparr>nv_permit = False, nv_created = [g], nv_waiting = [], nv_notified = []\<rparr>"
    using drop_created_law [OF assms(1), of h n4] v4 hg by (simp add: view_without_def)
  then have c': "\<not> c" and v5: "view n5 = \<lparr>nv_permit = False, nv_created = [], nv_waiting = [g], nv_notified = []\<rparr>"
    using poll [OF c] by (auto simp: poll_outcome_def view_ready_def view_without_def split: if_splits)
  obtain d n6 where d: "nt_poll A g n5 = (d, n6)" by fastforce
  have "\<not> d" using poll [OF d] v5 by (simp add: poll_outcome_def view_ready_def)
  then show ?thesis using that f g b b' h c c' d by simp
qed

text \<open>What the queue does along it: two looks at the empty queue, two insertions, one taking.\<close>

definition queue_run ::
  "instant \<Rightarrow> string \<Rightarrow> ('s, 'r, 'c) incoming_v1 \<Rightarrow> string \<Rightarrow> ('s, 'r, 'c) incoming_v1 \<Rightarrow>
   ('s, 'r, 'c) pending_queue list \<Rightarrow> bool" where
  "queue_run now k1 inc1 k2 inc2 qs =
     (case qs of
        [q0, q1, q2, q3, q4, q5] \<Rightarrow>
          (\<exists>d. pq_next now q0 = (None, d, q1)) \<and> (\<exists>d. pq_next now q1 = (None, d, q2)) \<and>
          (\<exists>d. pq_insert k1 inc1 now q2 = (Ok (), d, q3)) \<and> (\<exists>d. pq_insert k2 inc2 now q3 = (Ok (), d, q4)) \<and>
          (\<exists>d. pq_next now q4 = (Some (Ok inc1), d, q5)) \<and>
          pq_view q5 = [(k2, inc2)] \<and> \<not> pq_closed q5
      | _ \<Rightarrow> False)"

lemma queue_run_exists:
  fixes inc1 inc2 :: "('s, 'r, 'c) incoming_v1"
  assumes limits: "2 \<le> capacity" "2 \<le> per_identity" and keys: "k1 \<noteq> k2"
    and live: "incoming_live now inc1" "incoming_live now inc2"
  shows "\<exists>q1 q2 q3 q4 q5. queue_run now k1 inc1 k2 inc2 [pq_new capacity per_identity, q1, q2, q3, q4, q5]"
proof -
  let ?q0 = "pq_new capacity per_identity :: ('s, 'r, 'c) pending_queue"
  have l: "live_entries now [] = []" "live_entries now [(k1, inc1)] = [(k1, inc1)]"
    "live_entries now [(k1, inc1), (k2, inc2)] = [(k1, inc1), (k2, inc2)]"
    using live by (simp_all add: live_entries_def)
  have "pq_view ?q0 = []" "\<not> pq_closed ?q0" by (simp_all add: pq_new_def pq_view_def)
  then obtain d1 q1 where q1: "pq_next now ?q0 = (None, d1, q1)" "pq_inv q1" "pq_view q1 = []" "\<not> pq_closed q1"
    "same_limits ?q0 q1"
    using pq_next_of_view [OF pq_new_inv _ _ l(1)] by (metis list.case(1) list.sel(2))
  obtain d2 q2 where q2: "pq_next now q1 = (None, d2, q2)" "pq_inv q2" "pq_view q2 = []" "\<not> pq_closed q2"
    "same_limits q1 q2"
    using pq_next_of_view [OF q1(2-4) l(1)] by (metis list.case(1) list.sel(2))
  have cap: "pq_capacity q2 = capacity" "pq_per_identity_capacity q2 = per_identity"
    using q1(5) q2(5) by (simp_all add: same_limits_def pq_new_def)
  obtain d3 q3 where q3: "pq_insert k1 inc1 now q2 = (Ok (), d3, q3)" "pq_inv q3" "pq_view q3 = [(k1, inc1)]"
    "\<not> pq_closed q3" "same_limits q2 q3"
    using pq_insert_of_view [OF q2(2-4) l(1), of k1 inc1] limits by (auto simp: cap)
  have room: "k2 \<notin> fst ` set [(k1, inc1)]" "length [(k1, inc1)] < pq_capacity q3"
    "length [(k1, inc1)] < pq_per_identity_capacity q3"
    using keys limits cap q3(5) by (simp_all add: same_limits_def)
  obtain d4 q4 where q4: "pq_insert k2 inc2 now q3 = (Ok (), d4, q4)" "pq_inv q4"
    "pq_view q4 = [(k1, inc1), (k2, inc2)]" "\<not> pq_closed q4"
    by (rule pq_insert_of_view [OF q3(2-4) l(2) room, of inc2]) (rule that; simp)
  obtain d5 q5 where q5: "pq_next now q4 = (Some (Ok inc1), d5, q5)" "pq_view q5 = [(k2, inc2)]" "\<not> pq_closed q5"
    by (rule pq_next_of_view [OF q4(2-4) l(3)]) (rule that; simp)
  show ?thesis
    unfolding queue_run_def using q1(1) q2(1) q3(1) q4(1) q5
    by (intro exI [of _ q1] exI [of _ q2] exI [of _ q3] exI [of _ q4] exI [of _ q5]) simp
qed

lemma lost_run:
  assumes q: "queue_run now k1 inc1 k2 inc2 [q0, q1, q2, q3, q4, q5]"
    and n: "nt_notified A n0 = (f, n1)" "nt_notified A n1 = (g, n2)"
    "nt_poll A f (nt_notify_one A (nt_notify_one A n2)) = (True, n3)" "nt_notified A n3 = (h, n4)"
    "nt_poll A g (nt_drop A h n4) = (False, n5)"
  shows "(notify_step A)\<^sup>*\<^sup>* (nstate q0 n0 [] [Idle, Idle]) (nstate q5 n5 [] [Idle, Sleeping g])"
proof -
  let ?step = "notify_step A" and ?n = "nt_notify_one A (nt_notify_one A n2)"
  from q obtain d1 d2 d3 d4 d5 where q: "pq_next now q0 = (None, d1, q1)" "pq_next now q1 = (None, d2, q2)"
    "pq_insert k1 inc1 now q2 = (Ok (), d3, q3)" "pq_insert k2 inc2 now q3 = (Ok (), d4, q4)"
    "pq_next now q4 = (Some (Ok inc1), d5, q5)"
    unfolding queue_run_def by auto
  note st = nstate_steps [where cs = "[_, _]" and A = A, simplified] and on = converse_rtranclp_into_rtranclp [of ?step]
  have called: "?step\<^sup>*\<^sup>* (nstate q0 n0 [] [Idle, Idle]) (nstate q0 n0 [] [Looping, Looping])"
    using on [OF _ on [OF _ rtranclp.rtrancl_refl]] st(1) [of 0 Idle Idle] st(1) [of 1 Looping Idle] by simp blast
  have created: "?step\<^sup>*\<^sup>* (nstate q0 n0 [] [Looping, Looping]) (nstate q0 n2 [] [Created f, Created g])"
    using on [OF _ on [OF _ rtranclp.rtrancl_refl]] st(2) [of 0 Looping Looping, OF _ _ n(1)]
      st(2) [of 1 "Created f" Looping, OF _ _ n(2)] by simp blast
  have checked: "?step\<^sup>*\<^sup>* (nstate q0 n2 [] [Created f, Created g]) (nstate q2 n2 [] [Checked f, Checked g])"
    using on [OF _ on [OF _ rtranclp.rtrancl_refl]] st(3) [of 0 "Created f" "Created g", OF _ _ q(1)]
      st(3) [of 1 "Checked f" "Created g", OF _ _ q(2)] by simp blast
  have inserted: "?step\<^sup>*\<^sup>* (nstate q2 n2 [] [Checked f, Checked g])
      (nstate q4 n2 [NotifyOne, NotifyOne] [Checked f, Checked g])"
    using on [OF _ on [OF _ rtranclp.rtrancl_refl]] nstate_insert [OF q(3), of A n2 "[]"]
      nstate_insert [OF q(4), of A n2 "[NotifyOne]"] by simp blast
  have sent: "?step\<^sup>*\<^sup>* (nstate q4 n2 [NotifyOne, NotifyOne] [Checked f, Checked g])
      (nstate q4 ?n [] [Checked f, Checked g])"
    using on [OF _ on [OF _ rtranclp.rtrancl_refl]] nstate_send [of A _ _ NotifyOne] by simp blast
  have taken: "?step\<^sup>*\<^sup>* (nstate q4 ?n [] [Checked f, Checked g]) (nstate q5 (nt_drop A h n4) [] [Idle, Checked g])"
    using on [OF _ on [OF _ on [OF _ rtranclp.rtrancl_refl]]] st(5) [of 0 "Checked f" "Checked g", OF _ _ n(3)]
      st(2) [of 0 Looping "Checked g", OF _ _ n(4)] st(4) [of 0 "Created h" "Checked g", OF _ _ q(5)] by simp blast
  have "?step (nstate q5 (nt_drop A h n4) [] [Idle, Checked g]) (nstate q5 n5 [] [Idle, Sleeping g])"
    using st(5) [of 1 Idle "Checked g", OF _ _ n(5)] by simp
  with called created checked inserted sent taken show ?thesis
    by (meson rtranclp.rtrancl_into_rtrancl rtranclp_trans)
qed

lemma second_caller_sleeps:
  fixes inc1 inc2 :: "('s, 'r, 'c) incoming_v1"
  assumes "notify_law A view"
    and "view n0 = \<lparr>nv_permit = False, nv_created = [], nv_waiting = [], nv_notified = []\<rparr>"
    and "2 \<le> capacity" "2 \<le> per_identity" "k1 \<noteq> k2" "incoming_live now inc1" "incoming_live now inc2"
  shows "\<exists>s g. (notify_step A)\<^sup>*\<^sup>* (notify_init capacity per_identity n0 2) s \<and>
    ns_callers s = [Idle, Sleeping g] \<and> ns_due s = [] \<and> pq_view (ns_queue s) = [(k2, inc2)] \<and>
    \<not> pq_closed (ns_queue s) \<and> \<not> fst (nt_poll A g (ns_notify s))"
proof -
  obtain f g n1 n2 n3 h n4 n5 where n: "nt_notified A n0 = (f, n1)" "nt_notified A n1 = (g, n2)"
    "nt_poll A f (nt_notify_one A (nt_notify_one A n2)) = (True, n3)" "nt_notified A n3 = (h, n4)"
    "nt_poll A g (nt_drop A h n4) = (False, n5)" "\<not> fst (nt_poll A g n5)"
    by (rule two_futures_one_permit [OF assms(1,2)])
  obtain q1 q2 q3 q4 q5 where q: "queue_run now k1 inc1 k2 inc2 [pq_new capacity per_identity, q1, q2, q3, q4, q5]"
    using queue_run_exists [OF assms(3-7)] by blast
  have "notify_init capacity per_identity n0 2
      = nstate (pq_new capacity per_identity :: ('s, 'r, 'c) pending_queue) n0 [] [Idle, Idle]"
    by (simp add: notify_init_def numeral_2_eq_2)
  moreover have "pq_view q5 = [(k2, inc2)]" "\<not> pq_closed q5" using q by (simp_all add: queue_run_def)
  ultimately show ?thesis
    using lost_run [OF q n(1-5)] n(6)
    by (intro exI [of _ "nstate q5 n5 [] [Idle, Sleeping g]"] exI [of _ g]) simp
qed

end
