(* ===== verification/Notify_Properties.thy ===== *)
theory Notify_Properties
  imports Pending_Notify Client_Demo
begin

text \<open>
  What the wake-ups of the consent queue guarantee: a caller of \<open>next\<close> that is alone is woken for
  every Hello and for the closing of the queue; of two concurrent callers one can sleep on while a
  Hello waits.
\<close>

section \<open>A Notify\<close>

definition demo_notify :: "notify_view notify_api" where
  "demo_notify = \<lparr>
     nt_notified = (\<lambda>v. let f = Suc (sum_list (nv_created v @ nv_waiting v @ nv_notified v))
       in (f, v\<lparr>nv_created := nv_created v @ [f]\<rparr>)),
     nt_poll = (\<lambda>f v.
       if view_ready v f
       then (True, if f \<in> set (nv_notified v) then view_without f v else (view_without f v)\<lparr>nv_permit := False\<rparr>)
       else (False, if f \<in> set (nv_created v)
         then (view_without f v)\<lparr>nv_waiting := nv_waiting (view_without f v) @ [f]\<rparr> else v)),
     nt_drop = view_without, nt_notify_one = view_notify_one, nt_notify_waiters = view_notify_waiters\<rparr>"

definition no_futures :: notify_view where
  "no_futures = \<lparr>nv_permit = False, nv_created = [], nv_waiting = [], nv_notified = []\<rparr>"

lemma demo_notify_law: "notify_law demo_notify (\<lambda>v. v)"
proof -
  have "Suc (sum_list (nv_created v @ nv_waiting v @ nv_notified v)) \<notin> nv_futures v" for v
    using member_le_sum_list [of "Suc (sum_list (nv_created v @ nv_waiting v @ nv_notified v))"
        "nv_created v @ nv_waiting v @ nv_notified v"]
    by (auto simp: nv_futures_def)
  then show ?thesis
    by (simp add: notify_law_def demo_notify_def poll_outcome_def Let_def)
qed

section \<open>Properties\<close>

text \<open>
  C23: no wake-up is lost for a caller that is alone. Whatever other tasks insert, expire or close
  at whatever moment of its loop, and however often its calls were dropped before: when it sleeps
  and every notification was sent, a queue that holds an entry or is closed wakes it, and its next
  round answers the first live Hello, or that the queue is closed.
\<close>

theorem sole_caller_woken:
  assumes "notify_law A view" and "nv_futures (view n0) = {}"
    and "(notify_step A)\<^sup>*\<^sup>* (notify_init capacity per_identity n0 1) s"
    and "ns_callers s = [Sleeping f]" and "ns_due s = []"
    and "pq_entries (ns_queue s) \<noteq> [] \<or> pq_closed (ns_queue s)"
  shows "fst (nt_poll A f (ns_notify s)) \<and>
    fst (wake_up A now 0 f s) =
      (case live_entries now (pq_view (ns_queue s)) of
         (key, inc) # _ \<Rightarrow> Some (Ok inc)
       | [] \<Rightarrow> if pq_closed (ns_queue s) then Some (Err ChannelClosed) else None)"
proof -
  have "sole_caller view s"
    using sole_steps [OF assms(3,1)] sole_caller_init [of view n0 capacity per_identity] assms(2) by simp
  from sole_caller_wakes [OF assms(1) this assms(4,5)] show ?thesis
    using assms(6) by (auto simp: actionable_def fifo_next_def split: list.splits)
qed

text \<open>One caller sleeps, then a Hello is queued and the notification sent.\<close>

lemma demo_woken_run:
  "\<exists>s f. (notify_step demo_notify)\<^sup>*\<^sup>* (notify_init 16 2 no_futures 1) s \<and> ns_callers s = [Sleeping f] \<and>
     ns_due s = [] \<and> pq_view (ns_queue s) = [(replay_key demo_hello, demo_incoming)] \<and>
     pq_entries (ns_queue s) \<noteq> []"
proof -
  let ?step = "notify_step demo_notify"
  define n where "n = (no_futures\<lparr>nv_waiting := [1]\<rparr>)"
  have live: "incoming_live 0 demo_incoming"
    by (simp add: incoming_live_def demo_incoming_def demo_pending_def from_secs_def)
  have n: "nt_notified demo_notify no_futures = (1, no_futures\<lparr>nv_created := [1]\<rparr>)"
    "nt_poll demo_notify 1 (no_futures\<lparr>nv_created := [1]\<rparr>) = (False, n)"
    by (simp_all add: demo_notify_def no_futures_def n_def view_ready_def view_without_def)
  let ?q0 = "pq_new 16 2 :: (bytes, bytes, endpoint_id) pending_queue"
  have q0: "pq_view ?q0 = []" "\<not> pq_closed ?q0" "live_entries 0 [] = []"
    by (simp_all add: pq_new_def pq_view_def live_entries_def)
  obtain d1 q1 where q1: "pq_next 0 ?q0 = (None, d1, q1)" "pq_inv q1" "pq_view q1 = []" "\<not> pq_closed q1"
    "same_limits ?q0 q1"
    by (rule pq_next_of_view [OF pq_new_inv q0]) (rule that; simp)
  have room: "replay_key demo_hello \<notin> fst ` set []" "length [] < pq_capacity q1"
    "length [] < pq_per_identity_capacity q1"
    using q1(5) by (simp_all add: same_limits_def pq_new_def)
  obtain d2 q2 where q2: "pq_insert (replay_key demo_hello) demo_incoming 0 q1 = (Ok (), d2, q2)" "pq_inv q2"
    "pq_view q2 = [(replay_key demo_hello, demo_incoming)]" "\<not> pq_closed q2"
    by (rule pq_insert_of_view [OF q1(2-4) q0(3) room, of demo_incoming]) (rule that; simp)
  note st = nstate_steps [where cs = "[_]" and A = demo_notify and i = 0, simplified]
  have "?step (nstate ?q0 no_futures [] [Idle]) (nstate ?q0 no_futures [] [Looping])" by (rule st(1)) simp
  moreover have "?step (nstate ?q0 no_futures [] [Looping]) (nstate ?q0 (no_futures\<lparr>nv_created := [1]\<rparr>) [] [Created 1])"
    by (rule st(2) [OF _ n(1)]) simp
  moreover have "?step (nstate ?q0 (no_futures\<lparr>nv_created := [1]\<rparr>) [] [Created 1])
      (nstate q1 (no_futures\<lparr>nv_created := [1]\<rparr>) [] [Checked 1])"
    by (rule st(3) [OF _ q1(1)]) simp
  moreover have "?step (nstate q1 (no_futures\<lparr>nv_created := [1]\<rparr>) [] [Checked 1]) (nstate q1 n [] [Sleeping 1])"
    using st(5) [OF _ n(2)] by simp blast
  moreover have "?step (nstate q1 n [] [Sleeping 1]) (nstate q2 n [NotifyOne] [Sleeping 1])"
    using nstate_insert [OF q2(1), of demo_notify n "[]"] by simp
  moreover have "?step (nstate q2 n [NotifyOne] [Sleeping 1])
      (nstate q2 (nt_notify_one demo_notify n) [] [Sleeping 1])"
    using nstate_send [of demo_notify q2 n NotifyOne] by simp
  ultimately have "?step\<^sup>*\<^sup>* (nstate ?q0 no_futures [] [Idle]) (nstate q2 (nt_notify_one demo_notify n) [] [Sleeping 1])"
    by (meson rtranclp.rtrancl_into_rtrancl rtranclp.rtrancl_refl)
  moreover have "notify_init 16 2 no_futures 1 = nstate ?q0 no_futures [] [Idle]" by (simp add: notify_init_def)
  moreover have "pq_entries q2 \<noteq> []" using pq_view_length [OF q2(2)] q2(3) by auto
  ultimately show ?thesis
    using q2(3) by (intro exI [of _ "nstate q2 (nt_notify_one demo_notify n) [] [Sleeping 1]"] exI [of _ 1]) simp
qed

theorem sole_caller_woken_witness:
  "\<exists>s f. ns_callers s = [Sleeping f] \<and> fst (wake_up demo_notify 0 0 f s) = Some (Ok demo_incoming)"
proof -
  obtain s f where run: "(notify_step demo_notify)\<^sup>*\<^sup>* (notify_init 16 2 no_futures 1) s"
    and s: "ns_callers s = [Sleeping f]" "ns_due s = []"
    "pq_view (ns_queue s) = [(replay_key demo_hello, demo_incoming)]" "pq_entries (ns_queue s) \<noteq> []"
    using demo_woken_run by blast
  have live: "live_entries 0 [(replay_key demo_hello, demo_incoming)] = [(replay_key demo_hello, demo_incoming)]"
    by (simp add: live_entries_def incoming_live_def demo_incoming_def demo_pending_def from_secs_def)
  have "nv_futures no_futures = {}" by (simp add: nv_futures_def no_futures_def)
  from sole_caller_woken [OF demo_notify_law this run s(1,2) disjI1 [OF s(4)], of 0] show ?thesis
    using s(1,3) live by auto
qed

text \<open>
  C24: two concurrent calls of \<open>next_incoming\<close> can lose a wake-up. From a fresh queue with two
  callers there is a run after which two live Hellos were queued, one caller has taken the first
  and gone, every notification was sent, and the other caller sleeps although the second Hello
  waits: polling its future does not complete. Both futures were created and not polled when the two
  notifications came, and these left one permit.
\<close>

theorem concurrent_callers_lose_wakeup:
  fixes inc1 inc2 :: "('s, 'r, 'c) incoming_v1"
  assumes "notify_law A view" and "view n0 = no_futures"
    and "2 \<le> capacity" "2 \<le> per_identity" "k1 \<noteq> k2" "incoming_live now inc1" "incoming_live now inc2"
  shows "\<exists>s f. (notify_step A)\<^sup>*\<^sup>* (notify_init capacity per_identity n0 2) s \<and>
    ns_callers s = [Idle, Sleeping f] \<and> ns_due s = [] \<and> \<not> pq_closed (ns_queue s) \<and>
    live_entries now (pq_view (ns_queue s)) = [(k2, inc2)] \<and> \<not> fst (nt_poll A f (ns_notify s))"
proof -
  obtain s f where s: "(notify_step A)\<^sup>*\<^sup>* (notify_init capacity per_identity n0 2) s"
    "ns_callers s = [Idle, Sleeping f]" "ns_due s = []" "pq_view (ns_queue s) = [(k2, inc2)]"
    "\<not> pq_closed (ns_queue s)" "\<not> fst (nt_poll A f (ns_notify s))"
    using second_caller_sleeps [OF assms(1) assms(2) [unfolded no_futures_def] assms(3-7)] by blast
  moreover have "live_entries now [(k2, inc2)] = [(k2, inc2)]" using assms(7) by (simp add: live_entries_def)
  ultimately show ?thesis by metis
qed

theorem concurrent_callers_lose_wakeup_witness:
  "\<exists>s f. (notify_step demo_notify)\<^sup>*\<^sup>* (notify_init 16 2 no_futures 2) s \<and>
    ns_callers s = [Idle, Sleeping f] \<and> live_entries 0 (pq_view (ns_queue s)) = [(''b'', demo_incoming)]"
proof -
  have live: "incoming_live 0 demo_incoming"
    by (simp add: incoming_live_def demo_incoming_def demo_pending_def from_secs_def)
  have "(2 :: nat) \<le> 16" "(2 :: nat) \<le> 2" "''a'' \<noteq> ''b''" by simp_all
  from concurrent_callers_lose_wakeup [OF demo_notify_law refl this live live] show ?thesis by blast
qed

end
