(* ===== verification/Browser_Store.thy ===== *)
theory Browser_Store
  imports Discovery Complex_Main
begin

text \<open>
  The browser's errors and its durable store (\<open>crates/browser-wasm/src/error.rs\<close> and
  \<open>browser_store.rs\<close>). JavaScript values, promises and the functions of
  \<open>js/browser_store.js\<close> that the Rust code imports are the record \<open>js_api\<close>; the Rust code
  around them, which converts, checks and maps errors, is defined here.
\<close>

section \<open>JavaScript\<close>

text \<open>The numbers of JavaScript are IEEE doubles; a finite one is a rational.\<close>

datatype f64 = Finite rat | Infinite bool | NaN

text \<open>A promise settles with a value or is rejected with one.\<close>

type_synonym ('j, 'w) promise = "('w, 'j, 'j) fallible_op"

record ('j, 'w) js_api =
  js_to_value :: "json \<Rightarrow> 'j option"
  js_from_value :: "'j \<Rightarrow> json option"
  js_as_string :: "'j \<Rightarrow> string option"
  js_as_bool :: "'j \<Rightarrow> bool option"
  js_as_f64 :: "'j \<Rightarrow> f64 option"
  js_is_undefined :: "'j \<Rightarrow> bool"
  js_get :: "'j \<Rightarrow> string \<Rightarrow> ('j, 'j) result"
  js_uint8_array :: "'j \<Rightarrow> bytes"
  js_date_now :: "'w \<Rightarrow> json \<times> 'w"
  js_storage_available :: "'w \<Rightarrow> bool"
  js_ensure_grant_key :: "string option \<Rightarrow> ('j, 'w) promise"
  js_load_grant_public_key :: "string \<Rightarrow> ('j, 'w) promise"
  js_sign_grant_input :: "string \<Rightarrow> string \<Rightarrow> ('j, 'w) promise"
  js_sign_bytes :: "string \<Rightarrow> bytes \<Rightarrow> ('j, 'w) promise"
  js_delete_grant_key :: "string \<Rightarrow> ('j, 'w) promise"
  js_save_identity :: "'j \<Rightarrow> ('j, 'w) promise"
  js_list_identities :: "('j, 'w) promise"
  js_load_identity :: "string \<Rightarrow> ('j, 'w) promise"
  js_save_new_device_state :: "string \<Rightarrow> string \<Rightarrow> string \<Rightarrow> ('j, 'w) promise"
  js_replace_device_state :: "string \<Rightarrow> string \<Rightarrow> string \<Rightarrow> string \<Rightarrow> ('j, 'w) promise"
  js_load_device_state :: "string \<Rightarrow> ('j, 'w) promise"
  js_has_publisher_sequence :: "string \<Rightarrow> string \<Rightarrow> string \<Rightarrow> ('j, 'w) promise"
  js_remove_identity :: "string \<Rightarrow> ('j, 'w) promise"
  js_next_publisher_sequence :: "string \<Rightarrow> string \<Rightarrow> string \<Rightarrow> ('j, 'w) promise"
  js_record_sequence_batch :: "string \<Rightarrow> 'j \<Rightarrow> ('j, 'w) promise"
  pk_try_from_bytes :: "bytes \<Rightarrow> public_key option"

section \<open>Errors\<close>

text \<open>
  A failing function rejects with a JavaScript \<open>Error\<close> whose message is one of the codes of the
  package: the code stands for the error.
\<close>

type_synonym 'a browser_result = "('a, string) result"
type_synonym ('w, 'a) browser_op = "('w, 'a, string) fallible_op"

definition failure :: "string \<Rightarrow> string" where
  "failure code = code"

definition opaque_failure :: "'e \<Rightarrow> string" where
  "opaque_failure error = failure ''internal-error''"

definition ALLOWED :: "string list" where
  "ALLOWED =
     [''browser-unsupported'', ''device-state-exists'', ''ed25519-unsupported'',
      ''grant-key-missing'', ''identity-exists'', ''identity-not-found'', ''invalid-pubky'',
      ''publisher-already-initialized'', ''publisher-state-missing'',
      ''sequence-batch-conflict'', ''sequence-digest-required'', ''sequence-equivocation'',
      ''sequence-invalid'', ''sequence-limit'', ''sequence-rollback'', ''signing-failed'',
      ''signing-input-invalid'', ''storage-blocked'', ''storage-failed'', ''storage-invalid'',
      ''storage-key-missing'', ''storage-tampered'', ''storage-too-large'']"

definition storage_failure :: "('j, 'w) js_api \<Rightarrow> 'j \<Rightarrow> string" where
  "storage_failure J value =
     (let message = (case js_as_string J value of
          Some s \<Rightarrow> Some s
        | None \<Rightarrow> (case js_get J value ''message'' of
              Err _ \<Rightarrow> None
            | Ok message \<Rightarrow> js_as_string J message))
      in case message of
           Some code \<Rightarrow> if code \<in> set ALLOWED then code else failure ''storage-failed''
         | None \<Rightarrow> failure ''storage-failed'')"

text \<open>\<open>JsFuture::from(promise).await.map_err(convert)\<close>\<close>

definition js_future :: "('j \<Rightarrow> 'e) \<Rightarrow> ('j, 'w) promise \<Rightarrow> ('w, 'j, 'e) fallible_op" where
  "js_future convert promise w = (let (r, w') = promise w in (map_err convert r, w'))"

section \<open>Keys\<close>

definition public_key_from_js :: "('j, 'w) js_api \<Rightarrow> 'j \<Rightarrow> public_key browser_result" where
  "public_key_from_js J value =
     ok_or (pk_try_from_bytes J (js_uint8_array J value)) (failure ''storage-tampered'')"

definition ensure_grant_key ::
  "('j, 'w) js_api \<Rightarrow> string option \<Rightarrow> ('w, string \<times> public_key) browser_op" where
  "ensure_grant_key J key_id =
     op_bind (js_future (storage_failure J) (js_ensure_grant_key J key_id)) (\<lambda>value.
     op_bind (op_lift (map_err (storage_failure J) (js_get J value ''keyId''))) (\<lambda>key.
     op_bind (op_lift (ok_or (js_as_string J key) (failure ''storage-tampered''))) (\<lambda>key_id.
     op_bind (op_lift (map_err (storage_failure J) (js_get J value ''publicKey''))) (\<lambda>public_key.
     op_bind (op_lift (public_key_from_js J public_key)) (\<lambda>pk.
     op_return (key_id, pk))))))"

definition load_grant_public_key :: "('j, 'w) js_api \<Rightarrow> string \<Rightarrow> ('w, public_key) browser_op" where
  "load_grant_public_key J key_id =
     op_bind (js_future (storage_failure J) (js_load_grant_public_key J key_id)) (\<lambda>value.
     op_lift (public_key_from_js J value))"

text \<open>
  The signer that is handed to the Pubky SDK: its error carries a text only, and a signature has
  64 bytes.
\<close>

definition grant_signer :: "('j, 'w) js_api \<Rightarrow> string \<Rightarrow> string \<Rightarrow> ('w, bytes, string) fallible_op" where
  "grant_signer J key_id signing_input =
     op_bind (js_future (\<lambda>_. ''browser delegated signing failed'')
       (js_sign_grant_input J key_id signing_input)) (\<lambda>value.
     let signature = js_uint8_array J value
     in op_bind (op_guard (length signature \<noteq> 64)
          ''browser delegated signing returned an invalid signature'') (\<lambda>_.
        op_return signature))"

definition sign_certificate :: "('j, 'w) js_api \<Rightarrow> string \<Rightarrow> bytes \<Rightarrow> ('w, bytes) browser_op" where
  "sign_certificate J key_id b =
     op_bind (js_future (storage_failure J) (js_sign_bytes J key_id b)) (\<lambda>value.
     let signature = js_uint8_array J value
     in op_bind (op_guard (length signature \<noteq> 64) (failure ''signing-failed'')) (\<lambda>_.
        op_return signature))"

definition delete_grant_key :: "('j, 'w) js_api \<Rightarrow> string \<Rightarrow> ('w, unit) browser_op" where
  "delete_grant_key J key_id =
     op_bind (js_future (storage_failure J) (js_delete_grant_key J key_id)) (\<lambda>_. op_return ())"

section \<open>Identities\<close>

text \<open>\<open>StoredIdentity\<close> is what is read back, \<open>IdentityToStore\<close> what is written: the same fields.\<close>

record stored_identity =
  si_identity :: string
  si_key_id :: string
  si_client_id :: string
  si_homeserver :: string
  si_grant_id :: string
  si_grant_expires_at :: u64
  si_restore :: string

definition stored_identity_fields :: "string list" where
  "stored_identity_fields =
     [''identity'', ''keyId'', ''clientId'', ''homeserver'', ''grantId'', ''grantExpiresAt'', ''restore'']"

definition de_stored_identity :: "json \<Rightarrow> stored_identity option" where
  "de_stored_identity j =
     (case de_struct stored_identity_fields j of
        Some [a, b, c, d, e, f, g] \<Rightarrow> do {
          a' \<leftarrow> de_string a; b' \<leftarrow> de_string b; c' \<leftarrow> de_string c; d' \<leftarrow> de_string d;
          e' \<leftarrow> de_string e; f' \<leftarrow> de_uint f; g' \<leftarrow> de_string g;
          Some \<lparr>si_identity = a', si_key_id = b', si_client_id = c', si_homeserver = d',
            si_grant_id = e', si_grant_expires_at = f', si_restore = g'\<rparr> }
      | _ \<Rightarrow> None)"

definition ser_identity_to_store :: "stored_identity \<Rightarrow> json" where
  "ser_identity_to_store i = ser_struct stored_identity_fields
     [JStr (si_identity i), JStr (si_key_id i), JStr (si_client_id i), JStr (si_homeserver i),
      JStr (si_grant_id i), ser_uint (si_grant_expires_at i), JStr (si_restore i)]"

definition save_identity :: "('j, 'w) js_api \<Rightarrow> stored_identity \<Rightarrow> ('w, unit) browser_op" where
  "save_identity J input =
     op_bind (op_lift (ok_or (js_to_value J (ser_identity_to_store input)) (failure ''storage-invalid''))) (\<lambda>value.
     op_bind (js_future (storage_failure J) (js_save_identity J value)) (\<lambda>_.
     op_return ()))"

definition list_identities :: "('j, 'w) js_api \<Rightarrow> ('w, 'j) browser_op" where
  "list_identities J = js_future (storage_failure J) (js_list_identities J)"

definition load_identity :: "('j, 'w) js_api \<Rightarrow> string \<Rightarrow> ('w, stored_identity) browser_op" where
  "load_identity J identity =
     op_bind (js_future (storage_failure J) (js_load_identity J identity)) (\<lambda>value.
     op_lift (ok_or (Option.bind (js_from_value J value) de_stored_identity) (failure ''storage-tampered'')))"

definition remove_identity :: "('j, 'w) js_api \<Rightarrow> string \<Rightarrow> ('w, 'j) browser_op" where
  "remove_identity J identity = js_future (storage_failure J) (js_remove_identity J identity)"

section \<open>Device state\<close>

definition save_new_device_state ::
  "('j, 'w) js_api \<Rightarrow> string \<Rightarrow> string \<Rightarrow> string \<Rightarrow> ('w, unit) browser_op" where
  "save_new_device_state J identity control state =
     op_bind (js_future (storage_failure J) (js_save_new_device_state J identity control state)) (\<lambda>_.
     op_return ())"

definition replace_device_state ::
  "('j, 'w) js_api \<Rightarrow> string \<Rightarrow> string \<Rightarrow> string \<Rightarrow> string \<Rightarrow> ('w, unit) browser_op" where
  "replace_device_state J identity old_control new_control state =
     op_bind (js_future (storage_failure J)
       (js_replace_device_state J identity old_control new_control state)) (\<lambda>_.
     op_return ())"

definition load_device_state :: "('j, 'w) js_api \<Rightarrow> string \<Rightarrow> ('w, string option) browser_op" where
  "load_device_state J identity =
     op_bind (js_future (storage_failure J) (js_load_device_state J identity)) (\<lambda>value.
     if js_is_undefined J value then op_return None
     else op_lift (and_then (ok_or (js_as_string J value) (failure ''storage-tampered'')) (\<lambda>s. Ok (Some s))))"

definition has_publisher_sequence ::
  "('j, 'w) js_api \<Rightarrow> string \<Rightarrow> string \<Rightarrow> string \<Rightarrow> ('w, bool) browser_op" where
  "has_publisher_sequence J account identity control =
     op_bind (js_future (storage_failure J) (js_has_publisher_sequence J account identity control)) (\<lambda>value.
     op_lift (ok_or (js_as_bool J value) (failure ''storage-tampered'')))"

section \<open>The sequence store\<close>

definition JS_MAX_SAFE_COUNTER :: u64 where "JS_MAX_SAFE_COUNTER = 9007199254740991"

definition sequence_error :: "'j \<Rightarrow> client_error" where
  "sequence_error value = State ''browser sequence transaction failed closed''"

definition number_to_counter :: "('j, 'w) js_api \<Rightarrow> 'j \<Rightarrow> u64 cresult" where
  "number_to_counter J value =
     (let invalid = State ''browser publisher state is invalid''
      in case js_as_f64 J value of
           Some (Finite number) \<Rightarrow>
             if \<not> (1 \<le> number \<and> number \<le> 9007199254740991) \<or> frac number \<noteq> 0 then Err invalid
             else Ok (of_int \<lfloor>number\<rfloor>)
         | _ \<Rightarrow> Err invalid)"

record browser_sequence_store =
  bq_account :: string

definition browser_next_locator_sequence ::
  "('j, 'w) js_api \<Rightarrow> browser_sequence_store \<Rightarrow> string \<Rightarrow> string \<Rightarrow> ('w, u64) op" where
  "browser_next_locator_sequence J self identity control =
     op_bind (js_future sequence_error
       (js_next_publisher_sequence J (bq_account self) identity control)) (\<lambda>value.
     op_lift (number_to_counter J value))"

definition ser_sequence_observation :: "env \<Rightarrow> authenticated_sequence_observation \<Rightarrow> json" where
  "ser_sequence_observation E ob = ser_struct [''identity'', ''scope'', ''counter'', ''digest'']
     [JStr (o_identity ob), JStr (o_scope ob), ser_uint (o_counter ob), JStr (b64_encode E (o_digest ob))]"

definition browser_record_batch ::
  "env \<Rightarrow> ('j, 'w) js_api \<Rightarrow> browser_sequence_store \<Rightarrow> authenticated_sequence_observation list \<Rightarrow>
   ('w, unit) op" where
  "browser_record_batch E J self observations =
     op_bind (op_guard (list_ex (\<lambda>ob. o_counter ob > JS_MAX_SAFE_COUNTER) observations)
       (State ''browser sequence exceeds the exact JavaScript integer range'')) (\<lambda>_.
     op_bind (op_lift (ok_or (js_to_value J (ser_vec (ser_sequence_observation E) observations))
       (State ''browser sequence serialization failed''))) (\<lambda>value.
     op_bind (js_future sequence_error (js_record_sequence_batch J (bq_account self) value)) (\<lambda>_.
     op_return ())))"

section \<open>What the store lets through\<close>

lemma storage_failure_allowed: "storage_failure J value \<in> set ALLOWED"
proof -
  have "''storage-failed'' \<in> set ALLOWED" by (simp add: ALLOWED_def)
  then show ?thesis
    by (simp add: storage_failure_def failure_def Let_def split: option.splits result.splits)
qed

lemma de_ser_identity_to_store: "de_stored_identity (ser_identity_to_store i) = Some i"
  by (simp add: de_stored_identity_def ser_identity_to_store_def serde_simps stored_identity_fields_def)

lemma number_to_counter_Ok_iff:
  "number_to_counter J value = Ok n \<longleftrightarrow>
     1 \<le> n \<and> n \<le> JS_MAX_SAFE_COUNTER \<and> js_as_f64 J value = Some (Finite (of_nat (unat n)))"
  (is "_ \<longleftrightarrow> ?rhs")
proof
  assume "number_to_counter J value = Ok n"
  then obtain q where q: "js_as_f64 J value = Some (Finite q)" "1 \<le> q" "q \<le> 9007199254740991"
      "frac q = 0" and n: "n = of_int \<lfloor>q\<rfloor>"
    by (auto simp: number_to_counter_def Let_def split: option.splits f64.splits if_splits)
  define k where "k = nat \<lfloor>q\<rfloor>"
  have "1 \<le> \<lfloor>q\<rfloor>" "\<lfloor>q\<rfloor> \<le> 9007199254740991" using q(2,3) by (simp_all add: le_floor_iff floor_le_iff)
  then have k: "1 \<le> k" "k \<le> 9007199254740991" "\<lfloor>q\<rfloor> = int k" unfolding k_def by linarith+
  have "q = of_nat k" using q(4) k(3) by (simp add: frac_def)
  moreover have "unat n = k"
    using k n by (simp add: unat_of_nat take_bit_nat_eq_self)
  ultimately show ?rhs
    using q(1) k by (simp add: word_le_nat_alt JS_MAX_SAFE_COUNTER_def)
next
  assume rhs: ?rhs
  define k where "k = unat n"
  have n: "n = of_nat k" and "1 \<le> k" and "k \<le> 9007199254740991"
    using rhs by (simp_all add: k_def word_le_nat_alt JS_MAX_SAFE_COUNTER_def)
  then have "(1 :: rat) \<le> of_nat k" "(of_nat k :: rat) \<le> 9007199254740991"
    using of_nat_le_iff [of 1 k, where 'a = rat] of_nat_le_iff [of k 9007199254740991, where 'a = rat]
    by (simp_all only: of_nat_1 of_nat_numeral)
  moreover have "js_as_f64 J value = Some (Finite (of_nat k))"
    using rhs unfolding k_def by blast
  ultimately show "number_to_counter J value = Ok n"
    by (simp add: number_to_counter_def n)
qed

text \<open>The sequence store.\<close>

lemma map_err_Err_iff: "map_err f r = Err e \<longleftrightarrow> (\<exists>e'. r = Err e' \<and> e = f e')" by (cases r) auto
lemma next_locator_sequence_exact:
  "(fst (browser_next_locator_sequence J store identity control w) = Ok n \<longleftrightarrow>
      (\<exists>value. fst (js_next_publisher_sequence J (bq_account store) identity control w) = Ok value \<and>
         1 \<le> unat n \<and> unat n < 2 ^ 53 \<and> js_as_f64 J value = Some (Finite (of_nat (unat n)))))"
proof -
  have "1 \<le> n \<and> n \<le> JS_MAX_SAFE_COUNTER \<longleftrightarrow> 1 \<le> unat n \<and> unat n < 2 ^ 53"
    by (auto simp: JS_MAX_SAFE_COUNTER_def word_le_nat_alt)
  then show ?thesis
    by (cases "js_next_publisher_sequence J (bq_account store) identity control w"; 
      cases "fst (js_next_publisher_sequence J (bq_account store) identity control w)")
      (auto simp: browser_next_locator_sequence_def op_bind_def js_future_def op_lift_def number_to_counter_Ok_iff)
qed
lemma record_batch_range:
  "(\<exists>ob \<in> set batch. 2 ^ 53 \<le> unat (o_counter ob)) \<longleftrightarrow>
      browser_record_batch E J store batch w =
        (Err (State ''browser sequence exceeds the exact JavaScript integer range''), w)"
proof -
  have big: "(2 ^ 53 \<le> unat (o_counter ob)) = (JS_MAX_SAFE_COUNTER < o_counter ob)" for ob
    by (auto simp: JS_MAX_SAFE_COUNTER_def word_less_nat_alt)
  have "list_ex (\<lambda>ob. o_counter ob > JS_MAX_SAFE_COUNTER) batch \<longleftrightarrow> browser_record_batch E J store batch w =
      (Err (State ''browser sequence exceeds the exact JavaScript integer range''), w)"
    by (cases "js_to_value J (ser_vec (ser_sequence_observation E) batch)")
      (auto simp: browser_record_batch_def op_bind_def op_guard_def op_lift_def js_future_def op_return_def
        sequence_error_def case_prod_unfold Let_def map_err_Err_iff split: result.splits if_splits)
  then show ?thesis unfolding big list_ex_iff .
qed
text \<open>Results and operations that fail with one of the fixed codes only.\<close>

definition fixed_result :: "('a, string) result \<Rightarrow> bool" where
  "fixed_result r \<longleftrightarrow> (case r of Ok _ \<Rightarrow> True | Err code \<Rightarrow> code \<in> set ALLOWED)"

definition fails_fixed :: "('w, 'a) browser_op \<Rightarrow> bool" where
  "fails_fixed m \<longleftrightarrow> (\<forall>w. fixed_result (fst (m w)))"

named_theorems fixed_intros \<open>operations with fixed error codes\<close>

lemma fixed_codes [fixed_intros]:
  "failure ''storage-tampered'' \<in> set ALLOWED" "failure ''storage-invalid'' \<in> set ALLOWED"
  "failure ''signing-failed'' \<in> set ALLOWED"
  by (simp_all add: ALLOWED_def failure_def)

lemma fixed_results [fixed_intros]:
  "fixed_result (Ok x)"
  "code \<in> set ALLOWED \<Longrightarrow> fixed_result (ok_or v code)"
  "fixed_result (map_err (storage_failure J) r)"
    apply (simp add: fixed_result_def)
   apply (cases v; simp add: fixed_result_def)
  apply (cases r; simp add: fixed_result_def storage_failure_allowed)
  done

lemma fixed_and_then [fixed_intros]:
  "fixed_result r \<Longrightarrow> (\<And>x. fixed_result (f x)) \<Longrightarrow> fixed_result (and_then r f)"
  by (cases r) (simp_all add: fixed_result_def)

lemma fails_fixed_ops [fixed_intros]:
  "fails_fixed (op_return x)"
  "code \<in> set ALLOWED \<Longrightarrow> fails_fixed (op_guard b code)"
  "fixed_result r \<Longrightarrow> fails_fixed (op_lift r)"
  "fails_fixed (js_future (storage_failure J) promise)"
  by (simp_all add: fails_fixed_def op_return_def op_guard_def op_lift_def js_future_def fixed_results
      case_prod_unfold Let_def) (simp add: fixed_result_def)

lemma fails_fixed_if [fixed_intros]:
  "fails_fixed m \<Longrightarrow> fails_fixed m' \<Longrightarrow> fails_fixed (if b then m else m')"
  by simp

lemma fails_fixed_bind [fixed_intros]:
  assumes "fails_fixed m" and "\<And>x. fails_fixed (f x)"
  shows "fails_fixed (op_bind m f)"
  unfolding fails_fixed_def
proof
  fix w
  obtain r w' where m: "m w = (r, w')" by (cases "m w")
  with assms(1) have "fixed_result r" by (auto simp: fails_fixed_def dest: spec [of _ w])
  then show "fixed_result (fst (op_bind m f w))"
    using m assms(2) by (cases r) (simp_all add: op_bind_def fails_fixed_def fixed_result_def)
qed

lemma fails_fixed_store:
  "fails_fixed (ensure_grant_key J key)" "fails_fixed (load_grant_public_key J key_id)"
  "fails_fixed (sign_certificate J key_id b)" "fails_fixed (delete_grant_key J key_id)"
  "fails_fixed (save_identity J stored)" "fails_fixed (list_identities J)"
  "fails_fixed (load_identity J identity)" "fails_fixed (remove_identity J identity)"
  "fails_fixed (save_new_device_state J identity control state)"
  "fails_fixed (replace_device_state J identity old control state)"
  "fails_fixed (load_device_state J identity)" "fails_fixed (has_publisher_sequence J account identity control)"
  unfolding ensure_grant_key_def load_grant_public_key_def sign_certificate_def delete_grant_key_def
    save_identity_def list_identities_def load_identity_def remove_identity_def save_new_device_state_def
    replace_device_state_def load_device_state_def has_publisher_sequence_def public_key_from_js_def Let_def
  by (intro fixed_intros)+

end
