(* ===== verification/Async_Tasks.thy ===== *)
theory Async_Tasks
  imports P2P_Prelude
begin

text \<open>
  Cooperatively scheduled \<open>async\<close> functions, as the browser runs them: one thread, and another
  task can run only where a task is suspended at an \<open>await\<close>. A suspended computation is a
  value; a step of the system resumes one of them in the state the others left. At the end, the
  contract by which an invariant of the shared state is proved task by task.
\<close>

section \<open>Suspended computations\<close>

text \<open>
  A computation is finished, or waits to be resumed in some later state. Polling an async function
  runs it from there to its next suspension.
\<close>

datatype ('s, 'a) co = Ready 'a | Pending "'s \<Rightarrow> ('s, 'a) co \<times> 's"

type_synonym ('s, 'a) async = "'s \<Rightarrow> ('s, 'a) co \<times> 's"

definition as_return :: "'a \<Rightarrow> ('s, 'a) async" where
  "as_return a s = (Ready a, s)"

primrec co_bind :: "('s, 'a) co \<Rightarrow> ('a \<Rightarrow> ('s, 'b) async) \<Rightarrow> ('s, 'b) async" where
  "co_bind (Ready a) f = f a"
| "co_bind (Pending k) f = (\<lambda>s. (Pending (\<lambda>s1.
     let (resume, s2) = map_prod (\<lambda>c. co_bind c f) id (k s1) in resume s2), s))"

definition as_bind :: "('s, 'a) async \<Rightarrow> ('a \<Rightarrow> ('s, 'b) async) \<Rightarrow> ('s, 'b) async" where
  "as_bind m f s = (let (c, s') = m s in co_bind c f s')"

text \<open>The operator \<open>?\<close>: an error ends the function.\<close>

definition as_try ::
  "('s, ('a, 'e) result) async \<Rightarrow> ('a \<Rightarrow> ('s, ('b, 'e) result) async) \<Rightarrow> ('s, ('b, 'e) result) async" where
  "as_try m f = as_bind m (\<lambda>r. case r of Ok x \<Rightarrow> f x | Err e \<Rightarrow> as_return (Err e))"

text \<open>A block that borrows the shared state runs without suspension.\<close>

definition atomic :: "('s \<Rightarrow> 'a \<times> 's) \<Rightarrow> ('s, 'a) async" where
  "atomic h s = (let (a, s') = h s in (Ready a, s'))"

definition as_yield :: "('s, unit) async" where
  "as_yield s = (Pending (\<lambda>s'. (Ready (), s')), s)"

text \<open>
  Awaiting other code: it takes effect at some time between the call and the resumption, and other
  tasks may run before and after.
\<close>

definition await :: "('s \<Rightarrow> 'a \<times> 's) \<Rightarrow> ('s, 'a) async" where
  "await m = as_bind as_yield (\<lambda>_. as_bind (atomic m) (\<lambda>a. as_bind as_yield (\<lambda>_. as_return a)))"

text \<open>
  \<open>Abortable\<close> looks at its abort flag before and after it polls the inner computation, and gives
  that up once the flag is set.
\<close>

definition check_abort :: "('s \<Rightarrow> bool) \<Rightarrow> ('s, 'a option) co \<times> 's \<Rightarrow> ('s, 'a option) co \<times> 's" where
  "check_abort aborted r =
     (case r of
        (Ready a, s) \<Rightarrow> (Ready a, s)
      | (Pending k, s) \<Rightarrow> if aborted s then (Ready None, s) else (Pending k, s))"

primrec co_abortable :: "('s \<Rightarrow> bool) \<Rightarrow> ('s, 'a) co \<Rightarrow> ('s, 'a option) co" where
  "co_abortable aborted (Ready a) = Ready (Some a)"
| "co_abortable aborted (Pending k) = Pending (\<lambda>s.
     if aborted s then (Ready None, s)
     else check_abort aborted (map_prod (co_abortable aborted) id (k s)))"

definition abortable :: "('s \<Rightarrow> bool) \<Rightarrow> ('s, 'a) async \<Rightarrow> ('s, 'a option) async" where
  "abortable aborted m s =
     (if aborted s then (Ready None, s)
      else check_abort aborted (map_prod (co_abortable aborted) id (m s)))"

section \<open>The system\<close>

text \<open>
  The shared state and the tasks. A step starts a task with one of the functions that can be called,
  or resumes a task that is not finished; what this poll spawned (\<open>drain\<close>) joins the tasks.
\<close>

inductive sys_step ::
  "(('s, 'a) async \<Rightarrow> bool) \<Rightarrow> ('s \<Rightarrow> ('s, 'a) async list \<times> 's) \<Rightarrow>
   's \<times> ('s, 'a) co list \<Rightarrow> 's \<times> ('s, 'a) co list \<Rightarrow> bool"
  for calls :: "('s, 'a) async \<Rightarrow> bool" and drain :: "'s \<Rightarrow> ('s, 'a) async list \<times> 's" where
  sys_call: "calls m \<Longrightarrow> sys_step calls drain (s, ts) (s, ts @ [Pending m])"
| sys_resume: "i < length ts \<Longrightarrow> ts ! i = Pending k \<Longrightarrow> k s = (c, s1) \<Longrightarrow> drain s1 = (ms, s2) \<Longrightarrow>
    sys_step calls drain (s, ts) (s2, ts[i := c] @ map Pending ms)"

inductive sys_reachable ::
  "(('s, 'a) async \<Rightarrow> bool) \<Rightarrow> ('s \<Rightarrow> ('s, 'a) async list \<times> 's) \<Rightarrow> ('s \<Rightarrow> bool) \<Rightarrow>
   's \<times> ('s, 'a) co list \<Rightarrow> bool"
  for calls drain start where
  sys_start: "start s \<Longrightarrow> sys_reachable calls drain start (s, [])"
| sys_next: "sys_reachable calls drain start (s, ts) \<Longrightarrow>
    sys_step calls drain (s, ts) (s', ts') \<Longrightarrow> sys_reachable calls drain start (s', ts')"

section \<open>Tasks that follow a protocol\<close>

text \<open>
  A protocol \<open>P\<close> says what a task in a role may do to the part of the state that \<open>view\<close> shows, and
  which role it has then. A computation follows it from a role when every poll, in any state,
  is a sequence of moves of the protocol; \<open>Q\<close> holds of the role and the result at the end.
\<close>

inductive follows ::
  "('g \<times> 'b \<Rightarrow> 'g \<times> 'b \<Rightarrow> bool) \<Rightarrow> ('s \<Rightarrow> 'b) \<Rightarrow> ('g \<Rightarrow> 'a \<Rightarrow> bool) \<Rightarrow> 'g \<Rightarrow> ('s, 'a) co \<Rightarrow> bool"
  for P view Q where
  follows_Ready: "Q g a \<Longrightarrow> follows P view Q g (Ready a)"
| follows_Pending: "(\<And>s. \<exists>g'. P\<^sup>*\<^sup>* (g, view s) (g', view (snd (k s))) \<and>
      follows P view Q g' (fst (k s))) \<Longrightarrow> follows P view Q g (Pending k)"

definition follows_from ::
  "('g \<times> 'b \<Rightarrow> 'g \<times> 'b \<Rightarrow> bool) \<Rightarrow> ('s \<Rightarrow> 'b) \<Rightarrow> ('g \<Rightarrow> 'a \<Rightarrow> bool) \<Rightarrow> 'g \<Rightarrow> ('s, 'a) async \<Rightarrow> bool" where
  "follows_from P view Q g m \<longleftrightarrow>
     (\<forall>s. \<exists>g'. P\<^sup>*\<^sup>* (g, view s) (g', view (snd (m s))) \<and> follows P view Q g' (fst (m s)))"

lemma follows_mono:
  assumes "follows P view Q g c" and "\<And>g a. Q g a \<Longrightarrow> Q' g a"
  shows "follows P view Q' g c"
  using assms(1)
proof induction
  case (follows_Ready g a)
  then show ?case using assms(2) by (intro follows.follows_Ready)
next
  case (follows_Pending g k)
  then show ?case by (intro follows.follows_Pending) blast
qed

lemma follows_from_mono:
  assumes "follows_from P view Q g m" and "\<And>g a. Q g a \<Longrightarrow> Q' g a"
  shows "follows_from P view Q' g m"
  using assms(1) follows_mono [where Q = Q and Q' = Q', OF _ assms(2)] unfolding follows_from_def by blast

lemma follows_PendingI: "follows_from P view Q g m \<Longrightarrow> follows P view Q g (Pending m)"
  by (auto simp: follows_from_def intro: follows_Pending)

lemma follows_return: "Q g a \<Longrightarrow> follows_from P view Q g (as_return a)"
  by (auto simp: follows_from_def as_return_def intro: follows_Ready)

lemma follows_atomic:
  assumes "\<And>s a s'. h s = (a, s') \<Longrightarrow> \<exists>g'. P\<^sup>*\<^sup>* (g, view s) (g', view s') \<and> Q g' a"
  shows "follows_from P view Q g (atomic h)"
  unfolding follows_from_def
proof
  fix s
  obtain a s' where h: "h s = (a, s')" by (cases "h s")
  then show "\<exists>g'. P\<^sup>*\<^sup>* (g, view s) (g', view (snd (atomic h s))) \<and> follows P view Q g' (fst (atomic h s))"
    using assms [OF h] follows_Ready [where P = P and view = view and Q = Q] by (simp add: atomic_def) blast
qed

lemma follows_yield: "Q g () \<Longrightarrow> follows_from P view Q g as_yield"
  by (auto simp: follows_from_def as_yield_def intro!: exI [of _ g] follows_Pending follows_Ready)

lemma follows_co_bind:
  assumes "follows P view R g c" and "\<And>g a. R g a \<Longrightarrow> follows_from P view Q g (f a)"
  shows "follows_from P view Q g (co_bind c f)"
  using assms(1)
proof induction
  case (follows_Ready g a)
  then show ?case using assms(2) by simp
next
  case (follows_Pending g k)
  have "\<exists>g'. P\<^sup>*\<^sup>* (g, view s) (g', view (snd (co_bind (fst (k s)) f (snd (k s))))) \<and>
      follows P view Q g' (fst (co_bind (fst (k s)) f (snd (k s))))" for s
  proof -
    obtain g1 where 1: "P\<^sup>*\<^sup>* (g, view s) (g1, view (snd (k s)))"
      and "follows_from P view Q g1 (co_bind (fst (k s)) f)"
      using follows_Pending by blast
    then obtain g2 where "P\<^sup>*\<^sup>* (g1, view (snd (k s))) (g2, view (snd (co_bind (fst (k s)) f (snd (k s)))))"
      and "follows P view Q g2 (fst (co_bind (fst (k s)) f (snd (k s))))"
      unfolding follows_from_def by blast
    then show ?thesis using rtranclp_trans [OF 1] by blast
  qed
  then show ?case
    unfolding follows_from_def
    by (intro allI exI [of _ g]) (auto simp: case_prod_unfold intro!: follows.follows_Pending)
qed

lemma follows_bind:
  assumes "follows_from P view R g m" and "\<And>g a. R g a \<Longrightarrow> follows_from P view Q g (f a)"
  shows "follows_from P view Q g (as_bind m f)"
  unfolding follows_from_def
proof
  fix s
  obtain g1 where 1: "P\<^sup>*\<^sup>* (g, view s) (g1, view (snd (m s)))" and "follows P view R g1 (fst (m s))"
    using assms(1) unfolding follows_from_def by blast
  from follows_co_bind [OF this(2) assms(2)]
  have "follows_from P view Q g1 (co_bind (fst (m s)) f)" .
  then obtain g2 where 2: "P\<^sup>*\<^sup>* (g1, view (snd (m s))) (g2, view (snd (co_bind (fst (m s)) f (snd (m s)))))"
    and c: "follows P view Q g2 (fst (co_bind (fst (m s)) f (snd (m s))))"
    unfolding follows_from_def by blast
  have eq: "as_bind m f s = co_bind (fst (m s)) f (snd (m s))"
    by (simp add: as_bind_def case_prod_unfold Let_def)
  show "\<exists>g'. P\<^sup>*\<^sup>* (g, view s) (g', view (snd (as_bind m f s))) \<and>
      follows P view Q g' (fst (as_bind m f s))"
    unfolding eq using rtranclp_trans [OF 1 2] c by (intro exI conjI)
qed

lemma follows_try:
  assumes "follows_from P view (\<lambda>g r. case r of Ok x \<Rightarrow> R g x | Err e \<Rightarrow> Q g (Err e)) g m"
    and "\<And>g x. R g x \<Longrightarrow> follows_from P view Q g (f x)"
  shows "follows_from P view Q g (as_try m f)"
  unfolding as_try_def
  by (rule follows_bind [OF assms(1)]) (auto split: result.splits intro: assms(2) follows_return)

lemma follows_await:
  assumes "\<And>s a s'. m s = (a, s') \<Longrightarrow> view s' = view s \<and> Q g a"
  shows "follows_from P view Q g (await m)"
  unfolding await_def
  by (rule follows_bind [where R = "\<lambda>g'. \<lambda>_. g' = g"],
      blast intro: follows_yield,
      rule follows_bind [where R = "\<lambda>g' a. g' = g \<and> Q g a"],
      rule follows_atomic, use assms in \<open>metis rtranclp.rtrancl_refl\<close>,
      rule follows_bind [where R = "\<lambda>g' _. g' = g"], auto intro: follows_yield follows_return)

text \<open>
  A computation is steady when no move changes its role. Giving it up, as \<open>Abortable\<close> does at a
  suspension, leaves the role it had.
\<close>

definition steady :: "('g \<times> 'b \<Rightarrow> 'g \<times> 'b \<Rightarrow> bool) \<Rightarrow> 'g \<times> 'b \<Rightarrow> 'g \<times> 'b \<Rightarrow> bool" where
  "steady P x y \<longleftrightarrow> P x y \<and> fst y = fst x"

lemma steady_moves:
  assumes "(steady P)\<^sup>*\<^sup>* x y"
  shows "P\<^sup>*\<^sup>* x y \<and> fst y = fst x"
  using assms by induction (auto simp: steady_def intro: rtranclp.rtrancl_into_rtrancl)

lemma steady_Pending:
  assumes "follows (steady P) view R g (Pending k)"
  shows "P\<^sup>*\<^sup>* (g, view s) (g, view (snd (k s))) \<and> follows (steady P) view R g (fst (k s))"
proof -
  obtain g' where "(steady P)\<^sup>*\<^sup>* (g, view s) (g', view (snd (k s)))"
    and "follows (steady P) view R g' (fst (k s))"
    using assms by (cases rule: follows.cases) auto
  with steady_moves [OF this(1)] show ?thesis by auto
qed

lemma follows_check_abort:
  assumes "P\<^sup>*\<^sup>* (g, b) (g, view s)" and "follows P view Q g c" and "Q g None"
  shows "\<exists>g'. P\<^sup>*\<^sup>* (g, b) (g', view (snd (check_abort aborted (c, s)))) \<and>
    follows P view Q g' (fst (check_abort aborted (c, s)))"
proof (intro exI conjI)
  have "snd (check_abort aborted (c, s)) = s" by (cases c) (simp_all add: check_abort_def)
  then show "P\<^sup>*\<^sup>* (g, b) (g, view (snd (check_abort aborted (c, s))))" using assms(1) by simp
  show "follows P view Q g (fst (check_abort aborted (c, s)))"
    using assms(2,3) by (cases c) (auto simp: check_abort_def intro: follows_Ready)
qed

lemma follows_poll_abortable:
  assumes "P\<^sup>*\<^sup>* (g, view s) (g, view s')" and "follows P view Q g (co_abortable aborted c)" and "Q g None"
  shows "\<exists>g'. P\<^sup>*\<^sup>* (g, view s) (g', view (snd (if aborted s then (Ready None, s)
        else check_abort aborted (map_prod (co_abortable aborted) id (c, s'))))) \<and>
      follows P view Q g' (fst (if aborted s then (Ready None, s)
        else check_abort aborted (map_prod (co_abortable aborted) id (c, s'))))"
  using follows_check_abort [OF assms, of aborted] assms(3)
    follows_Ready [where P = P and view = view and Q = Q and g = g]
  by (cases "aborted s") auto

lemma follows_co_abortable:
  assumes "\<And>a. R g a \<Longrightarrow> Q g (Some a)" and "Q g None"
  shows "follows (steady P) view R g c \<Longrightarrow> follows P view Q g (co_abortable aborted c)"
proof (induction c)
  case (Ready a)
  then show ?case using assms(1) by (auto elim: follows.cases intro: follows_Ready)
next
  case (Pending k)
  note q = steady_Pending [OF Pending.prems]
  have "follows P view Q g (co_abortable aborted (fst (k s)))" for s
    by (rule Pending.IH [of "k s"]) (simp_all add: q prod_set_defs)
  with q have "\<exists>g'. P\<^sup>*\<^sup>* (g, view s) (g', view (snd (if aborted s then (Ready None, s)
        else check_abort aborted (map_prod (co_abortable aborted) id (fst (k s), snd (k s)))))) \<and>
      follows P view Q g' (fst (if aborted s then (Ready None, s)
        else check_abort aborted (map_prod (co_abortable aborted) id (fst (k s), snd (k s)))))" for s
    using assms(2) by (intro follows_poll_abortable) auto
  then show ?case
    unfolding co_abortable.simps prod.collapse by (intro follows_Pending)
qed

lemma follows_abortable:
  assumes "follows_from (steady P) view R g m"
    and "\<And>a. R g a \<Longrightarrow> Q g (Some a)" and "Q g None"
  shows "follows_from P view Q g (abortable aborted m)"
  unfolding follows_from_def abortable_def
proof
  fix s
  obtain g' where "(steady P)\<^sup>*\<^sup>* (g, view s) (g', view (snd (m s)))" "follows (steady P) view R g' (fst (m s))"
    using assms(1) unfolding follows_from_def by blast
  with steady_moves [OF this(1)]
  have m: "P\<^sup>*\<^sup>* (g, view s) (g, view (snd (m s)))" "follows (steady P) view R g (fst (m s))"
    by auto
  have "follows P view Q g (co_abortable aborted (fst (m s)))"
    by (rule follows_co_abortable [where R = R]) (use assms(2,3) m(2) in auto)
  with m(1) assms(3) have "\<exists>g'. P\<^sup>*\<^sup>* (g, view s) (g', view (snd (if aborted s then (Ready None, s)
        else check_abort aborted (map_prod (co_abortable aborted) id (fst (m s), snd (m s)))))) \<and>
      follows P view Q g' (fst (if aborted s then (Ready None, s)
        else check_abort aborted (map_prod (co_abortable aborted) id (fst (m s), snd (m s)))))"
    by (intro follows_poll_abortable)
  then show "\<exists>g'. P\<^sup>*\<^sup>* (g, view s) (g', view (snd (if aborted s then (Ready None, s)
        else check_abort aborted (map_prod (co_abortable aborted) id (m s))))) \<and>
      follows P view Q g' (fst (if aborted s then (Ready None, s)
        else check_abort aborted (map_prod (co_abortable aborted) id (m s))))"
    unfolding prod.collapse .
qed

section \<open>Invariants\<close>

text \<open>
  The contract between tasks: what can be called and what is spawned follows the protocol from its
  role, and every move of a task keeps the invariant of roles and state, whichever the other tasks
  and their roles are. Then the invariant holds whenever the scheduler takes over.
\<close>

locale task_protocol =
  fixes P :: "'g \<times> 'b \<Rightarrow> 'g \<times> 'b \<Rightarrow> bool" and view :: "'s \<Rightarrow> 'b" and entry :: 'g
    and spawned :: "'b \<Rightarrow> 'g list" and drained :: "'b \<Rightarrow> 'b"
    and calls :: "('s, 'a) async \<Rightarrow> bool" and drain :: "'s \<Rightarrow> ('s, 'a) async list \<times> 's"
    and start :: "'s \<Rightarrow> bool" and Inv :: "'g list \<Rightarrow> 'b \<Rightarrow> bool"
  assumes calls_follow: "calls m \<Longrightarrow> follows_from P view (\<lambda>_ _. True) entry m"
    and spawned_follow: "drain s = (ms, s') \<Longrightarrow> view s' = drained (view s) \<and>
        list_all2 (follows_from P view (\<lambda>_ _. True)) (spawned (view s)) ms"
    and inv_start: "start s \<Longrightarrow> Inv [] (view s)"
    and inv_call: "Inv gs b \<Longrightarrow> Inv (gs @ [entry]) b"
    and inv_move: "Inv gs b \<Longrightarrow> i < length gs \<Longrightarrow> P (gs ! i, b) (g', b') \<Longrightarrow> Inv (gs[i := g']) b'"
    and inv_spawn: "Inv gs b \<Longrightarrow> Inv (gs @ spawned b) (drained b)"
begin

lemma inv_moves:
  assumes "P\<^sup>*\<^sup>* x y" and "Inv (gs[i := fst x]) (snd x)" and "i < length gs"
  shows "Inv (gs[i := fst y]) (snd y)"
  using assms(1,2)
proof induction
  case (step y z)
  then show ?case
    using inv_move [of "gs[i := fst y]" "snd y" i "fst z" "snd z"] assms(3) by simp
qed simp

theorem reachable_inv:
  assumes "sys_reachable calls drain start (s, ts)"
  shows "\<exists>gs. Inv gs (view s) \<and> list_all2 (follows P view (\<lambda>_ _. True)) gs ts"
  using assms
proof (induction "(s, ts)" arbitrary: s ts rule: sys_reachable.induct)
  case (sys_start s)
  then show ?case using inv_start by auto
next
  case (sys_next s ts s' ts')
  then obtain gs where gs: "Inv gs (view s)" "list_all2 (follows P view (\<lambda>_ _. True)) gs ts" by blast
  from sys_next(3) show ?case
  proof cases
    case (sys_call m)
    then show ?thesis
      using gs inv_call [OF gs(1)] follows_PendingI [OF calls_follow]
      by (intro exI [of _ "gs @ [entry]"]) (auto intro: list_all2_appendI)
  next
    case (sys_resume i k c s1 ms)
    have i: "i < length gs" using gs(2) sys_resume by (simp add: list_all2_lengthD)
    have "follows P view (\<lambda>_ _. True) (gs ! i) (Pending k)"
      using gs(2) sys_resume i by (metis list_all2_nthD)
    then obtain g where moves: "P\<^sup>*\<^sup>* (gs ! i, view s) (g, view s1)"
      and c: "follows P view (\<lambda>_ _. True) g c"
      using sys_resume(4) by (cases rule: follows.cases) (metis fst_conv snd_conv)+
    have "Inv (gs[i := g]) (view s1)"
      using inv_moves [OF moves, of gs i] gs(1) i by simp
    moreover note d = spawned_follow [OF sys_resume(5)]
    ultimately have "Inv (gs[i := g] @ spawned (view s1)) (view s')"
      using inv_spawn by simp
    moreover have "list_all2 (follows P view (\<lambda>_ _. True)) (gs[i := g] @ spawned (view s1))
        (ts[i := c] @ map Pending ms)"
      using gs(2) c d
      by (intro list_all2_appendI list_all2_update_cong)
        (auto simp: list_all2_map2 elim!: list_all2_mono intro: follows_PendingI)
    ultimately show ?thesis using sys_resume by blast
  qed
qed

end

end
