(* ===== verification/Browser_State.thy ===== *)
theory Browser_State
  imports Browser_Store Async_Tasks Client_Config
begin

text \<open>
  The state of \<open>BrowserCore\<close> and the pure functions of \<open>crates/browser-wasm/src/lib.rs\<close>: the
  checks of what JavaScript passes in, and the objects it gets back. The Pubky SDK and the client
  crate appear as records of operations; what the SDK returns is an opaque handle.
\<close>

section \<open>Constants\<close>

definition REQUIRED_CAPABILITY :: string where "REQUIRED_CAPABILITY = ''/pub/pubky2pubky/:rw''"
definition DEVICE_LIFETIME_SECONDS :: u64 where "DEVICE_LIFETIME_SECONDS = 6 * 60 * 60"
definition MAX_AUTH_RELAY_BYTES :: nat where "MAX_AUTH_RELAY_BYTES = 2048"
definition MAX_AUTHORIZATION_URL_BYTES :: nat where "MAX_AUTHORIZATION_URL_BYTES = 8 * 1024"
definition MAX_TESTNET_HOST_BYTES :: nat where "MAX_TESTNET_HOST_BYTES = 253"
definition MAX_IROH_RELAYS :: nat where "MAX_IROH_RELAYS = 4"
definition MAX_CONNECTED_PEERS :: nat where "MAX_CONNECTED_PEERS = 16"
definition MAX_PENDING_INBOUND :: nat where "MAX_PENDING_INBOUND = 16"
definition MAX_PENDING_PER_IDENTITY :: nat where "MAX_PENDING_PER_IDENTITY = 2"
definition MAX_CHAT_BYTES :: nat where "MAX_CHAT_BYTES = 4 * 1024"
definition APPLICATION :: string where "APPLICATION = ''pubky2pubky/chat/1''"
definition LOCATOR_LIFETIME :: duration where "LOCATOR_LIFETIME = from_secs (15 * 60)"
definition LOCATOR_RENEW_AFTER :: duration where "LOCATOR_RENEW_AFTER = from_secs (5 * 60)"
definition PATH_CONFIRM_TIMEOUT :: duration where "PATH_CONFIRM_TIMEOUT = from_secs 5"
definition PEER_HANDSHAKE_TIMEOUT :: duration where "PEER_HANDSHAKE_TIMEOUT = from_secs 15"
definition PENDING_INBOUND_TTL :: duration where "PENDING_INBOUND_TTL = from_secs 10"

lemmas browser_limits = MAX_CONNECTED_PEERS_def MAX_PENDING_INBOUND_def MAX_PENDING_PER_IDENTITY_def
  MAX_CHAT_BYTES_def MAX_IROH_RELAYS_def

section \<open>What other code provides\<close>

record grant_session_info =
  gs_client_id :: client_id
  gs_capabilities :: "capability list"
  gs_pubky :: public_key
  gs_homeserver :: public_key
  gs_grant_id :: grant_id
  gs_grant_expires_at :: u64

record delegated_grant_credential_state =
  dg_grant_jws :: string
  dg_homeserver_pk :: public_key
  dg_key_id :: string
  dg_client_pk :: public_key

text \<open>
  The Pubky SDK: HTTP clients, \<open>Pubky\<close> facades, approval flows, sessions and their Grants are
  handles. A session writes to the storage of its identity (\<open>pubky_api\<close>).
\<close>

record ('h, 'w) sdk_api =
  sdk_parse_capabilities :: "string \<Rightarrow> capability list option"
  sdk_client_id_new :: "string \<Rightarrow> client_id option"
  sdk_http_client :: "string option \<Rightarrow> 'h option"
  sdk_with_client :: "'h \<Rightarrow> 'h"
  sdk_start_flow :: "capability list \<Rightarrow> client_id \<Rightarrow> 'h \<Rightarrow> url \<Rightarrow> string \<Rightarrow> public_key \<Rightarrow>
    (string \<Rightarrow> ('w, bytes, string) fallible_op) \<Rightarrow> ('w, 'h, string) fallible_op"
  sdk_authorization_url :: "'h \<Rightarrow> url"
  sdk_await_approval :: "'h \<Rightarrow> ('w, 'h, string) fallible_op"
  sdk_session_public_key :: "'h \<Rightarrow> public_key"
  sdk_session_capabilities :: "'h \<Rightarrow> capability list"
  sdk_as_grant :: "'h \<Rightarrow> 'h option"
  sdk_session_info :: "'h \<Rightarrow> 'w \<Rightarrow> grant_session_info \<times> 'w"
  sdk_export_restore :: "'h \<Rightarrow> 'w \<Rightarrow> delegated_grant_credential_state option \<times> 'w"
  sdk_restore_session :: "'h \<Rightarrow> delegated_grant_credential_state \<Rightarrow>
    (string \<Rightarrow> ('w, bytes, string) fallible_op) \<Rightarrow> ('w, 'h, string) fallible_op"
  sdk_pubky_api :: "'h option \<Rightarrow> 'h \<Rightarrow> 'w pubky_api"

text \<open>
  The client crate: \<open>V1Client\<close>, \<open>Peer\<close> and \<open>IncomingV1\<close> with the parts that their accessors
  return. A \<open>V1Client\<close> is a shared handle, its state is part of the world.
\<close>

record 'h browser_client =
  bc_handle :: 'h
  bc_credential :: v1_device_credential

record 'h browser_peer =
  bp_handle :: 'h
  bp_session_id :: bytes
  bp_identity :: string
  bp_device_id :: string

record 'h browser_incoming =
  bi_handle :: 'h
  bi_identity :: string
  bi_device_id :: string
  bi_application :: string

record ('h, 'w) client_api =
  ca_bind :: "v1_device_credential \<Rightarrow> 'w v1_device_resolver \<Rightarrow> v1_client_config \<Rightarrow> ('w, 'h browser_client) op"
  ca_next_record :: "'h browser_client \<Rightarrow> (string \<Rightarrow> string \<Rightarrow> ('w, u64) op) \<Rightarrow> duration \<Rightarrow>
    ('w, v1_device_record) op"
  ca_dial :: "'h browser_client \<Rightarrow> string \<Rightarrow> string option \<Rightarrow> string \<Rightarrow> ('w, 'h browser_peer) op"
  ca_next_incoming :: "'h browser_client \<Rightarrow> ('w, 'h browser_incoming) op"
  ca_close :: "'h browser_client \<Rightarrow> 'w \<Rightarrow> unit \<times> 'w"
  ca_accept :: "'h browser_incoming \<Rightarrow> ('w, 'h browser_peer) op"
  ca_reject :: "'h browser_incoming \<Rightarrow> 'w \<Rightarrow> 'w"
  ca_drop_incoming :: "'h browser_incoming \<Rightarrow> 'w \<Rightarrow> 'w"
  ca_wait_for_path :: "'h browser_peer \<Rightarrow> connection_path \<Rightarrow> duration \<Rightarrow> 'w \<Rightarrow> connection_path \<times> 'w"
  ca_send :: "'h browser_peer \<Rightarrow> bytes \<Rightarrow> ('w, unit) op"
  ca_recv :: "'h browser_peer \<Rightarrow> ('w, bytes) op"
  ca_peer_close :: "'h browser_peer \<Rightarrow> ('w, unit) op"
  ca_drop_peer :: "'h browser_peer \<Rightarrow> 'w \<Rightarrow> 'w"
  ca_sleep :: "duration \<Rightarrow> 'w \<Rightarrow> unit \<times> 'w"

text \<open>What the methods of \<open>BrowserCore\<close> run on.\<close>

record ('j, 'h, 'w) platform =
  pf_env :: env
  pf_js :: "('j, 'w) js_api"
  pf_sdk :: "('h, 'w) sdk_api"
  pf_net :: "('h, 'w) client_api"
  pf_clock :: "'w runtime"
  pf_keys :: "'w \<Rightarrow> (keypair \<times> keypair) \<times> 'w"

section \<open>State\<close>

record 'h pending_auth =
  au_flow :: 'h
  au_pubky :: 'h
  au_key_id :: string
  au_client_id :: string
  au_expected_identity :: "string option"
  au_epoch :: u64

text \<open>An \<open>AbortHandle\<close> is the number of its pair; \<open>AbortHandle::abort\<close> sets the flag of the pair.\<close>

record 'h browser_state =
  bs_pending_auth :: "'h pending_auth option"
  bs_auth_busy :: bool
  bs_auth_epoch :: u64
  bs_auth_abort :: "nat option"
  bs_identity_busy :: bool
  bs_pubky :: "'h option"
  bs_session :: "'h option"
  bs_key_id :: "string option"
  bs_identity :: "string option"
  bs_client_id :: "string option"
  bs_device :: "v1_device_credential option"
  bs_sequence_store :: "browser_sequence_store option"
  bs_client :: "'h browser_client option"
  bs_current_record :: "v1_device_record option"
  bs_peers :: "(string, 'h browser_peer) hash_map"
  bs_pending_inbound :: "(string, 'h browser_incoming) hash_map"
  bs_dialing :: "string list"
  bs_going_online :: bool
  bs_epoch :: u64
  bs_next_request_id :: u64
  bs_renewal_abort :: "nat option"

definition browser_state_default :: "'h browser_state" where
  "browser_state_default =
     \<lparr>bs_pending_auth = None, bs_auth_busy = False, bs_auth_epoch = 0, bs_auth_abort = None,
      bs_identity_busy = False, bs_pubky = None, bs_session = None, bs_key_id = None,
      bs_identity = None, bs_client_id = None, bs_device = None, bs_sequence_store = None,
      bs_client = None, bs_current_record = None, bs_peers = [], bs_pending_inbound = [],
      bs_dialing = [], bs_going_online = False, bs_epoch = 0, bs_next_request_id = 0,
      bs_renewal_abort = None\<rparr>"

text \<open>The tasks that \<open>spawn_local\<close> starts.\<close>

datatype 'h spawn =
    IncomingLoop "'h browser_client" u64
  | InboundExpiry string u64
  | RenewalLoop "'h browser_client" 'h browser_sequence_store bool u64 nat
  | ReceiveLoop "'h browser_peer" string u64
  | Shutdown "string option"

text \<open>
  The state with the rest of what the tasks share: the abort flags, the tasks spawned since the
  scheduler last looked, and the events that were handed to the JavaScript callback. The last field
  counts the network epochs without wrapping; no code reads it.
\<close>

record 'h browser_core =
  core_state :: "'h browser_state"
  core_aborted :: "nat list"
  core_next_handle :: nat
  core_spawned :: "'h spawn list"
  core_events :: "json list"
  core_epochs :: nat

definition browser_core_new :: "'h browser_core" where
  "browser_core_new = \<lparr>core_state = browser_state_default, core_aborted = [], core_next_handle = 0,
     core_spawned = [], core_events = [], core_epochs = 0\<rparr>"

section \<open>Objects for JavaScript\<close>

text \<open>
  Results are structs with camel-case members. \<open>to_js\<close> fails where a value has no JavaScript form.
\<close>

definition to_js :: "('j, 'h, 'w) platform \<Rightarrow> json \<Rightarrow> 'j browser_result" where
  "to_js B v = ok_or (js_to_value (pf_js B) v) (failure ''internal-error'')"

definition ser_auth_request :: "string \<Rightarrow> json" where
  "ser_auth_request authorization_url = ser_struct [''authorizationUrl''] [JStr authorization_url]"

record identity_result =
  idr_identity :: string
  idr_homeserver :: string
  idr_grant_id :: string
  idr_grant_expires_at :: u64

definition ser_identity_result :: "identity_result \<Rightarrow> json" where
  "ser_identity_result r =
     ser_struct [''identity'', ''homeserver'', ''grantId'', ''grantExpiresAt'']
       [JStr (idr_identity r), JStr (idr_homeserver r), JStr (idr_grant_id r), ser_uint (idr_grant_expires_at r)]"

definition ser_device_result :: "v1_device_credential \<Rightarrow> json" where
  "ser_device_result device =
     ser_struct [''identity'', ''deviceId'', ''controlSigningKey'', ''irohEndpointId'', ''alpn'']
       [JStr (cr_identity device), JStr (cr_device_id device), JStr (cr_control_signing_key device),
        JStr (cr_iroh_endpoint_id device), JStr V1_IROH_ALPN_TEXT]"

definition device_result :: "('j, 'h, 'w) platform \<Rightarrow> v1_device_credential \<Rightarrow> 'j browser_result" where
  "device_result B device = to_js B (ser_device_result device)"

definition ser_online_result :: "'h browser_client \<Rightarrow> json" where
  "ser_online_result client =
     ser_struct [''identity'', ''deviceId'', ''alpn'', ''path'', ''e2e'']
       [JStr (cr_identity (bc_credential client)), JStr (cr_device_id (bc_credential client)),
        JStr V1_IROH_ALPN_TEXT, JStr ''relay'', JBool True]"

definition ser_peer_result :: "string \<Rightarrow> string \<Rightarrow> json" where
  "ser_peer_result peer_id peer_device_id =
     ser_struct [''peerId'', ''peerDeviceId'', ''path'', ''e2e'', ''alpn'']
       [JStr peer_id, JStr peer_device_id, JStr ''relay'', JBool True, JStr V1_IROH_ALPN_TEXT]"

definition ser_send_receipt :: "string \<Rightarrow> json \<Rightarrow> json" where
  "ser_send_receipt peer_id accepted_at =
     ser_struct [''peerId'', ''acceptedAt''] [JStr peer_id, accepted_at]"

record restore_state =
  rs_version :: u8
  rs_grant_jws :: string
  rs_homeserver :: string
  rs_key_id :: string
  rs_client_pk :: string

definition restore_state_fields :: "string list" where
  "restore_state_fields = [''version'', ''grantJws'', ''homeserver'', ''keyId'', ''clientPk'']"

definition ser_restore_state :: "restore_state \<Rightarrow> json" where
  "ser_restore_state r = ser_struct restore_state_fields
     [ser_uint (rs_version r), JStr (rs_grant_jws r), JStr (rs_homeserver r), JStr (rs_key_id r),
      JStr (rs_client_pk r)]"

definition de_restore_state :: "json \<Rightarrow> restore_state option" where
  "de_restore_state j =
     (case de_struct restore_state_fields j of
        Some [a, b, c, d, e] \<Rightarrow> do {
          a' \<leftarrow> de_uint a; b' \<leftarrow> de_string b; c' \<leftarrow> de_string c; d' \<leftarrow> de_string d; e' \<leftarrow> de_string e;
          Some \<lparr>rs_version = a', rs_grant_jws = b', rs_homeserver = c', rs_key_id = d',
            rs_client_pk = e'\<rparr> }
      | _ \<Rightarrow> None)"

text \<open>The derived form of a device credential, as the browser stores it.\<close>

definition credential_fields :: "string list" where
  "credential_fields = [''authorization'', ''certificate'', ''control_signing_secret'', ''iroh_secret'']"

definition ser_credential :: "env \<Rightarrow> v1_device_credential \<Rightarrow> json" where
  "ser_credential E c = ser_struct credential_fields
     [ser_grant_authorization (cr_authorization c), ser_certificate (cr_certificate c),
      JStr (cr_control_signing_secret c), JStr (cr_iroh_secret c)]"

definition de_credential :: "env \<Rightarrow> json \<Rightarrow> v1_device_credential option" where
  "de_credential E j =
     (case de_struct credential_fields j of
        Some [a, b, c, d] \<Rightarrow> do {
          a' \<leftarrow> de_grant_authorization a; b' \<leftarrow> de_certificate b; c' \<leftarrow> de_string c; d' \<leftarrow> de_string d;
          Some \<lparr>cr_authorization = a', cr_certificate = b', cr_control_signing_secret = c',
            cr_iroh_secret = d'\<rparr> }
      | _ \<Rightarrow> None)"

text \<open>\<open>serde_json::to_string\<close> and \<open>from_str\<close>.\<close>

definition json_to_string :: "env \<Rightarrow> json \<Rightarrow> string option" where
  "json_to_string E j = map_option of_bytes (json_to_vec E j)"

definition json_from_str :: "env \<Rightarrow> string \<Rightarrow> json option" where
  "json_from_str E s = json_from_slice E (as_bytes s)"

section \<open>Checks of what JavaScript passes in\<close>

definition validate_client_id :: "('h, 'w) sdk_api \<Rightarrow> string \<Rightarrow> unit browser_result" where
  "validate_client_id S client_id =
     and_then (ok_or (sdk_client_id_new S client_id) (opaque_failure ())) (\<lambda>_.
     if list_ex is_control (str_chars client_id) \<or> list_all is_whitespace (str_chars client_id)
     then Err (failure ''client-id-invalid'') else Ok ())"

definition is_explicit_loopback_http_origin :: "env \<Rightarrow> url \<Rightarrow> bool" where
  "is_explicit_loopback_http_origin E url =
     (url_port E url \<noteq> None \<and> url_host_str E url \<in> {Some ''127.0.0.1'', Some ''::1''})"

definition valid_relay_scheme :: "env \<Rightarrow> url \<Rightarrow> bool \<Rightarrow> bool" where
  "valid_relay_scheme E url allow_loopback =
     (let loopback = is_explicit_loopback_http_origin E url
      in url_scheme E url = ''https'' \<or> (allow_loopback \<and> loopback \<and> url_scheme E url = ''http''))"

definition validate_auth_relay :: "env \<Rightarrow> string \<Rightarrow> bool \<Rightarrow> url browser_result" where
  "validate_auth_relay E v allow_loopback =
     (if v = [] \<or> length v > MAX_AUTH_RELAY_BYTES then Err (failure ''auth-relay-invalid'')
      else and_then (ok_or (url_parse E v) (failure ''auth-relay-invalid'')) (\<lambda>url.
      if \<not> valid_relay_scheme E url allow_loopback
        \<or> url_host_str E url = None
        \<or> url_username E url \<noteq> []
        \<or> url_password E url \<noteq> None
        \<or> url_path E url \<notin> {''/inbox'', ''/inbox/''}
        \<or> url_query E url \<noteq> None
        \<or> url_fragment E url \<noteq> None
      then Err (failure ''auth-relay-invalid'') else Ok url))"

fun validate_iroh_relays_loop ::
  "env \<Rightarrow> bool \<Rightarrow> string list \<Rightarrow> url list \<Rightarrow> string list \<Rightarrow> url list browser_result" where
  "validate_iroh_relays_loop E allow_loopback unique parsed [] = Ok parsed"
| "validate_iroh_relays_loop E allow_loopback unique parsed (v # values) =
     (if length v > MAX_AUTH_RELAY_BYTES then Err (failure ''relay-config-invalid'')
      else and_then (ok_or (url_parse E v) (failure ''relay-config-invalid'')) (\<lambda>url.
      if \<not> valid_relay_scheme E url allow_loopback
        \<or> url_host_str E url = None
        \<or> url_username E url \<noteq> []
        \<or> url_password E url \<noteq> None
        \<or> url_path E url \<noteq> ''/''
        \<or> url_query E url \<noteq> None
        \<or> url_fragment E url \<noteq> None
        \<or> url_as_str url \<in> set unique
      then Err (failure ''relay-config-invalid'')
      else validate_iroh_relays_loop E allow_loopback (url_as_str url # unique) (parsed @ [url]) values))"

definition validate_iroh_relays :: "env \<Rightarrow> string list \<Rightarrow> bool \<Rightarrow> url list browser_result" where
  "validate_iroh_relays E values allow_loopback =
     (if values = [] \<or> length values > MAX_IROH_RELAYS then Err (failure ''relay-config-invalid'')
      else validate_iroh_relays_loop E allow_loopback [] [] values)"

definition validate_testnet_host :: "string \<Rightarrow> unit browser_result" where
  "validate_testnet_host host =
     (if host = [] \<or> length host > MAX_TESTNET_HOST_BYTES
        \<or> list_ex (\<lambda>c. c \<in> {CHR ''/'', CHR 0x5C, CHR ''@'', CHR '':''}) host
        \<or> list_ex is_control (str_chars host)
      then Err (failure ''testnet-config-invalid'') else Ok ())"

definition build_http_client :: "('h, 'w) sdk_api \<Rightarrow> string option \<Rightarrow> 'h browser_result" where
  "build_http_client S testnet_host =
     and_then (case testnet_host of None \<Rightarrow> Ok () | Some host \<Rightarrow> validate_testnet_host host) (\<lambda>_.
     ok_or (sdk_http_client S testnet_host) (opaque_failure ()))"

definition canonical_public_key :: "env \<Rightarrow> string \<Rightarrow> public_key browser_result" where
  "canonical_public_key E v =
     and_then (ok_or (pk_try_from_z32 E v) (failure ''invalid-pubky'')) (\<lambda>key.
     if pk_z32 E key \<noteq> v then Err (failure ''invalid-pubky'') else Ok key)"

definition browser_canonical_identity :: "env \<Rightarrow> string \<Rightarrow> string browser_result" where
  "browser_canonical_identity E v = and_then (canonical_public_key E v) (\<lambda>key. Ok (pk_z32 E key))"

definition validate_stored_summary ::
  "env \<Rightarrow> stored_identity \<Rightarrow> string \<Rightarrow> string \<Rightarrow> u64 \<Rightarrow> unit browser_result" where
  "validate_stored_summary E stored identity client_id now =
     (if si_identity stored \<noteq> identity \<or> si_client_id stored \<noteq> client_id
      then Err (failure ''storage-tampered'')
      else and_then (browser_canonical_identity E (si_homeserver stored)) (\<lambda>_.
      if si_key_id stored = [] \<or> length (si_key_id stored) > 128
        \<or> si_grant_id stored = [] \<or> length (si_grant_id stored) > 128
      then Err (failure ''storage-tampered'')
      else if si_grant_expires_at stored \<le> now then Err (failure ''authentication-required'')
      else Ok ()))"

definition bounded_locator_lifetime :: "v1_device_credential \<Rightarrow> u64 \<Rightarrow> duration browser_result" where
  "bounded_locator_lifetime device now =
     (let remaining = saturating_sub (saturating_sub (cc_expires_at (c_claims (cr_certificate device))) now) 1
      in if remaining = 0 then Err (failure ''device-state-invalid'')
         else Ok (from_secs (min (unat remaining) (as_secs LOCATOR_LIFETIME))))"

section \<open>What the checks accept\<close>

lemma canonical_public_key_Ok_iff [ok_iff]:
  "canonical_public_key E v = Ok key \<longleftrightarrow> pk_try_from_z32 E v = Some key \<and> pk_z32 E key = v"
  by (auto simp: canonical_public_key_def ok_iff)

lemma browser_canonical_identity_Ok_iff [ok_iff]:
  "browser_canonical_identity E v = Ok i \<longleftrightarrow>
     i = v \<and> (\<exists>key. pk_try_from_z32 E v = Some key \<and> pk_z32 E key = v)"
  by (auto simp: browser_canonical_identity_def ok_iff)

lemma de_ser_restore_state: "de_restore_state (ser_restore_state r) = Some r"
  by (simp add: de_restore_state_def ser_restore_state_def serde_simps restore_state_fields_def)

lemma bounded_locator_lifetime_Ok:
  assumes "bounded_locator_lifetime device now = Ok d"
  shows "\<exists>s. d = from_secs s \<and> 1 \<le> s \<and> s \<le> 900 \<and>
    unat now + s < unat (cc_expires_at (c_claims (cr_certificate device)))"
proof -
  define r where "r = saturating_sub (saturating_sub (cc_expires_at (c_claims (cr_certificate device))) now) 1"
  have r: "unat r = unat (cc_expires_at (c_claims (cr_certificate device))) - unat now - 1"
    by (simp add: r_def unat_saturating_sub)
  have "r \<noteq> 0" and d: "d = from_secs (min (unat r) 900)"
    using assms by (auto simp: bounded_locator_lifetime_def r_def Let_def LOCATOR_LIFETIME_def split: if_splits)
  then have "0 < unat r" by (simp add: unat_gt_0)
  then show ?thesis using r by (intro exI [of _ "min (unat r) 900"]) (auto simp: d)
qed

end
