(* ===== verification/Browser_Auth.thy ===== *)
theory Browser_Auth
  imports Browser_State
begin

text \<open>
  Authentication and device state of \<open>BrowserCore\<close> (\<open>crates/browser-wasm/src/lib.rs\<close>): approval
  of a sign-in, restoring and removing an identity, and the device credential. Every block that
  borrows the state is a definition of its own on \<open>browser_state\<close>; a method composes them with
  the calls it awaits.
\<close>

section \<open>Methods\<close>

type_synonym ('h, 'w, 'a) task = "('h browser_core \<times> 'w, 'a) async"
type_synonym ('h, 'w, 'a) core_method = "('h, 'w, 'a browser_result) task"

definition on_core :: "('h browser_core \<Rightarrow> 'a \<times> 'h browser_core) \<Rightarrow> ('h, 'w, 'a) task" where
  "on_core h = atomic (\<lambda>(c, w). let (a, c') = h c in (a, (c', w)))"

text \<open>\<open>state.borrow_mut()\<close>\<close>

definition borrow :: "('h browser_state \<Rightarrow> 'a \<times> 'h browser_state) \<Rightarrow> ('h, 'w, 'a) task" where
  "borrow h = on_core (\<lambda>c. let (a, s) = h (core_state c) in (a, c\<lparr>core_state := s\<rparr>))"

definition modify :: "('h browser_state \<Rightarrow> 'h browser_state) \<Rightarrow> ('h, 'w, unit) task" where
  "modify f = borrow (\<lambda>s. ((), f s))"

text \<open>A call that returns at once, and one that is awaited.\<close>

definition call_now :: "('w \<Rightarrow> 'a \<times> 'w) \<Rightarrow> ('h, 'w, 'a) task" where
  "call_now m = atomic (\<lambda>(c, w). let (a, w') = m w in (a, (c, w')))"

definition awaiting :: "('w \<Rightarrow> 'a \<times> 'w) \<Rightarrow> ('h, 'w, 'a) task" where
  "awaiting m = await (\<lambda>(c, w). let (a, w') = m w in (a, (c, w')))"

definition fail :: "string \<Rightarrow> ('h, 'w, 'a) core_method" where
  "fail code = as_return (Err (failure code))"

definition new_pair :: "('h, 'w, nat) task" where
  "new_pair = on_core (\<lambda>c. (core_next_handle c, c\<lparr>core_next_handle := Suc (core_next_handle c)\<rparr>))"

definition abort :: "nat option \<Rightarrow> ('h, 'w, unit) task" where
  "abort handle = on_core (\<lambda>c. ((),
     case handle of None \<Rightarrow> c | Some n \<Rightarrow> c\<lparr>core_aborted := n # core_aborted c\<rparr>))"

definition is_aborted :: "nat \<Rightarrow> 'h browser_core \<times> 'w \<Rightarrow> bool" where
  "is_aborted handle = (\<lambda>(c, w). handle \<in> set (core_aborted c))"

definition read_clock :: "('j, 'h, 'w) platform \<Rightarrow> ('h, 'w, u64) task" where
  "read_clock B = call_now (rt_now_seconds (pf_clock B))"

definition auth_epoch_is :: "u64 \<Rightarrow> ('h, 'w, bool) task" where
  "auth_epoch_is expected = borrow (\<lambda>s. (bs_auth_epoch s = expected, s))"

section \<open>Sign-in\<close>

definition auth_idle :: "'h browser_state \<Rightarrow> bool" where
  "auth_idle s \<longleftrightarrow> \<not> (bs_auth_busy s \<or> bs_identity_busy s \<or> bs_pending_auth s \<noteq> None \<or> bs_session s \<noteq> None)"

definition begin_auth_claim :: "'h browser_state \<Rightarrow> u64 browser_result \<times> 'h browser_state" where
  "begin_auth_claim s =
     (if \<not> auth_idle s then (Err (failure ''invalid-state''), s)
      else (Ok (bs_auth_epoch s + 1),
            s\<lparr>bs_auth_busy := True, bs_auth_epoch := bs_auth_epoch s + 1\<rparr>))"

definition begin_auth_store :: "'h pending_auth \<Rightarrow> u64 \<Rightarrow> 'h browser_state \<Rightarrow> bool \<times> 'h browser_state" where
  "begin_auth_store pending auth_epoch s =
     (let s1 = s\<lparr>bs_auth_busy := False\<rparr>
      in if bs_auth_epoch s1 = auth_epoch then (False, s1\<lparr>bs_pending_auth := Some pending\<rparr>)
         else (True, s1))"

definition release_auth :: "'h browser_state \<Rightarrow> 'h browser_state" where
  "release_auth s = s\<lparr>bs_auth_busy := False\<rparr>"

definition begin_auth_setup ::
  "('j, 'h, 'w) platform \<Rightarrow> capability list \<Rightarrow> client_id \<Rightarrow> 'h \<Rightarrow> url \<Rightarrow> ('h, 'w, 'h \<times> string) core_method" where
  "begin_auth_setup B capabilities client_id client relay =
     as_try (awaiting (ensure_grant_key (pf_js B) None)) (\<lambda>(key_id, public_key).
     as_bind (call_now (sdk_start_flow (pf_sdk B) capabilities client_id client relay key_id public_key
       (grant_signer (pf_js B) key_id))) (\<lambda>started.
     case started of
       Ok flow \<Rightarrow> as_return (Ok (flow, key_id))
     | Err error \<Rightarrow> as_bind (awaiting (delete_grant_key (pf_js B) key_id)) (\<lambda>_.
         as_return (Err (opaque_failure error)))))"

definition optional_identity :: "env \<Rightarrow> string option \<Rightarrow> string option browser_result" where
  "optional_identity E identity =
     (case identity of
        None \<Rightarrow> Ok None
      | Some i \<Rightarrow> and_then (browser_canonical_identity E i) (\<lambda>i'. Ok (Some i')))"

definition begin_auth ::
  "('j, 'h, 'w) platform \<Rightarrow> string \<Rightarrow> string \<Rightarrow> string option \<Rightarrow> string option \<Rightarrow> ('h, 'w, 'j) core_method" where
  "begin_auth B client_id http_relay expected_identity testnet_host =
     (let E = pf_env B; J = pf_js B; S = pf_sdk B in
      as_bind (call_now (\<lambda>w. (js_storage_available J w, w))) (\<lambda>available.
      if \<not> available then fail ''browser-unsupported''
      else as_try (as_return (validate_client_id S client_id)) (\<lambda>_.
      as_try (as_return (validate_auth_relay E http_relay (testnet_host \<noteq> None))) (\<lambda>relay.
      as_try (as_return (optional_identity E expected_identity)) (\<lambda>expected_identity'.
      as_try (as_return (build_http_client S testnet_host)) (\<lambda>client.
      as_try (as_return (ok_or (sdk_parse_capabilities S REQUIRED_CAPABILITY) (opaque_failure ()))) (\<lambda>capabilities.
      as_try (as_return (ok_or (sdk_client_id_new S client_id) (opaque_failure ()))) (\<lambda>client_id_value.
      as_try (borrow begin_auth_claim) (\<lambda>auth_epoch.
      as_bind (begin_auth_setup B capabilities client_id_value client relay) (\<lambda>setup.
      case setup of
        Err error \<Rightarrow> as_bind (modify release_auth) (\<lambda>_. as_return (Err error))
      | Ok (flow, key_id) \<Rightarrow>
          (let authorization_url = sdk_authorization_url S flow
           in if url_scheme E authorization_url \<noteq> ''pubkyauth''
                \<or> url_as_str authorization_url = []
                \<or> length (url_as_str authorization_url) > MAX_AUTHORIZATION_URL_BYTES
              then as_bind (modify release_auth) (\<lambda>_.
                   as_bind (awaiting (delete_grant_key J key_id)) (\<lambda>_.
                   fail ''identity-verification-failed''))
              else as_bind (borrow (begin_auth_store
                     \<lparr>au_flow = flow, au_pubky = sdk_with_client S client, au_key_id = key_id,
                      au_client_id = client_id, au_expected_identity = expected_identity',
                      au_epoch = auth_epoch\<rparr> auth_epoch)) (\<lambda>stale.
                   if stale
                   then as_bind (awaiting (delete_grant_key J key_id)) (\<lambda>_. fail ''session-closed'')
                   else as_return (to_js B (ser_auth_request (url_as_str authorization_url)))))))))))))))"

section \<open>Approval\<close>

definition validate_grant_session ::
  "('j, 'h, 'w) platform \<Rightarrow> 'h \<Rightarrow> string \<Rightarrow>
   ('h, 'w, grant_session_info \<times> delegated_grant_credential_state) core_method" where
  "validate_grant_session B session expected_client_id =
     (let E = pf_env B; S = pf_sdk B; capabilities = sdk_session_capabilities S session in
      if map (capability_to_string E) capabilities \<noteq> [REQUIRED_CAPABILITY]
      then fail ''identity-verification-failed''
      else as_try (as_return (ok_or (sdk_as_grant S session) (failure ''identity-verification-failed''))) (\<lambda>grant.
      as_bind (awaiting (sdk_session_info S grant)) (\<lambda>info.
      if client_id_as_str E (gs_client_id info) \<noteq> expected_client_id
        \<or> map (capability_to_string E) (gs_capabilities info) \<noteq> [REQUIRED_CAPABILITY]
        \<or> gs_pubky info \<noteq> sdk_session_public_key S session
      then fail ''identity-verification-failed''
      else as_bind (awaiting (sdk_export_restore S grant)) (\<lambda>restore.
      as_return (and_then (ok_or restore (failure ''identity-verification-failed'')) (\<lambda>restore.
        Ok (info, restore)))))))"

text \<open>\<open>restore.key_id != key_id || load_grant_public_key(key_id).await? != restore.client_pk\<close>\<close>

definition check_grant_key ::
  "('j, 'h, 'w) platform \<Rightarrow> delegated_grant_credential_state \<Rightarrow> string \<Rightarrow> ('h, 'w, unit) core_method" where
  "check_grant_key B restore key_id =
     (if dg_key_id restore \<noteq> key_id then fail ''identity-verification-failed''
      else as_try (awaiting (load_grant_public_key (pf_js B) key_id)) (\<lambda>public_key.
      if public_key \<noteq> dg_client_pk restore then fail ''identity-verification-failed''
      else as_return (Ok ())))"

definition complete_auth_claim ::
  "nat \<Rightarrow> 'h browser_state \<Rightarrow> 'h pending_auth browser_result \<times> 'h browser_state" where
  "complete_auth_claim abort_handle s =
     (if bs_auth_busy s then (Err (failure ''invalid-state''), s)
      else case bs_pending_auth s of
        None \<Rightarrow> (Err (failure ''invalid-state''), s)
      | Some pending \<Rightarrow>
          (let s1 = s\<lparr>bs_pending_auth := None\<rparr>
           in if au_epoch pending \<noteq> bs_auth_epoch s1 then (Err (failure ''session-closed''), s1)
              else (Ok pending, s1\<lparr>bs_auth_busy := True, bs_auth_abort := Some abort_handle\<rparr>)))"

definition end_auth :: "'h browser_state \<Rightarrow> 'h browser_state" where
  "end_auth s = s\<lparr>bs_auth_busy := False, bs_auth_abort := None\<rparr>"

definition enter_session ::
  "'h \<Rightarrow> 'h \<Rightarrow> string \<Rightarrow> string \<Rightarrow> string \<Rightarrow> 'h browser_state \<Rightarrow> 'h browser_state" where
  "enter_session pubky session key_id identity client_id s =
     (end_auth s)\<lparr>bs_pubky := Some pubky, bs_session := Some session, bs_key_id := Some key_id,
       bs_identity := Some identity, bs_client_id := Some client_id,
       bs_sequence_store := Some \<lparr>bq_account = identity\<rparr>\<rparr>"

definition complete_auth_outcome ::
  "('j, 'h, 'w) platform \<Rightarrow> nat \<Rightarrow> 'h pending_auth \<Rightarrow>
   ('h, 'w, identity_result \<times> 'h \<times> string) core_method" where
  "complete_auth_outcome B abort_handle pending =
     (let E = pf_env B; J = pf_js B; S = pf_sdk B; key_id = au_key_id pending in
      as_bind (abortable (is_aborted abort_handle) (awaiting (sdk_await_approval S (au_flow pending)))) (\<lambda>approval.
      as_try (as_return (case approval of
          None \<Rightarrow> Err (failure ''session-closed'')
        | Some r \<Rightarrow> map_err opaque_failure r)) (\<lambda>session.
      as_bind (auth_epoch_is (au_epoch pending)) (\<lambda>current.
      if \<not> current then fail ''session-closed''
      else let identity = pk_z32 E (sdk_session_public_key S session) in
      if (case au_expected_identity pending of None \<Rightarrow> False | Some expected \<Rightarrow> expected \<noteq> identity)
      then fail ''identity-mismatch''
      else as_try (validate_grant_session B session (au_client_id pending)) (\<lambda>(info, restore).
      as_try (check_grant_key B restore key_id) (\<lambda>_.
      let restore_state = \<lparr>rs_version = 1, rs_grant_jws = dg_grant_jws restore,
            rs_homeserver = pk_z32 E (dg_homeserver_pk restore), rs_key_id = dg_key_id restore,
            rs_client_pk = pk_z32 E (dg_client_pk restore)\<rparr> in
      as_bind (read_clock B) (\<lambda>now.
      as_try (as_return (map_err (\<lambda>_. failure ''identity-verification-failed'')
        (from_jws E (dg_grant_jws restore) identity now))) (\<lambda>_.
      as_bind (auth_epoch_is (au_epoch pending)) (\<lambda>current.
      if \<not> current then fail ''session-closed''
      else as_try (as_return (ok_or (json_to_string E (ser_restore_state restore_state)) (failure ''internal-error''))) (\<lambda>encoded.
      let homeserver = pk_z32 E (gs_homeserver info);
          grant_id = grant_id_as_str E (gs_grant_id info) in
      as_try (awaiting (save_identity J
        \<lparr>si_identity = identity, si_key_id = key_id, si_client_id = au_client_id pending,
         si_homeserver = homeserver, si_grant_id = grant_id,
         si_grant_expires_at = gs_grant_expires_at info, si_restore = encoded\<rparr>)) (\<lambda>_.
      as_bind (auth_epoch_is (au_epoch pending)) (\<lambda>current.
      if \<not> current
      then as_bind (awaiting (remove_identity J identity)) (\<lambda>_. fail ''session-closed'')
      else as_return (Ok
        (\<lparr>idr_identity = identity, idr_homeserver = homeserver, idr_grant_id = grant_id,
          idr_grant_expires_at = gs_grant_expires_at info\<rparr>, session, identity))))))))))))))"

definition complete_auth :: "('j, 'h, 'w) platform \<Rightarrow> ('h, 'w, 'j) core_method" where
  "complete_auth B =
     as_bind new_pair (\<lambda>abort_handle.
     as_try (borrow (complete_auth_claim abort_handle)) (\<lambda>pending.
     as_bind (complete_auth_outcome B abort_handle pending) (\<lambda>outcome.
     case outcome of
       Err error \<Rightarrow>
         as_bind (modify end_auth) (\<lambda>_.
         as_bind (awaiting (delete_grant_key (pf_js B) (au_key_id pending))) (\<lambda>_.
         as_return (Err error)))
     | Ok (result, session, identity) \<Rightarrow>
         as_bind (modify (enter_session (au_pubky pending) session (au_key_id pending) identity
           (au_client_id pending))) (\<lambda>_.
         as_return (to_js B (ser_identity_result result))))))"

definition list_local_identities :: "('j, 'h, 'w) platform \<Rightarrow> ('h, 'w, 'j) core_method" where
  "list_local_identities B = awaiting (list_identities (pf_js B))"

definition cancel_auth_take :: "'h browser_state \<Rightarrow> (nat option \<times> string option) \<times> 'h browser_state" where
  "cancel_auth_take s =
     (let pending_key = map_option au_key_id (bs_pending_auth s);
          s1 = s\<lparr>bs_auth_epoch := bs_auth_epoch s + 1, bs_pending_auth := None\<rparr>;
          s2 = (if pending_key \<noteq> None then s1\<lparr>bs_auth_busy := False\<rparr> else s1)
      in ((bs_auth_abort s2, pending_key), s2\<lparr>bs_auth_abort := None\<rparr>))"

definition cancel_auth :: "('j, 'h, 'w) platform \<Rightarrow> ('h, 'w, unit) task" where
  "cancel_auth B =
     as_bind (borrow cancel_auth_take) (\<lambda>(abort_handle, pending_key).
     as_bind (abort abort_handle) (\<lambda>_.
     case pending_key of
       None \<Rightarrow> as_return ()
     | Some key_id \<Rightarrow> as_bind (awaiting (delete_grant_key (pf_js B) key_id)) (\<lambda>_. as_return ())))"

section \<open>Restoring and removing an identity\<close>

definition restore_claim :: "nat \<Rightarrow> 'h browser_state \<Rightarrow> u64 browser_result \<times> 'h browser_state" where
  "restore_claim abort_handle s =
     (if \<not> auth_idle s then (Err (failure ''invalid-state''), s)
      else (Ok (bs_auth_epoch s + 1),
            s\<lparr>bs_auth_busy := True, bs_auth_epoch := bs_auth_epoch s + 1,
              bs_auth_abort := Some abort_handle\<rparr>))"

definition restore_outcome ::
  "('j, 'h, 'w) platform \<Rightarrow> 'h \<Rightarrow> string \<Rightarrow> string \<Rightarrow> u64 \<Rightarrow>
   ('h, 'w, identity_result \<times> 'h \<times> string) core_method" where
  "restore_outcome B pubky identity client_id auth_epoch =
     (let E = pf_env B; J = pf_js B; S = pf_sdk B in
      as_try (awaiting (load_identity J identity)) (\<lambda>stored.
      as_bind (read_clock B) (\<lambda>now.
      as_try (as_return (validate_stored_summary E stored identity client_id now)) (\<lambda>_.
      as_try (as_return (ok_or (Option.bind (json_from_str E (si_restore stored)) de_restore_state)
        (failure ''storage-tampered''))) (\<lambda>restore.
      if rs_version restore \<noteq> 1
        \<or> rs_key_id restore \<noteq> si_key_id stored
        \<or> rs_homeserver restore \<noteq> si_homeserver stored
      then fail ''storage-tampered''
      else as_try (as_return (canonical_public_key E (rs_homeserver restore))) (\<lambda>homeserver.
      as_try (as_return (canonical_public_key E (rs_client_pk restore))) (\<lambda>client_pk.
      as_try (awaiting (load_grant_public_key J (rs_key_id restore))) (\<lambda>stored_public_key.
      if stored_public_key \<noteq> client_pk then fail ''storage-tampered''
      else as_bind (read_clock B) (\<lambda>now.
      as_try (as_return (map_err (\<lambda>_. failure ''identity-verification-failed'')
        (from_jws E (rs_grant_jws restore) identity now))) (\<lambda>_.
      let delegated = \<lparr>dg_grant_jws = rs_grant_jws restore, dg_homeserver_pk = homeserver,
            dg_key_id = rs_key_id restore, dg_client_pk = client_pk\<rparr> in
      as_bind (awaiting (sdk_restore_session S pubky delegated (grant_signer J (rs_key_id restore)))) (\<lambda>restored.
      as_try (as_return (map_err opaque_failure restored)) (\<lambda>session.
      as_try (validate_grant_session B session client_id) (\<lambda>(info, _).
      if pk_z32 E (gs_pubky info) \<noteq> identity
        \<or> pk_z32 E (gs_homeserver info) \<noteq> si_homeserver stored
        \<or> grant_id_as_str E (gs_grant_id info) \<noteq> si_grant_id stored
        \<or> gs_grant_expires_at info \<noteq> si_grant_expires_at stored
      then fail ''identity-verification-failed''
      else as_bind (auth_epoch_is auth_epoch) (\<lambda>current.
      if \<not> current then fail ''session-closed''
      else as_return (Ok
        (\<lparr>idr_identity = identity, idr_homeserver = si_homeserver stored,
          idr_grant_id = si_grant_id stored,
          idr_grant_expires_at = si_grant_expires_at stored\<rparr>, session, rs_key_id restore))))))))))))))))"

definition restore_identity ::
  "('j, 'h, 'w) platform \<Rightarrow> string \<Rightarrow> string \<Rightarrow> string option \<Rightarrow> ('h, 'w, 'j) core_method" where
  "restore_identity B identity client_id testnet_host =
     (let S = pf_sdk B in
      as_try (as_return (browser_canonical_identity (pf_env B) identity)) (\<lambda>identity.
      as_try (as_return (validate_client_id S client_id)) (\<lambda>_.
      as_try (as_return (build_http_client S testnet_host)) (\<lambda>client.
      let pubky = sdk_with_client S client in
      as_bind new_pair (\<lambda>abort_handle.
      as_try (borrow (restore_claim abort_handle)) (\<lambda>auth_epoch.
      as_bind (abortable (is_aborted abort_handle)
        (restore_outcome B pubky identity client_id auth_epoch)) (\<lambda>outcome.
      case outcome of
        Some (Ok (result, session, key_id)) \<Rightarrow>
          as_bind (modify (enter_session pubky session key_id identity client_id)) (\<lambda>_.
          as_return (to_js B (ser_identity_result result)))
      | Some (Err error) \<Rightarrow> as_bind (modify end_auth) (\<lambda>_. as_return (Err error))
      | None \<Rightarrow> as_bind (modify end_auth) (\<lambda>_. fail ''session-closed''))))))))"

definition remove_claim :: "string \<Rightarrow> 'h browser_state \<Rightarrow> unit browser_result \<times> 'h browser_state" where
  "remove_claim identity s =
     (if bs_auth_busy s \<or> bs_identity_busy s \<or> bs_pending_auth s \<noteq> None
      then (Err (failure ''invalid-state''), s)
      else if bs_identity s = Some identity
        \<and> (bs_client s \<noteq> None \<or> bs_peers s \<noteq> [] \<or> bs_going_online s)
      then (Err (failure ''identity-active''), s)
      else (Ok (), s\<lparr>bs_identity_busy := True\<rparr>))"

definition remove_finish ::
  "string \<Rightarrow> 'j browser_result \<Rightarrow> 'h browser_state \<Rightarrow> 'j browser_result \<times> 'h browser_state" where
  "remove_finish identity removed s =
     (let s1 = s\<lparr>bs_identity_busy := False\<rparr>
      in case removed of
           Err error \<Rightarrow> (Err error, s1)
         | Ok removed \<Rightarrow>
             (Ok removed,
              if bs_identity s1 = Some identity
              then s1\<lparr>bs_pubky := None, bs_session := None, bs_key_id := None, bs_identity := None,
                bs_client_id := None, bs_device := None, bs_sequence_store := None\<rparr>
              else s1))"

definition remove_local_identity :: "('j, 'h, 'w) platform \<Rightarrow> string \<Rightarrow> ('h, 'w, 'j) core_method" where
  "remove_local_identity B identity =
     as_try (as_return (browser_canonical_identity (pf_env B) identity)) (\<lambda>identity.
     as_try (borrow (remove_claim identity)) (\<lambda>_.
     as_bind (awaiting (remove_identity (pf_js B) identity)) (\<lambda>removed.
     borrow (remove_finish identity removed))))"

section \<open>The device credential\<close>

text \<open>The two random key pairs that \<open>prepare\<close> draws come from the platform.\<close>

definition issue_device ::
  "('j, 'h, 'w) platform \<Rightarrow> 'h \<Rightarrow> string \<Rightarrow> string \<Rightarrow> string \<Rightarrow> u64 \<Rightarrow> ('h, 'w, v1_device_credential) core_method" where
  "issue_device B session key_id identity device_id now =
     (let E = pf_env B; J = pf_js B; S = pf_sdk B in
      as_try (as_return (ok_or (sdk_as_grant S session) (failure ''identity-verification-failed''))) (\<lambda>grant.
      as_bind (awaiting (sdk_export_restore S grant)) (\<lambda>restore.
      as_try (as_return (ok_or restore (failure ''identity-verification-failed''))) (\<lambda>restore.
      as_try (check_grant_key B restore key_id) (\<lambda>_.
      as_try (as_return (map_err (\<lambda>_. failure ''identity-verification-failed'')
        (from_jws E (dg_grant_jws restore) identity now))) (\<lambda>authorization.
      as_try (as_return (map_err (\<lambda>_. failure ''identity-verification-failed'')
        (grant_verify E authorization identity now))) (\<lambda>claims.
      as_try (as_return (case checked_add now DEVICE_LIFETIME_SECONDS of
          None \<Rightarrow> Err (failure ''identity-verification-failed'')
        | Some expiry \<Rightarrow> (let expiry' = min expiry (g_exp claims)
            in if expiry' > now then Ok expiry' else Err (failure ''identity-verification-failed'')))) (\<lambda>expires_at.
      as_bind (call_now (pf_keys B)) (\<lambda>(control, iroh).
      as_try (as_return (map_err (\<lambda>_. failure ''device-state-invalid'')
        (prepare E control iroh authorization identity device_id now expires_at))) (\<lambda>draft.
      as_try (as_return (map_err (\<lambda>_. failure ''device-state-invalid'')
        (certificate_signing_bytes E draft))) (\<lambda>signing_bytes.
      as_try (awaiting (sign_certificate J key_id signing_bytes)) (\<lambda>signature.
      as_return (map_err (\<lambda>_. failure ''identity-verification-failed'')
        (finalize E draft signature))))))))))))))"

text \<open>
  What \<open>prepare_device\<close> decides about a stored credential: it can be used as it is, or it is
  replaced, or the error. A credential may be replaced when it is valid now or was valid until it
  expired.
\<close>

datatype device_decision = UseDevice | ReplaceDevice string

definition stored_device_decision ::
  "env \<Rightarrow> v1_device_credential \<Rightarrow> string \<Rightarrow> bool \<Rightarrow> bool \<Rightarrow> u64 \<Rightarrow> device_decision browser_result" where
  "stored_device_decision E device device_id publisher_present network_active now =
     (let claims = c_claims (cr_certificate device);
          currently_valid = is_ok (credential_verify E device now);
          remaining = saturating_sub (cc_expires_at claims) now;
          enough_for_fresh_locator =
            unat remaining > as_secs LOCATOR_LIFETIME + as_secs PEER_HANDSHAKE_TIMEOUT;
          historical_now = max (saturating_sub (cc_expires_at claims) 1) (cc_issued_at claims);
          safely_expired = (cc_expires_at claims \<le> now \<and> is_ok (credential_verify E device historical_now))
      in if currently_valid \<and> publisher_present \<and> enough_for_fresh_locator \<and> cr_device_id device = device_id
         then Ok UseDevice
         else if \<not> currently_valid \<and> \<not> safely_expired then Err (failure ''device-state-invalid'')
         else if network_active then Err (failure ''identity-active'')
         else Ok (ReplaceDevice (cr_control_signing_key device)))"

definition prepare_device_read ::
  "'h browser_state \<Rightarrow> ('h \<times> string \<times> string \<times> bool \<times> bool) browser_result \<times> 'h browser_state" where
  "prepare_device_read s =
     ((if bs_identity_busy s then Err (failure ''invalid-state'')
       else and_then (ok_or (bs_session s) (failure ''authentication-required'')) (\<lambda>session.
       and_then (ok_or (bs_key_id s) (failure ''authentication-required'')) (\<lambda>key_id.
       and_then (ok_or (bs_identity s) (failure ''authentication-required'')) (\<lambda>identity.
       Ok (session, key_id, identity, bs_device s \<noteq> None, bs_client s \<noteq> None \<or> bs_going_online s))))), s)"

definition set_device :: "v1_device_credential \<Rightarrow> 'h browser_state \<Rightarrow> 'h browser_state" where
  "set_device device s = s\<lparr>bs_device := Some device\<rparr>"

definition prepare_new_device ::
  "('j, 'h, 'w) platform \<Rightarrow> 'h \<Rightarrow> string \<Rightarrow> string \<Rightarrow> string \<Rightarrow> u64 \<Rightarrow> string option \<Rightarrow> ('h, 'w, 'j) core_method" where
  "prepare_new_device B session key_id identity device_id now old_control_key =
     (let E = pf_env B; J = pf_js B in
      as_try (issue_device B session key_id identity device_id now) (\<lambda>device.
      as_try (as_return (ok_or (json_to_string E (ser_credential E device)) (failure ''internal-error''))) (\<lambda>encoded.
      as_try (awaiting (case old_control_key of
          Some old \<Rightarrow> replace_device_state J identity old (cr_control_signing_key device) encoded
        | None \<Rightarrow> save_new_device_state J identity (cr_control_signing_key device) encoded)) (\<lambda>_.
      as_try (as_return (device_result B device)) (\<lambda>result.
      as_bind (modify (set_device device)) (\<lambda>_.
      as_return (Ok result)))))))"

definition prepare_device :: "('j, 'h, 'w) platform \<Rightarrow> string \<Rightarrow> ('h, 'w, 'j) core_method" where
  "prepare_device B device_id =
     (let E = pf_env B; J = pf_js B in
      as_try (borrow prepare_device_read) (\<lambda>(session, key_id, identity, had_cached_device, network_active).
      as_bind (read_clock B) (\<lambda>now.
      as_try (awaiting (load_device_state J identity)) (\<lambda>stored.
      case stored of
        Some encoded \<Rightarrow>
          as_try (as_return (ok_or (Option.bind (json_from_str E encoded) (de_credential E))
            (failure ''storage-tampered''))) (\<lambda>device.
          if cr_identity device \<noteq> identity then fail ''storage-tampered''
          else as_try (awaiting (has_publisher_sequence J identity identity (cr_control_signing_key device))) (\<lambda>publisher_present.
          as_try (as_return (stored_device_decision E device device_id publisher_present network_active now)) (\<lambda>decision.
          case decision of
            UseDevice \<Rightarrow>
              as_try (as_return (device_result B device)) (\<lambda>result.
              as_bind (modify (set_device device)) (\<lambda>_.
              as_return (Ok result)))
          | ReplaceDevice old \<Rightarrow>
              prepare_new_device B session key_id identity device_id now (Some old))))
      | None \<Rightarrow>
          if had_cached_device then fail ''storage-key-missing''
          else prepare_new_device B session key_id identity device_id now None))))"

end
