(* ===== verification/Browser_Network.thy ===== *)
theory Browser_Network
  imports Browser_Auth
begin

text \<open>
  The network side of \<open>BrowserCore\<close> (\<open>crates/browser-wasm/src/lib.rs\<close>): going online and
  renewing the locator, outgoing and incoming peers, messages, and shutting down. The endless tasks
  are given by one round each, which says whether the loop goes on.
\<close>

section \<open>Events and tasks\<close>

definition spawn_local :: "'h spawn \<Rightarrow> ('h, 'w, unit) task" where
  "spawn_local t = on_core (\<lambda>c. ((), c\<lparr>core_spawned := core_spawned c @ [t]\<rparr>))"

text \<open>
  The JavaScript callback may call back into the core before it returns, so that others may run
  right after an event.
\<close>

definition emit :: "json \<Rightarrow> ('h, 'w, unit) task" where
  "emit event =
     as_bind (on_core (\<lambda>c. ((), c\<lparr>core_events := core_events c @ [event]\<rparr>))) (\<lambda>_. as_yield)"

definition emit_json :: "(string \<times> json) list \<Rightarrow> ('h, 'w, unit) task" where
  "emit_json members = emit (JObj members)"

definition message_event :: "string \<Rightarrow> bytes \<Rightarrow> json \<Rightarrow> json" where
  "message_event peer_id b received_at =
     JObj [(''type'', JStr ''message''), (''peerId'', JStr peer_id), (''body'', ser_vec ser_uint b),
           (''receivedAt'', received_at)]"

definition emit_message :: "('j, 'h, 'w) platform \<Rightarrow> string \<Rightarrow> bytes \<Rightarrow> ('h, 'w, unit) task" where
  "emit_message B peer_id b =
     as_bind (call_now (js_date_now (pf_js B))) (\<lambda>received_at. emit (message_event peer_id b received_at))"

definition verified_event :: "string \<Rightarrow> string \<Rightarrow> json" where
  "verified_event peer_id peer_device_id =
     JObj [(''type'', JStr ''peer-verified''), (''peerId'', JStr peer_id),
           (''peerDeviceId'', JStr peer_device_id), (''path'', JStr ''relay''), (''route'', JStr ''relay''),
           (''e2e'', JBool True), (''irohQuicEncrypted'', JBool True), (''pubkyIdentityVerified'', JBool True),
           (''protocolVersion'', JNum 1), (''alpn'', JStr V1_IROH_ALPN_TEXT)]"

definition disconnected_event :: "string \<Rightarrow> (string \<times> json) list" where
  "disconnected_event peer_id = [(''type'', JStr ''peer-disconnected''), (''peerId'', JStr peer_id)]"

definition error_event :: "string \<Rightarrow> (string \<times> json) list" where
  "error_event code = [(''type'', JStr ''error''), (''code'', JStr code)]"

fun for_each :: "('a \<Rightarrow> ('h, 'w, unit) task) \<Rightarrow> 'a list \<Rightarrow> ('h, 'w, unit) task" where
  "for_each f [] = as_return ()"
| "for_each f (x # xs) = as_bind (f x) (\<lambda>_. for_each f xs)"

definition reject_all :: "('j, 'h, 'w) platform \<Rightarrow> 'h browser_incoming list \<Rightarrow> ('h, 'w, unit) task" where
  "reject_all B = for_each (\<lambda>incoming. call_now (\<lambda>w. ((), ca_reject (pf_net B) incoming w)))"

definition close_peer :: "('j, 'h, 'w) platform \<Rightarrow> 'h browser_peer \<Rightarrow> ('h, 'w, unit) task" where
  "close_peer B peer = as_bind (awaiting (ca_peer_close (pf_net B) peer)) (\<lambda>_. as_return ())"

definition close_client :: "('j, 'h, 'w) platform \<Rightarrow> 'h browser_client \<Rightarrow> ('h, 'w, unit) task" where
  "close_client B client = awaiting (ca_close (pf_net B) client)"

text \<open>
  Publication and deletion go through the session that was current when the task started; they
  need no \<open>Pubky\<close> facade.
\<close>

definition publish_record ::
  "('j, 'h, 'w) platform \<Rightarrow> 'h \<Rightarrow> v1_device_record \<Rightarrow> bool \<Rightarrow> ('h, 'w, unit cresult) task" where
  "publish_record B session r allow =
     awaiting (publish_v1_device_record (pf_env B) (pf_clock B) (sdk_pubky_api (pf_sdk B) None session) r allow)"

definition delete_record ::
  "('j, 'h, 'w) platform \<Rightarrow> 'h \<Rightarrow> v1_device_record \<Rightarrow> ('h, 'w, unit) task" where
  "delete_record B session r =
     as_bind (awaiting (delete_v1_device_record (pf_env B) (sdk_pubky_api (pf_sdk B) None session) r)) (\<lambda>_.
     as_return ())"

section \<open>Shutting down\<close>

text \<open>Every new epoch of the network is also counted without wrapping.\<close>

definition next_epoch :: "'h browser_core \<Rightarrow> 'h browser_core" where
  "next_epoch c = c\<lparr>core_state := (core_state c)\<lparr>bs_epoch := bs_epoch (core_state c) + 1\<rparr>,
     core_epochs := Suc (core_epochs c)\<rparr>"

definition offline :: "'h browser_state \<Rightarrow> 'h browser_state" where
  "offline s = s\<lparr>bs_going_online := False, bs_dialing := [], bs_pending_inbound := [], bs_client := None,
     bs_peers := [], bs_current_record := None, bs_renewal_abort := None\<rparr>"

definition shutdown_take ::
  "'h browser_core \<Rightarrow>
   ('h browser_client option \<times> 'h browser_peer list \<times> 'h browser_incoming list \<times>
    v1_device_record option \<times> 'h option \<times> nat option) \<times> 'h browser_core" where
  "shutdown_take c =
     (let s = core_state c
      in ((bs_client s, map snd (bs_peers s), map snd (bs_pending_inbound s), bs_current_record s,
           bs_session s, bs_renewal_abort s),
          next_epoch (c\<lparr>core_state := offline s\<rparr>)))"

text \<open>Clearing the table of pending requests drops them.\<close>

definition shutdown_network :: "('j, 'h, 'w) platform \<Rightarrow> ('h, 'w, unit) task" where
  "shutdown_network B =
     as_bind (on_core shutdown_take) (\<lambda>(client, peers, pending, record, session, renewal).
     as_bind (for_each (\<lambda>incoming. call_now (\<lambda>w. ((), ca_drop_incoming (pf_net B) incoming w))) pending) (\<lambda>_.
     as_bind (abort renewal) (\<lambda>_.
     as_bind (for_each (close_peer B) peers) (\<lambda>_.
     as_bind (case client of None \<Rightarrow> as_return () | Some client \<Rightarrow> close_client B client) (\<lambda>_.
     case (record, session) of
       (Some record, Some session) \<Rightarrow> delete_record B session record
     | _ \<Rightarrow> as_return ())))))"

definition disconnect :: "('j, 'h, 'w) platform \<Rightarrow> ('h, 'w, unit) task" where
  "disconnect B = shutdown_network B"

definition drop_take :: "'h browser_state \<Rightarrow> (string option \<times> nat option) \<times> 'h browser_state" where
  "drop_take s =
     ((map_option au_key_id (bs_pending_auth s), bs_auth_abort s),
      s\<lparr>bs_auth_epoch := bs_auth_epoch s + 1, bs_pending_auth := None, bs_auth_abort := None\<rparr>)"

definition drop_core :: "('h, 'w, unit) task" where
  "drop_core =
     as_bind (borrow drop_take) (\<lambda>(pending_key, auth_abort).
     as_bind (abort auth_abort) (\<lambda>_.
     spawn_local (Shutdown pending_key)))"

definition drop_task :: "('j, 'h, 'w) platform \<Rightarrow> string option \<Rightarrow> ('h, 'w, unit) task" where
  "drop_task B pending_key =
     as_bind (shutdown_network B) (\<lambda>_.
     case pending_key of
       None \<Rightarrow> as_return ()
     | Some key_id \<Rightarrow> as_bind (awaiting (delete_grant_key (pf_js B) key_id)) (\<lambda>_. as_return ()))"

definition fail_online_take ::
  "u64 \<Rightarrow> 'h browser_core \<Rightarrow>
   (v1_device_record option \<times> (string \<times> 'h browser_peer) list \<times> 'h browser_incoming list) option \<times>
   'h browser_core" where
  "fail_online_take epoch c =
     (let s = core_state c
      in if bs_epoch s \<noteq> epoch then (None, c)
         else (Some (bs_current_record s, bs_peers s, map snd (bs_pending_inbound s)),
               next_epoch (c\<lparr>core_state := offline s\<rparr>)))"

definition fail_online_endpoint ::
  "('j, 'h, 'w) platform \<Rightarrow> 'h browser_client \<Rightarrow> 'h \<Rightarrow> u64 \<Rightarrow> ('h, 'w, unit) task" where
  "fail_online_endpoint B client session epoch =
     as_bind (on_core (fail_online_take epoch)) (\<lambda>taken.
     case taken of
       None \<Rightarrow> as_return ()
     | Some (record, peers, pending) \<Rightarrow>
         as_bind (reject_all B pending) (\<lambda>_.
         as_bind (for_each (\<lambda>(_, peer). close_peer B peer) peers) (\<lambda>_.
         as_bind (close_client B client) (\<lambda>_.
         as_bind (case record of None \<Rightarrow> as_return () | Some record \<Rightarrow> delete_record B session record) (\<lambda>_.
         as_bind (for_each (\<lambda>(peer_id, _). emit_json (disconnected_event peer_id)) peers) (\<lambda>_.
         as_bind (emit_json (error_event ''publication-failed'')) (\<lambda>_.
         emit_json [(''type'', JStr ''online-state''), (''online'', JBool False)])))))))"

section \<open>Going online\<close>

text \<open>The block that claims the network for a new epoch.\<close>

definition publish_claim ::
  "'h browser_core \<Rightarrow>
   (v1_device_credential \<times> 'h \<times> 'h \<times> browser_sequence_store \<times> u64) browser_result \<times> 'h browser_core" where
  "publish_claim c =
     (let s = core_state c
      in if bs_identity_busy s \<or> bs_going_online s \<or> bs_client s \<noteq> None
         then (Err (failure ''invalid-state''), c)
         else case and_then (ok_or (bs_device s) (failure ''device-state-invalid'')) (\<lambda>device.
              and_then (ok_or (bs_pubky s) (failure ''authentication-required'')) (\<lambda>pubky.
              and_then (ok_or (bs_session s) (failure ''authentication-required'')) (\<lambda>session.
              and_then (ok_or (bs_sequence_store s) (failure ''storage-key-missing'')) (\<lambda>sequences.
              Ok (device, pubky, session, sequences))))) of
            Err error \<Rightarrow> (Err error, c)
          | Ok (device, pubky, session, sequences) \<Rightarrow>
              (let c' = next_epoch (c\<lparr>core_state := s\<lparr>bs_going_online := True\<rparr>\<rparr>)
               in (Ok (device, pubky, session, sequences, bs_epoch (core_state c')), c')))"

definition browser_config :: "url list \<Rightarrow> bool \<Rightarrow> v1_client_config" where
  "browser_config relays allow_loopback_testnet =
     (config_relay_only True AcknowledgePreConsentRelayMetadataExposure [APPLICATION])
       \<lparr>cfg_trusted_relays := map relay_config_new relays,
        cfg_allow_insecure_loopback_relay := allow_loopback_testnet,
        cfg_peer_handshake_timeout := PEER_HANDSHAKE_TIMEOUT,
        cfg_max_message_bytes := MAX_CHAT_BYTES\<rparr>"

definition browser_resolver ::
  "('j, 'h, 'w) platform \<Rightarrow> 'h \<Rightarrow> 'h \<Rightarrow> browser_sequence_store \<Rightarrow> bool \<Rightarrow> 'w v1_device_resolver" where
  "browser_resolver B pubky session sequences allow_loopback_testnet =
     pubky_resolver (pf_env B) (pf_clock B)
       ((sdk_pubky_api (pf_sdk B) (Some pubky) session)
          \<lparr>pa_record_batch := browser_record_batch (pf_env B) (pf_js B) sequences\<rparr>)
       (discovery_config_default\<lparr>dc_allow_insecure_loopback_relay := allow_loopback_testnet\<rparr>)"

definition next_client_record ::
  "('j, 'h, 'w) platform \<Rightarrow> 'h browser_client \<Rightarrow> browser_sequence_store \<Rightarrow> duration \<Rightarrow>
   ('h, 'w, v1_device_record cresult) task" where
  "next_client_record B client sequences lifetime =
     awaiting (ca_next_record (pf_net B) client (browser_next_locator_sequence (pf_js B) sequences) lifetime)"

definition publish_setup ::
  "('j, 'h, 'w) platform \<Rightarrow> v1_device_credential \<Rightarrow> 'h \<Rightarrow> 'h \<Rightarrow> browser_sequence_store \<Rightarrow> url list \<Rightarrow> bool \<Rightarrow>
   ('h, 'w, 'h browser_client \<times> v1_device_record) core_method" where
  "publish_setup B device pubky session sequences relays allow =
     as_bind (awaiting (ca_bind (pf_net B) device (browser_resolver B pubky session sequences allow)
       (browser_config relays allow))) (\<lambda>bound.
     as_try (as_return (map_err (\<lambda>_. failure ''relay-unreachable'') bound)) (\<lambda>client.
     as_bind (read_clock B) (\<lambda>now.
     as_try (as_return (bounded_locator_lifetime (bc_credential client) now)) (\<lambda>locator_lifetime.
     as_bind (next_client_record B client sequences locator_lifetime) (\<lambda>made.
     case made of
       Err _ \<Rightarrow> as_bind (close_client B client) (\<lambda>_. fail ''publication-failed'')
     | Ok record \<Rightarrow>
         as_bind (publish_record B session record allow) (\<lambda>published.
         if is_ok published then as_return (Ok (client, record))
         else as_bind (close_client B client) (\<lambda>_. fail ''publication-failed'')))))))"

definition publish_abandon :: "u64 \<Rightarrow> 'h browser_state \<Rightarrow> 'h browser_state" where
  "publish_abandon epoch s = (if bs_epoch s = epoch then s\<lparr>bs_going_online := False\<rparr> else s)"

definition publish_store ::
  "u64 \<Rightarrow> 'h browser_client \<Rightarrow> v1_device_record \<Rightarrow> nat \<Rightarrow> 'h browser_state \<Rightarrow> bool \<times> 'h browser_state" where
  "publish_store epoch client record renewal_abort s =
     (if bs_epoch s = epoch
      then (False, s\<lparr>bs_going_online := False, bs_current_record := Some record,
              bs_client := Some client, bs_renewal_abort := Some renewal_abort\<rparr>)
      else (True, s))"

definition publish_and_go_online ::
  "('j, 'h, 'w) platform \<Rightarrow> string \<Rightarrow> string list option \<Rightarrow> bool \<Rightarrow> ('h, 'w, 'j) core_method" where
  "publish_and_go_online B device_id relay_urls allow_loopback_testnet =
     as_try (as_return (ok_or relay_urls (failure ''relay-config-invalid''))) (\<lambda>relay_strings.
     as_try (as_return (validate_iroh_relays (pf_env B) relay_strings allow_loopback_testnet)) (\<lambda>relays.
     as_try (prepare_device B device_id) (\<lambda>_.
     as_try (on_core publish_claim) (\<lambda>(device, pubky, session, sequences, epoch).
     as_bind (publish_setup B device pubky session sequences relays allow_loopback_testnet) (\<lambda>setup.
     case setup of
       Err error \<Rightarrow> as_bind (modify (publish_abandon epoch)) (\<lambda>_. as_return (Err error))
     | Ok (client, record) \<Rightarrow>
         as_bind new_pair (\<lambda>renewal_abort.
         as_bind (borrow (publish_store epoch client record renewal_abort)) (\<lambda>stale.
         if stale
         then as_bind (delete_record B session record) (\<lambda>_.
              as_bind (close_client B client) (\<lambda>_. fail ''session-closed''))
         else as_bind (spawn_local (IncomingLoop client epoch)) (\<lambda>_.
              as_bind (spawn_local (RenewalLoop client session sequences allow_loopback_testnet epoch renewal_abort)) (\<lambda>_.
              as_return (to_js B (ser_online_result client)))))))))))"

text \<open>One round of the renewal: true when the loop goes on.\<close>

definition renewal_due :: "u64 \<Rightarrow> 'h browser_state \<Rightarrow> bool" where
  "renewal_due epoch s \<longleftrightarrow> bs_epoch s = epoch \<and> bs_client s \<noteq> None"

definition renewal_store :: "u64 \<Rightarrow> v1_device_record \<Rightarrow> 'h browser_state \<Rightarrow> bool \<times> 'h browser_state" where
  "renewal_store epoch record s =
     (if renewal_due epoch s then (True, s\<lparr>bs_current_record := Some record\<rparr>) else (False, s))"

definition renewal_round ::
  "('j, 'h, 'w) platform \<Rightarrow> 'h browser_client \<Rightarrow> 'h \<Rightarrow> browser_sequence_store \<Rightarrow> bool \<Rightarrow> u64 \<Rightarrow>
   ('h, 'w, bool) task" where
  "renewal_round B client session sequences allow epoch =
     (let failed = as_bind (fail_online_endpoint B client session epoch) (\<lambda>_. as_return False) in
      as_bind (awaiting (ca_sleep (pf_net B) LOCATOR_RENEW_AFTER)) (\<lambda>_.
      as_bind (borrow (\<lambda>s. (renewal_due epoch s, s))) (\<lambda>due.
      if \<not> due then as_return False
      else as_bind (read_clock B) (\<lambda>now.
      case bounded_locator_lifetime (bc_credential client) now of
        Err _ \<Rightarrow> failed
      | Ok locator_lifetime \<Rightarrow>
          as_bind (next_client_record B client sequences locator_lifetime) (\<lambda>made.
          case made of
            Err _ \<Rightarrow> failed
          | Ok record \<Rightarrow>
              as_bind (publish_record B session record allow) (\<lambda>published.
              if \<not> is_ok published then failed
              else as_bind (borrow (renewal_store epoch record)) (\<lambda>active.
              if active then as_return True
              else as_bind (delete_record B session record) (\<lambda>_. as_return False))))))))"

section \<open>Peers\<close>

definition activate_store ::
  "u64 \<Rightarrow> string \<Rightarrow> 'h browser_peer \<Rightarrow> 'h browser_state \<Rightarrow> string option \<times> 'h browser_state" where
  "activate_store epoch peer_id peer s =
     (if bs_epoch s \<noteq> epoch \<or> bs_client s = None then (Some ''session-closed'', s)
      else if length (bs_peers s) \<ge> MAX_CONNECTED_PEERS \<or> hm_contains (bs_peers s) peer_id
      then (Some ''peer-already-connected'', s)
      else (None, s\<lparr>bs_peers := AList.update peer_id peer (bs_peers s)\<rparr>))"

definition activate_peer :: "('j, 'h, 'w) platform \<Rightarrow> 'h browser_peer \<Rightarrow> u64 \<Rightarrow> ('h, 'w, 'j) core_method" where
  "activate_peer B peer epoch =
     as_bind (awaiting (ca_wait_for_path (pf_net B) peer Relayed PATH_CONFIRM_TIMEOUT)) (\<lambda>path.
     if path \<noteq> Relayed
     then as_bind (close_peer B peer) (\<lambda>_. fail ''relay-path-unverified'')
     else case browser_canonical_identity (pf_env B) (bp_identity peer) of
       Err error \<Rightarrow> as_bind (call_now (\<lambda>w. ((), ca_drop_peer (pf_net B) peer w))) (\<lambda>_. as_return (Err error))
     | Ok peer_id \<Rightarrow>
     as_bind (borrow (activate_store epoch peer_id peer)) (\<lambda>activation_error.
     case activation_error of
       Some code \<Rightarrow> as_bind (close_peer B peer) (\<lambda>_. fail code)
     | None \<Rightarrow>
         as_bind (emit (verified_event peer_id (bp_device_id peer))) (\<lambda>_.
         as_bind (spawn_local (ReceiveLoop peer peer_id epoch)) (\<lambda>_.
         as_return (to_js B (ser_peer_result peer_id (bp_device_id peer)))))))"

definition request_claim ::
  "string \<Rightarrow> 'h browser_state \<Rightarrow> ('h browser_client \<times> u64) browser_result \<times> 'h browser_state" where
  "request_claim peer_identity s =
     (if bs_identity s = Some peer_identity
        \<or> bs_client s = None
        \<or> length (bs_peers s) + length (bs_dialing s) \<ge> MAX_CONNECTED_PEERS
        \<or> hm_contains (bs_peers s) peer_identity
        \<or> peer_identity \<in> set (bs_dialing s)
      then (Err (failure ''invalid-state''), s)
      else (and_then (ok_or (bs_client s) (failure ''invalid-state'')) (\<lambda>client. Ok (client, bs_epoch s)),
            s\<lparr>bs_dialing := peer_identity # bs_dialing s\<rparr>))"

definition dial_done :: "u64 \<Rightarrow> string \<Rightarrow> 'h browser_state \<Rightarrow> 'h browser_state" where
  "dial_done epoch peer_identity s =
     (if bs_epoch s = epoch then s\<lparr>bs_dialing := remove1 peer_identity (bs_dialing s)\<rparr> else s)"

definition request_peer :: "('j, 'h, 'w) platform \<Rightarrow> string \<Rightarrow> ('h, 'w, 'j) core_method" where
  "request_peer B peer_identity =
     as_try (as_return (browser_canonical_identity (pf_env B) peer_identity)) (\<lambda>peer_identity.
     as_try (borrow (request_claim peer_identity)) (\<lambda>(client, epoch).
     as_bind (awaiting (ca_dial (pf_net B) client peer_identity None APPLICATION)) (\<lambda>result.
     as_bind (modify (dial_done epoch peer_identity)) (\<lambda>_.
     as_try (as_return (map_err (\<lambda>_. failure ''peer-unreachable'') result)) (\<lambda>peer.
     activate_peer B peer epoch)))))"

definition take_pending ::
  "string \<Rightarrow> 'h browser_state \<Rightarrow> ('h browser_incoming \<times> u64) browser_result \<times> 'h browser_state" where
  "take_pending request_id s =
     (case map_of (bs_pending_inbound s) request_id of
        None \<Rightarrow> (Err (failure ''request-expired''), s)
      | Some incoming \<Rightarrow>
          (Ok (incoming, bs_epoch s),
           s\<lparr>bs_pending_inbound := AList.delete request_id (bs_pending_inbound s)\<rparr>))"

definition accept_inbound :: "('j, 'h, 'w) platform \<Rightarrow> string \<Rightarrow> ('h, 'w, 'j) core_method" where
  "accept_inbound B request_id =
     as_try (borrow (take_pending request_id)) (\<lambda>(incoming, epoch).
     as_bind (awaiting (ca_accept (pf_net B) incoming)) (\<lambda>accepted.
     as_try (as_return (map_err (\<lambda>_. failure ''identity-verification-failed'') accepted)) (\<lambda>peer.
     activate_peer B peer epoch)))"

definition reject_inbound :: "('j, 'h, 'w) platform \<Rightarrow> string \<Rightarrow> ('h, 'w, unit) core_method" where
  "reject_inbound B request_id =
     as_try (borrow (take_pending request_id)) (\<lambda>(incoming, _).
     as_bind (call_now (\<lambda>w. ((), ca_reject (pf_net B) incoming w))) (\<lambda>_. as_return (Ok ())))"

text \<open>What \<open>sendMessage\<close> and the receive loop accept as a message.\<close>

definition chat_message_ok :: "bytes \<Rightarrow> bool" where
  "chat_message_ok b \<longleftrightarrow> \<not> (b = [] \<or> length b > MAX_CHAT_BYTES \<or> \<not> from_utf8_ok b)"

definition send_message :: "('j, 'h, 'w) platform \<Rightarrow> string \<Rightarrow> bytes \<Rightarrow> ('h, 'w, 'j) core_method" where
  "send_message B peer_identity b =
     as_try (as_return (browser_canonical_identity (pf_env B) peer_identity)) (\<lambda>peer_identity.
     if \<not> chat_message_ok b then fail ''message-invalid''
     else as_try (borrow (\<lambda>s. (ok_or (map_of (bs_peers s) peer_identity) (failure ''peer-not-connected''), s))) (\<lambda>peer.
     as_bind (awaiting (ca_send (pf_net B) peer b)) (\<lambda>sent.
     as_try (as_return (map_err (\<lambda>_. failure ''session-closed'') sent)) (\<lambda>_.
     as_bind (call_now (js_date_now (pf_js B))) (\<lambda>accepted_at.
     as_return (to_js B (ser_send_receipt peer_identity accepted_at)))))))"

text \<open>One round of the receive loop, and what the task does after the loop.\<close>

definition receive_round :: "('j, 'h, 'w) platform \<Rightarrow> 'h browser_peer \<Rightarrow> string \<Rightarrow> ('h, 'w, bool) task" where
  "receive_round B peer peer_id =
     as_bind (awaiting (ca_recv (pf_net B) peer)) (\<lambda>received.
     case received of
       Err _ \<Rightarrow> as_return False
     | Ok b \<Rightarrow>
         if chat_message_ok b then as_bind (emit_message B peer_id b) (\<lambda>_. as_return True)
         else as_bind (emit_json (error_event ''message-invalid'')) (\<lambda>_. as_return False))"

definition receive_remove ::
  "u64 \<Rightarrow> string \<Rightarrow> bytes \<Rightarrow> 'h browser_state \<Rightarrow> bool \<times> 'h browser_state" where
  "receive_remove epoch peer_id session s =
     (if bs_epoch s \<noteq> epoch then (False, s)
      else if (case map_of (bs_peers s) peer_id of
                 None \<Rightarrow> False | Some active \<Rightarrow> bp_session_id active = session)
      then (True, s\<lparr>bs_peers := AList.delete peer_id (bs_peers s)\<rparr>)
      else (False, s))"

definition receive_end ::
  "('j, 'h, 'w) platform \<Rightarrow> 'h browser_peer \<Rightarrow> string \<Rightarrow> u64 \<Rightarrow> ('h, 'w, unit) task" where
  "receive_end B peer peer_id epoch =
     as_bind (close_peer B peer) (\<lambda>_.
     as_bind (borrow (receive_remove epoch peer_id (bp_session_id peer))) (\<lambda>removed.
     if removed then emit_json (disconnected_event peer_id) else as_return ()))"

section \<open>Incoming requests\<close>

datatype incoming_decision = EndLoop | Refuse | Queued string

definition next_request_id :: "'h browser_state \<Rightarrow> u64" where
  "next_request_id s = (let n = bs_next_request_id s + 1 in if n = 0 then 1 else n)"

definition request_name :: "u64 \<Rightarrow> string" where
  "request_name n = ''request-'' @ show_nat (unat n)"

definition incoming_store ::
  "u64 \<Rightarrow> 'h browser_incoming \<Rightarrow> 'h browser_state \<Rightarrow> incoming_decision \<times> 'h browser_state" where
  "incoming_store epoch incoming s =
     (let pending_for_identity =
        length (filter (\<lambda>pending. bi_identity pending = bi_identity incoming) (map snd (bs_pending_inbound s)))
      in if bs_epoch s \<noteq> epoch \<or> bs_client s = None then (EndLoop, s)
         else if length (bs_pending_inbound s) \<ge> MAX_PENDING_INBOUND
           \<or> pending_for_identity \<ge> MAX_PENDING_PER_IDENTITY
         then (Refuse, s)
         else (let n = next_request_id s; request_id = request_name n
               in (Queued request_id,
                   s\<lparr>bs_next_request_id := n,
                     bs_pending_inbound := AList.update request_id incoming (bs_pending_inbound s)\<rparr>)))"

definition incoming_round ::
  "('j, 'h, 'w) platform \<Rightarrow> 'h browser_client \<Rightarrow> u64 \<Rightarrow> ('h, 'w, bool) task" where
  "incoming_round B client epoch =
     as_bind (awaiting (ca_next_incoming (pf_net B) client)) (\<lambda>answer.
     case answer of
       Err _ \<Rightarrow> as_return False
     | Ok incoming \<Rightarrow>
         as_bind (borrow (incoming_store epoch incoming)) (\<lambda>decision.
         case decision of
           EndLoop \<Rightarrow> as_bind (reject_all B [incoming]) (\<lambda>_. as_return False)
         | Refuse \<Rightarrow> as_bind (reject_all B [incoming]) (\<lambda>_. as_return True)
         | Queued request_id \<Rightarrow>
             as_bind (spawn_local (InboundExpiry request_id epoch)) (\<lambda>_.
             as_bind (call_now (js_date_now (pf_js B))) (\<lambda>received_at.
             as_bind (emit_json
               [(''type'', JStr ''inbound-request''), (''id'', JStr request_id),
                (''peerId'', JStr (bi_identity incoming)), (''peerDeviceId'', JStr (bi_device_id incoming)),
                (''application'', JStr (bi_application incoming)), (''receivedAt'', received_at)]) (\<lambda>_.
             as_return True)))))"

definition expire_take ::
  "u64 \<Rightarrow> string \<Rightarrow> 'h browser_state \<Rightarrow> 'h browser_incoming option \<times> 'h browser_state" where
  "expire_take epoch request_id s =
     (if bs_epoch s = epoch
      then (map_of (bs_pending_inbound s) request_id,
            s\<lparr>bs_pending_inbound := AList.delete request_id (bs_pending_inbound s)\<rparr>)
      else (None, s))"

definition inbound_expiry :: "('j, 'h, 'w) platform \<Rightarrow> string \<Rightarrow> u64 \<Rightarrow> ('h, 'w, unit) task" where
  "inbound_expiry B request_id epoch =
     as_bind (awaiting (ca_sleep (pf_net B) PENDING_INBOUND_TTL)) (\<lambda>_.
     as_bind (borrow (expire_take epoch request_id)) (\<lambda>incoming.
     case incoming of
       None \<Rightarrow> as_return ()
     | Some incoming \<Rightarrow>
         as_bind (reject_all B [incoming]) (\<lambda>_.
         emit_json [(''type'', JStr ''inbound-request-expired''), (''id'', JStr request_id)])))"

section \<open>The system\<close>

text \<open>What JavaScript can call, with the arguments; \<open>DropCore\<close> frees the object.\<close>

datatype browser_call =
    BeginAuth string string "string option" "string option"
  | CompleteAuth
  | CancelAuth
  | ListLocalIdentities
  | RestoreIdentity string string "string option"
  | RemoveLocalIdentity string
  | PrepareDevice string
  | PublishAndGoOnline string "string list option" bool
  | RequestPeer string
  | AcceptInbound string
  | RejectInbound string
  | SendMessage string bytes
  | Disconnect
  | DropCore

definition answering :: "('h, 'w, 'j) core_method \<Rightarrow> ('h, 'w, 'j browser_result option) task" where
  "answering m = as_bind m (\<lambda>r. as_return (Some r))"

definition silent :: "('h, 'w, 'a) task \<Rightarrow> ('h, 'w, 'j browser_result option) task" where
  "silent m = as_bind m (\<lambda>_. as_return None)"

fun method_of :: "('j, 'h, 'w) platform \<Rightarrow> browser_call \<Rightarrow> ('h, 'w, 'j browser_result option) task" where
  "method_of B (BeginAuth client_id http_relay expected_identity testnet_host) =
     answering (begin_auth B client_id http_relay expected_identity testnet_host)"
| "method_of B CompleteAuth = answering (complete_auth B)"
| "method_of B CancelAuth = silent (cancel_auth B)"
| "method_of B ListLocalIdentities = answering (list_local_identities B)"
| "method_of B (RestoreIdentity identity client_id testnet_host) =
     answering (restore_identity B identity client_id testnet_host)"
| "method_of B (RemoveLocalIdentity identity) = answering (remove_local_identity B identity)"
| "method_of B (PrepareDevice device_id) = answering (prepare_device B device_id)"
| "method_of B (PublishAndGoOnline device_id relay_urls allow) =
     answering (publish_and_go_online B device_id relay_urls allow)"
| "method_of B (RequestPeer peer_identity) = answering (request_peer B peer_identity)"
| "method_of B (AcceptInbound request_id) = answering (accept_inbound B request_id)"
| "method_of B (RejectInbound request_id) = silent (reject_inbound B request_id)"
| "method_of B (SendMessage peer_identity b) = answering (send_message B peer_identity b)"
| "method_of B Disconnect = silent (disconnect B)"
| "method_of B DropCore = silent drop_core"

text \<open>A loop whose round asks to go on runs again as a new task.\<close>

fun task_of :: "('j, 'h, 'w) platform \<Rightarrow> 'h spawn \<Rightarrow> ('h, 'w, unit) task" where
  "task_of B (IncomingLoop client epoch) =
     as_bind (incoming_round B client epoch) (\<lambda>again.
     if again then spawn_local (IncomingLoop client epoch) else as_return ())"
| "task_of B (InboundExpiry request_id epoch) = inbound_expiry B request_id epoch"
| "task_of B (RenewalLoop client session sequences allow epoch registration) =
     as_bind (abortable (is_aborted registration) (renewal_round B client session sequences allow epoch)) (\<lambda>again.
     if again = Some True then spawn_local (RenewalLoop client session sequences allow epoch registration)
     else as_return ())"
| "task_of B (ReceiveLoop peer peer_id epoch) =
     as_bind (receive_round B peer peer_id) (\<lambda>again.
     if again then spawn_local (ReceiveLoop peer peer_id epoch) else receive_end B peer peer_id epoch)"
| "task_of B (Shutdown pending_key) = drop_task B pending_key"

definition drain_spawned ::
  "('j, 'h, 'w) platform \<Rightarrow> 'h browser_core \<times> 'w \<Rightarrow>
   ('h, 'w, 'j browser_result option) task list \<times> ('h browser_core \<times> 'w)" where
  "drain_spawned B = (\<lambda>(c, w). (map (silent \<circ> task_of B) (core_spawned c), (c\<lparr>core_spawned := []\<rparr>, w)))"

text \<open>
  The states of a core: JavaScript may call any method at any time, any number of times, and the
  world answers whatever the platform makes of its state.
\<close>

definition browser_reachable ::
  "('j, 'h, 'w) platform \<Rightarrow>
   ('h browser_core \<times> 'w) \<times> ('h browser_core \<times> 'w, 'j browser_result option) co list \<Rightarrow> bool" where
  "browser_reachable B =
     sys_reachable (\<lambda>m. \<exists>call. m = method_of B call) (drain_spawned B) (\<lambda>(c, w). c = browser_core_new)"

end
