(* ===== verification/Async_Outcomes.thy ===== *)
theory Async_Outcomes
  imports Async_Tasks
begin

text \<open>
  What an asynchronous function returns, whatever other tasks do to the shared state meanwhile.
\<close>

section \<open>Every result\<close>

text \<open>\<open>yields Q m\<close>: whenever \<open>m\<close> finishes, its result satisfies \<open>Q\<close>.\<close>

primrec co_yields :: "('a \<Rightarrow> bool) \<Rightarrow> ('s, 'a) co \<Rightarrow> bool" where
  "co_yields Q (Ready a) = Q a"
| "co_yields Q (Pending k) = (\<forall>s. fst (map_prod (co_yields Q) id (k s)))"

definition yields :: "('a \<Rightarrow> bool) \<Rightarrow> ('s, 'a) async \<Rightarrow> bool" where
  "yields Q m \<longleftrightarrow> (\<forall>s. co_yields Q (fst (m s)))"

lemma yields_return: "Q a \<Longrightarrow> yields Q (as_return a)"
  by (simp add: yields_def as_return_def)

lemma yields_atomic: "(\<And>s. Q (fst (h s))) \<Longrightarrow> yields Q (atomic h)"
  by (simp add: yields_def atomic_def case_prod_unfold Let_def)

lemma yields_yield: "Q () \<Longrightarrow> yields Q as_yield"
  by (simp add: yields_def as_yield_def)

lemma yields_co_bind:
  assumes "\<And>a. R a \<Longrightarrow> yields Q (f a)"
  shows "co_yields R c \<Longrightarrow> co_yields Q (fst (co_bind c f s))"
proof (induction c arbitrary: s)
  case (Ready a)
  then show ?case using assms by (simp add: yields_def)
next
  case (Pending k)
  have "co_yields Q (fst (co_bind (fst (k s1)) f (snd (k s1))))" for s1
    by (rule Pending.IH [of "k s1"]) (use Pending.prems in \<open>auto simp: prod_set_defs\<close>)
  then show ?case by (simp add: case_prod_unfold Let_def)
qed

lemma yields_bind:
  assumes "yields R m" and "\<And>a. R a \<Longrightarrow> yields Q (f a)"
  shows "yields Q (as_bind m f)"
  using assms(1) yields_co_bind [of R Q f, OF assms(2)]
  by (simp add: yields_def as_bind_def case_prod_unfold Let_def)

lemma co_yields_any: "co_yields (\<lambda>_. True) c"
  by (induction c) (auto simp: prod_set_defs)

lemma yields_any: "yields (\<lambda>_. True) m"
  by (simp add: yields_def co_yields_any)

lemma co_yields_mono: "co_yields R c \<Longrightarrow> (\<And>a. R a \<Longrightarrow> Q a) \<Longrightarrow> co_yields Q c"
  by (induction c) (auto simp: prod_set_defs)

lemma yields_mono: "yields R m \<Longrightarrow> (\<And>a. R a \<Longrightarrow> Q a) \<Longrightarrow> yields Q m"
  unfolding yields_def using co_yields_mono by blast

lemma yields_skip: "(\<And>a. yields Q (f a)) \<Longrightarrow> yields Q (as_bind m f)"
  by (rule yields_bind [OF yields_any])

lemma yields_await:
  assumes "\<And>s. Q (fst (m s))"
  shows "yields Q (await m)"
  unfolding await_def
  by (rule yields_skip, rule yields_bind [where R = Q])
    (auto intro: yields_atomic yields_skip yields_return assms)

text \<open>Polling through \<open>Abortable\<close> gives the computation up or goes on with it.\<close>

lemma poll_abortable:
  "P (co_abortable aborted (fst r)) \<Longrightarrow> P (Ready None) \<Longrightarrow>
   P (fst (if aborted s then (Ready None, s) else check_abort aborted (map_prod (co_abortable aborted) id r)))"
  by (cases r; cases "co_abortable aborted (fst r)") (auto simp: check_abort_def)

lemma yields_co_abortable:
  assumes "Q None"
  shows "co_yields (\<lambda>a. Q (Some a)) c \<Longrightarrow> co_yields Q (co_abortable aborted c)"
proof (induction c)
  case (Pending k)
  have "co_yields Q (co_abortable aborted (fst (k s)))" for s
    by (rule Pending.IH [of "k s"]) (use Pending.prems in \<open>auto simp: prod_set_defs\<close>)
  then have "co_yields Q (fst (if aborted s then (Ready None, s)
      else check_abort aborted (map_prod (co_abortable aborted) id (k s))))" for s
    by (rule poll_abortable) (simp add: assms)
  then show ?case by (simp only: co_abortable.simps co_yields.simps fst_map_prod simp_thms)
qed simp

lemma yields_abortable:
  assumes "yields (\<lambda>a. Q (Some a)) m" and "Q None"
  shows "yields Q (abortable aborted m)"
  unfolding yields_def abortable_def
proof
  fix s
  have "co_yields Q (co_abortable aborted (fst (m s)))"
    by (rule yields_co_abortable) (use assms in \<open>simp_all add: yields_def\<close>)
  then show "co_yields Q (fst (if aborted s then (Ready None, s)
      else check_abort aborted (map_prod (co_abortable aborted) id (m s))))"
    by (rule poll_abortable) (simp add: assms)
qed

section \<open>The operator \<open>?\<close>\<close>

text \<open>
  A property of results that says nothing of errors passes through \<open>?\<close>.
\<close>

definition on_ok :: "('a \<Rightarrow> bool) \<Rightarrow> ('a, 'e) result \<Rightarrow> bool" where
  "on_ok Q r \<longleftrightarrow> (\<forall>x. r = Ok x \<longrightarrow> Q x)"

lemma on_ok_simps [simp]: "on_ok Q (Ok x) = Q x" "on_ok Q (Err e)"
  by (simp_all add: on_ok_def)

lemma yields_try:
  assumes "yields (on_ok R) m" and "\<And>x. R x \<Longrightarrow> yields (on_ok Q) (f x)"
  shows "yields (on_ok Q) (as_try m f)"
  unfolding as_try_def
  by (rule yields_bind [OF assms(1)]) (auto simp: on_ok_def split: result.split intro: assms(2) yields_return)

lemma yields_try_any: "(\<And>x. yields (on_ok Q) (f x)) \<Longrightarrow> yields (on_ok Q) (as_try m f)"
  by (rule yields_try [where R = "\<lambda>_. True"]) (auto intro: yields_mono [OF yields_any] simp: on_ok_def)

lemma yields_try_return:
  "(\<And>x. r = Ok x \<Longrightarrow> yields (on_ok Q) (f x)) \<Longrightarrow> yields (on_ok Q) (as_try (as_return r) f)"
  by (rule yields_try [where R = "\<lambda>x. r = Ok x"]) (auto intro: yields_return simp: on_ok_def)

section \<open>Results of a task that follows a protocol\<close>

lemma follows_co_yields:
  "follows P view Q g c \<Longrightarrow> co_yields R c \<Longrightarrow> follows P view (\<lambda>g a. Q g a \<and> R a) g c"
proof (induction rule: follows.induct)
  case (follows_Pending g k)
  show ?case
  proof (rule follows.follows_Pending)
    fix s
    have "co_yields R (fst (k s))" using follows_Pending.prems by simp
    then show "\<exists>g'. P\<^sup>*\<^sup>* (g, view s) (g', view (snd (k s))) \<and>
        follows P view (\<lambda>g a. Q g a \<and> R a) g' (fst (k s))"
      using follows_Pending.IH [of s] by meson
  qed
next
  case (follows_Ready g a)
  then show ?case by (intro follows.follows_Ready) simp
qed

lemma follows_yields:
  assumes "follows_from P view Q g m" and "yields R m"
  shows "follows_from P view (\<lambda>g a. Q g a \<and> R a) g m"
  unfolding follows_from_def
proof
  fix s
  obtain g' where "P\<^sup>*\<^sup>* (g, view s) (g', view (snd (m s)))" "follows P view Q g' (fst (m s))"
    using assms(1) unfolding follows_from_def by blast
  moreover have "co_yields R (fst (m s))" using assms(2) by (simp add: yields_def)
  ultimately show "\<exists>g'. P\<^sup>*\<^sup>* (g, view s) (g', view (snd (m s))) \<and>
      follows P view (\<lambda>g a. Q g a \<and> R a) g' (fst (m s))"
    using follows_co_yields by (intro exI conjI)
qed

section \<open>One step of a system\<close>

text \<open>
  A step either changes nothing that \<open>view\<close> shows, or is a sequence of moves of one task, each in a
  state in which the invariant holds. What holds for the role of every task before the step, and is
  kept by every move, holds after it.
\<close>

context task_protocol
begin

lemma moves_keep:
  assumes "P\<^sup>*\<^sup>* x y" and "Inv (gs[i := fst x]) (snd x)" and "i < length gs" and "K (fst x) (snd x)"
    and move: "\<And>gs g b g' b'. Inv gs b \<Longrightarrow> i < length gs \<Longrightarrow> gs ! i = g \<Longrightarrow> K g b \<Longrightarrow> P (g, b) (g', b') \<Longrightarrow> K g' b'"
  shows "K (fst y) (snd y)"
  using assms(1,2,4)
proof induction
  case (step y z)
  have "Inv (gs[i := fst y]) (snd y)" using inv_moves [OF step.hyps(1) step.prems(1) assms(3)] .
  then show ?case
    using move [of "gs[i := fst y]" "snd y" "fst y" "fst z" "snd z"] step assms(3) by simp
qed simp

lemma step_keeps:
  assumes "sys_reachable calls drain start (s, ts)" and st: "sys_step calls drain (s, ts) (s', ts')"
    and start: "\<And>gs i. Inv gs (view s) \<Longrightarrow> i < length gs \<Longrightarrow> K (gs ! i) (view s)"
    and move: "\<And>gs i g b g' b'. Inv gs b \<Longrightarrow> i < length gs \<Longrightarrow> gs ! i = g \<Longrightarrow> K g b \<Longrightarrow> P (g, b) (g', b') \<Longrightarrow> K g' b'"
  shows "view s' = view s \<or> (\<exists>g b. K g b \<and> view s' = drained b)"
proof -
  obtain gs where gs: "Inv gs (view s)" "list_all2 (follows P view (\<lambda>_ _. True)) gs ts"
    using reachable_inv [OF assms(1)] by blast
  from st show ?thesis
  proof cases
    case (sys_resume i k c s1 ms)
    have i: "i < length gs" using gs(2) sys_resume by (simp add: list_all2_lengthD)
    have "follows P view (\<lambda>_ _. True) (gs ! i) (Pending k)"
      using gs(2) sys_resume i by (metis list_all2_nthD)
    then obtain g where "P\<^sup>*\<^sup>* (gs ! i, view s) (g, view s1)"
      using sys_resume(4) by (cases rule: follows.cases) (metis fst_conv snd_conv)+
    then have "K g (view s1)"
      using moves_keep [of "(gs ! i, view s)" "(g, view s1)" gs i K, OF _ _ i _ move] gs(1) start [OF gs(1) i]
      by simp
    then show ?thesis using spawned_follow [OF sys_resume(5)] by blast
  qed simp
qed

end

end
