(* ===== verification/Browser_Outcomes.thy ===== *)
theory Browser_Outcomes
  imports Browser_Network Async_Outcomes
begin

text \<open>
  What the methods of \<open>BrowserCore\<close> return, whatever other tasks do to the core meanwhile and
  whatever the JavaScript store, the SDK and the network answer.
\<close>

section \<open>Results\<close>

text \<open>An operation of the world answered \<open>a\<close>, in some world.\<close>

definition answers :: "('w \<Rightarrow> 'a \<times> 'w) \<Rightarrow> 'a \<Rightarrow> bool" where
  "answers m a \<longleftrightarrow> (\<exists>w. fst (m w) = a)"

lemma yields_call_now: "(\<And>w. Q (fst (m w))) \<Longrightarrow> yields Q (call_now m)"
  unfolding call_now_def by (rule yields_atomic) (simp add: case_prod_unfold Let_def)

lemma yields_awaiting: "(\<And>w. Q (fst (m w))) \<Longrightarrow> yields Q (awaiting m)"
  unfolding awaiting_def by (rule yields_await) (simp add: case_prod_unfold Let_def)

lemma yields_fail: "yields (on_ok Q) (fail code)"
  unfolding fail_def by (rule yields_return) simp

lemma yields_if:
  "(b \<Longrightarrow> yields Q m1) \<Longrightarrow> (\<not> b \<Longrightarrow> yields Q m2) \<Longrightarrow> yields Q (if b then m1 else m2)"
  by simp

lemma yields_answer: "yields (answers m) (call_now m)" "yields (answers m) (awaiting m)"
  by (auto intro!: yields_call_now yields_awaiting simp: answers_def)

lemma yields_after_await: "(\<And>a. answers m a \<Longrightarrow> yields Q (f a)) \<Longrightarrow> yields Q (as_bind (awaiting m) f)"
  by (rule yields_bind [OF yields_answer(2)])

lemma yields_after_clock:
  "(\<And>now. answers (rt_now_seconds (pf_clock B)) now \<Longrightarrow> yields Q (f now)) \<Longrightarrow> yields Q (as_bind (read_clock B) f)"
  unfolding read_clock_def by (rule yields_bind [OF yields_answer(1)])

lemma yields_after_abortable:
  assumes "yields Q (f None)" and "\<And>a. answers m a \<Longrightarrow> yields Q (f (Some a))"
  shows "yields Q (as_bind (abortable aborted (awaiting m)) f)"
proof (rule yields_bind [where R = "\<lambda>r. r = None \<or> (\<exists>a. r = Some a \<and> answers m a)"])
  show "yields (\<lambda>r. r = None \<or> (\<exists>a. r = Some a \<and> answers m a)) (abortable aborted (awaiting m))"
    by (rule yields_abortable) (simp_all add: yields_answer)
qed (use assms in auto)

lemma yields_try_await:
  assumes "\<And>x. answers m (Ok x) \<Longrightarrow> yields (on_ok Q) (f x)"
  shows "yields (on_ok Q) (as_try (awaiting m) f)"
  by (rule yields_try [where R = "\<lambda>x. answers m (Ok x)"], rule yields_mono [OF yields_answer(2)])
    (auto simp: on_ok_def intro: assms)

lemma yields_prod: "(\<And>x y. p = (x, y) \<Longrightarrow> yields Q (f x y)) \<Longrightarrow> yields Q (case p of (x, y) \<Rightarrow> f x y)"
  by (cases p) simp

text \<open>
  What \<open>validate_grant_session\<close> and \<open>check_grant_key\<close> establish of a session and of the Grant
  it exports.
\<close>

definition session_admitted ::
  "('j, 'h, 'w) platform \<Rightarrow> 'h \<Rightarrow> string \<Rightarrow> grant_session_info \<Rightarrow> delegated_grant_credential_state \<Rightarrow> bool" where
  "session_admitted B session client_id info restore \<longleftrightarrow>
     map (capability_to_string (pf_env B)) (sdk_session_capabilities (pf_sdk B) session) = [REQUIRED_CAPABILITY] \<and>
     map (capability_to_string (pf_env B)) (gs_capabilities info) = [REQUIRED_CAPABILITY] \<and>
     client_id_as_str (pf_env B) (gs_client_id info) = client_id \<and>
     gs_pubky info = sdk_session_public_key (pf_sdk B) session \<and>
     (\<exists>grant. sdk_as_grant (pf_sdk B) session = Some grant \<and>
        answers (sdk_session_info (pf_sdk B) grant) info \<and>
        answers (sdk_export_restore (pf_sdk B) grant) (Some restore))"

definition key_held ::
  "('j, 'h, 'w) platform \<Rightarrow> string \<Rightarrow> public_key \<Rightarrow> bool" where
  "key_held B key_id key \<longleftrightarrow> answers (load_grant_public_key (pf_js B) key_id) (Ok key)"

lemma validate_grant_session_yields:
  "yields (on_ok (\<lambda>(info, restore). session_admitted B session client_id info restore))
     (validate_grant_session B session client_id)"
  unfolding validate_grant_session_def Let_def
  by (intro yields_if yields_fail yields_try_return yields_after_await yields_return)
    (auto simp: session_admitted_def on_ok_def ok_iff)

lemma check_grant_key_yields:
  "yields (on_ok (\<lambda>_. dg_key_id restore = key_id \<and> key_held B key_id (dg_client_pk restore)))
     (check_grant_key B restore key_id)"
  unfolding check_grant_key_def
  by (intro yields_if yields_fail yields_try_await yields_return) (auto simp: key_held_def)

text \<open>
  A completed approval: the session is what the approval of this request answered, and a summary
  of it was saved with the Grant that the session exports.
\<close>

definition approval_admitted ::
  "('j, 'h, 'w) platform \<Rightarrow> 'h pending_auth \<Rightarrow> identity_result \<Rightarrow> 'h \<Rightarrow> string \<Rightarrow> bool" where
  "approval_admitted B pending result session identity \<longleftrightarrow>
     (let E = pf_env B; S = pf_sdk B in
      answers (sdk_await_approval S (au_flow pending)) (Ok session) \<and>
      identity = pk_z32 E (sdk_session_public_key S session) \<and>
      au_expected_identity pending \<in> {None, Some identity} \<and>
      (\<exists>info restore now claims encoded.
         session_admitted B session (au_client_id pending) info restore \<and>
         dg_key_id restore = au_key_id pending \<and> key_held B (au_key_id pending) (dg_client_pk restore) \<and>
         answers (rt_now_seconds (pf_clock B)) now \<and> from_jws E (dg_grant_jws restore) identity now = Ok claims \<and>
         result = \<lparr>idr_identity = identity, idr_homeserver = pk_z32 E (gs_homeserver info),
           idr_grant_id = grant_id_as_str E (gs_grant_id info),
           idr_grant_expires_at = gs_grant_expires_at info\<rparr> \<and>
         json_to_string E (ser_restore_state
           \<lparr>rs_version = 1, rs_grant_jws = dg_grant_jws restore,
            rs_homeserver = pk_z32 E (dg_homeserver_pk restore), rs_key_id = au_key_id pending,
            rs_client_pk = pk_z32 E (dg_client_pk restore)\<rparr>) = Some encoded \<and>
         answers (save_identity (pf_js B)
           \<lparr>si_identity = identity, si_key_id = au_key_id pending, si_client_id = au_client_id pending,
            si_homeserver = idr_homeserver result, si_grant_id = idr_grant_id result,
            si_grant_expires_at = idr_grant_expires_at result, si_restore = encoded\<rparr>) (Ok ())))"

text \<open>
  A restored session: it was restored from the stored Grant, whose record passed every check
  against tampering, with the key that this browser holds, and it is the session that was stored.
\<close>

definition restore_admitted ::
  "('j, 'h, 'w) platform \<Rightarrow> 'h \<Rightarrow> string \<Rightarrow> string \<Rightarrow> identity_result \<Rightarrow> 'h \<Rightarrow> string \<Rightarrow> bool" where
  "restore_admitted B pubky identity client_id result session key_id \<longleftrightarrow>
     (let E = pf_env B; J = pf_js B; S = pf_sdk B in
      identity = pk_z32 E (sdk_session_public_key S session) \<and>
      (\<exists>stored restore homeserver client_pk now now' claims info exported.
         answers (load_identity J identity) (Ok stored) \<and>
         answers (rt_now_seconds (pf_clock B)) now \<and> validate_stored_summary E stored identity client_id now = Ok () \<and>
         Option.bind (json_from_str E (si_restore stored)) de_restore_state = Some restore \<and>
         rs_version restore = 1 \<and> rs_key_id restore = key_id \<and> si_key_id stored = key_id \<and>
         rs_homeserver restore = si_homeserver stored \<and>
         canonical_public_key E (rs_homeserver restore) = Ok homeserver \<and>
         canonical_public_key E (rs_client_pk restore) = Ok client_pk \<and> key_held B key_id client_pk \<and>
         from_jws E (rs_grant_jws restore) identity now' = Ok claims \<and> answers (rt_now_seconds (pf_clock B)) now' \<and>
         answers (sdk_restore_session S pubky
           \<lparr>dg_grant_jws = rs_grant_jws restore, dg_homeserver_pk = homeserver, dg_key_id = key_id,
            dg_client_pk = client_pk\<rparr> (grant_signer J key_id)) (Ok session) \<and>
         session_admitted B session client_id info exported \<and>
         pk_z32 E (gs_homeserver info) = si_homeserver stored \<and>
         grant_id_as_str E (gs_grant_id info) = si_grant_id stored \<and>
         gs_grant_expires_at info = si_grant_expires_at stored \<and>
         result = \<lparr>idr_identity = identity, idr_homeserver = si_homeserver stored,
           idr_grant_id = si_grant_id stored, idr_grant_expires_at = si_grant_expires_at stored\<rparr>))"

lemma complete_auth_outcome_yields:
  "yields (on_ok (\<lambda>(result, session, identity). approval_admitted B pending result session identity))
     (complete_auth_outcome B h pending)"
  unfolding complete_auth_outcome_def Let_def
  by (intro yields_if yields_fail yields_try_return yields_try [OF validate_grant_session_yields]
      yields_try [OF check_grant_key_yields] yields_prod yields_try_await yields_after_abortable
      yields_after_clock yields_skip yields_return)
    (auto 0 0 simp: ok_iff approval_admitted_def Let_def split: option.splits intro!: exI)

lemma session_admitted_pubky:
  "session_admitted B session client_id info restore \<Longrightarrow> gs_pubky info = sdk_session_public_key (pf_sdk B) session"
  by (simp add: session_admitted_def)

lemma restore_outcome_yields:
  "yields (on_ok (\<lambda>(result, session, key_id). restore_admitted B pubky identity client_id result session key_id))
     (restore_outcome B pubky identity client_id e)"
  unfolding restore_outcome_def Let_def
  by (intro yields_if yields_fail yields_try_return yields_try [OF validate_grant_session_yields]
      yields_prod yields_try_await yields_after_await yields_after_clock yields_skip yields_return)
    ((clarsimp simp: ok_iff restore_admitted_def key_held_def Let_def session_admitted_pubky),
     (intro exI conjI; (assumption | simp)))

lemma on_ok_map_err [simp]: "on_ok Q (map_err f r) = on_ok Q r"
  by (cases r) simp_all

text \<open>The credential that \<open>issue_device\<close> makes from its draft.\<close>

definition issued_at_now ::
  "env \<Rightarrow> string \<Rightarrow> string \<Rightarrow> u64 \<Rightarrow> u64 \<Rightarrow> v1_device_credential \<Rightarrow> bool" where
  "issued_at_now E identity device_id now life device \<longleftrightarrow>
     (let certificate = c_claims (cr_certificate device) in
      credential_verify E device now = Ok () \<and>
      cr_identity device = identity \<and> cr_device_id device = device_id \<and>
      cc_issued_at certificate = now \<and> now < cc_expires_at certificate \<and>
      (\<exists>claims. grant_verify E (cr_authorization device) identity now = Ok claims \<and>
         unat (cc_expires_at certificate) = min (unat now + unat life) (unat (g_exp claims))))"

lemma issued_credential:
  assumes draft: "prepare E control iroh authorization identity device_id now expires = Ok d"
    and grant: "grant_verify E authorization identity now = Ok claims"
    and sum: "checked_add now life = Some expiry" "expires = min expiry (g_exp claims)" "now < expires"
  shows "on_ok (issued_at_now E identity device_id now life) (finalize E d signature)"
proof -
  have d: "cc_identity (d_certificate_claims d) = identity" "cc_device_id (d_certificate_claims d) = device_id"
    "cc_issued_at (d_certificate_claims d) = now" "cc_expires_at (d_certificate_claims d) = expires"
    "d_authorization d = authorization"
    using draft by (auto simp: prepare_def ok_iff if_Err_Ok_iff dest: grant_verify_identity)
  have "unat expires = min (unat now + unat life) (unat (g_exp claims))"
    using sum(1,2) by (auto simp: checked_add_Some_iff min_def word_le_nat_alt)
  then show ?thesis
    using sum(3) grant d by (auto simp: on_ok_def finalize_Ok_iff cr_defs issued_at_now_def Let_def)
qed

lemma issue_device_yields:
  "yields (on_ok (issued_at_now (pf_env B) identity device_id now DEVICE_LIFETIME_SECONDS))
     (issue_device B session key_id identity device_id now)"
  unfolding issue_device_def Let_def
  by (intro yields_if yields_fail yields_try_return yields_try_any yields_prod yields_skip yields_return)
    (auto simp: ok_iff split: option.splits if_splits intro!: issued_credential)

section \<open>Stored device credentials\<close>

lemma bounded_locator_lifetime_full:
  "bounded_locator_lifetime device now = Ok LOCATOR_LIFETIME \<longleftrightarrow>
   unat now + 900 < unat (cc_expires_at (c_claims (cr_certificate device)))"
proof -
  define r where "r = saturating_sub (saturating_sub (cc_expires_at (c_claims (cr_certificate device))) now) 1"
  have r: "unat r = unat (cc_expires_at (c_claims (cr_certificate device))) - unat now - 1"
    by (simp add: r_def unat_saturating_sub)
  have "bounded_locator_lifetime device now = Ok LOCATOR_LIFETIME \<longleftrightarrow> r \<noteq> 0 \<and> min (unat r) 900 = 900"
    by (auto simp: bounded_locator_lifetime_def r_def [symmetric] LOCATOR_LIFETIME_def from_secs_def as_secs_def)
  also have "\<dots> \<longleftrightarrow> 900 \<le> unat r" by auto
  finally show ?thesis unfolding r by arith
qed

text \<open>
  The code decides whether an expired credential was once valid by checking it at the last second of
  its life. That is right: a credential that verifies at any time verifies at this one.
\<close>

lemma once_valid:
  assumes "credential_verify E c before = Ok ()"
  defines "claims \<equiv> c_claims (cr_certificate c)"
  shows "credential_verify E c (max (saturating_sub (cc_expires_at claims) 1) (cc_issued_at claims)) = Ok ()"
proof -
  have "cc_issued_at claims < cc_expires_at claims \<and> before < cc_expires_at claims"
    using assms(1) by (auto simp: credential_verify_Ok_iff claims_def dest: certificate_verify_window)
  then have order: "unat (cc_issued_at claims) < unat (cc_expires_at claims)" "unat before < unat (cc_expires_at claims)"
    by (simp_all add: word_le_nat_alt word_less_nat_alt)
  then have last: "unat (saturating_sub (cc_expires_at claims) 1) = unat (cc_expires_at claims) - 1"
    by (simp add: unat_saturating_sub)
  then have "max (saturating_sub (cc_expires_at claims) 1) (cc_issued_at claims) = saturating_sub (cc_expires_at claims) 1"
    using order last by (intro max_absorb1) (simp add: word_le_nat_alt)
  moreover have "before \<le> saturating_sub (cc_expires_at claims) 1"
    "saturating_sub (cc_expires_at claims) 1 < cc_expires_at claims"
    using order last by (simp_all add: word_le_nat_alt word_less_nat_alt)
  ultimately show ?thesis
    using credential.check_later [OF assms(1)] by (simp add: claims_def)
qed

lemma stored_device_decision_exact:
  fixes E stored device_id present active now
  defines "decision \<equiv> stored_device_decision E stored device_id present active now"
    and "expires \<equiv> cc_expires_at (c_claims (cr_certificate stored))"
    and "valid \<equiv> is_ok (credential_verify E stored now)"
  defines "usable \<equiv> valid \<and> present \<and> cr_device_id stored = device_id \<and> unat now + 915 < unat expires"
    and "expired \<equiv> expires \<le> now \<and> (\<exists>before. is_ok (credential_verify E stored before))"
  shows "decision = Ok UseDevice \<longleftrightarrow> usable"
    and "decision = Ok (ReplaceDevice old) \<longleftrightarrow>
      \<not> active \<and> old = cr_control_signing_key stored \<and> (valid \<and> \<not> usable \<or> expired)"
    and "decision = Err code \<longleftrightarrow> code = ''device-state-invalid'' \<and> \<not> valid \<and> \<not> expired \<or>
      code = ''identity-active'' \<and> active \<and> (valid \<and> \<not> usable \<or> expired)"
proof -
  define historical where
    "historical = max (saturating_sub expires 1) (cc_issued_at (c_claims (cr_certificate stored)))"
  have enough: "unat (saturating_sub expires now) > as_secs LOCATOR_LIFETIME + as_secs PEER_HANDSHAKE_TIMEOUT \<longleftrightarrow>
      unat now + 915 < unat expires"
    by (auto simp: unat_saturating_sub LOCATOR_LIFETIME_def PEER_HANDSHAKE_TIMEOUT_def)
  have once: "is_ok (credential_verify E stored historical) \<longleftrightarrow> (\<exists>before. is_ok (credential_verify E stored before))"
    using once_valid [of E stored] unfolding historical_def expires_def by auto
  have late: "expires \<le> now \<Longrightarrow> \<not> valid"
    using credential.check_before [of E stored now] unfolding valid_def expires_def by auto
  have "decision =
      (if usable then Ok UseDevice else if \<not> valid \<and> \<not> expired then Err ''device-state-invalid''
       else if active then Err ''identity-active'' else Ok (ReplaceDevice (cr_control_signing_key stored)))"
    unfolding decision_def stored_device_decision_def Let_def failure_def
    unfolding expires_def [symmetric] historical_def [symmetric] valid_def [symmetric] enough once expired_def usable_def
    by (simp add: conj_ac)
  moreover have "usable \<Longrightarrow> valid \<and> \<not> expired" using late unfolding usable_def expired_def by auto
  ultimately show "decision = Ok UseDevice \<longleftrightarrow> usable"
    "decision = Ok (ReplaceDevice old) \<longleftrightarrow>
      \<not> active \<and> old = cr_control_signing_key stored \<and> (valid \<and> \<not> usable \<or> expired)"
    "decision = Err code \<longleftrightarrow> code = ''device-state-invalid'' \<and> \<not> valid \<and> \<not> expired \<or>
      code = ''identity-active'' \<and> active \<and> (valid \<and> \<not> usable \<or> expired)"
    by auto
qed

end
