(* ===== verification/Browser_Protocol.thy ===== *)
theory Browser_Protocol
  imports Browser_Outcomes
begin

text \<open>
  Which task may change what: the protocol that every method and background task of the browser
  core follows, whatever the other tasks do. A task has a role; the moves of the protocol are the
  blocks that borrow the state, with the role that may run each. Theory Browser\_Safety derives the
  invariants of the core from the moves alone.
\<close>

section \<open>Roles and moves\<close>

text \<open>
  \<open>SigningIn e\<close> holds the authentication lock with epoch \<open>e\<close>, \<open>Removing i\<close> the identity lock.
  \<open>Publishing e n\<close> has claimed the network in epoch \<open>e\<close>, the \<open>n\<close>-th. \<open>Greeted p\<close> has announced
  peer \<open>p\<close> as verified, \<open>Receiving p\<close> reads its messages. \<open>Departing\<close> has removed an identity and
  claims nothing more.
\<close>

datatype role =
    Bystander
  | SigningIn u64
  | Removing string
  | Departing
  | Publishing u64 nat
  | Greeted string
  | Receiving string

fun role_of :: "'h spawn \<Rightarrow> role" where
  "role_of (ReceiveLoop peer peer_id epoch) = Receiving peer_id"
| "role_of _ = Bystander"

definition is_message :: "json \<Rightarrow> bool" where
  "is_message event \<longleftrightarrow> (\<exists>p b t. event = message_event p b t)"

definition with_state :: "'h browser_core \<Rightarrow> 'h browser_state \<Rightarrow> 'h browser_core" where
  "with_state c s = c\<lparr>core_state := s\<rparr>"

definition log_event :: "json \<Rightarrow> 'h browser_core \<Rightarrow> 'h browser_core" where
  "log_event event c = c\<lparr>core_events := core_events c @ [event]\<rparr>"

definition push_spawn :: "'h spawn \<Rightarrow> 'h browser_core \<Rightarrow> 'h browser_core" where
  "push_spawn t c = c\<lparr>core_spawned := core_spawned c @ [t]\<rparr>"

inductive browser_move ::
  "('h \<Rightarrow> 'h \<Rightarrow> string \<Rightarrow> string \<Rightarrow> string \<Rightarrow> bool) \<Rightarrow> role \<times> 'h browser_core \<Rightarrow> role \<times> 'h browser_core \<Rightarrow> bool"
  for A where
  move_begin: "begin_auth_claim (core_state c) = (Ok e, s) \<Longrightarrow>
    browser_move A (Bystander, c) (SigningIn e, with_state c s)"
| move_complete: "complete_auth_claim h (core_state c) = (Ok pending, s) \<Longrightarrow>
    browser_move A (Bystander, c) (SigningIn (au_epoch pending), with_state c s)"
| move_complete_stale: "complete_auth_claim h (core_state c) = (Err code, s) \<Longrightarrow>
    browser_move A (Bystander, c) (Bystander, with_state c s)"
| move_restore: "restore_claim h (core_state c) = (Ok e, s) \<Longrightarrow>
    browser_move A (Bystander, c) (SigningIn e, with_state c s)"
| move_store: "begin_auth_store pending e (core_state c) = (stale, s) \<Longrightarrow> au_epoch pending = e \<Longrightarrow>
    browser_move A (SigningIn e, c) (Bystander, with_state c s)"
| move_release: "browser_move A (SigningIn e, c) (Bystander, with_state c (release_auth (core_state c)))"
| move_end: "browser_move A (SigningIn e, c) (Bystander, with_state c (end_auth (core_state c)))"
| move_enter: "A pubky session key_id identity client_id \<Longrightarrow> browser_move A (SigningIn e, c)
    (Bystander, with_state c (enter_session pubky session key_id identity client_id (core_state c)))"
| move_cancel: "browser_move A (g, c) (g, with_state c (snd (cancel_auth_take (core_state c))))"
| move_drop: "browser_move A (g, c) (g, with_state c (snd (drop_take (core_state c))))"
| move_remove: "remove_claim identity (core_state c) = (Ok u, s) \<Longrightarrow>
    browser_move A (Bystander, c) (Removing identity, with_state c s)"
| move_removed: "browser_move A (Removing identity, c)
    (Departing, with_state c (snd (remove_finish identity (removed :: unit browser_result) (core_state c))))"
| move_device: "browser_move A (g, c) (g, with_state c (set_device device (core_state c)))"
| move_abort: "browser_move A (g, c) (g, c\<lparr>core_aborted := hs\<rparr>)"
| move_handle: "browser_move A (g, c) (g, c\<lparr>core_next_handle := n\<rparr>)"
| move_publish: "publish_claim c = (Ok (device, pubky, session, sequences, e), c') \<Longrightarrow>
    browser_move A (Bystander, c) (Publishing e (core_epochs c'), c')"
| move_abandon: "browser_move A (Publishing e n, c)
    (Bystander, with_state c (publish_abandon e (core_state c)))"
| move_online: "browser_move A (Publishing e n, c)
    (Bystander, with_state c (snd (publish_store e client record h (core_state c))))"
| move_shutdown: "browser_move A (g, c) (g, snd (shutdown_take c))"
| move_fail: "browser_move A (g, c) (g, snd (fail_online_take epoch c))"
| move_renew: "browser_move A (g, c) (g, with_state c (snd (renewal_store epoch record (core_state c))))"
| move_activate: "browser_move A (g, c)
    (g, with_state c (snd (activate_store epoch peer_id peer (core_state c))))"
| move_request: "browser_move A (g, c) (g, with_state c (snd (request_claim peer_id (core_state c))))"
| move_dialed: "browser_move A (g, c) (g, with_state c (dial_done epoch peer_id (core_state c)))"
| move_take: "browser_move A (g, c) (g, with_state c (snd (take_pending request (core_state c))))"
| move_receive_remove: "browser_move A (g, c)
    (g, with_state c (snd (receive_remove epoch peer_id sid (core_state c))))"
| move_incoming: "browser_move A (g, c) (g, with_state c (snd (incoming_store epoch incoming (core_state c))))"
| move_expire: "browser_move A (g, c) (g, with_state c (snd (expire_take epoch request (core_state c))))"
| move_event: "\<not> is_message event \<Longrightarrow> browser_move A (g, c) (g, log_event event c)"
| move_greet: "browser_move A (Bystander, c) (Greeted peer_id, log_event (verified_event peer_id device) c)"
| move_message: "chat_message_ok b \<Longrightarrow>
    browser_move A (Receiving peer_id, c) (Receiving peer_id, log_event (message_event peer_id b t) c)"
| move_spawn: "role_of t = Bystander \<Longrightarrow> browser_move A (g, c) (g, push_spawn t c)"
| move_spawn_receive: "browser_move A (Greeted peer_id, c)
    (Bystander, push_spawn (ReceiveLoop peer peer_id epoch) c)"
| move_receive_again: "browser_move A (Receiving peer_id, c)
    (Receiving peer_id, push_spawn (ReceiveLoop peer peer_id epoch) c)"

section \<open>Composing tasks\<close>

text \<open>
  A task that leads from one role to another under a protocol; most parts of a task keep their role.
\<close>

abbreviation leads ::
  "(role \<times> 'h browser_core \<Rightarrow> role \<times> 'h browser_core \<Rightarrow> bool) \<Rightarrow> role \<Rightarrow> role \<Rightarrow> ('h, 'w, 'a) task \<Rightarrow> bool" where
  "leads P g g' \<equiv> follows_from P fst (\<lambda>r _. r = g') g"

named_theorems leads_intros \<open>tasks that keep their role\<close>

lemma leads_return [leads_intros]: "leads P g g (as_return a)"
  by (rule follows_return) simp

lemma leads_bind: "leads P g g1 m \<Longrightarrow> (\<And>a. leads P g1 g2 (f a)) \<Longrightarrow> leads P g g2 (as_bind m f)"
  by (rule follows_bind [where R = "\<lambda>r _. r = g1"]) auto

lemma leads_bind_same [leads_intros]:
  "leads P g g m \<Longrightarrow> (\<And>a. leads P g g' (f a)) \<Longrightarrow> leads P g g' (as_bind m f)"
  by (rule leads_bind)

lemma leads_try [leads_intros]:
  "leads P g g m \<Longrightarrow> (\<And>a. leads P g g (f a)) \<Longrightarrow> leads P g g (as_try m f)"
  unfolding as_try_def by (rule leads_bind) (auto split: result.splits intro: leads_return)

lemma leads_call_now [leads_intros]: "leads P g g (call_now m)"
  unfolding call_now_def by (rule follows_atomic) (auto split: prod.splits)

lemma leads_awaiting [leads_intros]: "leads P g g (awaiting m)"
  unfolding awaiting_def by (rule follows_await) (auto split: prod.splits)

lemma leads_yield [leads_intros]: "leads P g g as_yield"
  by (rule follows_yield) simp

lemma leads_fail [leads_intros]: "leads P g g (fail code)"
  unfolding fail_def by (rule leads_return)

lemma leads_on_core:
  assumes "\<And>c. snd (h c) = c \<and> g' = g \<or> P (g, c) (g', snd (h c))"
  shows "leads P g g' (on_core h)"
  unfolding on_core_def
proof (rule follows_atomic)
  fix s a s' assume "(case s of (c, w) \<Rightarrow> let (a, c') = h c in (a, (c', w))) = (a, s')"
  then have "fst s' = snd (h (fst s))" by (auto split: prod.splits)
  then show "\<exists>r. P\<^sup>*\<^sup>* (g, fst s) (r, fst s') \<and> r = g'"
    using assms [of "fst s"] by auto
qed

lemma leads_borrow:
  assumes "\<And>c. snd (h (core_state c)) = core_state c \<and> g' = g \<or>
    P (g, c) (g', with_state c (snd (h (core_state c))))"
  shows "leads P g g' (borrow h)"
  unfolding borrow_def
proof (rule leads_on_core)
  fix c
  show "snd (let (a, s) = h (core_state c) in (a, c\<lparr>core_state := s\<rparr>)) = c \<and> g' = g \<or>
      P (g, c) (g', snd (let (a, s) = h (core_state c) in (a, c\<lparr>core_state := s\<rparr>)))"
    using assms [of c] by (auto simp: with_state_def split: prod.splits)
qed

lemma leads_read: "leads P g g (borrow (\<lambda>s. (f s, s)))"
  by (rule leads_borrow) simp

lemma leads_modify:
  assumes "\<And>c. P (g, c) (g', with_state c (f (core_state c)))"
  shows "leads P g g' (modify f)"
  unfolding modify_def by (rule leads_borrow) (simp add: assms)

lemma leads_if [leads_intros]:
  "(b \<Longrightarrow> leads P g g' m1) \<Longrightarrow> (\<not> b \<Longrightarrow> leads P g g' m2) \<Longrightarrow> leads P g g' (if b then m1 else m2)"
  by simp

lemma leads_case_result [leads_intros]:
  "(\<And>x. r = Ok x \<Longrightarrow> leads P g g' (f x)) \<Longrightarrow> (\<And>e. r = Err e \<Longrightarrow> leads P g g' (h e)) \<Longrightarrow>
   leads P g g' (case r of Ok x \<Rightarrow> f x | Err e \<Rightarrow> h e)"
  by (cases r) auto

lemma leads_case_option [leads_intros]:
  "(r = None \<Longrightarrow> leads P g g' m) \<Longrightarrow> (\<And>x. r = Some x \<Longrightarrow> leads P g g' (f x)) \<Longrightarrow>
   leads P g g' (case r of None \<Rightarrow> m | Some x \<Rightarrow> f x)"
  by (cases r) auto

lemma leads_case_prod [leads_intros]:
  "(\<And>x y. p = (x, y) \<Longrightarrow> leads P g g' (f x y)) \<Longrightarrow> leads P g g' (case p of (x, y) \<Rightarrow> f x y)"
  by (cases p) auto

lemma leads_read_clock [leads_intros]: "leads P g g (read_clock B)"
  unfolding read_clock_def by (rule leads_call_now)

lemma leads_auth_epoch_is [leads_intros]: "leads P g g (auth_epoch_is e)"
  unfolding auth_epoch_is_def by (rule leads_read)

lemma leads_for_each [leads_intros]: "(\<And>x. leads P g g (f x)) \<Longrightarrow> leads P g g (for_each f xs)"
  by (induction xs) (auto intro: leads_return leads_bind)

text \<open>What follows a part may rely on what its result satisfies.\<close>

lemma leads_bind_yields:
  assumes "leads P g g1 m" and "yields R m" and "\<And>a. R a \<Longrightarrow> leads P g1 g2 (f a)"
  shows "leads P g g2 (as_bind m f)"
  by (rule follows_bind [OF follows_yields [OF assms(1,2)]]) (use assms(3) in auto)

lemma leads_abortable:
  assumes "leads (steady P) g g m"
  shows "leads P g g (abortable aborted m)"
  by (rule follows_abortable [OF assms]) auto

section \<open>Parts that keep their role\<close>

text \<open>The protocol, or its part without changes of role.\<close>

definition extends_moves :: "(role \<times> 'h browser_core \<Rightarrow> role \<times> 'h browser_core \<Rightarrow> bool) \<Rightarrow> bool" where
  "extends_moves P \<longleftrightarrow> (\<exists>A. \<forall>g c c'. browser_move A (g, c) (g, c') \<longrightarrow> P (g, c) (g, c'))"

lemma extends_movesD: "extends_moves P \<Longrightarrow> (\<And>A. browser_move A (g, c) (g, c')) \<Longrightarrow> P (g, c) (g, c')"
  by (auto simp: extends_moves_def)

lemma extends_browser_move [leads_intros]: "extends_moves (browser_move A)"
  by (auto simp: extends_moves_def)

lemma extends_steady [leads_intros]: "extends_moves (steady (browser_move A))"
  by (auto simp: extends_moves_def steady_def)

lemma leads_core_same:
  "extends_moves P \<Longrightarrow> (\<And>A c. browser_move A (g, c) (g, snd (h c))) \<Longrightarrow> leads P g g (on_core h)"
  by (rule leads_on_core) (auto simp: extends_moves_def)

lemma leads_borrow_same:
  "extends_moves P \<Longrightarrow> (\<And>A c. browser_move A (g, c) (g, with_state c (snd (h (core_state c))))) \<Longrightarrow>
   leads P g g (borrow h)"
  by (rule leads_borrow) (auto simp: extends_moves_def)

lemma leads_modify_same:
  "extends_moves P \<Longrightarrow> (\<And>A c. browser_move A (g, c) (g, with_state c (f (core_state c)))) \<Longrightarrow>
   leads P g g (modify f)"
  by (rule leads_modify) (auto simp: extends_moves_def)

lemma leads_new_pair:
  "extends_moves P \<Longrightarrow> leads P g g new_pair"
  unfolding new_pair_def by (rule leads_core_same, assumption, simp add: move_handle)

lemma leads_abort:
  assumes P: "extends_moves P"
  shows "leads P g g (abort handle)"
  unfolding abort_def
proof (rule leads_on_core)
  fix c
  show "snd ((), case handle of None \<Rightarrow> c | Some n \<Rightarrow> c\<lparr>core_aborted := n # core_aborted c\<rparr>) = c \<and> g = g \<or>
      P (g, c) (g, snd ((), case handle of None \<Rightarrow> c | Some n \<Rightarrow> c\<lparr>core_aborted := n # core_aborted c\<rparr>))"
    using extends_movesD [OF P move_abort] by (cases handle) simp_all
qed

lemma leads_spawn:
  "extends_moves P \<Longrightarrow> role_of t = Bystander \<Longrightarrow> leads P g g (spawn_local t)"
  unfolding spawn_local_def
  by (rule leads_core_same, assumption, simp add: move_spawn [unfolded push_spawn_def])

lemma leads_emit:
  "extends_moves P \<Longrightarrow> \<not> is_message event \<Longrightarrow> leads P g g (emit event)"
  unfolding emit_def
  by (intro leads_bind_same leads_yield leads_core_same, assumption)
    (simp add: move_event [unfolded log_event_def])

lemma leads_cancel_take:
  "extends_moves P \<Longrightarrow> leads P g g (borrow cancel_auth_take)"
  by (rule leads_borrow_same, assumption, rule move_cancel)

lemma leads_drop_take:
  "extends_moves P \<Longrightarrow> leads P g g (borrow drop_take)"
  by (rule leads_borrow_same, assumption, rule move_drop)

lemma leads_set_device:
  "extends_moves P \<Longrightarrow> leads P g g (modify (set_device device))"
  by (rule leads_modify_same, assumption, rule move_device)

lemma leads_prepare_device_read:
  "extends_moves P \<Longrightarrow> leads P g g (borrow prepare_device_read)"
  by (rule leads_borrow) (simp add: prepare_device_read_def)

lemma leads_shutdown_take:
  "extends_moves P \<Longrightarrow> leads P g g (on_core shutdown_take)"
  by (rule leads_core_same, assumption, rule move_shutdown)

lemma leads_fail_online_take:
  "extends_moves P \<Longrightarrow> leads P g g (on_core (fail_online_take epoch))"
  by (rule leads_core_same, assumption, rule move_fail)

lemma leads_renewal_store:
  "extends_moves P \<Longrightarrow> leads P g g (borrow (renewal_store epoch record))"
  by (rule leads_borrow_same, assumption, rule move_renew)

lemma leads_activate_store:
  "extends_moves P \<Longrightarrow> leads P g g (borrow (activate_store epoch peer_id peer))"
  by (rule leads_borrow_same, assumption, rule move_activate)

lemma leads_request_claim:
  "extends_moves P \<Longrightarrow> leads P g g (borrow (request_claim peer_id))"
  by (rule leads_borrow_same, assumption, rule move_request)

lemma leads_dial_done:
  "extends_moves P \<Longrightarrow> leads P g g (modify (dial_done epoch peer_id))"
  by (rule leads_modify_same, assumption, rule move_dialed)

lemma leads_take_pending:
  "extends_moves P \<Longrightarrow> leads P g g (borrow (take_pending request))"
  by (rule leads_borrow_same, assumption, rule move_take)

lemma leads_receive_remove:
  "extends_moves P \<Longrightarrow> leads P g g (borrow (receive_remove epoch peer_id sid))"
  by (rule leads_borrow_same, assumption, rule move_receive_remove)

lemma leads_incoming_store:
  "extends_moves P \<Longrightarrow> leads P g g (borrow (incoming_store epoch incoming))"
  by (rule leads_borrow_same, assumption, rule move_incoming)

lemma leads_expire_take:
  "extends_moves P \<Longrightarrow> leads P g g (borrow (expire_take epoch request))"
  by (rule leads_borrow_same, assumption, rule move_expire)

lemmas leads_blocks = leads_new_pair leads_abort leads_spawn leads_emit leads_cancel_take leads_drop_take
  leads_set_device leads_prepare_device_read leads_shutdown_take leads_fail_online_take
  leads_renewal_store leads_activate_store leads_request_claim leads_dial_done leads_take_pending
  leads_receive_remove leads_incoming_store leads_expire_take leads_read

lemma not_message:
  "\<not> is_message (JObj ((''type'', JStr ''peer-disconnected'') # ms))"
  "\<not> is_message (JObj ((''type'', JStr ''error'') # ms))"
  "\<not> is_message (JObj ((''type'', JStr ''online-state'') # ms))"
  "\<not> is_message (JObj ((''type'', JStr ''inbound-request'') # ms))"
  "\<not> is_message (JObj ((''type'', JStr ''inbound-request-expired'') # ms))"
  "\<not> is_message (JObj ((''type'', JStr ''peer-verified'') # ms))"
  by (auto simp: is_message_def message_event_def)

lemma leads_emit_json: "extends_moves P \<Longrightarrow> \<not> is_message (JObj ms) \<Longrightarrow> leads P g g (emit_json ms)"
  unfolding emit_json_def by (rule leads_emit)

section \<open>Methods that claim nothing\<close>

lemma leads_begin_auth_setup: "leads P g g (begin_auth_setup B capabilities client_id client relay)"
  unfolding begin_auth_setup_def by (intro leads_intros)

lemma leads_check_grant_key: "leads P g g (check_grant_key B restore key_id)"
  unfolding check_grant_key_def by (intro leads_intros)

lemma leads_validate_grant_session: "leads P g g (validate_grant_session B session client_id)"
  unfolding validate_grant_session_def Let_def by (intro leads_intros)

lemma leads_complete_auth_outcome: "leads P g g (complete_auth_outcome B h pending)"
  unfolding complete_auth_outcome_def Let_def
  by (intro leads_intros leads_abortable leads_validate_grant_session leads_check_grant_key)

lemma leads_restore_outcome: "leads P g g (restore_outcome B pubky identity client_id e)"
  unfolding restore_outcome_def Let_def
  by (intro leads_intros leads_validate_grant_session)

lemma leads_issue_device: "leads P g g (issue_device B session key_id identity device_id now)"
  unfolding issue_device_def Let_def by (intro leads_intros leads_check_grant_key)

lemma leads_prepare_new_device:
  "extends_moves P \<Longrightarrow> leads P g g (prepare_new_device B session key_id identity device_id now old)"
  unfolding prepare_new_device_def Let_def by (intro leads_intros leads_issue_device leads_set_device)

lemma leads_prepare_device: "extends_moves P \<Longrightarrow> leads P g g (prepare_device B device_id)"
  unfolding prepare_device_def Let_def
  by (intro leads_intros leads_blocks leads_prepare_new_device)
    (auto split: device_decision.splits intro!: leads_intros leads_set_device leads_prepare_new_device)

lemma leads_list: "leads P g g (list_local_identities B)"
  unfolding list_local_identities_def by (intro leads_intros)

lemma leads_cancel_auth: "extends_moves P \<Longrightarrow> leads P g g (cancel_auth B)"
  unfolding cancel_auth_def by (intro leads_intros leads_blocks)

lemma leads_reject_all: "leads P g g (reject_all B incomings)"
  unfolding reject_all_def by (intro leads_intros)

lemma leads_close_peer: "leads P g g (close_peer B peer)"
  unfolding close_peer_def by (intro leads_intros)

lemma leads_close_client: "leads P g g (close_client B client)"
  unfolding close_client_def by (intro leads_intros)

lemma leads_delete_record: "leads P g g (delete_record B session record)"
  unfolding delete_record_def by (intro leads_intros)

lemma leads_publish_record: "leads P g g (publish_record B session record allow)"
  unfolding publish_record_def by (intro leads_intros)

lemma leads_next_client_record: "leads P g g (next_client_record B client sequences lifetime)"
  unfolding next_client_record_def by (intro leads_intros)

lemmas leads_calls = leads_reject_all leads_close_peer leads_close_client leads_delete_record
  leads_publish_record leads_next_client_record

lemma leads_shutdown_network: "extends_moves P \<Longrightarrow> leads P g g (shutdown_network B)"
  unfolding shutdown_network_def by (intro leads_intros leads_blocks leads_calls)

lemma leads_drop_core: "extends_moves P \<Longrightarrow> leads P g g drop_core"
  unfolding drop_core_def by (intro leads_intros leads_blocks) simp_all

lemma leads_drop_task: "extends_moves P \<Longrightarrow> leads P g g (drop_task B pending_key)"
  unfolding drop_task_def by (intro leads_intros leads_shutdown_network)

lemma leads_fail_online_endpoint:
  "extends_moves P \<Longrightarrow> leads P g g (fail_online_endpoint B client session epoch)"
  unfolding fail_online_endpoint_def
  by (intro leads_intros leads_blocks leads_calls leads_emit_json)
    (simp_all add: not_message disconnected_event_def error_event_def)

lemma leads_renewal_round:
  "extends_moves P \<Longrightarrow> leads P g g (renewal_round B client session sequences allow epoch)"
  unfolding renewal_round_def Let_def
  by (intro leads_intros leads_blocks leads_calls leads_fail_online_endpoint)

lemma leads_publish_setup: "leads P g g (publish_setup B device pubky session sequences relays allow)"
  unfolding publish_setup_def by (intro leads_intros leads_calls)

lemma leads_reject_inbound: "extends_moves P \<Longrightarrow> leads P g g (reject_inbound B request)"
  unfolding reject_inbound_def by (intro leads_intros leads_blocks)

lemma leads_send_message: "leads P g g (send_message B peer_id b)"
  unfolding send_message_def by (intro leads_intros leads_blocks)

lemma leads_incoming_round: "extends_moves P \<Longrightarrow> leads P g g (incoming_round B client epoch)"
  unfolding incoming_round_def
  by (intro leads_intros leads_blocks leads_calls)
    (auto split: incoming_decision.splits simp: not_message
      intro!: leads_intros leads_spawn leads_calls leads_emit_json)

lemma leads_inbound_expiry: "extends_moves P \<Longrightarrow> leads P g g (inbound_expiry B request epoch)"
  unfolding inbound_expiry_def
  by (intro leads_intros leads_blocks leads_calls leads_emit_json) (simp_all add: not_message)

section \<open>Methods that claim a lock\<close>

text \<open>
  What entitles a task to enter a session: the approval of the request it holds, or the restored
  session of a stored identity, with every check that \<open>complete_auth\<close> and \<open>restore_identity\<close> make.
\<close>

definition entitled ::
  "('j, 'h, 'w) platform \<Rightarrow> 'h \<Rightarrow> 'h \<Rightarrow> string \<Rightarrow> string \<Rightarrow> string \<Rightarrow> bool" where
  "entitled B pubky session key_id identity client_id \<longleftrightarrow>
     (\<exists>pending result. pubky = au_pubky pending \<and> key_id = au_key_id pending \<and> client_id = au_client_id pending \<and>
        approval_admitted B pending result session identity) \<or>
     (\<exists>result. restore_admitted B pubky identity client_id result session key_id)"

lemma entitled_session:
  assumes "entitled B pubky session key_id identity client_id"
  shows "identity = pk_z32 (pf_env B) (sdk_session_public_key (pf_sdk B) session)"
    and "map (capability_to_string (pf_env B)) (sdk_session_capabilities (pf_sdk B) session) = [REQUIRED_CAPABILITY]"
  using assms by (auto simp: entitled_def approval_admitted_def restore_admitted_def session_admitted_def Let_def)

lemma entitled_grant:
  assumes "entitled B pubky session key_id identity client_id"
  shows "\<exists>(delegated :: delegated_grant_credential_state) now claims.
    dg_key_id delegated = key_id \<and> key_held B key_id (dg_client_pk delegated) \<and>
    from_jws (pf_env B) (dg_grant_jws delegated) identity now = Ok claims"
  using assms unfolding entitled_def
proof (elim disjE exE conjE)
  fix pending result
  assume "key_id = au_key_id pending" "approval_admitted B pending result session identity"
  then show ?thesis unfolding approval_admitted_def Let_def by blast
next
  fix result
  assume "restore_admitted B pubky identity client_id result session key_id"
  then obtain jws client_pk now claims where "key_held B key_id client_pk"
    "from_jws (pf_env B) jws identity now = Ok claims"
    by (auto simp: restore_admitted_def Let_def)
  then show ?thesis
    by (intro exI [of _ "\<lparr>dg_grant_jws = jws, dg_homeserver_pk = client_pk,
        dg_key_id = key_id, dg_client_pk = client_pk\<rparr>"] exI [of _ now] exI [of _ claims]) simp
qed

lemma abortable_restore_yields:
  "yields (\<lambda>r. \<forall>result session key_id. r = Some (Ok (result, session, key_id)) \<longrightarrow>
       restore_admitted B pubky identity client_id result session key_id)
     (abortable aborted (restore_outcome B pubky identity client_id e))"
  by (rule yields_abortable) (auto intro: yields_mono [OF restore_outcome_yields] simp: on_ok_def)

lemma follows_claim:
  assumes "\<And>c x c'. h c = (Ok x, c') \<Longrightarrow> \<exists>r \<in> G x. P (g, c) (r, c')"
    and "\<And>c e c'. h c = (Err e, c') \<Longrightarrow> c' = c \<or> P (g, c) (g, c')"
  shows "follows_from P fst (\<lambda>r y. case y of Ok x \<Rightarrow> r \<in> G x | Err _ \<Rightarrow> r = g) g (on_core h)"
  unfolding on_core_def
proof (rule follows_atomic)
  fix s a s' assume "(case s of (c, w) \<Rightarrow> let (a, c') = h c in (a, (c', w))) = (a, s')"
  then have h: "h (fst s) = (a, fst s')" by (auto split: prod.splits)
  show "\<exists>r. P\<^sup>*\<^sup>* (g, fst s) (r, fst s') \<and> (case a of Ok x \<Rightarrow> r \<in> G x | Err _ \<Rightarrow> r = g)"
  proof (cases a)
    case (Ok x)
    from assms(1) [OF h [unfolded Ok]] obtain r where "r \<in> G x" "P (g, fst s) (r, fst s')" by blast
    then show ?thesis using Ok by (intro exI [of _ r]) (simp add: r_into_rtranclp)
  next
    case (Err e)
    from assms(2) [OF h [unfolded Err]] show ?thesis
      using Err by (intro exI [of _ g]) (auto intro: r_into_rtranclp)
  qed
qed

lemma leads_claim_core:
  assumes "\<And>c x c'. h c = (Ok x, c') \<Longrightarrow> \<exists>r \<in> G x. P (g, c) (r, c')"
    and "\<And>c e c'. h c = (Err e, c') \<Longrightarrow> c' = c \<or> P (g, c) (g, c')"
    and "\<And>x r. r \<in> G x \<Longrightarrow> leads P r g (f x)"
  shows "leads P g g (as_try (on_core h) f)"
  unfolding as_try_def
proof (rule follows_bind [OF follows_claim [where G = G, OF assms(1,2)]])
  show "leads P r g (case y of Ok x \<Rightarrow> f x | Err e \<Rightarrow> as_return (Err e))"
    if "case y of Ok x \<Rightarrow> r \<in> G x | Err _ \<Rightarrow> r = g" for r y
    using that assms(3) by (cases y) (auto intro: leads_return)
qed

lemma leads_claim:
  assumes "\<And>c x s. h (core_state c) = (Ok x, s) \<Longrightarrow> P (g, c) (g1 x, with_state c s)"
    and "\<And>c e s. h (core_state c) = (Err e, s) \<Longrightarrow> s = core_state c \<or> P (g, c) (g, with_state c s)"
    and "\<And>x. leads P (g1 x) g (f x)"
  shows "leads P g g (as_try (borrow h) f)"
  unfolding borrow_def
proof (rule leads_claim_core [where G = "\<lambda>x. {g1 x}"])
  show "\<exists>r \<in> {g1 x}. P (g, c) (r, c')"
    if "(let (a, s) = h (core_state c) in (a, c\<lparr>core_state := s\<rparr>)) = (Ok x, c')" for c x c'
    using that assms(1) [of c] by (auto simp: with_state_def split: prod.splits)
  show "c' = c \<or> P (g, c) (g, c')"
    if "(let (a, s) = h (core_state c) in (a, c\<lparr>core_state := s\<rparr>)) = (Err e, c')" for c e c'
    using that assms(2) [of c] by (auto simp: with_state_def split: prod.splits)
qed (use assms(3) in simp)

text \<open>How the claims and the releases go into a method.\<close>

lemma leads_begin_claim:
  "(\<And>e. leads (browser_move A) (SigningIn e) Bystander (f e)) \<Longrightarrow>
   leads (browser_move A) Bystander Bystander (as_try (borrow begin_auth_claim) f)"
  by (rule leads_claim [where ?g1.0 = SigningIn])
    (auto simp: begin_auth_claim_def split: if_splits intro: move_begin)

lemma leads_complete_claim:
  "(\<And>pending. leads (browser_move A) (SigningIn (au_epoch pending)) Bystander (f pending)) \<Longrightarrow>
   leads (browser_move A) Bystander Bystander (as_try (borrow (complete_auth_claim h)) f)"
  by (rule leads_claim [where ?g1.0 = "\<lambda>pending. SigningIn (au_epoch pending)"])
    (auto intro: move_complete move_complete_stale)

lemma leads_restore_claim:
  "(\<And>e. leads (browser_move A) (SigningIn e) Bystander (f e)) \<Longrightarrow>
   leads (browser_move A) Bystander Bystander (as_try (borrow (restore_claim h)) f)"
  by (rule leads_claim [where ?g1.0 = SigningIn])
    (auto simp: restore_claim_def split: if_splits intro: move_restore)

lemma leads_publish_claim:
  assumes "\<And>device pubky session sequences e n. leads (browser_move A) (Publishing e n) Bystander
    (f (device, pubky, session, sequences, e))"
  shows "leads (browser_move A) Bystander Bystander (as_try (on_core publish_claim) f)"
proof (rule leads_claim_core [where G = "\<lambda>(device, pubky, session, sequences, e). range (Publishing e)"])
  show "\<exists>r \<in> (case x of (device, pubky, session, sequences, e) \<Rightarrow> range (Publishing e)).
      browser_move A (Bystander, c) (r, c')"
    if "publish_claim c = (Ok x, c')" for c x c'
    using that move_publish [of c _ _ _ _ _ c'] by (cases x) auto
  show "c' = c \<or> browser_move A (Bystander, c) (Bystander, c')" if "publish_claim c = (Err e, c')" for c e c'
    using that by (auto simp: publish_claim_def Let_def split: if_splits result.splits)
qed (use assms in auto)

lemma leads_release: "leads (browser_move A) (SigningIn e) Bystander (modify release_auth)"
  by (rule leads_modify) (rule move_release)

lemma leads_end_auth: "leads (browser_move A) (SigningIn e) Bystander (modify end_auth)"
  by (rule leads_modify) (rule move_end)

lemma leads_enter: "A pubky session key_id identity client_id \<Longrightarrow> leads (browser_move A) (SigningIn e) Bystander
    (modify (enter_session pubky session key_id identity client_id))"
  by (rule leads_modify) (rule move_enter)

lemma leads_begin_store:
  "au_epoch pending = e \<Longrightarrow> leads (browser_move A) (SigningIn e) Bystander (borrow (begin_auth_store pending e))"
  by (rule leads_borrow) (metis move_store prod.collapse)

lemmas leads_releases = leads_bind [OF leads_release] leads_bind [OF leads_end_auth]
  leads_bind [OF leads_enter] leads_bind [OF leads_begin_store]

lemma leads_begin_auth:
  "leads (browser_move A) Bystander Bystander (begin_auth B client_id http_relay expected testnet_host)"
  unfolding begin_auth_def Let_def
  by (intro leads_begin_claim leads_releases leads_intros leads_begin_auth_setup) simp

lemma leads_complete_auth: "leads (browser_move (entitled B)) Bystander Bystander (complete_auth B)"
  unfolding complete_auth_def
  by (intro leads_bind_yields [OF leads_complete_auth_outcome complete_auth_outcome_yields]
      leads_complete_claim leads_releases leads_intros leads_new_pair)
    (auto simp: entitled_def)

lemma leads_restore_identity:
  "leads (browser_move (entitled B)) Bystander Bystander (restore_identity B identity client_id testnet_host)"
  unfolding restore_identity_def Let_def
  by (intro leads_bind_yields [OF leads_abortable [OF leads_restore_outcome] abortable_restore_yields]
      leads_restore_claim leads_releases leads_intros leads_new_pair)
    (auto simp: entitled_def)

text \<open>A task that removed an identity departs.\<close>

lemma leads_remove_finish: "leads (browser_move A) (Removing identity) Departing (borrow (remove_finish identity removed))"
proof (rule leads_borrow)
  fix c :: "'a browser_core"
  have "snd (remove_finish identity removed (core_state c)) =
      snd (remove_finish identity (case removed of Ok _ \<Rightarrow> Ok () | Err e \<Rightarrow> Err e) (core_state c))"
    by (simp add: remove_finish_def Let_def split: result.splits)
  then show "snd (remove_finish identity removed (core_state c)) = core_state c \<and> Departing = Removing identity \<or>
      browser_move A (Removing identity, c)
        (Departing, with_state c (snd (remove_finish identity removed (core_state c))))"
    by (simp add: move_removed)
qed

lemma remove_claim_follows:
  "follows_from (browser_move A) fst
     (\<lambda>r y. case y of Ok _ \<Rightarrow> r \<in> {Removing identity} | Err _ \<Rightarrow> r = Bystander) Bystander
     (borrow (remove_claim identity))"
  unfolding borrow_def
  by (rule follows_claim)
    (auto simp: remove_claim_def split: if_splits prod.splits
      intro: move_remove [unfolded with_state_def remove_claim_def])

lemma remove_local_identity_follows:
  "follows_from (browser_move A) fst (\<lambda>r _. r \<in> {Bystander, Departing}) Bystander (remove_local_identity B identity)"
proof -
  have departs: "leads (browser_move A) (Removing i) Departing
      (as_bind (awaiting (remove_identity (pf_js B) i)) (\<lambda>removed. borrow (remove_finish i removed)))" for i
    by (intro leads_bind_same leads_awaiting leads_remove_finish)
  have claimed: "follows_from (browser_move A) fst (\<lambda>r _. r = Bystander \<or> r = Departing) Bystander
      (as_try (borrow (remove_claim i)) (\<lambda>_. as_bind (awaiting (remove_identity (pf_js B) i))
         (\<lambda>removed. borrow (remove_finish i removed))))" for i
    unfolding as_try_def
    by (rule follows_bind [OF remove_claim_follows])
      (auto split: result.splits intro: follows_return follows_from_mono [OF departs])
  show ?thesis
    unfolding remove_local_identity_def
    by (rule follows_try [where R = "\<lambda>r _. r = Bystander", OF follows_return])
      (auto split: result.splits intro: claimed)
qed

text \<open>Going online\<close>

lemma leads_abandon: "leads (browser_move A) (Publishing e n) Bystander (modify (publish_abandon e))"
  by (rule leads_modify) (rule move_abandon)

lemma leads_online: "leads (browser_move A) (Publishing e n) Bystander (borrow (publish_store e client record h))"
  by (rule leads_borrow) (simp add: move_online)

lemma leads_publish_and_go_online:
  "leads (browser_move A) Bystander Bystander (publish_and_go_online B device_id relays allow)"
  unfolding publish_and_go_online_def
  by (intro leads_publish_claim leads_try leads_return leads_prepare_device extends_browser_move;
      simp only: prod.case;
      intro leads_bind [OF leads_abandon] leads_bind [OF leads_online] leads_intros
        leads_publish_setup leads_calls leads_new_pair leads_spawn; simp)

section \<open>Peers\<close>

lemma leads_greet: "leads (browser_move A) Bystander (Greeted peer_id) (emit (verified_event peer_id device))"
proof -
  have "leads (browser_move A) Bystander (Greeted peer_id)
      (on_core (\<lambda>c. ((), c\<lparr>core_events := core_events c @ [verified_event peer_id device]\<rparr>)))"
    by (rule leads_on_core) (simp add: move_greet [unfolded log_event_def])
  then show ?thesis unfolding emit_def by (rule leads_bind) (rule leads_yield)
qed

lemma leads_spawn_receive:
  "leads (browser_move A) (Greeted peer_id) Bystander (spawn_local (ReceiveLoop peer peer_id epoch))"
  unfolding spawn_local_def
  by (rule leads_on_core) (simp add: move_spawn_receive [unfolded push_spawn_def])

lemma leads_activate_peer: "leads (browser_move A) Bystander Bystander (activate_peer B peer epoch)"
  unfolding activate_peer_def
  by (intro leads_bind [OF leads_greet] leads_bind [OF leads_spawn_receive] leads_intros leads_calls
      leads_activate_store)

lemma leads_request_peer: "leads (browser_move A) Bystander Bystander (request_peer B peer_id)"
  unfolding request_peer_def
  by (intro leads_intros leads_request_claim leads_dial_done leads_activate_peer)

lemma leads_accept_inbound: "leads (browser_move A) Bystander Bystander (accept_inbound B request)"
  unfolding accept_inbound_def
  by (intro leads_intros leads_take_pending leads_activate_peer)

lemma leads_message:
  "chat_message_ok b \<Longrightarrow> leads (browser_move A) (Receiving peer_id) (Receiving peer_id) (emit_message B peer_id b)"
  unfolding emit_message_def emit_def
  by (intro leads_intros leads_core_same) (simp add: move_message [unfolded log_event_def])

lemma leads_receive_round: "leads (browser_move A) (Receiving peer_id) (Receiving peer_id) (receive_round B peer peer_id)"
  unfolding receive_round_def
  by (intro leads_intros leads_message leads_emit_json) (simp_all add: error_event_def not_message)

lemma leads_receive_again:
  "leads (browser_move A) (Receiving peer_id) (Receiving peer_id) (spawn_local (ReceiveLoop peer peer_id epoch))"
  unfolding spawn_local_def
  by (rule leads_core_same, rule extends_browser_move, simp add: move_receive_again [unfolded push_spawn_def])

lemma leads_receive_end: "extends_moves P \<Longrightarrow> leads P g g (receive_end B peer peer_id epoch)"
  unfolding receive_end_def
  by (intro leads_intros leads_calls leads_receive_remove leads_emit_json)
    (simp_all add: disconnected_event_def not_message)

section \<open>Every method and every task\<close>

lemma leads_answering: "leads P g g m \<Longrightarrow> leads P g g (answering m)"
  unfolding answering_def by (intro leads_intros)

lemma leads_silent: "leads P g g m \<Longrightarrow> leads P g g (silent m)"
  unfolding silent_def by (intro leads_intros)

lemma follows_answering:
  assumes "follows_from P fst (\<lambda>r _. R r) g m"
  shows "follows_from P fst (\<lambda>r _. R r) g (answering m)"
  unfolding answering_def by (rule follows_bind [OF assms]) (rule follows_return)

lemma method_leads:
  assumes "\<And>identity. call \<noteq> RemoveLocalIdentity identity"
  shows "leads (browser_move (entitled B)) Bystander Bystander (method_of B call)"
  using assms
  by (cases call; simp)
    (simp_all add: disconnect_def leads_answering leads_silent leads_begin_auth leads_complete_auth
      leads_cancel_auth leads_list leads_restore_identity leads_prepare_device
      leads_publish_and_go_online leads_request_peer leads_accept_inbound leads_reject_inbound
      leads_send_message leads_shutdown_network leads_drop_core extends_browser_move)

lemma method_follows:
  "follows_from (browser_move (entitled B)) fst (\<lambda>r _. r \<in> {Bystander, Departing}) Bystander (method_of B call)"
proof (cases "\<exists>identity. call = RemoveLocalIdentity identity")
  case True
  then show ?thesis using follows_answering [OF remove_local_identity_follows] by auto
next
  case False
  then show ?thesis by (auto intro: follows_from_mono [OF method_leads])
qed

lemma task_leads: "leads (browser_move A) (role_of t) (role_of t) (task_of B t)"
proof (cases t)
  case (IncomingLoop client epoch)
  then show ?thesis
    by (auto intro!: leads_intros leads_incoming_round leads_spawn)
next
  case (InboundExpiry request epoch)
  then show ?thesis by (simp add: leads_inbound_expiry extends_browser_move)
next
  case (RenewalLoop client session sequences allow epoch h)
  then show ?thesis
    by (auto intro!: leads_intros leads_abortable leads_renewal_round leads_spawn)
next
  case (ReceiveLoop peer peer_id epoch)
  then show ?thesis
    by (auto intro!: leads_intros leads_receive_round leads_receive_again leads_receive_end)
next
  case (Shutdown pending_key)
  then show ?thesis by (simp add: leads_drop_task extends_browser_move)
qed

end
