(* ===== verification/Browser_Safety.thy ===== *)
theory Browser_Safety
  imports Browser_Protocol
begin

text \<open>
  What holds of the browser core whenever no task runs, for every way the tasks interleave: one
  authentication at a time, an online core has a session and an identity that is not being removed,
  and the tables are bounded. Each invariant is proved over the moves of the protocol.
\<close>

section \<open>Counting roles\<close>

fun is_signing :: "role \<Rightarrow> bool" where
  "is_signing (SigningIn e) = True"
| "is_signing _ = False"

fun is_removing :: "role \<Rightarrow> bool" where
  "is_removing (Removing i) = True"
| "is_removing _ = False"

fun publishes_at :: "nat \<Rightarrow> role \<Rightarrow> bool" where
  "publishes_at n (Publishing e m) = (m = n)"
| "publishes_at n _ = False"

definition holders :: "(role \<Rightarrow> bool) \<Rightarrow> role list \<Rightarrow> nat" where
  "holders p gs = length (filter p gs)"

lemma holders_update:
  "i < length gs \<Longrightarrow> holders p (gs[i := g]) + of_bool (p (gs ! i)) = holders p gs + of_bool (p g)"
proof (induction gs arbitrary: i)
  case (Cons a gs)
  then show ?case by (cases i) (auto simp: holders_def)
qed simp

lemma holders_pos: "i < length gs \<Longrightarrow> p (gs ! i) \<Longrightarrow> 0 < holders p gs"
  unfolding holders_def by (auto simp: filter_empty_conv)

lemma holders_append [simp]: "holders p (gs @ hs) = holders p gs + holders p hs"
  by (simp add: holders_def)

lemma holders_none: "holders p gs = 0 \<longleftrightarrow> (\<forall>g \<in> set gs. \<not> p g)"
  by (simp add: holders_def filter_empty_conv)

lemma holders_spawned [simp]:
  assumes "\<not> p Bystander" and "\<And>q. \<not> p (Receiving q)"
  shows "holders p (map role_of (ts :: 'h spawn list)) = 0"
proof -
  have "\<not> p (role_of t)" for t :: "'h spawn" using assms by (cases t) simp_all
  then show ?thesis by (simp add: holders_none)
qed

section \<open>Authentication\<close>

text \<open>
  At most one task holds the authentication lock, and it can be held only while there is no session.
\<close>

definition auth_inv :: "role list \<Rightarrow> 'h browser_state \<Rightarrow> bool" where
  "auth_inv gs s \<longleftrightarrow>
     holders is_signing gs = of_bool (bs_auth_busy s) \<and>
     holders is_removing gs = of_bool (bs_identity_busy s) \<and>
     \<not> (bs_auth_busy s \<and> bs_identity_busy s) \<and>
     (bs_auth_busy s \<longrightarrow> bs_session s = None \<and> bs_pending_auth s = None) \<and>
     (\<forall>pending. bs_pending_auth s = Some pending \<longrightarrow>
        au_epoch pending = bs_auth_epoch s \<and> bs_session s = None \<and> \<not> bs_identity_busy s) \<and>
     (bs_session s = None \<longleftrightarrow> bs_identity s = None) \<and>
     (bs_session s = None \<longleftrightarrow> bs_pubky s = None) \<and>
     (bs_session s = None \<longleftrightarrow> bs_key_id s = None) \<and>
     (bs_session s = None \<longleftrightarrow> bs_client_id s = None) \<and>
     (bs_session s = None \<longleftrightarrow> bs_sequence_store s = None)"

definition auth_view where
  "auth_view s = (bs_pending_auth s, bs_auth_busy s, bs_auth_epoch s, bs_identity_busy s, bs_session s,
     bs_identity s, bs_pubky s, bs_key_id s, bs_client_id s, bs_sequence_store s)"

lemma auth_inv_cong: "auth_view s = auth_view s' \<Longrightarrow> auth_inv gs s = auth_inv gs s'"
  unfolding auth_view_def auth_inv_def prod.inject by (elim conjE) (simp only:)

lemmas core_moves = with_state_def log_event_def push_spawn_def next_epoch_def

lemma auth_view_moves [simp]:
  "auth_view (set_device device s) = auth_view s"
  "auth_view (publish_abandon e s) = auth_view s"
  "auth_view (snd (publish_store e client record h s)) = auth_view s"
  "auth_view (core_state (snd (shutdown_take c))) = auth_view (core_state c)"
  "auth_view (core_state (snd (fail_online_take e c))) = auth_view (core_state c)"
  "auth_view (snd (renewal_store e record s)) = auth_view s"
  "auth_view (snd (activate_store e peer_id peer s)) = auth_view s"
  "auth_view (snd (request_claim peer_id s)) = auth_view s"
  "auth_view (dial_done e peer_id s) = auth_view s"
  "auth_view (snd (take_pending request s)) = auth_view s"
  "auth_view (snd (receive_remove e peer_id sid s)) = auth_view s"
  "auth_view (snd (incoming_store e incoming s)) = auth_view s"
  "auth_view (snd (expire_take e request s)) = auth_view s"
  by (simp_all add: auth_view_def set_device_def publish_abandon_def publish_store_def shutdown_take_def
      fail_online_take_def offline_def next_epoch_def renewal_store_def activate_store_def request_claim_def
      dial_done_def take_pending_def receive_remove_def incoming_store_def expire_take_def Let_def
      split: option.split)

lemma auth_view_publish: "publish_claim c = (Ok x, c') \<Longrightarrow> auth_view (core_state c') = auth_view (core_state c)"
  by (auto simp: publish_claim_def Let_def auth_view_def next_epoch_def split: if_splits result.splits)

lemma auth_inv_same_roles:
  assumes "auth_inv gs s" and "i < length gs" and "is_signing g = is_signing (gs ! i)"
    and "is_removing g = is_removing (gs ! i)" and "auth_view s' = auth_view s"
  shows "auth_inv (gs[i := g]) s'"
proof -
  have "holders is_signing (gs[i := g]) = holders is_signing gs"
    "holders is_removing (gs[i := g]) = holders is_removing gs"
    using holders_update [OF assms(2), of is_signing g] holders_update [OF assms(2), of is_removing g]
      assms(3,4) by simp_all
  then have "auth_inv (gs[i := g]) s = auth_inv gs s" unfolding auth_inv_def by (simp only:)
  then have "auth_inv (gs[i := g]) s" using assms(1) by simp
  then show ?thesis using auth_inv_cong [OF assms(5)] by blast
qed

lemma auth_inv_move:
  assumes inv: "auth_inv gs (core_state c)" and i: "i < length gs" and "browser_move A (gs ! i, c) (g', c')"
  shows "auth_inv (gs[i := g']) (core_state c')"
proof -
  note up = holders_update [OF i, of is_signing g'] holders_update [OF i, of is_removing g']
  note pos = holders_pos [OF i, of is_signing] holders_pos [OF i, of is_removing]
  note same = auth_inv_same_roles [OF inv i]
  from assms(3) show ?thesis
  proof cases
    case (move_begin e s)
    then show ?thesis using inv up pos
      by (auto simp: auth_inv_def begin_auth_claim_def auth_idle_def with_state_def split: if_splits option.splits)
  next
    case (move_complete h pending s)
    then show ?thesis using inv up pos
      by (auto simp: auth_inv_def complete_auth_claim_def Let_def with_state_def split: if_splits option.splits)
  next
    case (move_complete_stale h code s)
    then show ?thesis using inv up pos
      by (auto simp: auth_inv_def complete_auth_claim_def Let_def with_state_def split: if_splits option.splits)
  next
    case (move_restore h e s)
    then show ?thesis using inv up pos
      by (auto simp: auth_inv_def restore_claim_def auth_idle_def with_state_def split: if_splits option.splits)
  next
    case (move_store pending e stale s)
    then show ?thesis using inv up pos
      by (auto simp: auth_inv_def begin_auth_store_def Let_def with_state_def split: if_splits option.splits)
  next
    case (move_release e)
    then show ?thesis using inv up pos
      by (auto simp: auth_inv_def release_auth_def with_state_def split: option.splits)
  next
    case (move_end e)
    then show ?thesis using inv up pos
      by (auto simp: auth_inv_def end_auth_def with_state_def split: option.splits)
  next
    case move_enter
    then show ?thesis using inv up pos
      by (auto simp: auth_inv_def enter_session_def end_auth_def with_state_def split: option.splits)
  next
    case move_cancel
    then show ?thesis using inv i
      by (auto simp: auth_inv_def cancel_auth_take_def Let_def with_state_def split: option.splits)
  next
    case move_drop
    then show ?thesis using inv i
      by (auto simp: auth_inv_def drop_take_def with_state_def split: option.splits)
  next
    case (move_remove identity u s)
    then show ?thesis using inv up pos
      by (auto simp: auth_inv_def remove_claim_def with_state_def split: if_splits option.splits)
  next
    case (move_removed identity removed)
    then show ?thesis using inv up pos
      by (auto simp: auth_inv_def remove_finish_def Let_def with_state_def split: result.splits option.splits)
  next
    case (move_publish device pubky session sequences e)
    then show ?thesis using same auth_view_publish by fastforce
  qed (auto simp: core_moves simp del: list_update_id intro!: same)
qed

section \<open>The session\<close>

text \<open>What the core keeps of a session; an open session was entered by a task entitled to it.\<close>

definition session_parts where
  "session_parts s = (bs_session s, bs_identity s, bs_pubky s, bs_key_id s, bs_client_id s, bs_sequence_store s)"

definition session_inv ::
  "('h \<Rightarrow> 'h \<Rightarrow> string \<Rightarrow> string \<Rightarrow> string \<Rightarrow> bool) \<Rightarrow> 'h browser_state \<Rightarrow> bool" where
  "session_inv A s \<longleftrightarrow>
     (case session_parts s of
        (Some session, identity, pubky, key_id, client_id, sequences) \<Rightarrow>
          (\<exists>i p k cl. identity = Some i \<and> pubky = Some p \<and> key_id = Some k \<and> client_id = Some cl \<and>
             sequences = Some \<lparr>bq_account = i\<rparr> \<and> A p session k i cl)
      | _ \<Rightarrow> True)"

lemma session_parts_view: "auth_view s' = auth_view s \<Longrightarrow> session_parts s' = session_parts s"
  by (simp add: auth_view_def session_parts_def)

lemmas session_parts_views = auth_view_moves [THEN session_parts_view]

lemma session_parts_claims:
  "begin_auth_claim s = (r1, s') \<Longrightarrow> session_parts s' = session_parts s"
  "complete_auth_claim h s = (r2, s') \<Longrightarrow> session_parts s' = session_parts s"
  "restore_claim h s = (r3, s') \<Longrightarrow> session_parts s' = session_parts s"
  "begin_auth_store pending e s = (r4, s') \<Longrightarrow> session_parts s' = session_parts s"
  "remove_claim identity s = (r5, s') \<Longrightarrow> session_parts s' = session_parts s"
  by (auto simp: session_parts_def begin_auth_claim_def complete_auth_claim_def restore_claim_def
      begin_auth_store_def remove_claim_def Let_def split: if_splits option.splits)

lemma session_parts_blocks [simp]:
  "session_parts (release_auth s) = session_parts s" "session_parts (end_auth s) = session_parts s"
  "session_parts (snd (cancel_auth_take s)) = session_parts s"
  "session_parts (snd (drop_take s)) = session_parts s"
  by (simp_all add: session_parts_def release_auth_def end_auth_def cancel_auth_take_def drop_take_def Let_def)

text \<open>Only entering a session and finishing a removal change it.\<close>

lemma session_parts_move:
  assumes "browser_move A (g, c) (g', c')"
  obtains "session_parts (core_state c') = session_parts (core_state c)"
  | pubky session key_id identity client_id e where "g = SigningIn e" "A pubky session key_id identity client_id"
      "session_parts (core_state c') =
        (Some session, Some identity, Some pubky, Some key_id, Some client_id, Some \<lparr>bq_account = identity\<rparr>)"
  | identity where "g = Removing identity" "g' = Departing" "bs_identity (core_state c) = Some identity"
      "session_parts (core_state c') = (None, None, None, None, None, None)"
  using assms
proof cases
  case (move_removed identity removed)
  then show ?thesis
    using that(1,3) by (auto simp: remove_finish_def Let_def with_state_def session_parts_def split: result.splits if_splits)
next
  case move_enter
  then show ?thesis using that(2) by (simp add: with_state_def session_parts_def enter_session_def)
next
  case (move_publish device pubky session sequences e)
  then show ?thesis using that(1) session_parts_view [OF auth_view_publish] by blast
next
  case move_begin
  then show ?thesis using that(1) by (auto simp: with_state_def dest: session_parts_claims(1))
next
  case move_complete
  then show ?thesis using that(1) by (auto simp: with_state_def dest: session_parts_claims(2))
next
  case move_complete_stale
  then show ?thesis using that(1) by (auto simp: with_state_def dest: session_parts_claims(2))
next
  case move_restore
  then show ?thesis using that(1) by (auto simp: with_state_def dest: session_parts_claims(3))
next
  case move_store
  then show ?thesis using that(1) by (auto simp: with_state_def dest: session_parts_claims(4))
next
  case move_remove
  then show ?thesis using that(1) by (auto simp: with_state_def dest: session_parts_claims(5))
qed (use that(1) in \<open>simp_all add: core_moves session_parts_views\<close>)

lemma session_inv_move:
  assumes "session_inv A (core_state c)" and "browser_move A (g, c) (g', c')"
  shows "session_inv A (core_state c')"
  using assms(2)
proof (cases rule: session_parts_move)
  case 2
  then show ?thesis by (auto simp: session_inv_def)
qed (use assms(1) in \<open>simp_all add: session_inv_def\<close>)

section \<open>The network\<close>

text \<open>
  Offline, the tables of the network are empty. While fewer than \<open>2 ^ 64\<close> epochs have passed, the
  epoch tells the attempts to go online apart: the current one, if there is one, is the only task
  that can put the core online, and until then and while online there is a session whose identity
  is not being removed.
\<close>

definition offline_clean :: "'h browser_state \<Rightarrow> bool" where
  "offline_clean s \<longleftrightarrow>
     (if bs_client s = None
      then bs_peers s = [] \<and> bs_pending_inbound s = [] \<and> bs_dialing s = [] \<and> bs_current_record s = None
      else \<not> bs_going_online s \<and> bs_current_record s \<noteq> None)"

definition epochs_inv :: "role list \<Rightarrow> 'h browser_core \<Rightarrow> bool" where
  "epochs_inv gs c \<longleftrightarrow>
     (let s = core_state c; n = core_epochs c in
      bs_epoch s = of_nat n \<and>
      (\<forall>e m. Publishing e m \<in> set gs \<longrightarrow> m \<le> n \<and> e = of_nat m) \<and>
      holders (publishes_at n) gs = of_bool (bs_going_online s) \<and>
      (bs_client s \<noteq> None \<or> bs_going_online s \<longrightarrow> bs_session s \<noteq> None) \<and>
      (\<forall>i. Removing i \<in> set gs \<and> bs_identity s = Some i \<longrightarrow> bs_client s = None \<and> \<not> bs_going_online s))"

definition net_inv :: "role list \<Rightarrow> 'h browser_core \<Rightarrow> bool" where
  "net_inv gs c \<longleftrightarrow> offline_clean (core_state c) \<and> (core_epochs c < 2 ^ 64 \<longrightarrow> epochs_inv gs c)"

definition net_view where
  "net_view s = (bs_client s, bs_peers s, bs_pending_inbound s, bs_dialing s, bs_current_record s,
     bs_going_online s)"

lemma offline_clean_cong: "net_view s = net_view s' \<Longrightarrow> offline_clean s = offline_clean s'"
  unfolding net_view_def offline_clean_def prod.inject by (elim conjE) (simp only:)

lemma net_view_moves [simp]:
  "net_view (release_auth s) = net_view s"
  "net_view (end_auth s) = net_view s"
  "net_view (enter_session pubky session key_id identity client_id s) = net_view s"
  "net_view (snd (cancel_auth_take s)) = net_view s"
  "net_view (snd (drop_take s)) = net_view s"
  "net_view (snd (remove_finish i removed s)) = net_view s"
  "net_view (set_device device s) = net_view s"
  by (simp_all add: net_view_def release_auth_def end_auth_def enter_session_def cancel_auth_take_def
      drop_take_def remove_finish_def set_device_def Let_def split: result.split)

lemma net_view_claims:
  "begin_auth_claim s = (r, s') \<Longrightarrow> net_view s' = net_view s"
  "complete_auth_claim h s = (r1, s') \<Longrightarrow> net_view s' = net_view s"
  "restore_claim h s = (r2, s') \<Longrightarrow> net_view s' = net_view s"
  "begin_auth_store pending e s = (stale, s') \<Longrightarrow> net_view s' = net_view s"
  "remove_claim i s = (r3, s') \<Longrightarrow> net_view s' = net_view s"
  by (auto simp: net_view_def begin_auth_claim_def complete_auth_claim_def restore_claim_def
      begin_auth_store_def remove_claim_def Let_def split: if_splits option.splits)

lemma offline_clean_move:
  assumes clean: "offline_clean (core_state c)" and "browser_move A (g, c) (g', c')"
  shows "offline_clean (core_state c')"
proof -
  note same = offline_clean_cong [THEN iffD2, OF _ clean]
  from assms(2) show ?thesis
  proof cases
    case (move_publish device pubky session sequences e)
    then show ?thesis using clean
      by (auto simp: publish_claim_def Let_def next_epoch_def offline_clean_def split: if_splits result.splits)
  next
    case move_abandon
    then show ?thesis using clean by (auto simp: with_state_def publish_abandon_def offline_clean_def)
  next
    case move_online
    then show ?thesis using clean by (auto simp: with_state_def publish_store_def offline_clean_def)
  next
    case move_shutdown
    then show ?thesis by (simp add: shutdown_take_def Let_def next_epoch_def offline_def offline_clean_def)
  next
    case move_fail
    then show ?thesis using clean
      by (auto simp: fail_online_take_def Let_def next_epoch_def offline_def offline_clean_def split: if_splits)
  next
    case move_renew
    then show ?thesis using clean
      by (auto simp: with_state_def renewal_store_def renewal_due_def offline_clean_def split: if_splits)
  next
    case move_activate
    then show ?thesis using clean by (auto simp: with_state_def activate_store_def offline_clean_def)
  next
    case move_request
    then show ?thesis using clean by (auto simp: with_state_def request_claim_def offline_clean_def)
  next
    case move_dialed
    then show ?thesis using clean by (auto simp: with_state_def dial_done_def offline_clean_def)
  next
    case move_take
    then show ?thesis using clean
      by (auto simp: with_state_def take_pending_def offline_clean_def split: option.splits)
  next
    case move_receive_remove
    then show ?thesis using clean by (auto simp: with_state_def receive_remove_def offline_clean_def)
  next
    case move_incoming
    then show ?thesis using clean by (auto simp: with_state_def incoming_store_def Let_def offline_clean_def)
  next
    case move_expire
    then show ?thesis using clean by (auto simp: with_state_def expire_take_def offline_clean_def)
  qed (auto simp: core_moves intro!: same intro: net_view_claims)
qed

definition epochs_view where
  "epochs_view c = (let s = core_state c in
     (bs_client s, bs_going_online s, bs_session s, bs_identity s, bs_epoch s, core_epochs c))"

lemma epochs_inv_cong: "epochs_view c = epochs_view c' \<Longrightarrow> epochs_inv gs c = epochs_inv gs c'"
  unfolding epochs_view_def epochs_inv_def Let_def prod.inject by (elim conjE) (simp only:)

lemma epochs_view_moves [simp]:
  "epochs_view (with_state c (release_auth (core_state c))) = epochs_view c"
  "epochs_view (with_state c (end_auth (core_state c))) = epochs_view c"
  "epochs_view (with_state c (snd (cancel_auth_take (core_state c)))) = epochs_view c"
  "epochs_view (with_state c (snd (drop_take (core_state c)))) = epochs_view c"
  "epochs_view (with_state c (set_device device (core_state c))) = epochs_view c"
  "epochs_view (with_state c (snd (renewal_store e record (core_state c)))) = epochs_view c"
  "epochs_view (with_state c (snd (activate_store e peer_id peer (core_state c)))) = epochs_view c"
  "epochs_view (with_state c (snd (request_claim peer_id (core_state c)))) = epochs_view c"
  "epochs_view (with_state c (dial_done e peer_id (core_state c))) = epochs_view c"
  "epochs_view (with_state c (snd (take_pending request (core_state c)))) = epochs_view c"
  "epochs_view (with_state c (snd (receive_remove e peer_id sid (core_state c)))) = epochs_view c"
  "epochs_view (with_state c (snd (incoming_store e incoming (core_state c)))) = epochs_view c"
  "epochs_view (with_state c (snd (expire_take e request (core_state c)))) = epochs_view c"
  "epochs_view (log_event event c) = epochs_view c"
  "epochs_view (push_spawn t c) = epochs_view c"
  "epochs_view (c\<lparr>core_aborted := hs\<rparr>) = epochs_view c"
  "epochs_view (c\<lparr>core_next_handle := k\<rparr>) = epochs_view c"
  "epochs_view (c\<lparr>core_spawned := ts\<rparr>) = epochs_view c"
  by (simp_all add: epochs_view_def core_moves release_auth_def end_auth_def cancel_auth_take_def drop_take_def
      set_device_def renewal_store_def activate_store_def request_claim_def dial_done_def take_pending_def
      receive_remove_def incoming_store_def expire_take_def Let_def split: option.split)

lemma epochs_view_claims:
  "begin_auth_claim (core_state c) = (r, s) \<Longrightarrow> epochs_view (with_state c s) = epochs_view c"
  "complete_auth_claim h (core_state c) = (r1, s) \<Longrightarrow> epochs_view (with_state c s) = epochs_view c"
  "restore_claim h (core_state c) = (r2, s) \<Longrightarrow> epochs_view (with_state c s) = epochs_view c"
  "begin_auth_store pending e (core_state c) = (stale, s) \<Longrightarrow> epochs_view (with_state c s) = epochs_view c"
  "remove_claim i (core_state c) = (r3, s) \<Longrightarrow> epochs_view (with_state c s) = epochs_view c"
  by (auto simp: epochs_view_def with_state_def begin_auth_claim_def complete_auth_claim_def restore_claim_def
      begin_auth_store_def remove_claim_def Let_def split: if_splits option.splits)

text \<open>A role is plain when it neither publishes nor removes.\<close>

fun plain :: "role \<Rightarrow> bool" where
  "plain (Publishing e n) = False"
| "plain (Removing i) = False"
| "plain _ = True"

lemma plain_not: "plain g \<Longrightarrow> \<not> publishes_at n g \<and> (\<forall>e m. g \<noteq> Publishing e m) \<and> (\<forall>i. g \<noteq> Removing i)"
  by (cases g) auto

lemma holders_plain:
  "i < length gs \<Longrightarrow> plain g \<Longrightarrow> plain (gs ! i) \<Longrightarrow>
   holders (publishes_at n) (gs[i := g]) = holders (publishes_at n) gs"
  using holders_update [of i gs "publishes_at n" g] plain_not by auto

lemma set_update_subset: "x \<in> set (gs[i := g]) \<Longrightarrow> x = g \<or> x \<in> set gs"
  using set_update_subset_insert by fastforce

lemma epochs_inv_plain:
  assumes "epochs_inv gs c" and "i < length gs" and "plain g" and "plain (gs ! i)"
    and "epochs_view c' = epochs_view c"
  shows "epochs_inv (gs[i := g]) c'"
proof -
  have "Publishing e m \<in> set (gs[i := g]) \<Longrightarrow> Publishing e m \<in> set gs"
    "Removing identity \<in> set (gs[i := g]) \<Longrightarrow> Removing identity \<in> set gs" for e m identity
    using set_update_subset [of _ gs i g] plain_not [OF assms(3)] by metis+
  then have "epochs_inv (gs[i := g]) c"
    using assms(1) unfolding epochs_inv_def Let_def holders_plain [OF assms(2-4)] by blast
  then show ?thesis using epochs_inv_cong [OF assms(5)] by blast
qed

lemma epochs_inv_same:
  assumes "epochs_inv gs c" and "epochs_view c' = epochs_view c"
  shows "epochs_inv (gs[i := gs ! i]) c'"
  using assms epochs_inv_cong by (simp add: list_update_id) blast

lemma of_nat_u64_inject:
  "m < 2 ^ 64 \<Longrightarrow> n < 2 ^ 64 \<Longrightarrow> (of_nat m :: u64) = of_nat n \<longleftrightarrow> m = n"
  by (simp add: word_of_nat_eq_iff take_bit_nat_eq_self)

lemma move_epochs: "browser_move A (g, c) (g', c') \<Longrightarrow> core_epochs c \<le> core_epochs c'"
  by (erule browser_move.cases)
    (auto simp: core_moves publish_claim_def shutdown_take_def fail_online_take_def Let_def
      split: if_splits result.splits)

text \<open>A publisher with the current epoch is the current publisher.\<close>

lemma epochs_inv_current:
  assumes "epochs_inv gs c" and "core_epochs c < 2 ^ 64" and "Publishing e m \<in> set gs"
  shows "bs_epoch (core_state c) = e \<longleftrightarrow> m = core_epochs c"
proof -
  have "m \<le> core_epochs c \<and> e = of_nat m" and "bs_epoch (core_state c) = of_nat (core_epochs c)"
    using assms(1,3) unfolding epochs_inv_def Let_def by blast+
  with of_nat_u64_inject [of "core_epochs c" m] assms(2) show ?thesis by auto
qed

lemma epochs_inv_no_future:
  assumes "epochs_inv gs c"
  shows "holders (publishes_at (Suc (core_epochs c))) gs = 0"
proof -
  have "\<not> publishes_at (Suc (core_epochs c)) g" if "g \<in> set gs" for g
  proof (cases g)
    case (Publishing e m)
    with assms that have "m \<le> core_epochs c" by (auto simp: epochs_inv_def Let_def)
    with Publishing show ?thesis by simp
  qed simp_all
  then show ?thesis by (simp add: holders_none)
qed

lemma epochs_inv_end:
  assumes inv: "epochs_inv gs c" and i: "i < length gs" and g: "gs ! i = Publishing e m"
    and small: "core_epochs c < 2 ^ 64"
  shows "epochs_inv (gs[i := Bystander]) (with_state c (publish_abandon e (core_state c)))"
    and "epochs_inv (gs[i := Bystander]) (with_state c (snd (publish_store e client record h (core_state c))))"
proof -
  have mem: "Publishing e m \<in> set gs" using i g by (metis nth_mem)
  note cur = epochs_inv_current [OF inv small mem]
  have sub: "x \<in> set (gs[i := Bystander]) \<Longrightarrow> x = Bystander \<or> x \<in> set gs" for x
    by (rule set_update_subset)
  have up: "holders (publishes_at (core_epochs c)) (gs[i := Bystander]) + of_bool (m = core_epochs c)
      = holders (publishes_at (core_epochs c)) gs"
    using holders_update [OF i, of "publishes_at (core_epochs c)" Bystander] g by simp
  have roles: "\<forall>e m. Publishing e m \<in> set (gs[i := Bystander]) \<longrightarrow> m \<le> core_epochs c \<and> e = of_nat m"
    "\<forall>x. Removing x \<in> set (gs[i := Bystander]) \<and> bs_identity (core_state c) = Some x \<longrightarrow>
       bs_client (core_state c) = None \<and> \<not> bs_going_online (core_state c)"
    using inv sub unfolding epochs_inv_def Let_def by blast+
  have count: "holders (publishes_at (core_epochs c)) gs = of_bool (bs_going_online (core_state c))"
    "bs_epoch (core_state c) = of_nat (core_epochs c)"
    "bs_client (core_state c) \<noteq> None \<or> bs_going_online (core_state c) \<longrightarrow> bs_session (core_state c) \<noteq> None"
    using inv by (auto simp: epochs_inv_def Let_def)
  show "epochs_inv (gs[i := Bystander]) (with_state c (publish_abandon e (core_state c)))"
    using roles count cur up by (auto simp: epochs_inv_def Let_def with_state_def publish_abandon_def)
  show "epochs_inv (gs[i := Bystander]) (with_state c (snd (publish_store e client record h (core_state c))))"
    using roles count cur up by (auto simp: epochs_inv_def Let_def with_state_def publish_store_def)
qed

lemma epochs_inv_offline:
  assumes inv: "epochs_inv gs c"
  shows "epochs_inv gs (next_epoch (c\<lparr>core_state := offline (core_state c)\<rparr>))"
proof -
  have "\<forall>e m. Publishing e m \<in> set gs \<longrightarrow> m \<le> Suc (core_epochs c) \<and> e = of_nat m"
    using inv by (auto simp: epochs_inv_def Let_def le_Suc_eq)
  moreover have "bs_epoch (core_state c) = of_nat (core_epochs c)"
    using inv by (simp add: epochs_inv_def Let_def)
  ultimately show ?thesis
    using epochs_inv_no_future [OF inv]
    by (simp add: epochs_inv_def Let_def next_epoch_def offline_def add.commute)
qed

lemma epochs_inv_publish:
  assumes inv: "epochs_inv gs c" and auth: "auth_inv gs (core_state c)" and i: "i < length gs"
    and g: "gs ! i = Bystander" and p: "publish_claim c = (Ok (device, pubky, session, sequences, e), c')"
  shows "epochs_inv (gs[i := Publishing e (core_epochs c')]) c'"
proof -
  from p have c': "c' = next_epoch (c\<lparr>core_state := (core_state c)\<lparr>bs_going_online := True\<rparr>\<rparr>)"
    and e: "e = bs_epoch (core_state c')" and idle: "\<not> bs_identity_busy (core_state c)"
    and s: "bs_session (core_state c) = Some session"
    by (auto simp: publish_claim_def Let_def ok_iff split: if_splits result.splits)
  have n: "core_epochs c' = Suc (core_epochs c)" by (simp add: c' next_epoch_def)
  have epoch: "bs_epoch (core_state c') = of_nat (core_epochs c')"
    using inv by (simp add: c' next_epoch_def epochs_inv_def Let_def add.commute)
  have sub: "x \<in> set (gs[i := Publishing e (core_epochs c')]) \<Longrightarrow>
      x = Publishing e (core_epochs c') \<or> x \<in> set gs" for x
    by (rule set_update_subset)
  have "\<forall>x \<in> set gs. \<not> is_removing x"
    using auth idle by (simp add: auth_inv_def holders_none)
  then have "Removing x \<notin> set gs" for x by auto
  then have removing: "Removing x \<notin> set (gs[i := Publishing e (core_epochs c')])" for x
    using sub [of "Removing x"] by auto
  have "\<forall>x m. Publishing x m \<in> set gs \<longrightarrow> m \<le> core_epochs c' \<and> x = of_nat m"
    using inv by (auto simp: epochs_inv_def Let_def n le_Suc_eq)
  then have publishing: "\<forall>x m. Publishing x m \<in> set (gs[i := Publishing e (core_epochs c')]) \<longrightarrow>
      m \<le> core_epochs c' \<and> x = of_nat m"
    using sub e epoch by blast
  have "holders (publishes_at (core_epochs c')) (gs[i := Publishing e (core_epochs c')]) = 1"
    using holders_update [OF i, of "publishes_at (core_epochs c')" "Publishing e (core_epochs c')"]
      epochs_inv_no_future [OF inv] g by (simp add: n)
  moreover have "bs_going_online (core_state c')" "bs_session (core_state c') \<noteq> None"
    by (simp_all add: c' next_epoch_def s)
  ultimately show ?thesis
    using publishing removing epoch by (simp add: epochs_inv_def Let_def)
qed

lemma epochs_inv_enter:
  assumes inv: "epochs_inv gs c" and auth: "auth_inv gs (core_state c)" and i: "i < length gs"
    and g: "gs ! i = SigningIn e"
  shows "epochs_inv (gs[i := Bystander])
    (with_state c (enter_session pubky session key_id identity client_id (core_state c)))"
proof -
  have "bs_auth_busy (core_state c)"
    using auth holders_pos [OF i, of is_signing] g by (auto simp: auth_inv_def)
  then have "\<forall>x \<in> set gs. \<not> is_removing x"
    using auth by (auto simp: auth_inv_def holders_none [symmetric])
  then have "Removing x \<notin> set gs" for x by auto
  then have "Removing x \<notin> set (gs[i := Bystander])" for x
    using set_update_subset [of "Removing x" gs i Bystander] by auto
  moreover have "\<forall>x m. Publishing x m \<in> set (gs[i := Bystander]) \<longrightarrow> m \<le> core_epochs c \<and> x = of_nat m"
    using inv set_update_subset [of _ gs i Bystander] unfolding epochs_inv_def Let_def by blast
  ultimately show ?thesis
    using inv holders_plain [OF i, of Bystander "core_epochs c"] g
    by (simp add: epochs_inv_def Let_def with_state_def enter_session_def end_auth_def)
qed

lemma epochs_inv_remove_claim:
  assumes inv: "epochs_inv gs c" and i: "i < length gs" and g: "gs ! i = Bystander"
    and r: "remove_claim identity (core_state c) = (Ok u, s)"
  shows "epochs_inv (gs[i := Removing identity]) (with_state c s)"
proof -
  have off: "bs_identity (core_state c) = Some identity \<Longrightarrow>
      bs_client (core_state c) = None \<and> \<not> bs_going_online (core_state c)"
    using r by (auto simp: remove_claim_def split: if_splits)
  have sub: "x \<in> set (gs[i := Removing identity]) \<Longrightarrow> x = Removing identity \<or> x \<in> set gs" for x
    by (rule set_update_subset)
  have "\<forall>x m. Publishing x m \<in> set (gs[i := Removing identity]) \<longrightarrow> m \<le> core_epochs c \<and> x = of_nat m"
    "\<forall>x. Removing x \<in> set (gs[i := Removing identity]) \<and> bs_identity (core_state c) = Some x \<longrightarrow>
       bs_client (core_state c) = None \<and> \<not> bs_going_online (core_state c)"
    using inv sub off unfolding epochs_inv_def Let_def by blast+
  moreover have "holders (publishes_at (core_epochs c)) (gs[i := Removing identity]) =
      holders (publishes_at (core_epochs c)) gs"
    using holders_update [OF i, of "publishes_at (core_epochs c)" "Removing identity"] g by simp
  ultimately have "epochs_inv (gs[i := Removing identity]) c"
    using inv unfolding epochs_inv_def Let_def by simp
  then show ?thesis using epochs_inv_cong [OF epochs_view_claims(5) [OF r]] by blast
qed

lemma epochs_inv_removed:
  assumes inv: "epochs_inv gs c" and i: "i < length gs" and g: "gs ! i = Removing identity"
  shows "epochs_inv (gs[i := Departing]) (with_state c (snd (remove_finish identity removed (core_state c))))"
proof -
  have "Removing identity \<in> set gs" using i g by (metis nth_mem)
  then have off: "bs_identity (core_state c) = Some identity \<Longrightarrow>
      bs_client (core_state c) = None \<and> \<not> bs_going_online (core_state c)"
    using inv unfolding epochs_inv_def Let_def by blast
  have sub: "x \<in> set (gs[i := Departing]) \<Longrightarrow> x = Departing \<or> x \<in> set gs" for x
    by (rule set_update_subset)
  have "\<forall>x m. Publishing x m \<in> set (gs[i := Departing]) \<longrightarrow> m \<le> core_epochs c \<and> x = of_nat m"
    "\<forall>x. Removing x \<in> set (gs[i := Departing]) \<and> bs_identity (core_state c) = Some x \<longrightarrow>
       bs_client (core_state c) = None \<and> \<not> bs_going_online (core_state c)"
    using inv sub unfolding epochs_inv_def Let_def by blast+
  moreover have "holders (publishes_at (core_epochs c)) (gs[i := Departing]) =
      holders (publishes_at (core_epochs c)) gs"
    using holders_update [OF i, of "publishes_at (core_epochs c)" Departing] g by simp
  ultimately show ?thesis
    using inv off
    by (auto simp: epochs_inv_def Let_def with_state_def remove_finish_def split: result.splits)
qed

lemma epochs_inv_move:
  assumes inv: "epochs_inv gs c" and auth: "auth_inv gs (core_state c)" and i: "i < length gs"
    and m: "browser_move A (gs ! i, c) (g', c')" and small: "core_epochs c < 2 ^ 64"
  shows "epochs_inv (gs[i := g']) c'"
proof -
  note plain = epochs_inv_plain [OF inv i]
  note same = epochs_inv_same [OF inv]
  from m show ?thesis
  proof cases
    case move_enter
    then show ?thesis using epochs_inv_enter [OF inv auth i] by auto
  next
    case (move_remove identity u s)
    then show ?thesis using epochs_inv_remove_claim [OF inv i] by auto
  next
    case (move_removed identity removed)
    then show ?thesis using epochs_inv_removed [OF inv i] by auto
  next
    case (move_publish device pubky session sequences e)
    then show ?thesis using epochs_inv_publish [OF inv auth i] by auto
  next
    case (move_abandon e n)
    then show ?thesis using epochs_inv_end(1) [OF inv i _ small] by auto
  next
    case (move_online e n client r h)
    then show ?thesis using epochs_inv_end(2) [OF inv i _ small] by auto
  next
    case move_shutdown
    then show ?thesis using epochs_inv_offline [OF inv] by (simp add: shutdown_take_def Let_def)
  next
    case move_fail
    then show ?thesis using epochs_inv_offline [OF inv] inv by (auto simp: fail_online_take_def Let_def)
  next
    case (move_begin e s)
    then show ?thesis using plain epochs_view_claims(1) [OF move_begin(4)] by simp
  next
    case (move_complete h pending s)
    then show ?thesis using plain epochs_view_claims(2) [OF move_complete(4)] by simp
  next
    case (move_complete_stale h code s)
    then show ?thesis using plain epochs_view_claims(2) [OF move_complete_stale(4)] by simp
  next
    case (move_restore h e s)
    then show ?thesis using plain epochs_view_claims(3) [OF move_restore(4)] by simp
  next
    case (move_store pending e stale s)
    then show ?thesis using plain epochs_view_claims(4) [OF move_store(4)] by simp
  qed (simp_all add: plain same del: list_update_id)
qed

section \<open>Bounds\<close>

definition pending_of :: "string \<Rightarrow> (string, 'h browser_incoming) hash_map \<Rightarrow> nat" where
  "pending_of identity m = length (filter (\<lambda>pending. bi_identity pending = identity) (map snd m))"

definition tables_inv :: "'h browser_state \<Rightarrow> bool" where
  "tables_inv s \<longleftrightarrow>
     distinct (map fst (bs_peers s)) \<and> length (bs_peers s) \<le> MAX_CONNECTED_PEERS \<and>
     distinct (map fst (bs_pending_inbound s)) \<and> length (bs_pending_inbound s) \<le> MAX_PENDING_INBOUND \<and>
     (\<forall>identity. pending_of identity (bs_pending_inbound s) \<le> MAX_PENDING_PER_IDENTITY) \<and>
     distinct (bs_dialing s) \<and> length (bs_dialing s) \<le> MAX_CONNECTED_PEERS"

lemma length_update_le: "length (AList.update k v m) \<le> Suc (length m)"
  by (induction m) auto

lemma pending_of_update:
  "pending_of identity (AList.update k v m) \<le> pending_of identity m + of_bool (bi_identity v = identity)"
  unfolding pending_of_def by (induction m) auto

lemma pending_of_delete: "pending_of identity (AList.delete k m) \<le> pending_of identity m"
  unfolding pending_of_def by (induction m) (auto simp: AList.delete_eq)

lemma tables_inv_cong:
  "bs_peers s = bs_peers s' \<Longrightarrow> bs_pending_inbound s = bs_pending_inbound s' \<Longrightarrow>
   bs_dialing s = bs_dialing s' \<Longrightarrow> tables_inv s = tables_inv s'"
  unfolding tables_inv_def by (simp only:)

lemma tables_inv_net_view: "net_view s = net_view s' \<Longrightarrow> tables_inv s = tables_inv s'"
  by (intro tables_inv_cong) (simp_all add: net_view_def)

lemma tables_inv_incoming:
  assumes inv: "tables_inv s"
  shows "tables_inv (snd (incoming_store epoch incoming s))"
proof (cases "bs_epoch s \<noteq> epoch \<or> bs_client s = None \<or> length (bs_pending_inbound s) \<ge> MAX_PENDING_INBOUND \<or>
    pending_of (bi_identity incoming) (bs_pending_inbound s) \<ge> MAX_PENDING_PER_IDENTITY")
  case True
  then have "snd (incoming_store epoch incoming s) = s"
    by (auto simp: incoming_store_def Let_def pending_of_def)
  then show ?thesis using inv by simp
next
  case False
  define m where "m = AList.update (request_name (next_request_id s)) incoming (bs_pending_inbound s)"
  have s': "snd (incoming_store epoch incoming s) =
      s\<lparr>bs_next_request_id := next_request_id s, bs_pending_inbound := m\<rparr>"
    using False by (auto simp: incoming_store_def Let_def pending_of_def m_def)
  have "pending_of identity m \<le> MAX_PENDING_PER_IDENTITY" for identity
  proof (cases "bi_identity incoming = identity")
    case True
    with False pending_of_update [of identity "request_name (next_request_id s)" incoming "bs_pending_inbound s"]
    show ?thesis by (simp add: m_def)
  next
    case other: False
    have "pending_of identity (bs_pending_inbound s) \<le> MAX_PENDING_PER_IDENTITY"
      using inv by (simp add: tables_inv_def)
    then show ?thesis
      using other pending_of_update [of identity "request_name (next_request_id s)" incoming "bs_pending_inbound s"]
      by (simp add: m_def)
  qed
  moreover have "length m \<le> MAX_PENDING_INBOUND"
    using False length_update_le [of "request_name (next_request_id s)" incoming "bs_pending_inbound s"]
    by (simp add: m_def)
  moreover have "distinct (map fst m)"
    using inv by (simp add: m_def tables_inv_def distinct_update)
  ultimately show ?thesis using inv by (simp add: s' tables_inv_def)
qed

lemma tables_inv_less_pending:
  "tables_inv s \<Longrightarrow> tables_inv (s\<lparr>bs_pending_inbound := AList.delete k (bs_pending_inbound s)\<rparr>)"
  using pending_of_delete [of _ k "bs_pending_inbound s"] length_delete_le [of k "bs_pending_inbound s"]
  by (auto simp: tables_inv_def distinct_delete intro: order_trans)

lemma tables_inv_less_peers:
  "tables_inv s \<Longrightarrow> tables_inv (s\<lparr>bs_peers := AList.delete k (bs_peers s)\<rparr>)"
  using length_delete_le [of k "bs_peers s"]
  by (auto simp: tables_inv_def distinct_delete intro: order_trans)

lemma tables_inv_updates [simp]:
  "tables_inv (s\<lparr>bs_epoch := e\<rparr>) = tables_inv s"
  "tables_inv (s\<lparr>bs_going_online := b\<rparr>) = tables_inv s"
  "tables_inv (s\<lparr>bs_current_record := r\<rparr>) = tables_inv s"
  "tables_inv (s\<lparr>bs_client := client\<rparr>) = tables_inv s"
  "tables_inv (s\<lparr>bs_renewal_abort := h\<rparr>) = tables_inv s"
  by (simp_all add: tables_inv_def)

lemma tables_inv_offline [simp]: "tables_inv (offline s)"
  by (simp add: tables_inv_def offline_def pending_of_def)

lemma tables_inv_move:
  assumes inv: "tables_inv (core_state c)" and m: "browser_move A (g, c) (g', c')"
  shows "tables_inv (core_state c')"
proof -
  note same = tables_inv_net_view [THEN iffD2, OF _ inv]
  from m show ?thesis
  proof cases
    case (move_publish device pubky session sequences e)
    then have "bs_peers (core_state c') = bs_peers (core_state c)"
      "bs_pending_inbound (core_state c') = bs_pending_inbound (core_state c)"
      "bs_dialing (core_state c') = bs_dialing (core_state c)"
      by (auto simp: publish_claim_def Let_def next_epoch_def split: if_splits result.splits)
    then show ?thesis using tables_inv_cong inv by blast
  next
    case move_abandon
    then show ?thesis using inv by (simp add: with_state_def publish_abandon_def)
  next
    case move_online
    then show ?thesis using inv by (simp add: with_state_def publish_store_def)
  next
    case move_shutdown
    then show ?thesis by (simp add: shutdown_take_def Let_def next_epoch_def)
  next
    case move_fail
    then show ?thesis using inv by (simp add: fail_online_take_def Let_def next_epoch_def)
  next
    case move_renew
    then show ?thesis using inv by (simp add: with_state_def renewal_store_def)
  next
    case (move_activate epoch peer_id peer)
    then show ?thesis using inv length_update_le [of peer_id peer "bs_peers (core_state c)"]
      by (auto simp: with_state_def activate_store_def tables_inv_def distinct_update)
  next
    case move_request
    then show ?thesis using inv
      by (auto simp: with_state_def request_claim_def tables_inv_def)
  next
    case (move_dialed epoch peer_id)
    then show ?thesis using inv
      by (auto simp: with_state_def dial_done_def tables_inv_def length_remove1)
  next
    case move_take
    then show ?thesis using inv tables_inv_less_pending
      by (auto simp: with_state_def take_pending_def split: option.splits)
  next
    case move_receive_remove
    then show ?thesis using inv tables_inv_less_peers
      by (auto simp: with_state_def receive_remove_def)
  next
    case move_incoming
    then show ?thesis using inv tables_inv_incoming by (simp add: with_state_def)
  next
    case move_expire
    then show ?thesis using inv tables_inv_less_pending
      by (auto simp: with_state_def expire_take_def)
  qed (auto simp: core_moves intro!: same intro: net_view_claims)
qed

end
