(* ===== verification/Browser_Contract.thy ===== *)
theory Browser_Contract
  imports Browser_Safety
begin

text \<open>
  The log of events, the invariant of the browser core as a whole, and the interpretation of the
  contract of theory Async\_Tasks on the methods and background tasks of the core: the invariant
  holds in every state that \<open>browser_reachable\<close> reaches.
\<close>

section \<open>Messages\<close>

text \<open>
  A message event carries a well-formed message, and its peer was announced as verified before.
\<close>

definition announced :: "string \<Rightarrow> json list \<Rightarrow> bool" where
  "announced peer_id events \<longleftrightarrow> (\<exists>device. verified_event peer_id device \<in> set events)"

fun log_ok :: "json list \<Rightarrow> json list \<Rightarrow> bool" where
  "log_ok earlier [] = True"
| "log_ok earlier (event # events) \<longleftrightarrow>
     (\<forall>peer_id b t. event = message_event peer_id b t \<longrightarrow> chat_message_ok b \<and> announced peer_id earlier) \<and>
     log_ok (earlier @ [event]) events"

definition log_inv :: "role list \<Rightarrow> 'h browser_core \<Rightarrow> bool" where
  "log_inv gs c \<longleftrightarrow>
     log_ok [] (core_events c) \<and>
     (\<forall>peer_id. Greeted peer_id \<in> set gs \<or> Receiving peer_id \<in> set gs \<or>
        Receiving peer_id \<in> role_of ` set (core_spawned c) \<longrightarrow> announced peer_id (core_events c))"

lemma log_ok_append: "log_ok earlier (xs @ ys) \<longleftrightarrow> log_ok earlier xs \<and> log_ok (earlier @ xs) ys"
  by (induction earlier xs rule: log_ok.induct) auto

lemma announced_append [simp]: "announced p (xs @ ys) \<longleftrightarrow> announced p xs \<or> announced p ys"
  by (auto simp: announced_def)

lemma message_event_inject [simp]:
  "message_event p b t = message_event p' b' t' \<longleftrightarrow> p = p' \<and> b = b' \<and> t = t'"
proof -
  have "inj (ser_uint :: byte \<Rightarrow> json)" by (rule injI) (simp add: ser_uint_def word_unat_eq_iff)
  then show ?thesis
    by (auto simp: message_event_def ser_vec_def inj_map_eq_map)
qed

lemma verified_not_message: "verified_event p d \<noteq> message_event q b t"
  by (simp add: verified_event_def message_event_def)

lemma announced_verified [simp]: "announced p [verified_event p d]"
  by (auto simp: announced_def)

lemma publish_claim_log:
  "publish_claim c = (Ok x, c') \<Longrightarrow> core_events c' = core_events c \<and> core_spawned c' = core_spawned c"
  by (auto simp: publish_claim_def Let_def next_epoch_def split: if_splits result.splits)

lemma offline_log:
  "core_events (snd (shutdown_take c)) = core_events c" "core_spawned (snd (shutdown_take c)) = core_spawned c"
  "core_events (snd (fail_online_take e c)) = core_events c"
  "core_spawned (snd (fail_online_take e c)) = core_spawned c"
  by (simp_all add: shutdown_take_def fail_online_take_def Let_def next_epoch_def)

lemma log_inv_same:
  assumes "log_inv gs c" and "core_events c' = core_events c" and "core_spawned c' = core_spawned c"
    and "\<And>p. g \<noteq> Greeted p \<and> g \<noteq> Receiving p \<or> g \<in> set gs"
  shows "log_inv (gs[i := g]) c'"
  using assms set_update_subset [of _ gs i g] unfolding log_inv_def by (metis (no_types, lifting))

lemma log_inv_move:
  assumes inv: "log_inv gs c" and i: "i < length gs" and m: "browser_move A (gs ! i, c) (g', c')"
  shows "log_inv (gs[i := g']) c'"
proof -
  have mem: "gs ! i \<in> set gs" using i by (rule nth_mem)
  note same = log_inv_same [OF inv]
  note up = set_update_subset [of _ gs i g']
  from m show ?thesis
  proof cases
    case (move_event event)
    then show ?thesis using inv
      by (auto simp: log_inv_def log_event_def log_ok_append is_message_def)
  next
    case (move_greet peer_id device)
    then have "p = peer_id \<or> Greeted p \<in> set gs" if "Greeted p \<in> set (gs[i := g'])" for p
      using that up [of "Greeted p"] by simp
    moreover have "Receiving p \<in> set gs" if "Receiving p \<in> set (gs[i := g'])" for p
      using that up [of "Receiving p"] move_greet by simp
    ultimately have roles: "p = peer_id \<or> announced p (core_events c)"
      if "Greeted p \<in> set (gs[i := g']) \<or> Receiving p \<in> set (gs[i := g']) \<or>
        Receiving p \<in> role_of ` set (core_spawned c)" for p
      using that inv unfolding log_inv_def by blast
    have "log_ok [] (core_events c @ [verified_event peer_id device])"
      using inv by (simp add: log_inv_def log_ok_append verified_not_message)
    moreover have "announced p (core_events c @ [verified_event peer_id device])"
      if "p = peer_id \<or> announced p (core_events c)" for p
      using that by auto
    ultimately show ?thesis using roles by (simp add: move_greet(3) log_inv_def log_event_def)
  next
    case (move_message b peer_id t)
    moreover have "announced peer_id (core_events c)"
      using inv mem move_message by (auto simp: log_inv_def)
    moreover have "gs[i := g'] = gs" using move_message(1,2) by (metis list_update_id)
    ultimately show ?thesis using inv
      by (auto simp: log_inv_def log_event_def log_ok_append)
  next
    case (move_spawn t)
    then show ?thesis using inv by (auto simp: log_inv_def push_spawn_def)
  next
    case (move_spawn_receive peer_id peer epoch)
    moreover have "announced peer_id (core_events c)"
      using inv mem move_spawn_receive by (auto simp: log_inv_def)
    ultimately show ?thesis using inv up by (auto simp: log_inv_def push_spawn_def)
  next
    case (move_receive_again peer_id peer epoch)
    moreover have "announced peer_id (core_events c)"
      using inv mem move_receive_again by (auto simp: log_inv_def)
    moreover have "gs[i := g'] = gs" using move_receive_again(1,2) by (metis list_update_id)
    ultimately show ?thesis using inv by (auto simp: log_inv_def push_spawn_def)
  next
    case (move_publish device pubky session sequences e)
    note log = publish_claim_log [OF move_publish(3)]
    show ?thesis unfolding move_publish(2) by (rule same) (simp_all add: log)
  qed (rule same; simp add: with_state_def offline_log mem)+
qed

section \<open>The contract of the tasks\<close>

definition browser_inv ::
  "('h \<Rightarrow> 'h \<Rightarrow> string \<Rightarrow> string \<Rightarrow> string \<Rightarrow> bool) \<Rightarrow> role list \<Rightarrow> 'h browser_core \<Rightarrow> bool" where
  "browser_inv A gs c \<longleftrightarrow>
     auth_inv gs (core_state c) \<and> session_inv A (core_state c) \<and> net_inv gs c \<and> tables_inv (core_state c) \<and> log_inv gs c"

definition drained :: "'h browser_core \<Rightarrow> 'h browser_core" where
  "drained c = c\<lparr>core_spawned := []\<rparr>"

definition spawned_roles :: "'h browser_core \<Rightarrow> role list" where
  "spawned_roles c = map role_of (core_spawned c)"

lemma browser_inv_new: "browser_inv A [] browser_core_new"
  by (simp add: browser_inv_def browser_core_new_def browser_state_default_def auth_inv_def session_inv_def
      session_parts_def net_inv_def
      offline_clean_def epochs_inv_def tables_inv_def log_inv_def holders_def pending_of_def)

lemma browser_inv_move:
  assumes "browser_inv A gs c" and "i < length gs" and "browser_move A (gs ! i, c) (g', c')"
  shows "browser_inv A (gs[i := g']) c'"
  using assms auth_inv_move [of gs c i A g' c'] session_inv_move [of A c "gs ! i" g' c'] offline_clean_move [of c A "gs ! i" g' c']
    epochs_inv_move [of gs c i A g' c'] tables_inv_move [of c A "gs ! i" g' c'] log_inv_move [of gs c i A g' c']
    move_epochs [of A "gs ! i" c g' c']
  by (auto simp: browser_inv_def net_inv_def)

lemma role_of_plain [simp]:
  "role_of t \<noteq> Greeted p" "role_of t \<noteq> Removing i" "role_of t \<noteq> Publishing e m"
  "Greeted p \<noteq> role_of t" "Removing i \<noteq> role_of t" "Publishing e m \<noteq> role_of t"
  by (cases t; simp)+

lemma auth_inv_roles:
  "holders is_signing gs = holders is_signing hs \<Longrightarrow> holders is_removing gs = holders is_removing hs \<Longrightarrow>
   auth_inv gs s = auth_inv hs s"
  unfolding auth_inv_def by (simp only:)

lemma epochs_inv_roles:
  assumes "epochs_inv gs c" and "\<And>n. holders (publishes_at n) hs = 0" and "\<And>i. Removing i \<notin> set hs"
    and "\<And>e m. Publishing e m \<notin> set hs"
  shows "epochs_inv (gs @ hs) c"
  using assms unfolding epochs_inv_def Let_def by simp

text \<open>New tasks hold no lock, and what they are to read was announced.\<close>

lemma browser_inv_append:
  assumes inv: "browser_inv A gs c"
    and none: "holders is_signing hs = 0" "holders is_removing hs = 0" "\<And>n. holders (publishes_at n) hs = 0"
    and roles: "\<And>i. Removing i \<notin> set hs" "\<And>e m. Publishing e m \<notin> set hs"
    and log: "log_inv (gs @ hs) c'"
    and same: "core_state c' = core_state c" "core_epochs c' = core_epochs c"
  shows "browser_inv A (gs @ hs) c'"
proof -
  have view: "epochs_view c' = epochs_view c" by (simp add: epochs_view_def same)
  have "epochs_inv (gs @ hs) c'" if "epochs_inv gs c"
    unfolding epochs_inv_cong [OF view] by (rule epochs_inv_roles [OF that none(3) roles])
  moreover have "auth_inv (gs @ hs) (core_state c) = auth_inv gs (core_state c)"
    by (rule auth_inv_roles) (simp_all add: none)
  ultimately show ?thesis
    using inv log unfolding browser_inv_def net_inv_def same by blast
qed

lemma browser_inv_bystander: "browser_inv A gs c \<Longrightarrow> browser_inv A (gs @ [Bystander]) c"
  by (rule browser_inv_append) (simp_all add: holders_def browser_inv_def log_inv_def)

lemma log_inv_spawned:
  assumes "log_inv gs c"
  shows "log_inv (gs @ spawned_roles c) (drained c)"
proof -
  have "announced p (core_events c)"
    if "Greeted p \<in> set (gs @ spawned_roles c) \<or> Receiving p \<in> set (gs @ spawned_roles c)" for p
    using that assms by (auto simp: log_inv_def spawned_roles_def)
  then show ?thesis using assms by (simp add: log_inv_def drained_def)
qed

lemma browser_inv_spawned:
  assumes "browser_inv A gs c"
  shows "browser_inv A (gs @ spawned_roles c) (drained c)"
  by (rule browser_inv_append [OF assms])
    (use assms in \<open>auto simp: spawned_roles_def [of c] drained_def [of c] browser_inv_def
      intro: log_inv_spawned [unfolded spawned_roles_def drained_def]\<close>)

lemma task_follows:
  "follows_from (browser_move (entitled B)) fst (\<lambda>_ _. True) Bystander (method_of B call)"
  "follows_from (browser_move A) fst (\<lambda>_ _. True) (role_of t) (silent (task_of B t))"
  by (rule follows_from_mono [OF method_follows], rule TrueI)
    (rule follows_from_mono [OF leads_silent [OF task_leads]], rule TrueI)

lemma spawned_follow:
  assumes "drain_spawned B s = (ms, s')"
  shows "fst s' = drained (fst s) \<and>
    list_all2 (follows_from (browser_move A) fst (\<lambda>_ _. True)) (spawned_roles (fst s)) ms"
proof (cases s)
  case (Pair c w)
  with assms have "ms = map (\<lambda>t. silent (task_of B t)) (core_spawned c)" "s' = (drained c, w)"
    by (auto simp: drain_spawned_def drained_def)
  then show ?thesis
    by (simp add: Pair spawned_roles_def list_all2_map1 list_all2_map2 list_all2_same task_follows)
qed

interpretation browser: task_protocol "browser_move (entitled B)" fst Bystander spawned_roles drained
    "\<lambda>m. \<exists>call. m = method_of B call" "drain_spawned B" "\<lambda>(c, w). c = browser_core_new" "browser_inv (entitled B)"
  for B :: "('j, 'h, 'w) platform"
proof (unfold_locales, goal_cases)
  case (1 m)
  then show ?case by (elim exE) (simp only: task_follows)
next
  case (2 s ms s')
  then show ?case by (rule spawned_follow)
next
  case (3 s)
  then show ?case by (auto simp: browser_inv_new)
next
  case (4 gs b)
  then show ?case by (rule browser_inv_bystander)
next
  case (5 gs b i g' b')
  then show ?case by (rule browser_inv_move)
next
  case (6 gs b)
  then show ?case by (rule browser_inv_spawned)
qed

theorem browser_reachable_inv:
  assumes "browser_reachable B ((c, w), ts)"
  shows "\<exists>gs. browser_inv (entitled B) gs c"
  using browser.reachable_inv [OF assms [unfolded browser_reachable_def]] by auto

section \<open>One step of the core\<close>

definition browser_step ::
  "('j, 'h, 'w) platform \<Rightarrow>
   ('h browser_core \<times> 'w) \<times> ('h browser_core \<times> 'w, 'j browser_result option) co list \<Rightarrow>
   ('h browser_core \<times> 'w) \<times> ('h browser_core \<times> 'w, 'j browser_result option) co list \<Rightarrow> bool" where
  "browser_step B = sys_step (\<lambda>m. \<exists>call. m = method_of B call) (drain_spawned B)"

text \<open>
  What a task finds as an open session it leaves as it is, or removes: who may enter a session
  holds the authentication lock, and who removed one claims nothing more.
\<close>

lemma departing_move: "browser_move A (Departing, c) (g', c') \<Longrightarrow> g' = Departing"
  by (erule browser_move.cases) simp_all

lemma session_kept_move:
  assumes inv: "auth_inv gs (core_state c)" "i < length gs" and "browser_move A (gs ! i, c) (g', c')"
    and "session_parts (core_state c) = X \<or>
      gs ! i = Departing \<and> session_parts (core_state c) = (None, None, None, None, None, None)"
    and "fst X \<noteq> None"
  shows "session_parts (core_state c') = X \<or>
      g' = Departing \<and> session_parts (core_state c') = (None, None, None, None, None, None)"
  using assms(3)
proof (cases rule: session_parts_move)
  case 1
  then show ?thesis using assms(3,4) departing_move by metis
next
  case (2 pubky session key_id identity client_id e)
  then have "0 < holders is_signing gs" using holders_pos [OF inv(2), of is_signing] by simp
  then have "bs_session (core_state c) = None" using inv(1) by (simp add: auth_inv_def)
  then show ?thesis using assms(4,5) 2 by (auto simp: session_parts_def)
qed (use assms(4) in simp)

theorem browser_step_session:
  assumes "browser_reachable B ((c, w), ts)" and "browser_step B ((c, w), ts) ((c', w'), ts')"
    and "bs_session (core_state c) \<noteq> None"
  shows "session_parts (core_state c') \<in> {session_parts (core_state c), (None, None, None, None, None, None)}"
proof -
  let ?none = "(None, None, None, None, None, None)" and ?X = "session_parts (core_state c)"
  define K where "K g b \<longleftrightarrow> session_parts (core_state b) = ?X \<or> g = Departing \<and> session_parts (core_state b) = ?none"
    for g :: role and b :: "'b browser_core"
  have "c' = c \<or> (\<exists>g b. K g b \<and> c' = drained b)"
  proof (rule browser.step_keeps [of B "(c, w)" ts "(c', w')" ts' K, unfolded fst_conv])
    show "K g' b'" if "browser_inv (entitled B) gs b" "i < length gs" "gs ! i = g" "K g b"
      "browser_move (entitled B) (g, b) (g', b')" for gs i g b g' b'
      using session_kept_move [of gs b i "entitled B" g' b' ?X] that assms(3)
      by (auto simp: K_def browser_inv_def session_parts_def)
  qed (use assms in \<open>simp_all add: browser_reachable_def browser_step_def K_def\<close>)
  then show ?thesis by (auto simp: K_def drained_def)
qed

end
