(* ===== verification/Browser_Demo.thy ===== *)
theory Browser_Demo
  imports Browser_Network Client_Demo
begin

text \<open>
  A concrete run of the browser core: it restores an identity, issues a device credential, goes
  online, connects to a peer and receives a message. The theorems about reachable cores are applied
  to the state at its end.
\<close>

section \<open>Running one task\<close>

text \<open>
  \<open>run q m s\<close> polls \<open>m\<close> until it is finished, nothing else running in between, provided that \<open>q\<close>
  holds whenever it is suspended.
\<close>

primrec co_run :: "('s, 'a) co \<Rightarrow> ('s \<Rightarrow> bool) \<Rightarrow> 's \<Rightarrow> ('a \<times> 's) option" where
  "co_run (Ready a) = (\<lambda>q s. Some (a, s))"
| "co_run (Pending k) = (\<lambda>q s.
     if q s then (let (resume, s') = map_prod co_run id (k s) in resume q s') else None)"

definition run :: "('s \<Rightarrow> bool) \<Rightarrow> ('s, 'a) async \<Rightarrow> 's \<Rightarrow> ('a \<times> 's) option" where
  "run q m s = (let (c, s') = m s in co_run c q s')"

lemma run_return [simp]: "run q (as_return a) s = Some (a, s)"
  by (simp add: run_def as_return_def)

lemma run_atomic [simp]: "run q (atomic h) s = Some (h s)"
  by (simp add: run_def atomic_def case_prod_unfold Let_def)

lemma run_yield [simp]: "run q as_yield s = (if q s then Some ((), s) else None)"
  by (simp add: run_def as_yield_def)

lemma co_run_bind:
  "(case co_bind c f s of (c', s') \<Rightarrow> co_run c' q s') = Option.bind (co_run c q s) (\<lambda>(a, s'). run q (f a) s')"
proof (induction c arbitrary: s)
  case (Ready a)
  then show ?case by (simp add: run_def Let_def)
next
  case (Pending k)
  have "(case co_bind (fst (k s)) f (snd (k s)) of (c', s') \<Rightarrow> co_run c' q s') =
      Option.bind (co_run (fst (k s)) q (snd (k s))) (\<lambda>(a, s'). run q (f a) s')"
    by (rule Pending.IH [of "k s"]) (auto simp: prod_set_defs)
  then show ?case by (simp add: case_prod_unfold Let_def)
qed

lemma run_bind [simp]:
  "run q (as_bind m f) s = Option.bind (run q m s) (\<lambda>(a, s'). run q (f a) s')"
  using co_run_bind [where c = "fst (m s)" and s = "snd (m s)"]
  by (simp add: run_def as_bind_def case_prod_unfold Let_def)

lemma run_try [simp]:
  "run q (as_try m f) s =
     Option.bind (run q m s) (\<lambda>(r, s'). case r of Ok x \<Rightarrow> run q (f x) s' | Err e \<Rightarrow> Some (Err e, s'))"
  unfolding as_try_def run_bind by (rule arg_cong [where f = "Option.bind _"]) (auto split: result.split)

lemma run_await [simp]:
  "run q (await m) s = (if q s \<and> q (snd (m s)) then Some (m s) else None)"
  by (simp add: await_def case_prod_unfold)

lemma co_run_abortable:
  assumes "\<And>s. q s \<Longrightarrow> \<not> aborted s"
  shows "co_run c q s = Some (a, s') \<Longrightarrow> co_run (co_abortable aborted c) q s = Some (Some a, s')"
proof (induction c arbitrary: s)
  case (Pending k)
  then have q: "q s" and k: "co_run (fst (k s)) q (snd (k s)) = Some (a, s')"
    by (auto simp: case_prod_unfold Let_def split: if_splits)
  have IH: "co_run (co_abortable aborted (fst (k s))) q (snd (k s)) = Some (Some a, s')"
    by (rule Pending.IH [of "k s", OF _ _ k]) (auto simp: prod_set_defs)
  have "\<not> aborted (snd (k s))" if "co_abortable aborted (fst (k s)) = Pending k'" for k'
    using IH that assms by (auto split: if_splits)
  then have "check_abort aborted (co_abortable aborted (fst (k s)), snd (k s)) =
      (co_abortable aborted (fst (k s)), snd (k s))"
    by (cases "co_abortable aborted (fst (k s))") (simp_all add: check_abort_def)
  then show ?case using q assms [OF q] IH by (simp add: map_prod_def case_prod_unfold Let_def)
qed simp

lemma run_abortable:
  assumes "\<And>s. q s \<Longrightarrow> \<not> aborted s" and "run q m s = Some (a, s')" and "\<not> aborted s"
  shows "run q (abortable aborted m) s = Some (Some a, s')"
proof -
  have m: "co_run (fst (m s)) q (snd (m s)) = Some (a, s')"
    using assms(2) by (simp add: run_def case_prod_unfold Let_def)
  have c: "co_run (co_abortable aborted (fst (m s))) q (snd (m s)) = Some (Some a, s')"
    by (rule co_run_abortable [OF _ m]) (rule assms(1))
  have "\<not> aborted (snd (m s))" if "co_abortable aborted (fst (m s)) = Pending k'" for k'
    using c that assms(1) by (auto split: if_splits)
  then have "check_abort aborted (co_abortable aborted (fst (m s)), snd (m s)) =
      (co_abortable aborted (fst (m s)), snd (m s))"
    by (cases "co_abortable aborted (fst (m s))") (simp_all add: check_abort_def)
  then show ?thesis
    using c assms(3) by (simp add: run_def abortable_def map_prod_def case_prod_unfold Let_def)
qed

text \<open>What such a run makes of the system.\<close>

lemma reachable_co_run:
  assumes quiet: "\<And>s. q s \<Longrightarrow> drain s = ([], s)"
  shows "co_run c q s = Some (a, s1) \<Longrightarrow> k s0 = (c, s) \<Longrightarrow> sys_reachable calls drain start (s0, ts) \<Longrightarrow>
    i < length ts \<Longrightarrow> ts ! i = Pending k \<Longrightarrow> drain s1 = (ms, s2) \<Longrightarrow>
    sys_reachable calls drain start (s2, ts[i := Ready a] @ map Pending ms)"
proof (induction c arbitrary: k s0 s ts)
  case (Ready x)
  then have "sys_step calls drain (s0, ts) (s2, ts[i := Ready a] @ map Pending ms)"
    by (auto intro: sys_resume [where k = k])
  then show ?case using Ready.prems(3) by (rule sys_next [rotated])
next
  case (Pending k')
  then have q: "q s" and k': "co_run (fst (k' s)) q (snd (k' s)) = Some (a, s1)"
    by (auto simp: case_prod_unfold Let_def split: if_splits)
  have "sys_step calls drain (s0, ts) (s, ts[i := Pending k'] @ map Pending [])"
    by (rule sys_resume [where k = k and ?s1.0 = s]) (use Pending.prems(2,4,5) quiet [OF q] in simp_all)
  then have reach: "sys_reachable calls drain start (s, ts[i := Pending k'])"
    using Pending.prems(3) by (auto intro: sys_next)
  have "sys_reachable calls drain start (s2, ts[i := Pending k', i := Ready a] @ map Pending ms)"
    by (rule Pending.IH [of "k' s", OF _ _ k' _ reach]) (use Pending.prems in \<open>auto simp: prod_set_defs\<close>)
  then show ?case by simp
qed

lemma reachable_run:
  assumes "\<And>s. q s \<Longrightarrow> drain s = ([], s)" and "sys_reachable calls drain start (s, ts)"
    and "i < length ts" and "ts ! i = Pending m" and "run q m s = Some (a, s1)" and "drain s1 = (ms, s2)"
  shows "sys_reachable calls drain start (s2, ts[i := Ready a] @ map Pending ms)"
proof (rule reachable_co_run [where q = q and drain = drain and k = m, OF assms(1)])
  show "co_run (fst (m s)) q (snd (m s)) = Some (a, s1)"
    using assms(5) by (simp add: run_def case_prod_unfold Let_def)
qed (use assms in auto)

lemma reachable_call:
  assumes "\<And>s. q s \<Longrightarrow> drain s = ([], s)" and "sys_reachable calls drain start (s, ts)"
    and "calls m" and "run q m s = Some (a, s1)" and "drain s1 = (ms, s2)"
  shows "sys_reachable calls drain start (s2, ts @ [Ready a] @ map Pending ms)"
proof -
  have "sys_reachable calls drain start (s, ts @ [Pending m])"
    by (rule sys_next [OF assms(2)], rule sys_call, rule assms(3))
  from reachable_run [OF assms(1) this _ _ assms(4,5), of "length ts"] show ?thesis by simp
qed

section \<open>A platform\<close>

text \<open>JavaScript values are JSON here, handles are numbers, and the world never changes.\<close>

definition demo_restore :: restore_state where
  "demo_restore = \<lparr>rs_version = 1, rs_grant_jws = grant_jws (demo_grant alice), rs_homeserver = party_id bob,
     rs_key_id = ''k'', rs_client_pk = demo_z32 (PublicKey 2)\<rparr>"

definition demo_stored :: stored_identity where
  "demo_stored = \<lparr>si_identity = party_id alice, si_key_id = ''k'', si_client_id = ''demo.app'',
     si_homeserver = party_id bob, si_grant_id = ''g'', si_grant_expires_at = 120,
     si_restore = of_bytes (enc (ser_restore_state demo_restore))\<rparr>"

definition settled :: "json \<Rightarrow> (json, unit) promise" where
  "settled v w = (Ok v, w)"

definition demo_js :: "(json, unit) js_api" where
  "demo_js = \<lparr>
     js_to_value = Some, js_from_value = Some,
     js_as_string = (\<lambda>j. case j of JStr s \<Rightarrow> Some s | _ \<Rightarrow> None), js_as_bool = (\<lambda>j. Some True),
     js_as_f64 = (\<lambda>j. Some (Finite 1)), js_is_undefined = (\<lambda>j. j = JNull), js_get = (\<lambda>j name. Ok j),
     js_uint8_array = (\<lambda>j. word_bytes 64 (2 :: 512 word)), js_date_now = (\<lambda>w. (JNum 0, w)),
     js_storage_available = (\<lambda>w. True), js_ensure_grant_key = (\<lambda>key. settled JNull),
     js_load_grant_public_key = (\<lambda>key. settled JNull), js_sign_grant_input = (\<lambda>key input. settled JNull),
     js_sign_bytes = (\<lambda>key b. settled JNull), js_delete_grant_key = (\<lambda>key. settled JNull),
     js_save_identity = (\<lambda>v. settled JNull), js_list_identities = settled JNull,
     js_load_identity = (\<lambda>identity. settled (ser_identity_to_store demo_stored)),
     js_save_new_device_state = (\<lambda>identity key text. settled JNull),
     js_replace_device_state = (\<lambda>identity old key text. settled JNull),
     js_load_device_state = (\<lambda>identity. settled JNull),
     js_has_publisher_sequence = (\<lambda>account identity key. settled JNull),
     js_remove_identity = (\<lambda>identity. settled JNull),
     js_next_publisher_sequence = (\<lambda>account identity key. settled JNull),
     js_record_sequence_batch = (\<lambda>account v. settled JNull),
     pk_try_from_bytes = (\<lambda>b. Some (PublicKey 2))\<rparr>"

definition demo_capabilities :: "capability list" where
  "demo_capabilities = [Capability REQUIRED_CAPABILITY]"

definition demo_exported :: delegated_grant_credential_state where
  "demo_exported = \<lparr>dg_grant_jws = grant_jws (demo_grant alice), dg_homeserver_pk = PublicKey 5,
     dg_key_id = ''k'', dg_client_pk = PublicKey 2\<rparr>"

definition demo_info :: grant_session_info where
  "demo_info = \<lparr>gs_client_id = ClientId ''demo.app'', gs_capabilities = demo_capabilities,
     gs_pubky = PublicKey 1, gs_homeserver = PublicKey 5, gs_grant_id = GrantId ''g'',
     gs_grant_expires_at = 120\<rparr>"

definition demo_sdk :: "(nat, unit) sdk_api" where
  "demo_sdk = \<lparr>
     sdk_parse_capabilities = (\<lambda>s. Some demo_capabilities), sdk_client_id_new = (\<lambda>s. Some (ClientId s)),
     sdk_http_client = (\<lambda>host. Some 1), sdk_with_client = (\<lambda>client. 2),
     sdk_start_flow = (\<lambda>capabilities client_id client relay key_id key signer w. (Ok 3, w)),
     sdk_authorization_url = (\<lambda>flow. Url ''pubkyauth:''),
     sdk_await_approval = (\<lambda>flow w. (Ok 4, w)), sdk_session_public_key = (\<lambda>session. PublicKey 1),
     sdk_session_capabilities = (\<lambda>session. demo_capabilities), sdk_as_grant = (\<lambda>session. Some 5),
     sdk_session_info = (\<lambda>grant w. (demo_info, w)), sdk_export_restore = (\<lambda>grant w. (Some demo_exported, w)),
     sdk_restore_session = (\<lambda>pubky state signer w. (Ok 4, w)),
     sdk_pubky_api = (\<lambda>pubky session. demo_pubky)\<rparr>"

definition demo_peer :: "nat browser_peer" where
  "demo_peer = \<lparr>bp_handle = 6, bp_session_id = [1], bp_identity = party_id bob, bp_device_id = ''phone''\<rparr>"

definition demo_net :: "(nat, unit) client_api" where
  "demo_net = \<lparr>
     ca_bind = (\<lambda>credential resolver config w. (Ok \<lparr>bc_handle = 7, bc_credential = credential\<rparr>, w)),
     ca_next_record = (\<lambda>client next lifetime w. (Ok (demo_record alice), w)),
     ca_dial = (\<lambda>client identity device application w. (Ok demo_peer, w)),
     ca_next_incoming = (\<lambda>client w. (Err (State ''closed''), w)), ca_close = (\<lambda>client w. ((), w)),
     ca_accept = (\<lambda>incoming w. (Ok demo_peer, w)), ca_reject = (\<lambda>incoming w. w),
     ca_drop_incoming = (\<lambda>incoming w. w), ca_wait_for_path = (\<lambda>peer path d w. (Relayed, w)),
     ca_send = (\<lambda>peer b w. (Ok (), w)), ca_recv = (\<lambda>peer w. (Ok [104, 105], w)),
     ca_peer_close = (\<lambda>peer w. (Ok (), w)), ca_drop_peer = (\<lambda>peer w. w), ca_sleep = (\<lambda>d w. ((), w))\<rparr>"

definition demo_platform :: "(json, nat, unit) platform" where
  "demo_platform = \<lparr>pf_env = demo_env, pf_js = demo_js, pf_sdk = demo_sdk, pf_net = demo_net,
     pf_clock = still 40, pf_keys = (\<lambda>w. ((control_pair alice, iroh_pair alice), w))\<rparr>"

lemma demo_platform_simps [simp]:
  "pf_env demo_platform = demo_env" "pf_js demo_platform = demo_js" "pf_sdk demo_platform = demo_sdk"
  "pf_net demo_platform = demo_net" "pf_clock demo_platform = still 40"
  "pf_keys demo_platform w = ((control_pair alice, iroh_pair alice), w)"
  by (simp_all add: demo_platform_def)

section \<open>What its parts answer\<close>

lemma demo_canonical_key [simp]: "canonical_public_key demo_env (demo_z32 k) = Ok k"
  by (simp add: ok_iff demo_env_def demo_parse_z32 del: demo_z32.simps)

lemma demo_key_text [simp]: "pk_z32 demo_env k = demo_z32 k"
  by (simp add: demo_env_def)

lemma demo_browser_identity [simp]: "browser_canonical_identity demo_env (party_id p) = Ok (party_id p)"
  by (simp add: browser_canonical_identity_def party_id_def del: demo_z32.simps)

lemma demo_json_text [simp]:
  "json_from_str demo_env (of_bytes (enc j)) = Some j" "json_to_string demo_env j = Some (of_bytes (enc j))"
  using demo_parse_enc [of j] by (simp_all add: json_from_str_def json_to_string_def)

lemma party_alice: "party_id alice = demo_z32 (PublicKey 1)"
  by (simp add: party_id_def alice_def del: demo_z32.simps)

lemma party_bob: "party_id bob = demo_z32 (PublicKey 5)"
  by (simp add: party_id_def bob_def del: demo_z32.simps)

lemma demo_grant_at: "grant_verify demo_env (demo_grant alice) (party_id alice) 40 = Ok (into_claims (demo_wire alice))"
  by (rule grant_verify_later [OF demo_grant_verifies]) (simp_all add: demo_wire_def into_claims_def)

lemma demo_from_jws [simp]:
  "from_jws demo_env (grant_jws (demo_grant alice)) (party_id alice) 40 = Ok (demo_grant alice)"
proof -
  have "\<lparr>grant_jws = grant_jws (demo_grant alice)\<rparr> = demo_grant alice" by simp
  then show ?thesis using demo_grant_at by (simp only: from_jws_def Let_def and_then.simps)
qed

lemma demo_validate_client_id [simp]: "validate_client_id demo_sdk ''demo.app'' = Ok ()"
proof -
  have "str_chars ''demo.app'' = map of_char ''demo.app''" by (rule str_chars_ascii) (simp add: is_ascii_def)
  then show ?thesis
    by (simp add: validate_client_id_def demo_sdk_def is_control_def is_whitespace_def)
qed

lemma demo_summary [simp]:
  "validate_stored_summary demo_env demo_stored (party_id alice) ''demo.app'' 40 = Ok ()"
  by (simp add: validate_stored_summary_def demo_stored_def)

section \<open>Restoring the identity\<close>

definition quiet :: "nat browser_core \<times> unit \<Rightarrow> bool" where
  "quiet = (\<lambda>(c, w). core_spawned c = [] \<and> core_aborted c = [])"

lemma quiet_iff: "quiet (c, w) \<longleftrightarrow> core_spawned c = [] \<and> core_aborted c = []"
  by (simp add: quiet_def)

lemma run_parts [simp]:
  "run q (on_core h) (c, w) = (let (a, c') = h c in Some (a, (c', w)))"
  "run q (borrow g) (c, w) = (let (a, s) = g (core_state c) in Some (a, (c\<lparr>core_state := s\<rparr>, w)))"
  "run q (modify f) (c, w) = Some ((), (c\<lparr>core_state := f (core_state c)\<rparr>, w))"
  "run q (call_now m) (c, w) = (let (a, w') = m w in Some (a, (c, w')))"
  "run q (fail code) (c, w) = Some (Err code, (c, w))"
  by (simp_all add: on_core_def borrow_def modify_def call_now_def fail_def failure_def case_prod_unfold Let_def)

lemma run_awaiting [simp]:
  "run q (awaiting m) (c, w) = (let (a, w') = m w in if q (c, w) \<and> q (c, w') then Some (a, (c, w')) else None)"
  by (simp add: awaiting_def case_prod_unfold Let_def)

lemma run_clock [simp]: "run q (read_clock demo_platform) (c, w) = Some (40, (c, w))"
  by (simp add: read_clock_def still_def)

lemma run_epoch [simp]: "run q (auth_epoch_is e) (c, w) = Some (bs_auth_epoch (core_state c) = e, (c, w))"
  by (simp add: auth_epoch_is_def Let_def)

lemma run_new_pair [simp]:
  "run q new_pair (c, w) = Some (core_next_handle c, (c\<lparr>core_next_handle := Suc (core_next_handle c)\<rparr>, w))"
  by (simp add: new_pair_def Let_def)

lemma run_load_key [simp]:
  "load_grant_public_key demo_js key w = (Ok (PublicKey 2), w)"
  by (simp add: load_grant_public_key_def op_bind_def js_future_def demo_js_def settled_def op_lift_def
      public_key_from_js_def)

lemma run_session [simp]:
  assumes "quiet (c, w)"
  shows "run quiet (validate_grant_session demo_platform session ''demo.app'') (c, w) =
      Some (Ok (demo_info, demo_exported), (c, w))"
  using assms
  by (simp add: validate_grant_session_def Let_def demo_sdk_def demo_info_def demo_capabilities_def)
    (simp add: demo_env_def)

lemma run_restore_outcome:
  assumes "quiet (c, w)" and "bs_auth_epoch (core_state c) = e"
  shows "run quiet (restore_outcome demo_platform pubky (party_id alice) ''demo.app'' e) (c, w) =
      Some (Ok (\<lparr>idr_identity = party_id alice, idr_homeserver = party_id bob, idr_grant_id = ''g'',
        idr_grant_expires_at = 120\<rparr>, 4, ''k''), (c, w))"
proof -
  have load: "load_identity demo_js (party_id alice) v = (Ok demo_stored, v)" for v
    by (simp add: load_identity_def op_bind_def js_future_def demo_js_def settled_def op_lift_def
        de_ser_identity_to_store)
  have parsed: "Option.bind (json_from_str demo_env (si_restore demo_stored)) de_restore_state = Some demo_restore"
    by (simp add: demo_stored_def de_ser_restore_state)
  have fields: "rs_version demo_restore = 1" "rs_key_id demo_restore = ''k''"
    "rs_homeserver demo_restore = party_id bob" "rs_grant_jws demo_restore = grant_jws (demo_grant alice)"
    "rs_client_pk demo_restore = demo_z32 (PublicKey 2)" "si_key_id demo_stored = ''k''"
    "si_homeserver demo_stored = party_id bob" "si_grant_id demo_stored = ''g''"
    "si_grant_expires_at demo_stored = 120"
    by (simp_all add: demo_restore_def demo_stored_def)
  have sdk: "sdk_restore_session demo_sdk pubky d signer v = (Ok 4, v)" for d signer v
    by (simp add: demo_sdk_def)
  have info: "gs_pubky demo_info = PublicKey 1" "gs_homeserver demo_info = PublicKey 5"
    "grant_id_as_str demo_env (gs_grant_id demo_info) = ''g''" "gs_grant_expires_at demo_info = 120"
    by (simp_all add: demo_info_def) (simp add: demo_env_def)
  have bob: "canonical_public_key demo_env (party_id bob) = Ok (PublicKey 5)"
    by (simp add: party_bob del: demo_z32.simps)
  show ?thesis
    using assms
    by (simp add: restore_outcome_def Let_def load parsed fields sdk info bob del: demo_z32.simps)
      (simp add: party_alice party_bob del: demo_z32.simps)
qed


definition restored_core :: "nat browser_core" where
  "restored_core = browser_core_new\<lparr>core_next_handle := 1,
     core_state := browser_state_default\<lparr>bs_auth_epoch := 1, bs_pubky := Some 2, bs_session := Some 4,
       bs_key_id := Some ''k'', bs_identity := Some (party_id alice), bs_client_id := Some ''demo.app'',
       bs_sequence_store := Some \<lparr>bq_account = party_id alice\<rparr>\<rparr>\<rparr>"

lemma run_restore_identity:
  "\<exists>v. run quiet (restore_identity demo_platform (party_id alice) ''demo.app'' None) (browser_core_new, ()) =
     Some (Ok v, (restored_core, ()))"
proof -
  define c :: "nat browser_core" where "c = browser_core_new\<lparr>core_next_handle := 1,
    core_state := browser_state_default\<lparr>bs_auth_busy := True, bs_auth_epoch := 1, bs_auth_abort := Some 0\<rparr>\<rparr>"
  have "run quiet (abortable (is_aborted 0) (restore_outcome demo_platform 2 (party_id alice) ''demo.app'' 1)) (c, ()) =
      Some (Some (Ok (\<lparr>idr_identity = party_id alice, idr_homeserver = party_id bob, idr_grant_id = ''g'',
        idr_grant_expires_at = 120\<rparr>, 4, ''k'')), (c, ()))"
    by (rule run_abortable [OF _ run_restore_outcome])
      (auto simp: quiet_def is_aborted_def c_def browser_core_new_def)
  moreover have "build_http_client demo_sdk None = Ok 1" "sdk_with_client demo_sdk 1 = 2"
    by (simp_all add: build_http_client_def demo_sdk_def)
  ultimately show ?thesis
    by (simp add: restore_identity_def Let_def restore_claim_def auth_idle_def browser_core_new_def
        browser_state_default_def c_def enter_session_def end_auth_def restored_core_def to_js_def demo_js_def)
qed

section \<open>Going online\<close>

definition demo_device :: v1_device_credential where
  "demo_device = the_ok (issue demo_env (control_pair alice) (iroh_pair alice) (demo_grant alice)
     (party_id alice) (cnf_key alice) ''phone'' 40 120)"

lemma demo_device_issue:
  "issue demo_env (control_pair alice) (iroh_pair alice) (demo_grant alice) (party_id alice) (cnf_key alice)
     ''phone'' 40 120 = Ok demo_device"
  "cc_expires_at (c_claims (cr_certificate demo_device)) = 120"
  "cr_identity demo_device = party_id alice"
proof -
  have dev: "validate_device_id ''phone'' = Ok ()"
  proof -
    have "str_chars ''phone'' = map of_char ''phone''" by (rule str_chars_ascii) (simp add: is_ascii_def)
    then show ?thesis
      by (simp add: validate_device_id_def MAX_DEVICE_ID_BYTES_def is_control_def is_whitespace_def)
  qed
  have window: "validate_bounded_window 40 120 40 V1_MAX_DEVICE_CERTIFICATE_LIFETIME_SECONDS
      ''v1 certificate lifetime'' = Ok ()"
    by (simp add: validate_bounded_window_Ok_iff saturating_add_def MAX_CLOCK_SKEW_SECONDS_def
        V1_MAX_DEVICE_CERTIFICATE_LIFETIME_SECONDS_def MAX_CERTIFICATE_LIFETIME_SECONDS_def)
  have grant: "g_iat (into_claims (demo_wire alice)) \<le> 40" "120 \<le> g_exp (into_claims (demo_wire alice))"
    "kp_public_key demo_env (cnf_key alice) = g_cnf (into_claims (demo_wire alice))"
    "key_pairs_independent demo_env (into_claims (demo_wire alice)) (control_pair alice) (iroh_pair alice)"
    by (auto simp: into_claims_def demo_wire_def key_pairs_independent_def alice_def demo_env_def)
  have exact: "exact_time 40" "exact_time 120" by (simp_all add: exact_time_def)
  obtain c where "issue demo_env (control_pair alice) (iroh_pair alice) (demo_grant alice) (party_id alice)
        (cnf_key alice) ''phone'' 40 120 = Ok c" "cc_expires_at (c_claims (cr_certificate c)) = 120"
      "cr_identity c = party_id alice"
    by (rule issue_complete [OF demo_b64_law demo_sha256_law demo_signature_codec_law
          demo_signing_law demo_z32_law demo_keypair_law demo_jcs_total_law
          demo_grant_at dev window grant(1,2) exact grant(3,4)])
  then show "issue demo_env (control_pair alice) (iroh_pair alice) (demo_grant alice) (party_id alice)
      (cnf_key alice) ''phone'' 40 120 = Ok demo_device"
    "cc_expires_at (c_claims (cr_certificate demo_device)) = 120" "cr_identity demo_device = party_id alice"
    by (simp_all add: demo_device_def)
qed

lemma demo_sign_certificate [simp]:
  "sign_certificate demo_js key b w = (Ok (signature_to_bytes demo_env (kp_sign demo_env (cnf_key alice) m)), w)"
  by (simp add: sign_certificate_def op_bind_def js_future_def demo_js_def settled_def op_guard_def op_return_def
      alice_def Let_def) (simp add: demo_env_def)

lemma run_issue_device:
  assumes "quiet (c, w)"
  shows "run quiet (issue_device demo_platform 4 ''k'' (party_id alice) ''phone'' 40) (c, w) =
    Some (Ok demo_device, (c, w))"
proof -
  obtain draft b where draft: "prepare demo_env (control_pair alice) (iroh_pair alice) (demo_grant alice)
      (party_id alice) ''phone'' 40 120 = Ok draft"
    and b: "certificate_signing_bytes demo_env draft = Ok b"
    and final: "finalize demo_env draft (signature_to_bytes demo_env (kp_sign demo_env (cnf_key alice) b)) =
      Ok demo_device"
    using demo_device_issue(1) by (auto simp: issue_def ok_iff if_Err_Ok_iff)
  have expiry: "checked_add 40 DEVICE_LIFETIME_SECONDS = Some (21640 :: u64)"
    "min 21640 (g_exp (into_claims (demo_wire alice))) = (120 :: u64)"
    by (simp_all add: checked_add_def DEVICE_LIFETIME_SECONDS_def into_claims_def demo_wire_def min_def)
  have sdk: "sdk_as_grant demo_sdk 4 = Some 5" "sdk_export_restore demo_sdk 5 v = (Some demo_exported, v)" for v
    by (simp_all add: demo_sdk_def)
  have key: "run quiet (check_grant_key demo_platform demo_exported ''k'') (c, v) = Some (Ok (), (c, v))" for v
    using assms by (simp add: check_grant_key_def demo_exported_def)
  have jws: "dg_grant_jws demo_exported = grant_jws (demo_grant alice)" by (simp add: demo_exported_def)
  have later: "40 < g_exp (into_claims (demo_wire alice))" by (simp add: into_claims_def demo_wire_def)
  show ?thesis
    using assms
    by (simp add: issue_device_def Let_def sdk key jws later demo_grant_at expiry draft b
        demo_sign_certificate [where m = b] final del: demo_sign_certificate)
qed

lemma run_prepare_device:
  "\<exists>v. run quiet (prepare_device demo_platform ''phone'') (restored_core, ()) =
     Some (Ok v, (restored_core\<lparr>core_state := set_device demo_device (core_state restored_core)\<rparr>, ()))"
proof -
  have q: "quiet (restored_core, w)" for w
    by (simp add: quiet_def restored_core_def browser_core_new_def)
  have stored: "prepare_device_read (core_state restored_core) =
      (Ok (4, ''k'', party_id alice, False, False), core_state restored_core)"
    by (simp add: prepare_device_read_def restored_core_def browser_state_default_def)
  have js: "load_device_state demo_js identity w = (Ok None, w)"
    "save_new_device_state demo_js identity key encoded w = (Ok (), w)" for identity key encoded w
    by (simp_all add: load_device_state_def save_new_device_state_def op_bind_def js_future_def demo_js_def
        settled_def op_return_def)
  have enc: "json_to_string demo_env (ser_credential demo_env demo_device) =
      Some (of_bytes (enc (ser_credential demo_env demo_device)))"
    by (rule demo_json_text)
  have result: "device_result demo_platform demo_device = Ok (ser_device_result demo_device)"
    by (simp add: device_result_def to_js_def demo_js_def)
  show ?thesis
    by (simp add: prepare_device_def Let_def stored q js prepare_new_device_def enc result run_issue_device)
qed

definition demo_online_client :: "nat browser_client" where
  "demo_online_client = \<lparr>bc_handle = 7, bc_credential = demo_device\<rparr>"

definition online_core :: "nat browser_core" where
  "online_core = restored_core\<lparr>core_next_handle := 2, core_epochs := 1,
     core_state := (set_device demo_device (core_state restored_core))\<lparr>bs_epoch := 1,
       bs_current_record := Some (demo_record alice), bs_client := Some demo_online_client,
       bs_renewal_abort := Some 1\<rparr>\<rparr>"

definition online_tasks :: "nat spawn list" where
  "online_tasks = [IncomingLoop demo_online_client 1,
     RenewalLoop demo_online_client 4 \<lparr>bq_account = party_id alice\<rparr> False 1 1]"

lemma demo_publish_record:
  "publish_v1_device_record demo_env (still 40) demo_pubky (demo_record alice) False w = (Ok (), w)"
proof -
  have "pk_z32 demo_env (pa_session_public_key demo_pubky) = party_id alice"
    by (simp add: demo_pubky_def party_id_def del: demo_z32.simps)
  moreover have "json_to_vec demo_env (ser_record demo_env (demo_record alice)) =
      Some (enc (ser_record demo_env (demo_record alice)))"
    by (simp add: demo_env_def)
  moreover have "length (enc (ser_record demo_env (demo_record alice))) \<le> V1_MAX_DEVICE_RECORD_BYTES"
    using demo_record_size [of alice] by (simp add: V1_MAX_DEVICE_RECORD_BYTES_def)
  ultimately show ?thesis
    by (simp add: publish_v1_device_record_def op_bind_def op_protocol_def op_lift_def op_guard_def
        discovery_op_def demo_record_at demo_record_path demo_pubky_def)
qed

lemma run_publish_setup:
  assumes "quiet (c, w)"
  shows "run quiet (publish_setup demo_platform demo_device pubky session sequences relays False) (c, w) =
    Some (Ok (demo_online_client, demo_record alice), (c, w))"
proof -
  have net: "ca_bind demo_net demo_device resolver config v = (Ok demo_online_client, v)"
    "ca_next_record demo_net demo_online_client next lifetime v = (Ok (demo_record alice), v)"
    "sdk_pubky_api demo_sdk pk ss = demo_pubky" for resolver config v "next" lifetime pk ss
    by (simp_all add: demo_net_def demo_online_client_def demo_sdk_def)
  have "bounded_locator_lifetime demo_device 40 = Ok (from_secs 79)"
    by (simp add: bounded_locator_lifetime_def demo_device_issue saturating_sub_def LOCATOR_LIFETIME_def
        word_le_nat_alt)
  moreover have "bc_credential demo_online_client = demo_device" by (simp add: demo_online_client_def)
  ultimately show ?thesis
    using assms
    by (simp add: publish_setup_def net next_client_record_def publish_record_def demo_publish_record)
qed

lemma run_go_online:
  "\<exists>v. run quiet (publish_and_go_online demo_platform ''phone'' (Some [''https://relay.example/'']) False)
     (restored_core, ()) = Some (Ok v, (online_core\<lparr>core_spawned := online_tasks\<rparr>, ()))"
proof -
  obtain v where prepared: "run quiet (prepare_device demo_platform ''phone'') (restored_core, w) =
      Some (Ok v, (restored_core\<lparr>core_state := set_device demo_device (core_state restored_core)\<rparr>, w))" for w
    using run_prepare_device by auto
  have relays: "validate_iroh_relays demo_env [''https://relay.example/''] False = Ok [Url ''https://relay.example/'']"
    by (simp add: validate_iroh_relays_def MAX_IROH_RELAYS_def MAX_AUTH_RELAY_BYTES_def valid_relay_scheme_def)
      (simp add: demo_env_def)
  show ?thesis
    by (simp add: publish_and_go_online_def prepared relays run_publish_setup)
      (simp add: publish_claim_def restored_core_def browser_state_default_def browser_core_new_def
        set_device_def Let_def next_epoch_def run_publish_setup quiet_iff publish_store_def spawn_local_def
        online_core_def online_tasks_def to_js_def demo_js_def)
qed

section \<open>A peer and its message\<close>

definition peer_core :: "nat browser_core" where
  "peer_core = online_core\<lparr>core_events := [verified_event (party_id bob) ''phone''],
     core_state := (core_state online_core)\<lparr>bs_peers := [(party_id bob, demo_peer)]\<rparr>\<rparr>"

lemma run_request_peer:
  "\<exists>v. run quiet (request_peer demo_platform (party_id bob)) (online_core, ()) =
     Some (Ok v, (peer_core\<lparr>core_spawned := [ReceiveLoop demo_peer (party_id bob) 1]\<rparr>, ()))"
  using party_id_distinct
  by (simp add: request_peer_def activate_peer_def request_claim_def online_core_def restored_core_def
      browser_state_default_def browser_core_new_def set_device_def browser_limits hm_contains_def quiet_iff
      demo_net_def demo_peer_def dial_done_def activate_store_def emit_def spawn_local_def Let_def
      peer_core_def to_js_def demo_js_def)

definition demo_core :: "nat browser_core" where
  "demo_core = peer_core\<lparr>core_events := [verified_event (party_id bob) ''phone'',
     message_event (party_id bob) [104, 105] (JNum 0)]\<rparr>"

lemma run_receive:
  "run quiet (task_of demo_platform (ReceiveLoop demo_peer (party_id bob) 1)) (peer_core, ()) =
     Some ((), (demo_core\<lparr>core_spawned := [ReceiveLoop demo_peer (party_id bob) 1]\<rparr>, ()))"
proof -
  have q: "quiet (peer_core, w)" "quiet (peer_core\<lparr>core_events := es\<rparr>, w)" for w es
    by (simp_all add: quiet_iff peer_core_def online_core_def restored_core_def browser_core_new_def)
  have "chat_message_ok [104, 105]"
    by (simp add: chat_message_ok_def browser_limits from_utf8_ok_def)
  then show ?thesis
    using q
    by (simp add: receive_round_def demo_net_def emit_message_def emit_def demo_js_def spawn_local_def Let_def
        demo_core_def) (simp add: peer_core_def online_core_def restored_core_def browser_core_new_def)
qed

lemmas demo_core_unfold = demo_core_def peer_core_def online_core_def restored_core_def
  browser_core_new_def browser_state_default_def set_device_def

section \<open>The run\<close>

lemma quiet_drain: "quiet s \<Longrightarrow> drain_spawned demo_platform s = ([], s)"
  by (cases s) (simp add: quiet_iff drain_spawned_def)

lemma no_spawned [simp]:
  "core_spawned restored_core = []" "core_spawned online_core = []" "core_spawned peer_core = []"
  "core_spawned demo_core = []"
  by (simp_all add: demo_core_def peer_core_def online_core_def restored_core_def browser_core_new_def)

lemma demo_call:
  assumes "browser_reachable demo_platform ((c, ()), ts)"
    and "run quiet m (c, ()) = Some (r, (c'\<lparr>core_spawned := tasks\<rparr>, ()))" and "core_spawned c' = []"
    and "method_of demo_platform call = answering m"
  shows "browser_reachable demo_platform
    ((c', ()), ts @ [Ready (Some r)] @ map (\<lambda>t. Pending (silent (task_of demo_platform t))) tasks)"
  unfolding browser_reachable_def
proof -
  have run: "run quiet (answering m) (c, ()) = Some (Some r, (c'\<lparr>core_spawned := tasks\<rparr>, ()))"
    using assms(2) by (simp add: answering_def)
  have drain: "drain_spawned demo_platform (c'\<lparr>core_spawned := tasks\<rparr>, ()) =
      (map (\<lambda>t. silent (task_of demo_platform t)) tasks, (c', ()))"
    using assms(3) by (cases c') (simp add: drain_spawned_def)
  have "sys_reachable (\<lambda>m. \<exists>call. m = method_of demo_platform call) (drain_spawned demo_platform)
      (\<lambda>(c, w). c = browser_core_new)
      ((c', ()), ts @ [Ready (Some r)] @ map Pending (map (\<lambda>t. silent (task_of demo_platform t)) tasks))"
    by (rule reachable_call [OF quiet_drain assms(1) [unfolded browser_reachable_def] _ run drain])
      (auto simp: assms(4) [symmetric])
  then show "sys_reachable (\<lambda>m. \<exists>call. m = method_of demo_platform call) (drain_spawned demo_platform)
      (\<lambda>(c, w). c = browser_core_new)
      ((c', ()), ts @ [Ready (Some r)] @ map (\<lambda>t. Pending (silent (task_of demo_platform t))) tasks)"
    by (simp add: comp_def)
qed

lemma demo_core_reachable: "\<exists>ts. browser_reachable demo_platform ((demo_core, ()), ts)"
proof -
  have "browser_reachable demo_platform ((browser_core_new, ()), [])"
    unfolding browser_reachable_def by (rule sys_start) simp
  moreover obtain v1 where "run quiet (restore_identity demo_platform (party_id alice) ''demo.app'' None)
      (browser_core_new, ()) = Some (Ok v1, (restored_core\<lparr>core_spawned := []\<rparr>, ()))"
    using run_restore_identity by (auto simp: restored_core_def browser_core_new_def)
  ultimately have "\<exists>ts. browser_reachable demo_platform ((restored_core, ()), ts)"
    using demo_call [where call = "RestoreIdentity (party_id alice) ''demo.app'' None"] by fastforce
  moreover obtain v2 where "run quiet (publish_and_go_online demo_platform ''phone''
      (Some [''https://relay.example/'']) False) (restored_core, ()) =
      Some (Ok v2, (online_core\<lparr>core_spawned := online_tasks\<rparr>, ()))"
    using run_go_online by auto
  ultimately have "\<exists>ts. browser_reachable demo_platform ((online_core, ()), ts)"
    using demo_call [where call = "PublishAndGoOnline ''phone'' (Some [''https://relay.example/'']) False"]
    by fastforce
  then obtain ts where ts: "browser_reachable demo_platform ((online_core, ()), ts)" ..
  obtain v3 where "run quiet (request_peer demo_platform (party_id bob)) (online_core, ()) =
      Some (Ok v3, (peer_core\<lparr>core_spawned := [ReceiveLoop demo_peer (party_id bob) 1]\<rparr>, ()))"
    using run_request_peer by auto
  from demo_call [OF ts this, of "RequestPeer (party_id bob)"]
  have ts': "browser_reachable demo_platform ((peer_core, ()), (ts @ [Ready (Some (Ok v3))]) @
      [Pending (silent (task_of demo_platform (ReceiveLoop demo_peer (party_id bob) 1)))])"
    by (simp del: task_of.simps)
  define loop :: "(nat, unit, json browser_result option) task" where "loop = silent (task_of demo_platform (ReceiveLoop demo_peer (party_id bob) 1))"
  have run: "run quiet loop (peer_core, ()) =
      Some (None, (demo_core\<lparr>core_spawned := [ReceiveLoop demo_peer (party_id bob) 1]\<rparr>, ()))"
    using run_receive by (simp add: silent_def loop_def del: task_of.simps)
  have drain: "drain_spawned demo_platform (demo_core\<lparr>core_spawned := [ReceiveLoop demo_peer (party_id bob) 1]\<rparr>, ()) =
      ([loop], (demo_core, ()))"
    by (cases demo_core) (use no_spawned(4) in \<open>simp add: drain_spawned_def loop_def del: task_of.simps\<close>)
  from reachable_run [OF quiet_drain ts' [unfolded browser_reachable_def loop_def [symmetric]] _ _ run drain,
      of "Suc (length ts)"]
  show ?thesis unfolding browser_reachable_def by (auto simp: nth_append)
qed

end
