(* ===== verification/Browser_Properties.thy ===== *)
theory Browser_Properties
  imports Browser_Contract Browser_Outcomes Browser_Demo
begin

text \<open>
  The properties of the browser core: its invariants under every interleaving of its tasks, what
  an open session and a device credential are based on, and the errors and numbers of its store.
\<close>

section \<open>Any interleaving\<close>

text \<open>
  C6: Authentication excludes every other use of the session. At most one authentication or removal
  is in progress; while a session is open, no authentication is in progress and no request for
  approval is pending; a pending request belongs to the current attempt, and no authentication or
  removal runs beside it. What is kept of a session is set and cleared together. No session is
  overwritten: in one step of the core, whichever task it resumes, an open session stays as it is
  or is removed as a whole. (A removal may run while the session of an offline core is open.)
\<close>

theorem browser_auth_exclusive:
  assumes "browser_reachable B ((c, w), ts)"
  shows "let s = core_state c in
    \<not> (bs_auth_busy s \<and> bs_identity_busy s) \<and>
    (bs_session s \<noteq> None \<longrightarrow> \<not> bs_auth_busy s \<and> bs_pending_auth s = None) \<and>
    (\<forall>pending. bs_pending_auth s = Some pending \<longrightarrow>
       \<not> bs_auth_busy s \<and> \<not> bs_identity_busy s \<and> au_epoch pending = bs_auth_epoch s) \<and>
    (bs_session s = None \<longleftrightarrow> bs_identity s = None) \<and> (bs_session s = None \<longleftrightarrow> bs_pubky s = None) \<and>
    (bs_session s = None \<longleftrightarrow> bs_key_id s = None) \<and> (bs_session s = None \<longleftrightarrow> bs_client_id s = None) \<and>
    (bs_session s = None \<longleftrightarrow> bs_sequence_store s = None) \<and>
    (\<forall>c' w' ts'. bs_session s \<noteq> None \<and> browser_step B ((c, w), ts) ((c', w'), ts') \<longrightarrow>
       (bs_session (core_state c'), bs_identity (core_state c'), bs_pubky (core_state c'),
        bs_key_id (core_state c'), bs_client_id (core_state c'), bs_sequence_store (core_state c'))
       \<in> {(bs_session s, bs_identity s, bs_pubky s, bs_key_id s, bs_client_id s, bs_sequence_store s),
          (None, None, None, None, None, None)})"
proof -
  define s where "s = core_state c"
  obtain gs where "auth_inv gs s"
    using browser_reachable_inv [OF assms] by (auto simp: browser_inv_def s_def)
  then have apart: "\<not> (bs_auth_busy s \<and> bs_identity_busy s)"
    and busy: "bs_auth_busy s \<longrightarrow> bs_session s = None \<and> bs_pending_auth s = None"
    and pending: "\<forall>pending. bs_pending_auth s = Some pending \<longrightarrow>
      au_epoch pending = bs_auth_epoch s \<and> bs_session s = None \<and> \<not> bs_identity_busy s"
    and parts: "bs_session s = None \<longleftrightarrow> bs_identity s = None" "bs_session s = None \<longleftrightarrow> bs_pubky s = None"
      "bs_session s = None \<longleftrightarrow> bs_key_id s = None" "bs_session s = None \<longleftrightarrow> bs_client_id s = None"
      "bs_session s = None \<longleftrightarrow> bs_sequence_store s = None"
    unfolding auth_inv_def by - (elim conjE, assumption)+
  have "bs_session s \<noteq> None \<longrightarrow> \<not> bs_auth_busy s \<and> bs_pending_auth s = None"
    using busy pending by (cases "bs_pending_auth s") auto
  moreover have "\<forall>pending. bs_pending_auth s = Some pending \<longrightarrow>
      \<not> bs_auth_busy s \<and> \<not> bs_identity_busy s \<and> au_epoch pending = bs_auth_epoch s"
    using busy pending by auto
  moreover have "\<forall>c' w' ts'. bs_session s \<noteq> None \<and> browser_step B ((c, w), ts) ((c', w'), ts') \<longrightarrow>
      session_parts (core_state c') \<in> {session_parts s, (None, None, None, None, None, None)}"
    using browser_step_session [OF assms] unfolding s_def by blast
  ultimately show ?thesis
    unfolding s_def [symmetric] session_parts_def Let_def using apart parts by (intro conjI)
qed

theorem browser_auth_exclusive_witness:
  "bs_session (core_state demo_core) = Some 4 \<and> \<not> bs_auth_busy (core_state demo_core) \<and>
   bs_pending_auth (core_state demo_core) = None \<and> bs_key_id (core_state demo_core) \<noteq> None \<and>
   (\<exists>ts ts'. browser_step demo_platform ((demo_core, ()), ts) ((demo_core, ()), ts') \<and> length ts < length ts')"
proof -
  obtain ts where ts: "browser_reachable demo_platform ((demo_core, ()), ts)"
    using demo_core_reachable by blast
  have session: "bs_session (core_state demo_core) = Some 4" by (simp add: demo_core_unfold)
  have "browser_step demo_platform ((demo_core, ()), ts)
      ((demo_core, ()), ts @ [Pending (method_of demo_platform (RestoreIdentity (party_id bob) ''demo.app'' None))])"
    unfolding browser_step_def by (rule sys_call) blast
  then have "\<exists>ts ts'. browser_step demo_platform ((demo_core, ()), ts) ((demo_core, ()), ts') \<and> length ts < length ts'"
    by (intro exI conjI) (assumption, simp)
  then show ?thesis using session browser_auth_exclusive [OF ts] unfolding Let_def by auto
qed

text \<open>
  C13: A core that is online or going online has a session, an online core is not going online
  again and has a published record, and an offline core keeps no peer, request, dial or record
  (for fewer than \<open>2 ^ 64\<close> changes of the network state).
\<close>

theorem browser_network_consistent:
  assumes "browser_reachable B ((c, w), ts)" and "core_epochs c < 2 ^ 64"
  shows "let s = core_state c in
    bs_epoch s = of_nat (core_epochs c) \<and>
    (bs_client s \<noteq> None \<or> bs_going_online s \<longrightarrow> bs_session s \<noteq> None \<and> bs_identity s \<noteq> None) \<and>
    (bs_client s \<noteq> None \<longrightarrow> \<not> bs_going_online s \<and> bs_current_record s \<noteq> None) \<and>
    (bs_client s = None \<longrightarrow>
       bs_peers s = [] \<and> bs_pending_inbound s = [] \<and> bs_dialing s = [] \<and> bs_current_record s = None)"
proof -
  obtain gs where inv: "auth_inv gs (core_state c)" "net_inv gs c"
    using browser_reachable_inv [OF assms(1)] by (auto simp: browser_inv_def)
  then have "bs_session (core_state c) = None \<longleftrightarrow> bs_identity (core_state c) = None"
    unfolding auth_inv_def by blast
  moreover have "epochs_inv gs c" "offline_clean (core_state c)"
    using inv(2) assms(2) by (auto simp: net_inv_def)
  ultimately show ?thesis
    unfolding epochs_inv_def offline_clean_def Let_def by (simp split: if_splits)
qed

theorem browser_network_consistent_witness:
  "core_epochs demo_core < 2 ^ 64 \<and> bs_client (core_state demo_core) = Some demo_online_client \<and>
   bs_session (core_state demo_core) \<noteq> None \<and> bs_current_record (core_state demo_core) \<noteq> None \<and>
   \<not> bs_going_online (core_state demo_core)"
proof -
  have "core_epochs demo_core < 2 ^ 64" "bs_client (core_state demo_core) = Some demo_online_client"
    by (simp_all add: demo_core_unfold)
  then show ?thesis
    using demo_core_reachable browser_network_consistent [where B = demo_platform and c = demo_core and w = "()"]
    unfolding Let_def by auto
qed

text \<open>
  C22: The tables of the core are bounded: at most 16 peers, 16 dials and 16 inbound requests, at
  most 2 requests of one identity, and no name twice.
\<close>

theorem browser_tables_bounded:
  assumes "browser_reachable B ((c, w), ts)"
  shows "let s = core_state c in
    length (bs_peers s) \<le> 16 \<and> distinct (map fst (bs_peers s)) \<and>
    length (bs_dialing s) \<le> 16 \<and> distinct (bs_dialing s) \<and>
    length (bs_pending_inbound s) \<le> 16 \<and> distinct (map fst (bs_pending_inbound s)) \<and>
    length (filter (\<lambda>pending. bi_identity pending = identity) (map snd (bs_pending_inbound s))) \<le> 2"
  using browser_reachable_inv [OF assms]
  by (auto simp: browser_inv_def tables_inv_def pending_of_def browser_limits Let_def)

theorem browser_tables_bounded_witness:
  "bs_peers (core_state demo_core) = [(party_id bob, demo_peer)] \<and>
   length (bs_peers (core_state demo_core)) \<le> 16 \<and> length (bs_dialing (core_state demo_core)) \<le> 16"
proof -
  have "bs_peers (core_state demo_core) = [(party_id bob, demo_peer)]" by (simp add: demo_core_unfold)
  then show ?thesis
    using demo_core_reachable browser_tables_bounded [where B = demo_platform and c = demo_core and w = "()"]
    unfolding Let_def by blast
qed

text \<open>
  C9: Every message event that JavaScript gets carries 1 to 4096 bytes of valid UTF-8 and comes
  from a peer that an earlier event announced as verified.
\<close>

theorem browser_messages_verified:
  assumes "browser_reachable B ((c, w), ts)"
    and "core_events c = earlier @ message_event peer_id b received_at # later"
  shows "0 < length b \<and> length b \<le> 4096 \<and> from_utf8_ok b \<and>
    (\<exists>device. verified_event peer_id device \<in> set earlier)"
proof -
  obtain gs where "log_inv gs c"
    using browser_reachable_inv [OF assms(1)] by (auto simp: browser_inv_def)
  then have "chat_message_ok b \<and> announced peer_id earlier"
    unfolding log_inv_def assms(2) log_ok_append by auto
  then show ?thesis by (simp add: chat_message_ok_def announced_def MAX_CHAT_BYTES_def)
qed

theorem browser_messages_verified_witness:
  "core_events demo_core = [verified_event (party_id bob) ''phone''] @
     message_event (party_id bob) [104, 105] (JNum 0) # [] \<and>
   from_utf8_ok [104, 105] \<and>
   (\<exists>device. verified_event (party_id bob) device \<in> set [verified_event (party_id bob) ''phone''])"
proof -
  have events: "core_events demo_core = [verified_event (party_id bob) ''phone''] @
      message_event (party_id bob) [104, 105] (JNum 0) # []"
    by (simp add: demo_core_def)
  then show ?thesis
    using demo_core_reachable browser_messages_verified [OF _ events, where B = demo_platform and w = "()"]
    by blast
qed

section \<open>Authentication\<close>

text \<open>
  C7: Every open session is authentic. Whatever the store, the SDK and the other tasks of the core
  did, in every reachable state with an open session either the approval of a request answered this
  session (\<open>approval_admitted\<close>), or it was restored from a stored identity whose record passed every
  check against tampering, with exactly the stored key, homeserver, Grant and expiry
  (\<open>restore_admitted\<close>). In both cases the session is that of the identity the core shows, with exactly
  the required capability and for the client the core shows, and the Grant it rests on verified for
  that identity, its client key being the one this browser holds under the key id the core shows.
\<close>

theorem sign_in_authentic:
  assumes "browser_reachable B ((c, w), ts)" and "bs_session (core_state c) = Some session"
  shows "let s = core_state c; E = pf_env B; S = pf_sdk B in
    \<exists>identity pubky key_id client_id.
      bs_identity s = Some identity \<and> bs_pubky s = Some pubky \<and> bs_key_id s = Some key_id \<and>
      bs_client_id s = Some client_id \<and> bs_sequence_store s = Some \<lparr>bq_account = identity\<rparr> \<and>
      identity = pk_z32 E (sdk_session_public_key S session) \<and>
      map (capability_to_string E) (sdk_session_capabilities S session) = [REQUIRED_CAPABILITY] \<and>
      (\<exists>(delegated :: delegated_grant_credential_state) now claims.
         dg_key_id delegated = key_id \<and> key_held B key_id (dg_client_pk delegated) \<and>
         from_jws E (dg_grant_jws delegated) identity now = Ok claims) \<and>
      ((\<exists>pending result. pubky = au_pubky pending \<and> key_id = au_key_id pending \<and>
          client_id = au_client_id pending \<and> approval_admitted B pending result session identity) \<or>
       (\<exists>result. restore_admitted B pubky identity client_id result session key_id))"
proof -
  obtain gs where "session_inv (entitled B) (core_state c)"
    using browser_reachable_inv [OF assms(1)] by (auto simp: browser_inv_def)
  then obtain identity pubky key_id client_id where parts: "bs_identity (core_state c) = Some identity"
    "bs_pubky (core_state c) = Some pubky" "bs_key_id (core_state c) = Some key_id"
    "bs_client_id (core_state c) = Some client_id" "bs_sequence_store (core_state c) = Some \<lparr>bq_account = identity\<rparr>"
    and entitled: "entitled B pubky session key_id identity client_id"
    using assms(2) by (auto simp: session_inv_def session_parts_def)
  show ?thesis
    using entitled_session [OF entitled] entitled_grant [OF entitled] entitled [unfolded entitled_def]
    unfolding Let_def parts by simp
qed

theorem sign_in_authentic_witness:
  "bs_session (core_state demo_core) = Some 4 \<and> bs_identity (core_state demo_core) = Some (party_id alice) \<and>
   pk_z32 (pf_env demo_platform) (sdk_session_public_key (pf_sdk demo_platform) 4) = party_id alice \<and>
   (\<exists>(delegated :: delegated_grant_credential_state) now claims. dg_key_id delegated = ''k'' \<and>
      key_held demo_platform ''k'' (dg_client_pk delegated) \<and>
      from_jws (pf_env demo_platform) (dg_grant_jws delegated) (party_id alice) now = Ok claims)"
proof -
  have "bs_session (core_state demo_core) = Some 4" "bs_identity (core_state demo_core) = Some (party_id alice)"
    "bs_key_id (core_state demo_core) = Some ''k''"
    by (simp_all add: demo_core_unfold)
  then show ?thesis
    using demo_core_reachable sign_in_authentic [where B = demo_platform and c = demo_core and w = "()"]
    unfolding Let_def by fastforce
qed

section \<open>Device credentials\<close>

text \<open>
  C16: A device credential that is issued verifies at once, names the identity and the device, is
  issued now, and lives exactly until six hours have passed or its Grant ends, whichever is first.
  What becomes of a stored credential follows exactly these rules. It is usable if it verifies now
  for this device, its publisher sequence is present, and it outlives a full locator lifetime and
  the handshake timeout (915 seconds). It expired safely if it is past its expiry and verified at
  some time before. It is used precisely if it is usable; it is replaced precisely if the network
  is inactive and it verifies without being usable or expired safely; in these cases an active
  network gives \<open>identity-active\<close>; and precisely one that neither verifies nor expired safely gives
  \<open>device-state-invalid\<close>. A locator may live its full 15 minutes precisely if the credential outlives
  them, which a usable one does.
\<close>

theorem device_credentials_valid:
  fixes stored :: v1_device_credential
  shows "yields (on_ok (\<lambda>device.
       let certificate = c_claims (cr_certificate device) in
       credential_verify (pf_env B) device now = Ok () \<and>
       cr_identity device = identity \<and> cr_device_id device = device_id \<and>
       cc_issued_at certificate = now \<and> now < cc_expires_at certificate \<and>
       (\<exists>claims. grant_verify (pf_env B) (cr_authorization device) identity now = Ok claims \<and>
          unat (cc_expires_at certificate) = min (unat now + 21600) (unat (g_exp claims)))))
     (issue_device B session key_id identity device_id now) \<and>
   (let decision = stored_device_decision E stored device_id present active now;
        expires = cc_expires_at (c_claims (cr_certificate stored));
        valid = is_ok (credential_verify E stored now);
        usable = (valid \<and> present \<and> cr_device_id stored = device_id \<and> unat now + 915 < unat expires);
        expired = (expires \<le> now \<and> (\<exists>before. is_ok (credential_verify E stored before)))
    in (decision = Ok UseDevice \<longleftrightarrow> usable) \<and>
       (\<forall>old. decision = Ok (ReplaceDevice old) \<longleftrightarrow>
          \<not> active \<and> old = cr_control_signing_key stored \<and> (valid \<and> \<not> usable \<or> expired)) \<and>
       (\<forall>code. decision = Err code \<longleftrightarrow>
          code = ''device-state-invalid'' \<and> \<not> valid \<and> \<not> expired \<or>
          code = ''identity-active'' \<and> active \<and> (valid \<and> \<not> usable \<or> expired)) \<and>
       (bounded_locator_lifetime stored now = Ok LOCATOR_LIFETIME \<longleftrightarrow> unat now + 900 < unat expires))"
  unfolding Let_def
proof (intro conjI allI)
  show "yields (on_ok (\<lambda>device. credential_verify (pf_env B) device now = Ok () \<and>
       cr_identity device = identity \<and> cr_device_id device = device_id \<and>
       cc_issued_at (c_claims (cr_certificate device)) = now \<and>
       now < cc_expires_at (c_claims (cr_certificate device)) \<and>
       (\<exists>claims. grant_verify (pf_env B) (cr_authorization device) identity now = Ok claims \<and>
          unat (cc_expires_at (c_claims (cr_certificate device))) = min (unat now + 21600) (unat (g_exp claims)))))
     (issue_device B session key_id identity device_id now)"
    using issue_device_yields [of B identity device_id now session key_id]
    by (simp add: issued_at_now_def [abs_def] Let_def DEVICE_LIFETIME_SECONDS_def)
qed (simp_all only: stored_device_decision_exact bounded_locator_lifetime_full)

theorem device_credentials_valid_witness:
  "stored_device_decision demo_env (demo_credential alice) ''phone'' True False 30 =
     Ok (ReplaceDevice (cr_control_signing_key (demo_credential alice))) \<and>
   stored_device_decision demo_env (demo_credential alice) ''phone'' True False 200 =
     Ok (ReplaceDevice (cr_control_signing_key (demo_credential alice))) \<and>
   stored_device_decision demo_env (demo_credential alice) ''phone'' True True 200 = Err ''identity-active''"
proof -
  let ?c = "demo_credential alice"
  note issued = demo_issue [OF alice_bob_ok(1)]
  have expires: "cc_expires_at (c_claims (cr_certificate ?c)) = 110" by (rule issued(5))
  have at_20: "is_ok (credential_verify demo_env ?c 20)" using issued(2) by simp
  have at_30: "is_ok (credential_verify demo_env ?c 30)"
    using credential.check_later [OF issued(2), of 30] expires by simp
  note exact = device_credentials_valid [where B = demo_platform and session = 4 and identity = "party_id alice"
      and key_id = "''k''" and E = demo_env and stored = ?c and device_id = "''phone''" and present = True,
      unfolded Let_def expires]
  have expired: "(110 :: u64) \<le> 200 \<and> (\<exists>before. is_ok (credential_verify demo_env ?c before))"
    using at_20 by (intro conjI exI) simp_all
  have soon: "\<not> unat (30 :: u64) + 915 < unat (110 :: u64)" by simp
  note replaced = exact [THEN conjunct2, THEN conjunct2, THEN conjunct1, THEN spec, THEN iffD2]
    and refused = exact [THEN conjunct2, THEN conjunct2, THEN conjunct2, THEN conjunct1, THEN spec, THEN iffD2]
  show ?thesis
  proof (intro conjI)
    show "stored_device_decision demo_env ?c ''phone'' True False 30 = Ok (ReplaceDevice (cr_control_signing_key ?c))"
      by (rule replaced) (use at_30 soon in blast)
    show "stored_device_decision demo_env ?c ''phone'' True False 200 = Ok (ReplaceDevice (cr_control_signing_key ?c))"
      by (rule replaced) (use expired in blast)
    show "stored_device_decision demo_env ?c ''phone'' True True 200 = Err ''identity-active''"
      by (rule refused) (use expired in blast)
  qed
qed

section \<open>The store\<close>

text \<open>
  C31: Whatever JavaScript value a storage call is rejected with, the error that leaves the core is
  one of the fixed codes: no text of the store's gets out.
\<close>

theorem browser_store_errors_fixed:
  "fails_fixed (ensure_grant_key J key) \<and> fails_fixed (load_grant_public_key J key_id) \<and>
   fails_fixed (sign_certificate J key_id b) \<and> fails_fixed (delete_grant_key J key_id) \<and>
   fails_fixed (save_identity J stored) \<and> fails_fixed (list_identities J) \<and>
   fails_fixed (load_identity J identity) \<and> fails_fixed (remove_identity J identity) \<and>
   fails_fixed (save_new_device_state J identity control text) \<and>
   fails_fixed (replace_device_state J identity old control text) \<and>
   fails_fixed (load_device_state J identity) \<and>
   fails_fixed (has_publisher_sequence J account identity control)"
  by (intro conjI fails_fixed_store)

text \<open>
  The counters of the browser's sequence store are exact: allocation returns \<open>n\<close> precisely when
  the store answered the JavaScript number \<open>n\<close> and \<open>n\<close> is between 1 and \<open>2 ^ 53 - 1\<close>, and a batch
  with a larger counter is refused before the store sees it.
\<close>

theorem browser_counters_exact:
  "(fst (browser_next_locator_sequence J store identity control w) = Ok n \<longleftrightarrow>
      (\<exists>value. fst (js_next_publisher_sequence J (bq_account store) identity control w) = Ok value \<and>
         1 \<le> unat n \<and> unat n < 2 ^ 53 \<and> js_as_f64 J value = Some (Finite (of_nat (unat n))))) \<and>
   ((\<exists>ob \<in> set batch. 2 ^ 53 \<le> unat (o_counter ob)) \<longleftrightarrow>
      browser_record_batch E J store batch w =
        (Err (State ''browser sequence exceeds the exact JavaScript integer range''), w))"
  by (rule conjI [OF next_locator_sequence_exact record_batch_range])

end
