(* ===== verification/Spec2Isabelle.thy ===== *)
theory Spec2Isabelle
  imports Protocol_Properties Store_Properties Client_Properties
    Accept_Properties Notify_Properties Browser_Properties
begin

text \<open>
  Verification of pubky2pubky: mutually authenticated peer connections between devices of Pubky
  identities, over iroh (QUIC and relays), with device records published on homeservers.

  \<^bold>\<open>The program.\<close> The crate \<open>protocol\<close> (\<open>src/crates/protocol/src\<close>) defines the signed objects. An
  identity signs a Pubky Grant for a client key; with this key the client certifies a device, that
  is a control key and an iroh key; the control key signs a locator (a publisher sequence, a
  validity window and the relays); Grant, certificate and locator together are the device record
  that the homeserver serves. To connect, the initiator sends a Hello that binds both records and
  the application, the responder answers with an Ack, and both publish a short-lived currentness
  proof on their homeserver and check the proof of the other. The crate \<open>client\<close>
  (\<open>src/crates/client/src\<close>) runs this: \<open>sequence.rs\<close> keeps the greatest accepted sequence per
  publisher so that no record is rolled back, \<open>v1_discovery.rs\<close> lists, fetches, publishes and
  deletes records and proofs, \<open>v1_peer.rs\<close> owns the endpoint, dials, authenticates what comes in,
  and queues it for consent, \<open>peer.rs\<close> frames messages on an authenticated stream. The crate
  \<open>browser-wasm\<close> (\<open>src/crates/browser-wasm/src\<close>) gives JavaScript one object, \<open>BrowserCore\<close>: it signs
  an identity in through the Pubky SDK, keeps its keys and device credential in the browser's store,
  goes online as a relay-only client, and passes events and messages on.

  \<^bold>\<open>The theories, in the order of the code.\<close>
  \<^item> P2P\_Prelude: Rust's \<open>Result\<close> and its combinators (the error paths are branches that return
    \<open>Err\<close>), integers as words of their width or as naturals with the bound written out, the
    collections of rewrite rules (\<open>ok_iff\<close> characterizes when an operation returns \<open>Ok\<close>).
  \<^item> Rust\_Str: the operations of \<open>str\<close>, \<open>char\<close>, \<open>IpAddr\<close> and the integer parser that the code calls.
  \<^item> Json: JSON values, and the serializers and deserializers that \<open>serde\<close> derives (field order,
    unknown fields, duplicate fields, missing fields).
  \<^item> Env: what lies outside the repository, the record \<open>env\<close> and the laws about it (see below).
  \<^item> Protocol\_Base: \<open>error.rs\<close>, \<open>signing.rs\<close>, the constants and validation helpers of \<open>v1.rs\<close>,
    and the locale \<open>expiring\<close>: what a check against the clock accepts is accepted from its
    issue until its expiry and never again.
  \<^item> Grant, Device, Device\_Record, Handshake, Currentness: the signed objects of \<open>v1.rs\<close> in the
    order of the file, each with its claims, signing, validation, decoding and verification.
  \<^item> Sequence, Sequence\_Store, Sequence\_File: \<open>sequence.rs\<close>. Sequence has the ordered map and its
    pure operations; Sequence\_Store the contract of a store (locale \<open>sequence_store\<close>) and the
    memory store; Sequence\_File the file store with its directory, lock file, temporary file and
    rename. Every I/O call of the file store may fail, and a failing write may leave any prefix.
    Sequence\_Refinement: without failures it behaves as the memory store.
  \<^item> Client\_Op: an \<open>async\<close> function is a function from a world to a result and a world, with the
    bind of \<open>?\<close> and the combinators the code uses (clock, timeout).
  \<^item> Peer\_Stream: the length-prefixed frames and JSON control messages of \<open>peer.rs\<close> and
    \<open>v1_peer.rs\<close>, and the operations of \<open>Peer\<close>.
  \<^item> Replay\_Cache (locale \<open>replay_guard\<close>) and Pending\_Queue (locale \<open>accounted_queue\<close>): the two
    tables of the client.
  \<^item> Pending\_Notify: the waiting of \<open>PendingQueue::next\<close>: a call creates a future of tokio's \<open>Notify\<close>,
    looks at the queue under its lock and polls the future, and an operation that changed the queue
    notifies after it released the lock; other tasks run in between.
  \<^item> Discovery (locale \<open>device_resolver\<close>), Static\_Resolver, Record\_Commit: \<open>v1_discovery.rs\<close>, the
    resolver of a homeserver and the one in memory, and the commit of a record into a sequence store
    beside which the clock and the rest of the world change at will.
  \<^item> Client\_Config: \<open>V1ClientConfig\<close>, its validation and the policy of relays.
  \<^item> Exchange: the mutual exchange of proofs, and accepting, rejecting and dropping a queued Hello.
  \<^item> Client: the endpoint, the local records, dialing and inbound authentication.
  \<^item> Client\_Safety and Client\_Machine: what these operations establish, and the client as a step
    relation (one step is one operation of a task, or a change of the world) with its invariant.
  \<^item> Accept\_Loop: the accept task that \<open>bind\<close> spawns, with the handshake task of every connection
    (\<open>handle_incoming_v1\<close> from one await to the next), the owners of the semaphore's permits and
    \<open>AbortTask\<close>, as a step relation around the client that refines Client\_Machine. An abort ends the
    accept task where it is suspended; one that is being polled goes on, and may still start
    handshakes, until its next await that is not ready. Accept\_Safety: the bound on permits, and that
    every permit can become free.
  \<^item> Demo\_Env, Demo, Client\_Demo: a concrete environment that has every law assumed below, two
    devices in it that issue records and handshake, and a complete run of the client. The
    theorems with hypotheses are applied there.

  \<^item> Async\_Tasks: cooperatively scheduled \<open>async\<close> functions as suspended computations, the system
    of tasks that share a state, and the contract by which an invariant is proved task by task
    (locale \<open>task_protocol\<close>). Async\_Outcomes: what a function returns, whatever runs in between, and
    what one step of a system keeps.
  \<^item> Browser\_Store: \<open>error.rs\<close> and \<open>browser_store.rs\<close> of the browser crate. Browser\_State,
    Browser\_Auth, Browser\_Network: its \<open>lib.rs\<close>, that is the state and the checks, authentication and
    the device credential, and the network. Every block that borrows the state is a definition on
    the record \<open>browser_state\<close>, every method composes such blocks with the calls it awaits, and a
    background loop is one round that spawns itself again.
  \<^item> Browser\_Outcomes: what the methods return when they succeed; \<open>approval_admitted\<close> and
    \<open>restore_admitted\<close> list all that signing in and restoring check. Browser\_Protocol: which task may
    change what (roles and moves; a session is entered only by a task entitled to it), and that every
    method and task follows it. Browser\_Safety and Browser\_Contract: the invariants over the moves,
    the interpretation of \<open>task_protocol\<close>, and what a step makes of an open session. Browser\_Demo: a run that restores an identity, goes online, connects and receives a message.

  \<^bold>\<open>The theorems\<close> are in Protocol\_Properties (the trust chain, what each signed object binds, that
  what a valid device signs is accepted for exactly its lifetime, round trips, injectivity up to
  collisions of SHA-256, windows of validity), Store\_Properties (no rollback in any history of
  either store, atomic updates, the file store refines the memory store, what a batch and an
  allocation answer) and Client\_Properties (whom a client talks to after \<open>dial\<close> and \<open>accept\<close>, a
  Hello is admitted once, bounded tables in every reachable state, the queue is a bounded FIFO that
  drops nothing unnoticed, messages arrive as sent, and what configuration and discovery accept),
  Accept\_Properties (the bound on what unauthenticated callers occupy, the refinement of the client,
  and that permits become free again),
  Notify\_Properties (a caller of \<open>next\<close> that is alone misses no wake-up; two concurrent ones can)
  and Browser\_Properties (for every interleaving of the tasks of a core: one authentication at a
  time and no session overwritten, what every open session was admitted by, online only with a
  session, bounded tables, messages only from peers announced as verified; when a device credential
  is used, replaced or refused; fixed error codes and exact counters).

  \<^bold>\<open>What is assumed of other code.\<close> Theory Env names each law, and a theorem lists those it uses: base64
  decodes what it encodes, in the URL-safe alphabet (\<open>b64_law\<close>, \<open>b64_alphabet_law\<close>); SHA-256 has 32
  bytes (\<open>sha256_law\<close>); a signature made by a key verifies under its public key and the text of a
  key parses back; JSON text parses to the value it was written from and canonical JSON is
  injective. Unforgeability is never assumed: the theorems conclude that a signature verified.
  A collision of SHA-256 is a disjunct of a conclusion, not excluded by a hypothesis. Canonical JSON
  writes numbers as doubles, so it is taken to be injective only for numbers up to \<open>2 ^ 53\<close>; theorems
  that need it say so (\<open>exact_hello\<close>, \<open>exact_numbers\<close>), since a publisher's sequence may be larger. QUIC streams
  deliver a prefix of what was written, in order. tokio's \<open>Notify\<close> behaves as documented
  (\<open>notify_law\<close>, in terms of its stored permit and of the futures created, waiting and notified). The clock is an operation of the world and may
  answer anything. A timed operation returns its own answer, or stops with the timeout error at a
  world the timeout chose. Of the browser, the functions of \<open>js/browser_store.js\<close>, the Pubky SDK and
  the client crate are records of operations (\<open>js_api\<close>, \<open>sdk_api\<close>, \<open>client_api\<close>) that may answer
  anything; no law about them is assumed.

  \<^bold>\<open>Bounds and termination.\<close> All operations are total HOL functions: loops are structural recursion
  over the input, and the loop of the consent queue that skips expired entries (\<open>pq_pop\<close>) ends because
  the queue gets shorter. No fuel is used. An await of the browser core is modelled as a point where
  other tasks run before and after the effect of what is awaited; how long it stays pending is not
  modelled, and nothing is claimed about it. The core counts its network epochs modulo \<open>2 ^ 64\<close>; the model also keeps
  the exact count (\<open>core_epochs\<close>, which no code reads), and one theorem is about the first \<open>2 ^ 64\<close>
  epochs. Byte counts and sequences keep their 64-bit width where the
  code computes with them; limits are the constants of the code.

  \<^bold>\<open>Not modelled.\<close> In the machine of the client one round of \<open>next_incoming\<close> takes what is there; its
  waiting is the subject of Pending\_Notify. The expiry task of a queued Hello is a step that may fire
  at any time. \<open>Debug\<close> implementations, which only redact.
  Of the browser crate: the JavaScript of \<open>js/browser_store.js\<close>, the conversion of values by
  wasm-bindgen, zeroizing, and the callback itself, which may call back into the core: every event
  is a point where other tasks may run. The examples, scripts and web code are clients of the crates and no part of them.
\<close>

end
